(* ===== verification/SW_Prelude.thy ===== *)
theory SW_Prelude
  imports Complex_Main "HOL-Library.List_Lexorder" "HOL-Library.Char_ord"
begin

text \<open>
  Generic material the component theories share: Go errors and fallible results, stateful
  fallible operations with a weakest-precondition calculus, lists used as database tables,
  and the few string functions of Go's standard library the sources call.
\<close>

named_theorems wp_simps \<open>weakest preconditions of the operation combinators\<close>
named_theorems tbl_simps \<open>lookups after table updates\<close>

section \<open>Errors and results\<close>

text \<open>
  A Go error is a message (errors.New, fmt.Errorf without a wrapped error), a message that
  wraps another error (fmt.Errorf with the final verb w, always written as a prefix, a colon
  and a space), or one of the sentinel values the code compares with errors.Is.
\<close>

datatype go_error =
    ErrNew string
  | ErrWrap string go_error
  | CtxCanceled
  | CtxDeadlineExceeded
  | IoEOF
  | ErrPanic string

fun err_text :: "go_error \<Rightarrow> string" where
  "err_text (ErrNew s) = s"
| "err_text (ErrWrap p e) = p @ '': '' @ err_text e"
| "err_text CtxCanceled = ''context canceled''"
| "err_text CtxDeadlineExceeded = ''context deadline exceeded''"
| "err_text IoEOF = ''EOF''"
| "err_text (ErrPanic m) = m"

fun err_is :: "go_error \<Rightarrow> go_error \<Rightarrow> bool" where
  "err_is (ErrWrap p e) t = (ErrWrap p e = t \<or> err_is e t)"
| "err_is e t = (e = t)"

type_synonym 'a result = "go_error + 'a"

fun is_ok :: "'a result \<Rightarrow> bool" where
  "is_ok (Inl e) = False"
| "is_ok (Inr x) = True"

lemma is_ok_iff: "is_ok r \<longleftrightarrow> (\<exists>x. r = Inr x)"
  by (cases r) auto

definition res_bind :: "'a result \<Rightarrow> ('a \<Rightarrow> 'b result) \<Rightarrow> 'b result" where
  "res_bind r f = (case r of Inl e \<Rightarrow> Inl e | Inr x \<Rightarrow> f x)"

definition res_wrap :: "string \<Rightarrow> 'a result \<Rightarrow> 'a result" where
  "res_wrap p r = (case r of Inl e \<Rightarrow> Inl (ErrWrap p e) | Inr x \<Rightarrow> Inr x)"

lemma res_bind_simps [simp]:
  "res_bind (Inl e) f = Inl e"
  "res_bind (Inr x) f = f x"
  by (simp_all add: res_bind_def)

lemma res_wrap_simps [simp]:
  "res_wrap p (Inl e) = Inl (ErrWrap p e)"
  "res_wrap p (Inr x) = Inr x"
  by (simp_all add: res_wrap_def)

lemma res_bind_Inr_iff: "res_bind r f = Inr y \<longleftrightarrow> (\<exists>x. r = Inr x \<and> f x = Inr y)"
  by (cases r) auto

lemma res_wrap_Inr_iff [simp]: "res_wrap p r = Inr y \<longleftrightarrow> r = Inr y"
  by (cases r) auto

text \<open>A loop that appends the successes and returns at the first error.\<close>

fun res_list :: "'a result list \<Rightarrow> 'a list result" where
  "res_list [] = Inr []"
| "res_list (r # rs) = res_bind r (\<lambda>x. res_bind (res_list rs) (\<lambda>xs. Inr (x # xs)))"

lemma res_list_all_ok: "(\<And>x. x \<in> set xs \<Longrightarrow> f x = Inr (g x)) \<Longrightarrow> res_list (map f xs) = Inr (map g xs)"
  by (induction xs) auto

section \<open>Stateful fallible operations\<close>

text \<open>
  A method that may mutate the state it is called on and returns an error or a value:
  \<open>op_bind\<close> is the sequence ``call, return the error if there is one, go on with the
  value''; \<open>op_wrap\<close> is the return of a wrapped error.
\<close>

type_synonym ('s, 'a) op = "'s \<Rightarrow> 'a result \<times> 's"

definition op_return :: "'a \<Rightarrow> ('s, 'a) op" where
  "op_return x s = (Inr x, s)"

definition op_fail :: "go_error \<Rightarrow> ('s, 'a) op" where
  "op_fail e s = (Inl e, s)"

definition op_bind :: "('s, 'a) op \<Rightarrow> ('a \<Rightarrow> ('s, 'b) op) \<Rightarrow> ('s, 'b) op" where
  "op_bind m f s = (case m s of (Inl e, s') \<Rightarrow> (Inl e, s') | (Inr x, s') \<Rightarrow> f x s')"

definition op_wrap :: "string \<Rightarrow> ('s, 'a) op \<Rightarrow> ('s, 'a) op" where
  "op_wrap p m s = (case m s of (r, s') \<Rightarrow> (res_wrap p r, s'))"

text \<open>An operation whose error is logged (or dropped) and whose caller goes on.\<close>

definition op_logged :: "('s, unit) op \<Rightarrow> ('s, unit) op" where
  "op_logged m s = (Inr (), snd (m s))"

fun op_for :: "('a \<Rightarrow> ('s, unit) op) \<Rightarrow> 'a list \<Rightarrow> ('s, unit) op" where
  "op_for f [] = op_return ()"
| "op_for f (x # xs) = op_bind (f x) (\<lambda>_. op_for f xs)"

lemma op_return_run [simp]: "op_return x s = (Inr x, s)"
  by (simp add: op_return_def)

lemma op_fail_run [simp]: "op_fail e s = (Inl e, s)"
  by (simp add: op_fail_def)

lemma op_wrap_run: "m s = (r, s') \<Longrightarrow> op_wrap p m s = (res_wrap p r, s')"
  by (simp add: op_wrap_def)

lemma op_bind_Inl: "m s = (Inl e, s') \<Longrightarrow> op_bind m f s = (Inl e, s')"
  by (simp add: op_bind_def)

lemma op_bind_Inr: "m s = (Inr x, s') \<Longrightarrow> op_bind m f s = f x s'"
  by (simp add: op_bind_def)

lemma op_logged_run: "m s = (r, s') \<Longrightarrow> op_logged m s = (Inr (), s')"
  by (simp add: op_logged_def)

lemmas op_runs = op_wrap_run op_bind_Inl op_bind_Inr op_logged_run

subsection \<open>Weakest preconditions\<close>

text \<open>\<open>op_wp m Q s\<close>: running \<open>m\<close> in \<open>s\<close> ends in a result and a state that satisfy \<open>Q\<close>.\<close>

definition op_wp :: "('s, 'a) op \<Rightarrow> ('a result \<Rightarrow> 's \<Rightarrow> bool) \<Rightarrow> 's \<Rightarrow> bool" where
  "op_wp m Q s \<longleftrightarrow> (case m s of (r, s') \<Rightarrow> Q r s')"

lemma op_wpD: "op_wp m Q s \<Longrightarrow> m s = (r, s') \<Longrightarrow> Q r s'"
  by (simp add: op_wp_def)

lemma op_wpI: "(\<And>r s'. m s = (r, s') \<Longrightarrow> Q r s') \<Longrightarrow> op_wp m Q s"
  by (simp add: op_wp_def split: prod.splits)

lemma op_wp_mono: "op_wp m Q s \<Longrightarrow> (\<And>r s'. Q r s' \<Longrightarrow> R r s') \<Longrightarrow> op_wp m R s"
  by (auto simp: op_wp_def split: prod.splits)

lemma op_wp_conj: "op_wp m (\<lambda>r s'. Q r s' \<and> R r s') s \<longleftrightarrow> op_wp m Q s \<and> op_wp m R s"
  by (auto simp: op_wp_def split: prod.splits)

lemmas op_wp_conjI = op_wp_conj [THEN iffD2, OF conjI]

lemma op_wp_return [wp_simps]: "op_wp (op_return x) Q s \<longleftrightarrow> Q (Inr x) s"
  by (simp add: op_wp_def)

lemma op_wp_fail [wp_simps]: "op_wp (op_fail e) Q s \<longleftrightarrow> Q (Inl e) s"
  by (simp add: op_wp_def)

lemma op_wp_pair [wp_simps]: "op_wp (Pair r) Q s \<longleftrightarrow> Q r s"
  by (simp add: op_wp_def)

lemma op_wp_bind [wp_simps]:
  "op_wp (op_bind m f) Q s \<longleftrightarrow>
     op_wp m (\<lambda>r s'. case r of Inl e \<Rightarrow> Q (Inl e) s' | Inr x \<Rightarrow> op_wp (f x) Q s') s"
  by (auto simp: op_wp_def op_bind_def split: prod.splits sum.splits)

lemma op_wp_wrap [wp_simps]: "op_wp (op_wrap p m) Q s \<longleftrightarrow> op_wp m (\<lambda>r s'. Q (res_wrap p r) s') s"
  by (auto simp: op_wp_def op_wrap_def split: prod.splits)

lemma op_wp_logged [wp_simps]: "op_wp (op_logged m) Q s \<longleftrightarrow> op_wp m (\<lambda>r s'. Q (Inr ()) s') s"
  by (auto simp: op_wp_def op_logged_def split: prod.splits)

lemma op_wp_if [wp_simps]:
  "op_wp (if b then m else m') Q s \<longleftrightarrow> (if b then op_wp m Q s else op_wp m' Q s)"
  by simp

lemma op_wp_Let [wp_simps]: "op_wp (let x = a in f x) Q s \<longleftrightarrow> op_wp (f a) Q s"
  by simp

lemma op_wp_for:
  assumes "I s"
    and "\<And>x s. x \<in> set xs \<Longrightarrow> I s \<Longrightarrow> op_wp (f x) (\<lambda>r s'. r = Inr () \<and> I s') s"
  shows "op_wp (op_for f xs) (\<lambda>r s'. r = Inr () \<and> I s') s"
  using assms
proof (induction xs arbitrary: s)
  case Nil
  then show ?case by (simp add: op_wp_def)
next
  case (Cons x xs)
  have first: "op_wp (f x) (\<lambda>r s'. r = Inr () \<and> I s') s"
    using Cons.prems by simp
  have rest: "op_wp (op_for f xs) (\<lambda>r s'. r = Inr () \<and> I s') s'" if "I s'" for s'
    using that by (rule Cons.IH) (simp add: Cons.prems(2))
  show ?case
    unfolding op_for.simps op_wp_bind
    by (rule op_wp_mono [OF first]) (simp add: rest)
qed

section \<open>Lists as tables\<close>

text \<open>
  A database table is the list of its rows in insertion order. \<open>tbl_upsert\<close> is INSERT with
  ON CONFLICT DO UPDATE on the key, \<open>tbl_update\<close> is UPDATE with WHERE on a predicate.
\<close>

definition tbl_find :: "('r \<Rightarrow> 'k) \<Rightarrow> 'k \<Rightarrow> 'r list \<Rightarrow> 'r option" where
  "tbl_find key k rows = List.find (\<lambda>r. key r = k) rows"

definition tbl_update :: "('r \<Rightarrow> bool) \<Rightarrow> ('r \<Rightarrow> 'r) \<Rightarrow> 'r list \<Rightarrow> 'r list" where
  "tbl_update p f rows = map (\<lambda>r. if p r then f r else r) rows"

definition tbl_upsert :: "('r \<Rightarrow> 'k) \<Rightarrow> 'r \<Rightarrow> 'r list \<Rightarrow> 'r list" where
  "tbl_upsert key r rows =
     (if key r \<in> key ` set rows then map (\<lambda>x. if key x = key r then r else x) rows
      else rows @ [r])"

definition tbl_unique :: "('r \<Rightarrow> 'k) \<Rightarrow> 'r list \<Rightarrow> bool" where
  "tbl_unique key rows \<longleftrightarrow> distinct (map key rows)"

lemma tbl_find_Nil [simp]: "tbl_find key k [] = None"
  by (simp add: tbl_find_def)

lemma tbl_find_Cons [simp]:
  "tbl_find key k (r # rs) = (if key r = k then Some r else tbl_find key k rs)"
  by (simp add: tbl_find_def)

lemma tbl_find_append [simp]:
  "tbl_find key k (xs @ ys) = (case tbl_find key k xs of None \<Rightarrow> tbl_find key k ys | Some r \<Rightarrow> Some r)"
  by (induction xs) auto

lemma tbl_find_SomeD: "tbl_find key k rows = Some r \<Longrightarrow> r \<in> set rows \<and> key r = k"
  by (induction rows) (auto split: if_splits)

lemma tbl_find_None_iff: "tbl_find key k rows = None \<longleftrightarrow> k \<notin> key ` set rows"
  by (induction rows) auto

lemma tbl_find_unique:
  "tbl_unique key rows \<Longrightarrow> r \<in> set rows \<Longrightarrow> tbl_find key (key r) rows = Some r"
  by (induction rows) (auto simp: tbl_unique_def)

lemma tbl_find_map_key:
  "(\<And>r. key (f r) = key r) \<Longrightarrow> tbl_find key k (map f rows) = map_option f (tbl_find key k rows)"
  by (induction rows) auto

lemma tbl_find_filter_key:
  "tbl_find key k (filter (\<lambda>r. p (key r)) rows) = (if p k then tbl_find key k rows else None)"
  by (induction rows) auto

lemma tbl_find_upsert [tbl_simps]:
  "tbl_find key k (tbl_upsert key r rows) = (if k = key r then Some r else tbl_find key k rows)"
proof (cases "key r \<in> key ` set rows")
  case True
  have "tbl_find key k (map (\<lambda>x. if key x = key r then r else x) rows) =
      (if k = key r \<and> k \<in> key ` set rows then Some r else tbl_find key k rows)"
    by (induction rows) auto
  with True show ?thesis by (auto simp: tbl_upsert_def)
next
  case False
  then have "tbl_find key (key r) rows = None"
    by (simp add: tbl_find_None_iff)
  with False show ?thesis
    by (auto simp: tbl_upsert_def split: option.splits)
qed

lemma tbl_find_update [tbl_simps]:
  assumes "\<And>r. key (f r) = key r"
  shows "tbl_find key k (tbl_update p f rows) =
     map_option (\<lambda>r. if p r then f r else r) (tbl_find key k rows)"
  unfolding tbl_update_def by (rule tbl_find_map_key) (simp add: assms)

lemma tbl_unique_upsert: "tbl_unique key rows \<Longrightarrow> tbl_unique key (tbl_upsert key r rows)"
proof -
  assume u: "tbl_unique key rows"
  have eq: "map key (map (\<lambda>x. if key x = key r then r else x) rows) = map key rows"
    by (induction rows) auto
  show ?thesis
    using u eq by (auto simp: tbl_unique_def tbl_upsert_def simp del: map_map)
qed

lemma tbl_unique_update:
  assumes "\<And>r. key (f r) = key r" and "tbl_unique key rows"
  shows "tbl_unique key (tbl_update p f rows)"
proof -
  have "map key (tbl_update p f rows) = map key rows"
    by (auto simp: tbl_update_def assms(1))
  with assms(2) show ?thesis by (simp add: tbl_unique_def)
qed

lemma tbl_unique_filter: "tbl_unique key rows \<Longrightarrow> tbl_unique key (filter p rows)"
  by (simp add: tbl_unique_def distinct_map_filter)

lemma tbl_unique_snoc:
  "tbl_unique key rows \<Longrightarrow> tbl_find key (key r) rows = None \<Longrightarrow> tbl_unique key (rows @ [r])"
  by (auto simp: tbl_unique_def tbl_find_None_iff)

lemma set_tbl_update: "set (tbl_update p f rows) = (\<lambda>r. if p r then f r else r) ` set rows"
  by (simp add: tbl_update_def)

lemma set_tbl_upsert_subset: "set (tbl_upsert key r rows) \<subseteq> insert r (set rows)"
  by (auto simp: tbl_upsert_def)

end
