(* ===== verification/Go_Base.thy ===== *)
theory Go_Base
  imports SW_Prelude
begin

text \<open>
  What the sources use of Go's language and standard library: time values and durations,
  float64 arithmetic, interface values, JSON trees, and byte strings.
\<close>

section \<open>Time\<close>

text \<open>
  A time.Time is its wall clock reading in nanoseconds since the Unix epoch; the zero Time is
  January 1 of year 1. A time.Duration is a number of nanoseconds in int64. Sub saturates.
\<close>

type_synonym time = int
type_synonym duration = int

definition zero_time :: time where
  "zero_time = - 62135596800000000000"

definition min_int64 :: int where "min_int64 = - (2 ^ 63)"

definition max_int64 :: int where "max_int64 = 2 ^ 63 - 1"

definition time_sub :: "time \<Rightarrow> time \<Rightarrow> duration" where
  "time_sub t u = (if t - u < min_int64 then min_int64
                   else if t - u > max_int64 then max_int64 else t - u)"

definition unix_milli :: "time \<Rightarrow> int" where
  "unix_milli t = t div 1000000"

definition of_unix_milli :: "int \<Rightarrow> time" where
  "of_unix_milli ms = ms * 1000000"

definition trunc_ms :: "time \<Rightarrow> time" where
  "trunc_ms t = of_unix_milli (unix_milli t)"

abbreviation millisecond :: duration where "millisecond \<equiv> 1000000"
abbreviation second :: duration where "second \<equiv> 1000000000"
abbreviation minute :: duration where "minute \<equiv> 60000000000"
abbreviation hour :: duration where "hour \<equiv> 3600000000000"

lemma time_sub_mono: "t \<le> t' \<Longrightarrow> time_sub t u \<le> time_sub t' u"
  by (auto simp: time_sub_def min_int64_def max_int64_def)

lemma time_sub_antimono: "u \<le> u' \<Longrightarrow> time_sub t u' \<le> time_sub t u"
  by (auto simp: time_sub_def min_int64_def max_int64_def)

lemma time_sub_exact:
  "min_int64 \<le> t - u \<Longrightarrow> t - u \<le> max_int64 \<Longrightarrow> time_sub t u = t - u"
  by (simp add: time_sub_def)

lemma time_sub_ge_pos: "0 < d \<Longrightarrow> d \<le> time_sub t u \<Longrightarrow> d \<le> t - u"
  by (auto simp: time_sub_def min_int64_def max_int64_def split: if_splits)

lemma time_sub_ge_nonneg: "0 \<le> d \<Longrightarrow> d \<le> time_sub t u \<Longrightarrow> d \<le> t - u"
  by (auto simp: time_sub_def min_int64_def max_int64_def split: if_splits)

lemma time_sub_ge_intro:
  "d \<le> max_int64 \<Longrightarrow> d \<le> t - u \<Longrightarrow> d \<le> time_sub t u"
  by (auto simp: time_sub_def min_int64_def max_int64_def)

lemma time_sub_self [simp]: "time_sub t t = 0"
  by (simp add: time_sub_def min_int64_def max_int64_def)

lemma unix_milli_of_unix_milli [simp]: "unix_milli (of_unix_milli ms) = ms"
  by (simp add: unix_milli_def of_unix_milli_def)

lemma trunc_ms_le: "trunc_ms t \<le> t"
proof -
  have "t div 1000000 * 1000000 + t mod 1000000 = t" by simp
  moreover have "0 \<le> t mod 1000000" by simp
  ultimately show ?thesis
    unfolding trunc_ms_def of_unix_milli_def unix_milli_def by linarith
qed

lemma trunc_ms_gt: "t - millisecond < trunc_ms t"
proof -
  have "t div 1000000 * 1000000 + t mod 1000000 = t" by simp
  moreover have "t mod 1000000 < 1000000" by simp
  ultimately show ?thesis
    unfolding trunc_ms_def of_unix_milli_def unix_milli_def by linarith
qed

lemma trunc_ms_idem [simp]: "trunc_ms (trunc_ms t) = trunc_ms t"
  by (simp add: trunc_ms_def)

lemma unix_milli_pos: "millisecond \<le> t \<Longrightarrow> 0 < unix_milli t"
  by (simp add: unix_milli_def pos_imp_zdiv_pos_iff)

lemma of_unix_milli_pos: "0 < ms \<Longrightarrow> 0 < of_unix_milli ms"
  by (simp add: of_unix_milli_def)

lemma zero_time_neg: "zero_time < 0"
  by (simp add: zero_time_def)

section \<open>float64\<close>

text \<open>
  A float64 is NaN, an infinity or a finite value, kept as the rational it denotes; the two
  zeros are one value (nothing the sources compute with tells them apart). Arithmetic rounds
  to the nearest representable value, ties to even, with overflow to the infinities and
  gradual underflow.
\<close>

datatype f64 = NaN | PInf | NInf | Fin rat

function int_bits :: "int \<Rightarrow> int" where
  "int_bits n = (if n \<le> 0 then 0 else 1 + int_bits (n div 2))"
  by pat_completeness auto
termination
  by (relation "measure nat") auto

declare int_bits.simps [simp del]

definition pow2 :: "int \<Rightarrow> rat" where
  "pow2 e = (if 0 \<le> e then 2 ^ nat e else 1 / 2 ^ nat (- e))"

definition flog2 :: "rat \<Rightarrow> int" where
  "flog2 q = (case quotient_of q of (n, d) \<Rightarrow>
     (let e = int_bits n - int_bits d
      in if pow2 e \<le> q then e else e - 1))"

definition round_half_even :: "rat \<Rightarrow> int" where
  "round_half_even q = (let f = \<lfloor>q\<rfloor>; r = q - of_int f in
     if r < 1 / 2 then f else if 1 / 2 < r then f + 1 else if even f then f else f + 1)"

definition round64 :: "rat \<Rightarrow> f64" where
  "round64 q = (if q = 0 then Fin 0
     else (let a = \<bar>q\<bar>; u = pow2 (max (flog2 a) (- 1022) - 52);
               v = of_int (round_half_even (a / u)) * u
           in if pow2 1024 \<le> v then (if 0 < q then PInf else NInf)
              else Fin (if 0 < q then v else - v)))"

definition f64_of_int :: "int \<Rightarrow> f64" where
  "f64_of_int n = round64 (of_int n)"

fun f_less :: "f64 \<Rightarrow> f64 \<Rightarrow> bool" where
  "f_less NaN b = False"
| "f_less a NaN = False"
| "f_less PInf b = False"
| "f_less a NInf = False"
| "f_less NInf b = True"
| "f_less a PInf = True"
| "f_less (Fin x) (Fin y) = (x < y)"

fun f_eq :: "f64 \<Rightarrow> f64 \<Rightarrow> bool" where
  "f_eq NaN b = False"
| "f_eq a b = (a = b)"

definition f_leq :: "f64 \<Rightarrow> f64 \<Rightarrow> bool" where
  "f_leq a b \<longleftrightarrow> f_less a b \<or> f_eq a b"

fun f_add :: "f64 \<Rightarrow> f64 \<Rightarrow> f64" where
  "f_add NaN b = NaN"
| "f_add a NaN = NaN"
| "f_add PInf NInf = NaN"
| "f_add NInf PInf = NaN"
| "f_add PInf b = PInf"
| "f_add NInf b = NInf"
| "f_add a PInf = PInf"
| "f_add a NInf = NInf"
| "f_add (Fin x) (Fin y) = round64 (x + y)"

text \<open>Multiplication and division by a positive finite value (a unit, a sample count).\<close>

fun f_scale :: "f64 \<Rightarrow> rat \<Rightarrow> f64" where
  "f_scale NaN c = NaN"
| "f_scale PInf c = PInf"
| "f_scale NInf c = NInf"
| "f_scale (Fin x) c = round64 (x * c)"

fun f_div_pos :: "f64 \<Rightarrow> f64 \<Rightarrow> f64" where
  "f_div_pos (Fin x) (Fin c) = round64 (x / c)"
| "f_div_pos PInf (Fin c) = PInf"
| "f_div_pos NInf (Fin c) = NInf"
| "f_div_pos a b = NaN"

text \<open>
  Conversion to an int64 type: towards zero when the result fits; otherwise the language
  leaves the value to the implementation, here the argument \<open>oob\<close>.
\<close>

definition rat_trunc :: "rat \<Rightarrow> int" where
  "rat_trunc q = (if 0 \<le> q then \<lfloor>q\<rfloor> else - \<lfloor>- q\<rfloor>)"

fun f64_to_int64 :: "(f64 \<Rightarrow> int) \<Rightarrow> f64 \<Rightarrow> int" where
  "f64_to_int64 oob (Fin q) =
     (if min_int64 \<le> rat_trunc q \<and> rat_trunc q \<le> max_int64 then rat_trunc q else oob (Fin q))"
| "f64_to_int64 oob x = oob x"

lemma f_less_irrefl [simp]: "\<not> f_less a a"
  by (cases a) auto

lemma f_less_trans: "f_less a b \<Longrightarrow> f_less b c \<Longrightarrow> f_less a c"
  by (cases a; cases b; cases c) auto

lemma f_less_asym: "f_less a b \<Longrightarrow> \<not> f_less b a"
  by (cases a; cases b) auto

lemma f_less_linear: "a \<noteq> NaN \<Longrightarrow> b \<noteq> NaN \<Longrightarrow> f_less a b \<or> a = b \<or> f_less b a"
  by (cases a; cases b) auto

lemma not_f_less_trans:
  "b \<noteq> NaN \<Longrightarrow> \<not> f_less b a \<Longrightarrow> \<not> f_less c b \<Longrightarrow> \<not> f_less c a"
  by (cases a; cases b; cases c) auto

lemma round64_not_NaN [simp]: "round64 q \<noteq> NaN"
  by (simp add: round64_def Let_def)

section \<open>Interface values and records\<close>

text \<open>
  The dynamic values a field of type any can hold; a float32 is carried by the float64 with
  the same value. A map is the list of its entries, in the order of one iteration; a nil map
  is None.
\<close>

datatype gval =
    GNil
  | GBool bool
  | GFloat64 f64
  | GFloat32 f64
  | GInt int
  | GInt32 int
  | GInt64 int
  | GNumber string
  | GStr string
  | GList "gval list"
  | GMap "(string \<times> gval) list"

section \<open>JSON trees\<close>

text \<open>
  What encoding/json parses and prints, without the text: a number is the exact value of its
  literal, an object the list of its members in text order.
\<close>

datatype json =
    JNull
  | JBool bool
  | JNum rat
  | JStr string
  | JArr "json list"
  | JObj "(string \<times> json) list"

text \<open>
  Decoding into a Go value: null leaves the target as it is, a value of the wrong type is an
  error. Members of an object are decoded in their order; a member whose name matches no
  field, case folded, is the caller's business.
\<close>

definition json_type_error :: go_error where
  "json_type_error = ErrNew ''json: cannot unmarshal value into Go struct field''"

fun json_get_string :: "string \<Rightarrow> json \<Rightarrow> string result" where
  "json_get_string cur JNull = Inr cur"
| "json_get_string cur (JStr s) = Inr s"
| "json_get_string cur _ = Inl json_type_error"

fun json_get_float :: "f64 \<Rightarrow> json \<Rightarrow> f64 result" where
  "json_get_float cur JNull = Inr cur"
| "json_get_float cur (JNum q) =
     (case round64 q of Fin x \<Rightarrow> Inr (Fin x) | _ \<Rightarrow> Inl json_type_error)"
| "json_get_float cur _ = Inl json_type_error"

fun json_get_int :: "int \<Rightarrow> json \<Rightarrow> int result" where
  "json_get_int cur JNull = Inr cur"
| "json_get_int cur (JNum q) =
     (if q = of_int \<lfloor>q\<rfloor> \<and> min_int64 \<le> \<lfloor>q\<rfloor> \<and> \<lfloor>q\<rfloor> \<le> max_int64 then Inr \<lfloor>q\<rfloor>
      else Inl json_type_error)"
| "json_get_int cur _ = Inl json_type_error"

fun json_members :: "('a \<Rightarrow> string \<Rightarrow> json \<Rightarrow> 'a result) \<Rightarrow> 'a \<Rightarrow> (string \<times> json) list \<Rightarrow> 'a result" where
  "json_members f a [] = Inr a"
| "json_members f a ((k, v) # ms) = res_bind (f a k v) (\<lambda>a'. json_members f a' ms)"

definition json_struct :: "('a \<Rightarrow> string \<Rightarrow> json \<Rightarrow> 'a result) \<Rightarrow> 'a \<Rightarrow> json \<Rightarrow> 'a result" where
  "json_struct f a j =
     (case j of JObj ms \<Rightarrow> json_members f a ms | JNull \<Rightarrow> Inr a | _ \<Rightarrow> Inl json_type_error)"

definition res_map :: "('a \<Rightarrow> 'b) \<Rightarrow> 'a result \<Rightarrow> 'b result" where
  "res_map f r = res_bind r (\<lambda>x. Inr (f x))"

lemma res_map_simps [simp]: "res_map f (Inl e) = Inl e" "res_map f (Inr x) = Inr (f x)"
  by (simp_all add: res_map_def)

lemma json_get_int_of_int [simp]:
  "min_int64 \<le> n \<Longrightarrow> n \<le> max_int64 \<Longrightarrow> json_get_int cur (JNum (of_int n)) = Inr n"
  by simp

text \<open>Reading a list of strings that reports its errors.\<close>

definition json_get_strings :: "json \<Rightarrow> string list result" where
  "json_get_strings j =
     (case j of JNull \<Rightarrow> Inr [] | JArr js \<Rightarrow> res_list (map (json_get_string '''') js)
      | _ \<Rightarrow> Inl json_type_error)"

section \<open>Byte strings\<close>

text \<open>
  A Go string is a byte sequence; char is a byte. \<open>space_seqs\<close> are the UTF-8 encodings of
  the code points of unicode.IsSpace.
\<close>

definition space_seqs :: "string list" where
  "space_seqs =
     [[CHR 9], [CHR 10], [CHR 11], [CHR 12], [CHR 13], [CHR 32],
      [CHR 0xC2, CHR 0x85], [CHR 0xC2, CHR 0xA0], [CHR 0xE1, CHR 0x9A, CHR 0x80],
      [CHR 0xE2, CHR 0x80, CHR 0x80], [CHR 0xE2, CHR 0x80, CHR 0x81],
      [CHR 0xE2, CHR 0x80, CHR 0x82], [CHR 0xE2, CHR 0x80, CHR 0x83],
      [CHR 0xE2, CHR 0x80, CHR 0x84], [CHR 0xE2, CHR 0x80, CHR 0x85],
      [CHR 0xE2, CHR 0x80, CHR 0x86], [CHR 0xE2, CHR 0x80, CHR 0x87],
      [CHR 0xE2, CHR 0x80, CHR 0x88], [CHR 0xE2, CHR 0x80, CHR 0x89],
      [CHR 0xE2, CHR 0x80, CHR 0x8A], [CHR 0xE2, CHR 0x80, CHR 0xA8],
      [CHR 0xE2, CHR 0x80, CHR 0xA9], [CHR 0xE2, CHR 0x80, CHR 0xAF],
      [CHR 0xE2, CHR 0x81, CHR 0x9F], [CHR 0xE3, CHR 0x80, CHR 0x80]]"

fun has_prefix :: "string \<Rightarrow> string \<Rightarrow> bool" where
  "has_prefix s [] = True"
| "has_prefix [] (p # ps) = False"
| "has_prefix (c # s) (p # ps) = (c = p \<and> has_prefix s ps)"

lemma has_prefix_iff: "has_prefix s p \<longleftrightarrow> (\<exists>t. s = p @ t)"
  by (induction s p rule: has_prefix.induct) auto

lemma has_prefix_length: "has_prefix s p \<Longrightarrow> length p \<le> length s"
  by (auto simp: has_prefix_iff)

definition lead_space :: "string list \<Rightarrow> string \<Rightarrow> string option" where
  "lead_space seqs s = List.find (\<lambda>p. p \<noteq> [] \<and> has_prefix s p) seqs"

lemma lead_space_shorter: "lead_space seqs s = Some p \<Longrightarrow> length s - length p < length s"
proof -
  assume "lead_space seqs s = Some p"
  then have "p \<noteq> []" and "has_prefix s p"
    by (auto simp: lead_space_def find_Some_iff)
  then have "0 < length p" and "length p \<le> length s"
    by (auto dest: has_prefix_length)
  then show ?thesis by linarith
qed

function trim_left_seqs :: "string list \<Rightarrow> string \<Rightarrow> string" where
  "trim_left_seqs seqs s =
     (case lead_space seqs s of None \<Rightarrow> s | Some p \<Rightarrow> trim_left_seqs seqs (drop (length p) s))"
  by pat_completeness auto
termination
  by (relation "measure (\<lambda>(seqs, s). length s)")
    (auto simp: lead_space_shorter)

declare trim_left_seqs.simps [simp del]

definition trim_space :: "string \<Rightarrow> string" where
  "trim_space s =
     rev (trim_left_seqs (map rev space_seqs) (rev (trim_left_seqs space_seqs s)))"

text \<open>strings.Fields: the words between runs of white space.\<close>

function str_fields :: "string \<Rightarrow> string \<Rightarrow> string list" where
  "str_fields w [] = (if w = [] then [] else [w])"
| "str_fields w (c # s) =
     (case lead_space space_seqs (c # s) of
        None \<Rightarrow> str_fields (w @ [c]) s
      | Some p \<Rightarrow> (if w = [] then [] else [w]) @ str_fields [] (drop (length p) (c # s)))"
  by pat_completeness auto
termination
  by (relation "measure (\<lambda>(w, s). length s)") (auto dest: lead_space_shorter)

fun str_join :: "string \<Rightarrow> string list \<Rightarrow> string" where
  "str_join sep [] = []"
| "str_join sep [x] = x"
| "str_join sep (x # y # xs) = x @ sep @ str_join sep (y # xs)"

fun str_contains :: "string \<Rightarrow> string \<Rightarrow> bool" where
  "str_contains [] sub = (sub = [])"
| "str_contains (c # s) sub = (has_prefix (c # s) sub \<or> str_contains s sub)"

lemma str_contains_iff: "str_contains s sub \<longleftrightarrow> (\<exists>a b. s = a @ sub @ b)"
proof (induction s)
  case Nil
  then show ?case by auto
next
  case (Cons c s)
  show ?case
  proof
    assume "str_contains (c # s) sub"
    then consider t where "c # s = sub @ t" | a b where "s = a @ sub @ b"
      using Cons.IH by (auto simp: has_prefix_iff)
    then show "\<exists>a b. c # s = a @ sub @ b"
    proof cases
      case 1
      then have "c # s = [] @ sub @ t" by simp
      then show ?thesis by blast
    next
      case 2
      then have "c # s = (c # a) @ sub @ b" by simp
      then show ?thesis by blast
    qed
  next
    assume "\<exists>a b. c # s = a @ sub @ b"
    then obtain a b where ab: "c # s = a @ sub @ b" by blast
    show "str_contains (c # s) sub"
    proof (cases a)
      case Nil
      with ab have "has_prefix (c # s) sub" by (auto simp: has_prefix_iff)
      then show ?thesis by simp
    next
      case (Cons x xs)
      with ab Cons.IH show ?thesis by auto
    qed
  qed
qed

text \<open>Decimal digits, as \<open>%d\<close> and strconv.Itoa print them.\<close>

definition digit_char :: "nat \<Rightarrow> char" where
  "digit_char d = char_of (48 + d)"

fun show_nat :: "nat \<Rightarrow> string" where
  "show_nat n = (if n < 10 then [digit_char n] else show_nat (n div 10) @ [digit_char (n mod 10)])"

declare show_nat.simps [simp del]

definition show_int :: "int \<Rightarrow> string" where
  "show_int i = (if i < 0 then ''-'' @ show_nat (nat (- i)) else show_nat (nat i))"

definition show_bool :: "bool \<Rightarrow> string" where
  "show_bool b = (if b then ''true'' else ''false'')"

definition to_upper :: "string \<Rightarrow> string" where
  "to_upper s = map (\<lambda>c. if CHR ''a'' \<le> c \<and> c \<le> CHR ''z'' then char_of (of_char c - 32 :: nat) else c) s"

definition to_lower :: "string \<Rightarrow> string" where
  "to_lower s = map (\<lambda>c. if CHR ''A'' \<le> c \<and> c \<le> CHR ''Z'' then char_of (of_char c + 32 :: nat) else c) s"

definition em_dash :: string where
  "em_dash = [CHR 0xE2, CHR 0x80, CHR 0x94]"

definition ellipsis :: string where
  "ellipsis = [CHR 0xE2, CHR 0x80, CHR 0xA6]"

end
