(* ===== verification/Rule_Model.thy ===== *)
theory Rule_Model
  imports Go_Base
begin

text \<open>
  internal/rule: the rule record and its validation (rule.go), the five condition types with
  their compilation, evaluation and JSON form (condition.go), and the expression condition
  with its helper environment (expression.go). What the package calls outside Go's core
  language (regexp, the expr-lang compiler, the fmt verbs on values) is the record
  \<open>golib\<close> of parameters.
\<close>

section \<open>Environment\<close>

text \<open>
  The interface ExprHelpers: the window helpers give a value and whether there was one.
\<close>

record helper_fns =
  h_avg_over :: "string \<Rightarrow> duration \<Rightarrow> f64 \<times> bool"
  h_count_over :: "string \<Rightarrow> duration \<Rightarrow> int \<times> bool"
  h_min_over :: "string \<Rightarrow> duration \<Rightarrow> f64 \<times> bool"
  h_max_over :: "string \<Rightarrow> duration \<Rightarrow> f64 \<times> bool"
  h_sum_over :: "string \<Rightarrow> duration \<Rightarrow> f64 \<times> bool"
  h_regex :: "string \<Rightarrow> string \<Rightarrow> bool result"

record eval_ctx =
  cx_now :: time
  cx_helpers :: "helper_fns option"

type_synonym grecord = "(string \<times> gval) list"

record expr_env =
  ee_record :: grecord
  ee_avg_over :: "string \<Rightarrow> string \<Rightarrow> f64 \<times> bool"
  ee_sum_over :: "string \<Rightarrow> string \<Rightarrow> f64 \<times> bool"
  ee_min_over :: "string \<Rightarrow> string \<Rightarrow> f64 \<times> bool"
  ee_max_over :: "string \<Rightarrow> string \<Rightarrow> f64 \<times> bool"
  ee_count_over :: "string \<Rightarrow> string \<Rightarrow> int \<times> bool"
  ee_regex_match :: "string \<Rightarrow> string \<Rightarrow> bool result"

text \<open>
  \<open>lib_fmt_v\<close> is fmt's verb v, \<open>lib_fmt_dur\<close> Duration.String, \<open>lib_quote\<close> the verb q;
  \<open>lib_re_compile\<close> is regexp.Compile with MatchString; \<open>lib_parse_float\<close> and
  \<open>lib_parse_duration\<close> are strconv.ParseFloat and time.ParseDuration; \<open>lib_expr_compile\<close> is
  expr.Compile with expr.Run; \<open>lib_f2i\<close> is the implementation's result for a float64 that
  does not fit an int64; \<open>lib_utf8\<close> is the replacement of invalid UTF-8 by json.Marshal.
\<close>

record golib =
  lib_fmt_v :: "gval \<Rightarrow> string"
  lib_fmt_dur :: "duration \<Rightarrow> string"
  lib_quote :: "string \<Rightarrow> string"
  lib_re_compile :: "string \<Rightarrow> (string \<Rightarrow> bool) result"
  lib_parse_float :: "string \<Rightarrow> f64 option"
  lib_parse_duration :: "string \<Rightarrow> duration result"
  lib_expr_compile :: "string \<Rightarrow> (expr_env \<Rightarrow> gval result) result"
  lib_f2i :: "f64 \<Rightarrow> int"
  lib_utf8 :: "string \<Rightarrow> string"

section \<open>Conditions\<close>

abbreviation mode_push :: string where "mode_push \<equiv> ''push''"
abbreviation mode_scheduled :: string where "mode_scheduled \<equiv> ''scheduled''"

record threshold =
  th_field :: string
  th_op :: string
  th_value :: f64

record window_aggregate =
  wa_field :: string
  wa_agg :: string
  wa_window :: duration
  wa_op :: string
  wa_value :: f64

record pattern_match =
  pm_field :: string
  pm_kind :: string
  pm_pattern :: string

record sql_returns_rows =
  sq_data_source :: string
  sq_query :: string
  sq_min_rows :: int

record expression =
  ex_expr :: string
  ex_mode :: string

datatype condition =
    CThreshold threshold
  | CWindow window_aggregate
  | CPattern pattern_match
  | CSql sql_returns_rows
  | CExpr expression

text \<open>The operator type is a string; Compare gives false for an unknown operator.\<close>

definition op_compare :: "string \<Rightarrow> f64 \<Rightarrow> f64 \<Rightarrow> bool" where
  "op_compare o1 a b =
     (if o1 = ''>'' then f_less b a
      else if o1 = ''>='' then f_leq b a
      else if o1 = ''<'' then f_less a b
      else if o1 = ''<='' then f_leq a b
      else if o1 = ''=='' then f_eq a b
      else if o1 = ''!='' then \<not> f_eq a b
      else False)"

definition op_validate :: "golib \<Rightarrow> string \<Rightarrow> unit result" where
  "op_validate lib o1 =
     (if o1 \<in> {''>'', ''>='', ''<'', ''<='', ''=='', ''!=''} then Inr ()
      else Inl (ErrNew (''invalid op '' @ lib_quote lib o1)))"

definition expr_mode_of :: "expression \<Rightarrow> string" where
  "expr_mode_of e = (if ex_mode e = mode_scheduled then mode_scheduled else mode_push)"

fun condition_mode :: "condition \<Rightarrow> string" where
  "condition_mode (CThreshold t) = mode_push"
| "condition_mode (CWindow w) = mode_scheduled"
| "condition_mode (CPattern p) = mode_push"
| "condition_mode (CSql s) = mode_scheduled"
| "condition_mode (CExpr e) = expr_mode_of e"

subsection \<open>Record fields\<close>

fun numeric_of :: "golib \<Rightarrow> gval \<Rightarrow> f64 option" where
  "numeric_of lib (GFloat64 x) = Some x"
| "numeric_of lib (GFloat32 x) = Some x"
| "numeric_of lib (GInt n) = Some (f64_of_int n)"
| "numeric_of lib (GInt32 n) = Some (f64_of_int n)"
| "numeric_of lib (GInt64 n) = Some (f64_of_int n)"
| "numeric_of lib (GNumber s) = lib_parse_float lib s"
| "numeric_of lib _ = None"

definition numeric_field :: "golib \<Rightarrow> grecord \<Rightarrow> string \<Rightarrow> f64 option" where
  "numeric_field lib r f = (case map_of r f of None \<Rightarrow> None | Some v \<Rightarrow> numeric_of lib v)"

definition string_field :: "golib \<Rightarrow> grecord \<Rightarrow> string \<Rightarrow> string option" where
  "string_field lib r f =
     (case map_of r f of
        None \<Rightarrow> None
      | Some (GStr s) \<Rightarrow> Some s
      | Some v \<Rightarrow> Some (lib_fmt_v lib v))"

subsection \<open>Compilation\<close>

text \<open>The compiled forms; a compiled expression carries its program.\<close>

datatype compiled =
    KThreshold threshold
  | KWindow window_aggregate
  | KPattern pattern_match "(string \<Rightarrow> bool) option"
  | KSql sql_returns_rows int
  | KExpr expression "expr_env \<Rightarrow> gval result"

definition compile_threshold :: "golib \<Rightarrow> threshold \<Rightarrow> compiled result" where
  "compile_threshold lib t =
     (if th_field t = '''' then Inl (ErrNew ''threshold: field required'')
      else res_bind (op_validate lib (th_op t)) (\<lambda>_. Inr (KThreshold t)))"

definition compile_window :: "golib \<Rightarrow> window_aggregate \<Rightarrow> compiled result" where
  "compile_window lib w =
     (if wa_field w = '''' then Inl (ErrNew ''window_aggregate: field required'')
      else if wa_window w \<le> 0 then Inl (ErrNew ''window_aggregate: window must be > 0'')
      else if wa_agg w \<notin> {''avg'', ''sum'', ''min'', ''max'', ''count''}
        then Inl (ErrNew (''window_aggregate: invalid agg '' @ lib_quote lib (wa_agg w)))
      else res_bind (op_validate lib (wa_op w)) (\<lambda>_. Inr (KWindow w)))"

definition compile_pattern :: "golib \<Rightarrow> pattern_match \<Rightarrow> compiled result" where
  "compile_pattern lib p =
     (if pm_field p = '''' then Inl (ErrNew ''pattern_match: field required'')
      else if pm_kind p = ''regex''
        then res_bind (res_wrap ''pattern_match'' (lib_re_compile lib (pm_pattern p)))
               (\<lambda>re. Inr (KPattern p (Some re)))
      else if pm_kind p = ''contains''
        then (if pm_pattern p = '''' then Inl (ErrNew ''pattern_match: pattern required'')
              else Inr (KPattern p None))
      else Inl (ErrNew (''pattern_match: invalid kind '' @ lib_quote lib (pm_kind p))))"

definition compile_sql :: "sql_returns_rows \<Rightarrow> compiled result" where
  "compile_sql s =
     (if sq_data_source s = '''' then Inl (ErrNew ''sql_returns_rows: data_source required'')
      else if trim_space (sq_query s) = '''' then Inl (ErrNew ''sql_returns_rows: query required'')
      else Inr (KSql s (if sq_min_rows s \<le> 0 then 1 else sq_min_rows s)))"

definition compile_expression :: "golib \<Rightarrow> expression \<Rightarrow> compiled result" where
  "compile_expression lib e =
     (let src = trim_space (ex_expr e)
      in if src = '''' then Inl (ErrNew ''expression: expr required'')
         else if ex_mode e \<notin> {'''', mode_push, mode_scheduled}
           then Inl (ErrNew (''expression: invalid mode '' @ lib_quote lib (ex_mode e)))
         else res_bind (res_wrap ''expression'' (lib_expr_compile lib src))
                (\<lambda>prog. Inr (KExpr e prog)))"

fun compile_condition :: "golib \<Rightarrow> condition \<Rightarrow> compiled result" where
  "compile_condition lib (CThreshold t) = compile_threshold lib t"
| "compile_condition lib (CWindow w) = compile_window lib w"
| "compile_condition lib (CPattern p) = compile_pattern lib p"
| "compile_condition lib (CSql s) = compile_sql s"
| "compile_condition lib (CExpr e) = compile_expression lib e"

subsection \<open>Flexible durations\<close>

definition day :: duration where "day = 24 * hour"

definition parse_flex_duration :: "golib \<Rightarrow> string \<Rightarrow> duration option" where
  "parse_flex_duration lib s0 =
     (let s = trim_space s0
      in if s = '''' then None
         else if 1 < length s \<and> last s \<in> {CHR ''d'', CHR ''w''}
           then (case lib_parse_float lib (butlast s) of
                   None \<Rightarrow> None
                 | Some x \<Rightarrow>
                     if f_less x (Fin 0) then None
                     else Some (f64_to_int64 (lib_f2i lib)
                            (f_scale x (of_int (if last s = CHR ''w'' then 7 * day else day)))))
         else (case lib_parse_duration lib s of
                 Inl _ \<Rightarrow> None
               | Inr d \<Rightarrow> if d < 0 then None else Some d))"

subsection \<open>Evaluation\<close>

definition window_fn ::
  "golib \<Rightarrow> helper_fns option \<Rightarrow> (helper_fns \<Rightarrow> string \<Rightarrow> duration \<Rightarrow> 'a \<times> bool) \<Rightarrow> 'a
   \<Rightarrow> string \<Rightarrow> string \<Rightarrow> 'a \<times> bool" where
  "window_fn lib h sel z fld win =
     (case h of
        None \<Rightarrow> (z, False)
      | Some hs \<Rightarrow>
          (case parse_flex_duration lib win of None \<Rightarrow> (z, False) | Some d \<Rightarrow> sel hs fld d))"

text \<open>
  buildExprEnv: the helper functions delegate to the context's helpers when it has some; a
  nil record is an empty map, and regex matching falls back to the record itself.
\<close>

definition build_expr_env :: "golib \<Rightarrow> eval_ctx \<Rightarrow> grecord option \<Rightarrow> expr_env" where
  "build_expr_env lib ctx r = (let h = cx_helpers ctx in
     \<lparr>ee_record = (case r of None \<Rightarrow> [] | Some m \<Rightarrow> m),
      ee_avg_over = window_fn lib h h_avg_over (Fin 0),
      ee_sum_over = window_fn lib h h_sum_over (Fin 0),
      ee_min_over = window_fn lib h h_min_over (Fin 0),
      ee_max_over = window_fn lib h h_max_over (Fin 0),
      ee_count_over = window_fn lib h h_count_over 0,
      ee_regex_match = (\<lambda>fld pat.
         case h of
           Some hs \<Rightarrow> h_regex hs fld pat
         | None \<Rightarrow>
             (case r of
                None \<Rightarrow> Inr False
              | Some m \<Rightarrow>
                  (case string_field lib m fld of
                     None \<Rightarrow> Inr False
                   | Some s \<Rightarrow> res_map (\<lambda>re. re s) (lib_re_compile lib pat))))\<rparr>)"

definition summarize_expression :: "string \<Rightarrow> bool \<Rightarrow> string" where
  "summarize_expression src triggered =
     (let cleaned = str_join '' '' (str_fields [] src);
          short = (if 80 < length cleaned then take 79 cleaned @ ellipsis else cleaned)
      in short @ '' -> '' @ show_bool triggered)"

definition eval_threshold :: "golib \<Rightarrow> threshold \<Rightarrow> grecord option \<Rightarrow> (bool \<times> string) result" where
  "eval_threshold lib t r =
     (case r of
        None \<Rightarrow> Inl (ErrNew ''threshold: nil record'')
      | Some m \<Rightarrow>
          (case numeric_field lib m (th_field t) of
             None \<Rightarrow> Inr (False, '''')
           | Some v \<Rightarrow>
               Inr (op_compare (th_op t) v (th_value t),
                    lib_fmt_v lib (GFloat64 v) @ '' '' @ th_op t @ '' '' @
                    lib_fmt_v lib (GFloat64 (th_value t)))))"

definition window_value :: "window_aggregate \<Rightarrow> helper_fns \<Rightarrow> f64 \<times> bool" where
  "window_value w h =
     (if wa_agg w = ''avg'' then h_avg_over h (wa_field w) (wa_window w)
      else if wa_agg w = ''sum'' then h_sum_over h (wa_field w) (wa_window w)
      else if wa_agg w = ''min'' then h_min_over h (wa_field w) (wa_window w)
      else if wa_agg w = ''max'' then h_max_over h (wa_field w) (wa_window w)
      else if wa_agg w = ''count''
        then (case h_count_over h (wa_field w) (wa_window w) of (n, ok) \<Rightarrow> (f64_of_int n, ok))
      else (Fin 0, False))"

definition eval_window :: "golib \<Rightarrow> window_aggregate \<Rightarrow> eval_ctx \<Rightarrow> (bool \<times> string) result" where
  "eval_window lib w ctx =
     (case cx_helpers ctx of
        None \<Rightarrow> Inl (ErrNew ''window_aggregate: no helpers'')
      | Some h \<Rightarrow>
          (case window_value w h of (v, ok) \<Rightarrow>
             if \<not> ok then Inr (False, '''')
             else Inr (op_compare (wa_op w) v (wa_value w),
                    wa_agg w @ ''('' @ wa_field w @ '','' @ lib_fmt_dur lib (wa_window w) @ '')='' @
                    lib_fmt_v lib (GFloat64 v) @ '' '' @ wa_op w @ '' '' @
                    lib_fmt_v lib (GFloat64 (wa_value w)))))"

definition eval_pattern ::
  "golib \<Rightarrow> pattern_match \<Rightarrow> (string \<Rightarrow> bool) option \<Rightarrow> grecord option \<Rightarrow> (bool \<times> string) result" where
  "eval_pattern lib p re r =
     (case r of
        None \<Rightarrow> Inl (ErrNew ''pattern_match: nil record'')
      | Some m \<Rightarrow>
          (case string_field lib m (pm_field p) of
             None \<Rightarrow> Inr (False, '''')
           | Some s \<Rightarrow>
               (let triggered =
                  (if pm_kind p = ''regex'' then (case re of Some f \<Rightarrow> f s | None \<Rightarrow> False)
                   else if pm_kind p = ''contains'' then str_contains s (pm_pattern p)
                   else False)
                in Inr (triggered,
                     pm_field p @ '' ~ '' @ lib_quote lib (pm_pattern p) @ '' -> '' @
                     show_bool triggered))))"

definition eval_expression ::
  "golib \<Rightarrow> expression \<Rightarrow> (expr_env \<Rightarrow> gval result) \<Rightarrow> eval_ctx \<Rightarrow> grecord option
   \<Rightarrow> (bool \<times> string) result" where
  "eval_expression lib e prog ctx r =
     res_bind (res_wrap ''expression'' (prog (build_expr_env lib ctx r))) (\<lambda>out.
       case out of
         GBool b \<Rightarrow> Inr (b, summarize_expression (ex_expr e) b)
       | v \<Rightarrow> Inl (ErrNew (''expression: result '' @ lib_fmt_v lib v @ '' is not bool'')))"

fun eval_compiled ::
  "golib \<Rightarrow> compiled \<Rightarrow> eval_ctx \<Rightarrow> grecord option \<Rightarrow> (bool \<times> string) result" where
  "eval_compiled lib (KThreshold t) ctx r = eval_threshold lib t r"
| "eval_compiled lib (KWindow w) ctx r = eval_window lib w ctx"
| "eval_compiled lib (KPattern p re) ctx r = eval_pattern lib p re r"
| "eval_compiled lib (KSql s n) ctx r =
     Inl (ErrNew (''sql_returns_rows: not directly evaluable; the scheduled evaluator '' @
                  ''must dispatch via SQLEvaluator''))"
| "eval_compiled lib (KExpr e prog) ctx r = eval_expression lib e prog ctx r"

text \<open>The marker interface SQLSpec, which only the compiled SQL condition implements.\<close>

fun sql_spec :: "compiled \<Rightarrow> (string \<times> string \<times> int) option" where
  "sql_spec (KSql s n) = Some (sq_data_source s, sq_query s, n)"
| "sql_spec _ = None"

subsection \<open>JSON form\<close>

definition marshal_wrapped :: "string \<Rightarrow> json \<Rightarrow> json" where
  "marshal_wrapped typ body = JObj [(''spec'', body), (''type'', JStr typ)]"

fun json_of_f64 :: "f64 \<Rightarrow> json result" where
  "json_of_f64 (Fin q) = Inr (JNum q)"
| "json_of_f64 _ = Inl (ErrNew ''json: unsupported value'')"

definition json_of_string :: "golib \<Rightarrow> string \<Rightarrow> json" where
  "json_of_string lib s = JStr (lib_utf8 lib s)"

fun marshal_condition :: "golib \<Rightarrow> condition \<Rightarrow> json result" where
  "marshal_condition lib (CThreshold t) =
     res_map (\<lambda>v. marshal_wrapped ''threshold''
       (JObj [(''field'', json_of_string lib (th_field t)), (''op'', json_of_string lib (th_op t)),
              (''value'', v)]))
       (json_of_f64 (th_value t))"
| "marshal_condition lib (CWindow w) =
     res_map (\<lambda>v. marshal_wrapped ''window_aggregate''
       (JObj [(''field'', json_of_string lib (wa_field w)), (''agg'', json_of_string lib (wa_agg w)),
              (''window'', JNum (of_int (wa_window w))), (''op'', json_of_string lib (wa_op w)),
              (''value'', v)]))
       (json_of_f64 (wa_value w))"
| "marshal_condition lib (CPattern p) =
     Inr (marshal_wrapped ''pattern_match''
       (JObj [(''field'', json_of_string lib (pm_field p)), (''kind'', json_of_string lib (pm_kind p)),
              (''pattern'', json_of_string lib (pm_pattern p))]))"
| "marshal_condition lib (CSql s) =
     Inr (marshal_wrapped ''sql_returns_rows''
       (JObj [(''data_source'', json_of_string lib (sq_data_source s)),
              (''query'', json_of_string lib (sq_query s)),
              (''min_rows'', JNum (of_int (sq_min_rows s)))]))"
| "marshal_condition lib (CExpr e) =
     Inr (marshal_wrapped ''expression''
       (JObj ((''expr'', json_of_string lib (ex_expr e)) #
              (if ex_mode e = '''' then [] else [(''mode'', json_of_string lib (ex_mode e))]))))"

text \<open>Decoding, one member at a time; unknown members are ignored.\<close>

definition threshold_member :: "threshold \<Rightarrow> string \<Rightarrow> json \<Rightarrow> threshold result" where
  "threshold_member t k v = (let n = to_lower k in
     if n = ''field'' then res_map (\<lambda>s. t\<lparr>th_field := s\<rparr>) (json_get_string (th_field t) v)
     else if n = ''op'' then res_map (\<lambda>s. t\<lparr>th_op := s\<rparr>) (json_get_string (th_op t) v)
     else if n = ''value'' then res_map (\<lambda>x. t\<lparr>th_value := x\<rparr>) (json_get_float (th_value t) v)
     else Inr t)"

definition window_member :: "window_aggregate \<Rightarrow> string \<Rightarrow> json \<Rightarrow> window_aggregate result" where
  "window_member w k v = (let n = to_lower k in
     if n = ''field'' then res_map (\<lambda>s. w\<lparr>wa_field := s\<rparr>) (json_get_string (wa_field w) v)
     else if n = ''agg'' then res_map (\<lambda>s. w\<lparr>wa_agg := s\<rparr>) (json_get_string (wa_agg w) v)
     else if n = ''window'' then res_map (\<lambda>d. w\<lparr>wa_window := d\<rparr>) (json_get_int (wa_window w) v)
     else if n = ''op'' then res_map (\<lambda>s. w\<lparr>wa_op := s\<rparr>) (json_get_string (wa_op w) v)
     else if n = ''value'' then res_map (\<lambda>x. w\<lparr>wa_value := x\<rparr>) (json_get_float (wa_value w) v)
     else Inr w)"

definition pattern_member :: "pattern_match \<Rightarrow> string \<Rightarrow> json \<Rightarrow> pattern_match result" where
  "pattern_member p k v = (let n = to_lower k in
     if n = ''field'' then res_map (\<lambda>s. p\<lparr>pm_field := s\<rparr>) (json_get_string (pm_field p) v)
     else if n = ''kind'' then res_map (\<lambda>s. p\<lparr>pm_kind := s\<rparr>) (json_get_string (pm_kind p) v)
     else if n = ''pattern'' then res_map (\<lambda>s. p\<lparr>pm_pattern := s\<rparr>) (json_get_string (pm_pattern p) v)
     else Inr p)"

definition sql_member :: "sql_returns_rows \<Rightarrow> string \<Rightarrow> json \<Rightarrow> sql_returns_rows result" where
  "sql_member s k v = (let n = to_lower k in
     if n = ''data_source'' then res_map (\<lambda>x. s\<lparr>sq_data_source := x\<rparr>) (json_get_string (sq_data_source s) v)
     else if n = ''query'' then res_map (\<lambda>x. s\<lparr>sq_query := x\<rparr>) (json_get_string (sq_query s) v)
     else if n = ''min_rows'' then res_map (\<lambda>x. s\<lparr>sq_min_rows := x\<rparr>) (json_get_int (sq_min_rows s) v)
     else Inr s)"

definition expression_member :: "expression \<Rightarrow> string \<Rightarrow> json \<Rightarrow> expression result" where
  "expression_member e k v = (let n = to_lower k in
     if n = ''expr'' then res_map (\<lambda>s. e\<lparr>ex_expr := s\<rparr>) (json_get_string (ex_expr e) v)
     else if n = ''mode'' then res_map (\<lambda>s. e\<lparr>ex_mode := s\<rparr>) (json_get_string (ex_mode e) v)
     else Inr e)"

definition wrapper_member :: "string \<times> json option \<Rightarrow> string \<Rightarrow> json \<Rightarrow> (string \<times> json option) result" where
  "wrapper_member w k v = (let n = to_lower k in
     if n = ''type'' then res_map (\<lambda>s. (s, snd w)) (json_get_string (fst w) v)
     else if n = ''spec'' then Inr (fst w, Some v)
     else Inr w)"

definition json_missing :: go_error where
  "json_missing = ErrNew ''unexpected end of JSON input''"

definition unmarshal_spec :: "('a \<Rightarrow> string \<Rightarrow> json \<Rightarrow> 'a result) \<Rightarrow> 'a \<Rightarrow> json option \<Rightarrow> 'a result" where
  "unmarshal_spec f z spec = (case spec of None \<Rightarrow> Inl json_missing | Some j \<Rightarrow> json_struct f z j)"

text \<open>\<open>None\<close> is empty input, which json.Unmarshal refuses.\<close>

definition unmarshal_condition :: "golib \<Rightarrow> json option \<Rightarrow> condition result" where
  "unmarshal_condition lib data =
     res_bind (res_wrap ''condition'' (unmarshal_spec wrapper_member ('''', None) data)) (\<lambda>(typ, spec).
       if typ = ''threshold''
         then res_map CThreshold (unmarshal_spec threshold_member
                \<lparr>th_field = '''', th_op = '''', th_value = Fin 0\<rparr> spec)
       else if typ = ''window_aggregate''
         then res_map CWindow (unmarshal_spec window_member
                \<lparr>wa_field = '''', wa_agg = '''', wa_window = 0, wa_op = '''', wa_value = Fin 0\<rparr> spec)
       else if typ = ''pattern_match''
         then res_map CPattern (unmarshal_spec pattern_member
                \<lparr>pm_field = '''', pm_kind = '''', pm_pattern = ''''\<rparr> spec)
       else if typ = ''sql_returns_rows''
         then res_map CSql (unmarshal_spec sql_member
                \<lparr>sq_data_source = '''', sq_query = '''', sq_min_rows = 0\<rparr> spec)
       else if typ = ''expression''
         then res_map CExpr (unmarshal_spec expression_member \<lparr>ex_expr = '''', ex_mode = ''''\<rparr> spec)
       else Inl (ErrNew (''condition: unknown type '' @ lib_quote lib typ)))"

section \<open>Rules\<close>

record rule =
  r_id :: string
  r_name :: string
  r_description :: string
  r_enabled :: bool
  r_severity :: string
  r_labels :: "(string \<times> string) list"
  r_input_ref :: string
  r_condition :: "condition option"
  r_schedule :: duration
  r_created_at :: time
  r_updated_at :: time

definition rule_validate :: "rule \<Rightarrow> unit result" where
  "rule_validate r =
     (if r_name r = '''' then Inl (ErrNew ''rule: name is required'')
      else if r_input_ref r = '''' then Inl (ErrNew ''rule: input_ref is required'')
      else (case r_condition r of
              None \<Rightarrow> Inl (ErrNew ''rule: condition is required'')
            | Some c \<Rightarrow>
                if condition_mode c = mode_scheduled \<and> r_schedule r \<le> 0
                  then Inl (ErrNew ''rule: scheduled rules require a positive schedule duration'')
                else if r_severity r \<in> {'''', ''info'', ''warning'', ''critical''} then Inr ()
                else Inl (ErrNew ''rule: invalid severity'')))"

end
