(* ===== verification/Rule_State.thy ===== *)
theory Rule_State
  imports Rule_Model
begin

text \<open>
  internal/rule/state.go: the live state of a rule and the transition one evaluation outcome
  causes.
\<close>

section \<open>State and transition\<close>

text \<open>The state is a string type with the values ok and firing.\<close>

abbreviation state_ok :: string where "state_ok \<equiv> ''ok''"
abbreviation state_firing :: string where "state_firing \<equiv> ''firing''"

record live_state =
  ls_rule_id :: string
  ls_state :: string
  ls_triggered_at :: time
  ls_last_eval_at :: time
  ls_last_value :: string
  ls_last_error :: string
  ls_incident_id :: string

text \<open>The live state the callers seed when the store has none for the rule.\<close>

definition fresh_live_state :: "string \<Rightarrow> live_state" where
  "fresh_live_state rid =
     \<lparr>ls_rule_id = rid, ls_state = state_ok, ls_triggered_at = zero_time,
      ls_last_eval_at = zero_time, ls_last_value = '''', ls_last_error = '''',
      ls_incident_id = ''''\<rparr>"

record transition =
  tr_rule_id :: string
  tr_prev :: string
  tr_next :: string
  tr_now :: time
  tr_triggered_at :: time
  tr_incident_id :: string
  tr_last_value :: string

definition apply_outcome ::
  "live_state \<Rightarrow> bool \<Rightarrow> string \<Rightarrow> time \<Rightarrow> string \<Rightarrow> live_state \<times> transition" where
  "apply_outcome st triggered val now new_id =
     (let prev = ls_state st;
          st1 = st\<lparr>ls_last_eval_at := now, ls_last_value := val\<rparr>;
          t = \<lparr>tr_rule_id = ls_rule_id st, tr_prev = prev, tr_next = '''', tr_now = now,
               tr_triggered_at = zero_time, tr_incident_id = '''', tr_last_value = val\<rparr>
      in if triggered \<and> prev \<noteq> state_firing then
           (let st2 = st1\<lparr>ls_state := state_firing, ls_triggered_at := now\<rparr>;
                st3 = (if new_id \<noteq> '''' then st2\<lparr>ls_incident_id := new_id\<rparr> else st2)
            in (st3, t\<lparr>tr_next := state_firing, tr_triggered_at := ls_triggered_at st3,
                      tr_incident_id := ls_incident_id st3\<rparr>))
         else if triggered \<and> prev = state_firing then
           (st1, t\<lparr>tr_next := state_firing, tr_triggered_at := ls_triggered_at st1,
                   tr_incident_id := ls_incident_id st1\<rparr>)
         else if \<not> triggered \<and> prev = state_firing then
           (st1\<lparr>ls_state := state_ok, ls_incident_id := '''', ls_triggered_at := zero_time\<rparr>,
            t\<lparr>tr_next := state_ok, tr_incident_id := ls_incident_id st1\<rparr>)
         else (st1, t\<lparr>tr_next := state_ok\<rparr>))"

definition is_transition :: "transition \<Rightarrow> bool" where
  "is_transition t \<longleftrightarrow> tr_prev t \<noteq> tr_next t"

definition tr_opened :: "transition \<Rightarrow> bool" where
  "tr_opened t \<longleftrightarrow> tr_prev t = state_ok \<and> tr_next t = state_firing"

definition tr_closed :: "transition \<Rightarrow> bool" where
  "tr_closed t \<longleftrightarrow> tr_prev t = state_firing \<and> tr_next t = state_ok"

section \<open>The two-state machine\<close>

text \<open>
  The live states the code writes: state ok or firing; an incident id exactly while firing,
  and a start of the firing cycle only then.
\<close>

definition live_wf :: "live_state \<Rightarrow> bool" where
  "live_wf st \<longleftrightarrow>
     (ls_state st = state_firing \<and> ls_incident_id st \<noteq> '''') \<or>
     (ls_state st = state_ok \<and> ls_incident_id st = '''' \<and> ls_triggered_at st = zero_time)"

lemma live_wf_fresh [simp]: "live_wf (fresh_live_state rid)"
  by (simp add: live_wf_def fresh_live_state_def)

lemma live_wf_firing_iff: "live_wf st \<Longrightarrow> ls_state st = state_firing \<longleftrightarrow> ls_incident_id st \<noteq> ''''"
  by (auto simp: live_wf_def)

lemma apply_outcome_rule_id [simp]:
  "ls_rule_id (fst (apply_outcome st b v now i)) = ls_rule_id st"
  by (simp add: apply_outcome_def Let_def)

lemma apply_outcome_error [simp]:
  "ls_last_error (fst (apply_outcome st b v now i)) = ls_last_error st"
  by (simp add: apply_outcome_def Let_def)

lemma apply_outcome_value [simp]:
  "ls_last_value (fst (apply_outcome st b v now i)) = v"
  "ls_last_eval_at (fst (apply_outcome st b v now i)) = now"
  by (simp_all add: apply_outcome_def Let_def)

lemma apply_outcome_state:
  "live_wf st \<Longrightarrow>
   ls_state (fst (apply_outcome st b v now i)) = (if b then state_firing else state_ok)"
  by (auto simp: apply_outcome_def Let_def live_wf_def)

lemma apply_outcome_prev [simp]: "tr_prev (snd (apply_outcome st b v now i)) = ls_state st"
  by (simp add: apply_outcome_def Let_def)

lemma apply_outcome_next:
  "tr_next (snd (apply_outcome st b v now i)) = (if b then state_firing else state_ok)"
  by (simp add: apply_outcome_def Let_def)

lemma apply_outcome_opened_iff:
  "tr_opened (snd (apply_outcome st b v now i)) \<longleftrightarrow> b \<and> ls_state st = state_ok"
  by (simp add: tr_opened_def apply_outcome_next)

lemma apply_outcome_closed_iff:
  "tr_closed (snd (apply_outcome st b v now i)) \<longleftrightarrow> \<not> b \<and> ls_state st = state_firing"
  by (simp add: tr_closed_def apply_outcome_next)

lemma apply_outcome_open:
  assumes "b" and "ls_state st \<noteq> state_firing" and "i \<noteq> ''''"
  shows "apply_outcome st b v now i =
    (st\<lparr>ls_state := state_firing, ls_triggered_at := now, ls_last_eval_at := now,
        ls_last_value := v, ls_incident_id := i\<rparr>,
     \<lparr>tr_rule_id = ls_rule_id st, tr_prev = ls_state st, tr_next = state_firing, tr_now = now,
      tr_triggered_at = now, tr_incident_id = i, tr_last_value = v\<rparr>)"
  using assms by (simp add: apply_outcome_def Let_def)

lemma apply_outcome_stay_firing:
  assumes "b" and "ls_state st = state_firing"
  shows "apply_outcome st b v now i =
    (st\<lparr>ls_last_eval_at := now, ls_last_value := v\<rparr>,
     \<lparr>tr_rule_id = ls_rule_id st, tr_prev = state_firing, tr_next = state_firing, tr_now = now,
      tr_triggered_at = ls_triggered_at st, tr_incident_id = ls_incident_id st,
      tr_last_value = v\<rparr>)"
  using assms by (simp add: apply_outcome_def Let_def)

lemma apply_outcome_close:
  assumes "\<not> b" and "ls_state st = state_firing"
  shows "apply_outcome st b v now i =
    (st\<lparr>ls_state := state_ok, ls_triggered_at := zero_time, ls_last_eval_at := now,
        ls_last_value := v, ls_incident_id := ''''\<rparr>,
     \<lparr>tr_rule_id = ls_rule_id st, tr_prev = state_firing, tr_next = state_ok, tr_now = now,
      tr_triggered_at = zero_time, tr_incident_id = ls_incident_id st, tr_last_value = v\<rparr>)"
  using assms by (simp add: apply_outcome_def Let_def)

lemma apply_outcome_stay_ok:
  assumes "\<not> b" and "ls_state st \<noteq> state_firing"
  shows "apply_outcome st b v now i =
    (st\<lparr>ls_last_eval_at := now, ls_last_value := v\<rparr>,
     \<lparr>tr_rule_id = ls_rule_id st, tr_prev = ls_state st, tr_next = state_ok, tr_now = now,
      tr_triggered_at = zero_time, tr_incident_id = '''', tr_last_value = v\<rparr>)"
  using assms by (simp add: apply_outcome_def Let_def)

lemmas apply_outcome_branches =
  apply_outcome_open apply_outcome_stay_firing apply_outcome_close apply_outcome_stay_ok

lemma live_wf_apply:
  assumes "live_wf st" and "b \<Longrightarrow> ls_state st \<noteq> state_firing \<Longrightarrow> i \<noteq> ''''"
  shows "live_wf (fst (apply_outcome st b v now i))"
  using assms by (auto simp: live_wf_def apply_outcome_def Let_def)

end
