(* ===== verification/Subscriber.thy ===== *)
theory Subscriber
  imports Rule_State
begin

text \<open>
  internal/subscriber: subscribers and their channel bindings, subscriptions and their
  validation, incidents, the per (incident, subscription) delivery state and the
  notification audit record.
\<close>

record channel_binding =
  cb_channel :: string
  cb_address :: string

record subscriber =
  sb_id :: string
  sb_name :: string
  sb_channels :: "channel_binding list"
  sb_created_at :: time
  sb_updated_at :: time

record subscription =
  su_id :: string
  su_subscriber_id :: string
  su_rule_id :: string
  su_label_selector :: "(string \<times> string) list"
  su_dwell :: duration
  su_repeat_interval :: duration
  su_notify_on_resolve :: bool
  su_one_shot :: bool
  su_channel_filter :: "string list"
  su_created_at :: time
  su_updated_at :: time

definition subscription_validate :: "subscription \<Rightarrow> unit result" where
  "subscription_validate s =
     (if su_subscriber_id s = '''' then Inl (ErrNew ''subscription: subscriber_id required'')
      else if su_rule_id s = '''' \<and> su_label_selector s = []
        then Inl (ErrNew ''subscription: rule_id or label_selector required'')
      else if su_rule_id s \<noteq> '''' \<and> su_label_selector s \<noteq> []
        then Inl (ErrNew ''subscription: only one of rule_id or label_selector may be set'')
      else if su_dwell s < 0 \<or> su_repeat_interval s < 0
        then Inl (ErrNew ''subscription: dwell and repeat_interval must be >= 0'')
      else Inr ())"

record incident =
  in_id :: string
  in_rule_id :: string
  in_triggered_at :: time
  in_resolved_at :: time
  in_last_value :: string

record sub_state =
  ss_incident_id :: string
  ss_subscription_id :: string
  ss_last_notified_at :: time
  ss_notify_count :: int
  ss_resolution_sent :: bool

definition fresh_sub_state :: "string \<Rightarrow> string \<Rightarrow> sub_state" where
  "fresh_sub_state inc sub =
     \<lparr>ss_incident_id = inc, ss_subscription_id = sub, ss_last_notified_at = zero_time,
      ss_notify_count = 0, ss_resolution_sent = False\<rparr>"

abbreviation kind_firing :: string where "kind_firing \<equiv> ''firing''"
abbreviation kind_repeat :: string where "kind_repeat \<equiv> ''repeat''"
abbreviation kind_resolved :: string where "kind_resolved \<equiv> ''resolved''"

record notification =
  nt_id :: string
  nt_incident_id :: string
  nt_subscription_id :: string
  nt_subscriber_id :: string
  nt_channel :: string
  nt_address :: string
  nt_kind :: string
  nt_sent_at :: time
  nt_status :: string
  nt_error :: string

lemma subscription_validate_ok_iff:
  "subscription_validate s = Inr () \<longleftrightarrow>
     su_subscriber_id s \<noteq> '''' \<and> (su_rule_id s = '''' \<longleftrightarrow> su_label_selector s \<noteq> []) \<and>
     0 \<le> su_dwell s \<and> 0 \<le> su_repeat_interval s"
  by (auto simp: subscription_validate_def)

end
