(* ===== verification/Auth_Token.thy ===== *)
theory Auth_Token
  imports Go_Base
begin

text \<open>
  internal/auth/token.go: API tokens, their scopes, expiry and shape. The hash (SHA-256 in
  hexadecimal) is a parameter; the random bytes of a new token are an argument.
\<close>

abbreviation scope_admin :: string where "scope_admin \<equiv> ''admin''"
abbreviation scope_read :: string where "scope_read \<equiv> ''read''"

definition valid_scopes :: "string list" where
  "valid_scopes = [scope_admin, scope_read]"

definition token_prefix :: string where
  "token_prefix = ''sw_''"

definition raw_token_bytes :: nat where
  "raw_token_bytes = 32"

record token =
  tk_id :: string
  tk_name :: string
  tk_hash :: string
  tk_scopes :: "string list"
  tk_created_at :: time
  tk_expires_at :: "time option"
  tk_last_used_at :: "time option"
  tk_revoked :: bool

text \<open>base64.RawURLEncoding: six bits a character, no padding.\<close>

definition b64_char :: "nat \<Rightarrow> char" where
  "b64_char n =
     (if n < 26 then char_of (65 + n)
      else if n < 52 then char_of (97 + (n - 26))
      else if n < 62 then char_of (48 + (n - 52))
      else if n = 62 then CHR ''-'' else CHR ''_'')"

fun b64_encode :: "nat list \<Rightarrow> string" where
  "b64_encode [] = []"
| "b64_encode [a] = [b64_char (a div 4), b64_char (a mod 4 * 16)]"
| "b64_encode [a, b] =
     [b64_char (a div 4), b64_char (a mod 4 * 16 + b div 16), b64_char (b mod 16 * 4)]"
| "b64_encode (a # b # c # rest) =
     b64_char (a div 4) # b64_char (a mod 4 * 16 + b div 16)
     # b64_char (b mod 16 * 4 + c div 64) # b64_char (c mod 64) # b64_encode rest"

text \<open>\<open>rnd\<close> is the outcome of the random source: an error, or the 32 bytes it filled in.\<close>

definition generate_token ::
  "(string \<Rightarrow> string) \<Rightarrow> nat list result \<Rightarrow> (string \<times> string) result" where
  "generate_token hash rnd =
     res_bind rnd (\<lambda>b. let raw = token_prefix @ b64_encode b in Inr (raw, hash raw))"

definition validate_scope :: "string \<Rightarrow> unit result" where
  "validate_scope s =
     (if s \<in> set valid_scopes then Inr () else Inl (ErrNew (''auth: unknown scope '' @ s)))"

definition has_scope :: "token \<Rightarrow> string \<Rightarrow> bool" where
  "has_scope t s \<longleftrightarrow> (\<exists>have \<in> set (tk_scopes t). have = scope_admin \<or> have = s)"

definition is_expired :: "token \<Rightarrow> time \<Rightarrow> bool" where
  "is_expired t now \<longleftrightarrow> (case tk_expires_at t of None \<Rightarrow> False | Some e \<Rightarrow> \<not> now < e)"

definition looks_like_token :: "string \<Rightarrow> bool" where
  "looks_like_token s \<longleftrightarrow>
     has_prefix s token_prefix \<and>
     (let body = drop (length token_prefix) s in 40 \<le> length body \<and> length body \<le> 60)"

lemma b64_encode_length: "length (b64_encode bs) = (4 * length bs + 2) div 3"
  by (induction bs rule: b64_encode.induct) auto

lemma generate_token_looks:
  "length b = raw_token_bytes \<Longrightarrow> generate_token hash (Inr b) = Inr (raw, h) \<Longrightarrow>
   looks_like_token raw \<and> h = hash raw"
  by (auto simp: generate_token_def looks_like_token_def Let_def has_prefix_iff b64_encode_length
      raw_token_bytes_def)

text \<open>The encoding loses nothing.\<close>

fun b64_val :: "char \<Rightarrow> nat" where
  "b64_val c = (let n = of_char c in
     if 65 \<le> n \<and> n \<le> 90 then n - 65
     else if 97 \<le> n \<and> n \<le> 122 then n - 71
     else if 48 \<le> n \<and> n \<le> 57 then n + 4
     else if n = 45 then 62 else 63)"

lemma b64_val_char: "n < 64 \<Longrightarrow> b64_val (b64_char n) = n"
  by (auto simp: b64_char_def Let_def of_char_of)

lemma b64_char_inj: "m < 64 \<Longrightarrow> n < 64 \<Longrightarrow> b64_char m = b64_char n \<Longrightarrow> m = n"
  by (metis b64_val_char)

lemma div_mod_split: "a div k = b div k \<Longrightarrow> a mod k = b mod k \<Longrightarrow> a = (b :: nat)"
  by (metis div_mult_mod_eq)

lemma div_mod_parts:
  fixes x y x' y' k :: nat
  assumes "x * k + y = x' * k + y'" and "y < k" and "y' < k"
  shows "x = x' \<and> y = y'"
proof -
  have "(x * k + y) div k = x" "(x' * k + y') div k = x'" using assms(2,3) by simp_all
  with assms(1) have "x = x'" by simp
  with assms(1) show ?thesis by simp
qed

lemma b64_first:
  fixes a b a' b' :: nat
  assumes "b < 256" "b' < 256"
    and "a mod 4 * 16 + b div 16 = a' mod 4 * 16 + b' div 16"
  shows "a mod 4 = a' mod 4 \<and> b div 16 = b' div 16"
  by (rule div_mod_parts [OF assms(3)]) (use assms(1,2) in auto)

lemma b64_second:
  fixes b c b' c' :: nat
  assumes "c < 256" "c' < 256"
    and "b mod 16 * 4 + c div 64 = b' mod 16 * 4 + c' div 64"
  shows "b mod 16 = b' mod 16 \<and> c div 64 = c' div 64"
  by (rule div_mod_parts [OF assms(3)]) (use assms(1,2) in auto)

lemma b64_triple_inj:
  fixes a b c a' b' c' :: nat
  assumes lt: "a < 256" "b < 256" "c < 256" "a' < 256" "b' < 256" "c' < 256"
    and eq: "b64_char (a div 4) = b64_char (a' div 4)"
      "b64_char (a mod 4 * 16 + b div 16) = b64_char (a' mod 4 * 16 + b' div 16)"
      "b64_char (b mod 16 * 4 + c div 64) = b64_char (b' mod 16 * 4 + c' div 64)"
      "b64_char (c mod 64) = b64_char (c' mod 64)"
  shows "a = a' \<and> b = b' \<and> c = c'"
proof -
  have q1: "a div 4 < 64" "a' div 4 < 64" using lt by auto
  have q2: "a mod 4 * 16 + b div 16 < 64" "a' mod 4 * 16 + b' div 16 < 64"
  proof -
    have "a mod 4 \<le> 3" "a' mod 4 \<le> 3" "b div 16 < 16" "b' div 16 < 16" using lt by auto
    then show "a mod 4 * 16 + b div 16 < 64" "a' mod 4 * 16 + b' div 16 < 64" by linarith+
  qed
  have q3: "b mod 16 * 4 + c div 64 < 64" "b' mod 16 * 4 + c' div 64 < 64"
  proof -
    have "b mod 16 \<le> 15" "b' mod 16 \<le> 15" "c div 64 < 4" "c' div 64 < 4" using lt by auto
    then show "b mod 16 * 4 + c div 64 < 64" "b' mod 16 * 4 + c' div 64 < 64" by linarith+
  qed
  have e1: "a div 4 = a' div 4" using b64_char_inj [OF q1 eq(1)] .
  have e2: "a mod 4 = a' mod 4 \<and> b div 16 = b' div 16"
    using b64_first [OF lt(2,5) b64_char_inj [OF q2 eq(2)]] .
  have e3: "b mod 16 = b' mod 16 \<and> c div 64 = c' div 64"
    using b64_second [OF lt(3,6) b64_char_inj [OF q3 eq(3)]] .
  have e4: "c mod 64 = c' mod 64" by (rule b64_char_inj [OF _ _ eq(4)]) auto
  show ?thesis using e1 e2 e3 e4 div_mod_split by blast
qed

lemma b64_encode_inj:
  "length bs = length bs' \<Longrightarrow> \<forall>x \<in> set bs. x < 256 \<Longrightarrow> \<forall>x \<in> set bs'. x < 256 \<Longrightarrow>
   b64_encode bs = b64_encode bs' \<Longrightarrow> bs = bs'"
proof (induction bs arbitrary: bs' rule: b64_encode.induct)
  case 1
  then show ?case by simp
next
  case (2 a)
  then obtain a' where bs': "bs' = [a']" by (cases bs') auto
  with 2 have "a < 256" "a' < 256" by auto
  with 2 bs' have "a = a' \<and> (0::nat) = 0 \<and> (0::nat) = 0"
    by (intro b64_triple_inj) auto
  with bs' show ?case by simp
next
  case (3 a b)
  then obtain a' b' where bs': "bs' = [a', b']"
    by (cases bs'; cases "tl bs'") auto
  with 3 have "a < 256" "b < 256" "a' < 256" "b' < 256" by auto
  with 3 bs' have "a = a' \<and> b = b' \<and> (0::nat) = 0"
    by (intro b64_triple_inj) auto
  with bs' show ?case by simp
next
  case (4 a b c rest)
  obtain a' b' c' rest' where bs': "bs' = a' # b' # c' # rest'"
    using "4.prems"(1) by (metis length_Suc_conv length_Cons)
  with 4 have "a = a' \<and> b = b' \<and> c = c'"
    by (intro b64_triple_inj) auto
  moreover have "rest = rest'"
    using 4 bs' by (intro "4.IH") auto
  ultimately show ?case using bs' by simp
qed

end
