(* ===== verification/Store_Iface.thy ===== *)
theory Store_Iface
  imports Subscriber Auth_Token
begin

text \<open>
  internal/store/store.go: the repository interfaces as records of functions over a store
  state \<open>'s\<close>, what the dispatcher and the evaluators can observe of a store, and the two
  contracts they rely on: \<open>dispatch_store\<close>, where any call may fail but then changes
  nothing, and \<open>reliable_store\<close>, where a given state makes the calls succeed. The methods
  that read the wall clock take the reading as their first argument; the methods that fill in
  timestamps through their pointer argument return the filled in value.
\<close>

section \<open>The interfaces\<close>

record 's rule_repo =
  rr_create :: "time \<Rightarrow> rule \<Rightarrow> ('s, rule) op"
  rr_update :: "time \<Rightarrow> rule \<Rightarrow> ('s, rule) op"
  rr_delete :: "string \<Rightarrow> ('s, unit) op"
  rr_get :: "string \<Rightarrow> ('s, rule option) op"
  rr_list :: "('s, rule list) op"
  rr_list_by_input :: "string \<Rightarrow> ('s, rule list) op"

record 's subscriber_repo =
  sbr_create :: "time \<Rightarrow> subscriber \<Rightarrow> ('s, subscriber) op"
  sbr_update :: "time \<Rightarrow> subscriber \<Rightarrow> ('s, subscriber) op"
  sbr_delete :: "string \<Rightarrow> ('s, unit) op"
  sbr_get :: "string \<Rightarrow> ('s, subscriber option) op"
  sbr_list :: "('s, subscriber list) op"

record 's subscription_repo =
  sur_create :: "time \<Rightarrow> subscription \<Rightarrow> ('s, subscription) op"
  sur_update :: "time \<Rightarrow> subscription \<Rightarrow> ('s, subscription) op"
  sur_delete :: "string \<Rightarrow> ('s, unit) op"
  sur_get :: "string \<Rightarrow> ('s, subscription option) op"
  sur_list :: "('s, subscription list) op"
  sur_list_for_rule :: "string \<Rightarrow> (string \<times> string) list \<Rightarrow> ('s, subscription list) op"

record 's incident_repo =
  inr_open :: "incident \<Rightarrow> ('s, unit) op"
  inr_resolve :: "string \<Rightarrow> int \<Rightarrow> ('s, unit) op"
  inr_get :: "string \<Rightarrow> ('s, incident option) op"
  inr_list :: "int \<Rightarrow> ('s, incident list) op"
  inr_list_for_rule :: "string \<Rightarrow> int \<Rightarrow> ('s, incident list) op"
  inr_list_resolved_before :: "int \<Rightarrow> ('s, incident list) op"
  inr_delete_resolved_before :: "int \<Rightarrow> ('s, int) op"

record 's notification_repo =
  nr_record :: "notification \<Rightarrow> ('s, unit) op"
  nr_list_for_incident :: "string \<Rightarrow> ('s, notification list) op"
  nr_list :: "int \<Rightarrow> ('s, notification list) op"
  nr_exists_for_subscription :: "string \<Rightarrow> ('s, bool) op"

record 's live_repo =
  lr_get :: "string \<Rightarrow> ('s, live_state option) op"
  lr_upsert :: "live_state \<Rightarrow> ('s, unit) op"
  lr_list :: "('s, live_state list) op"

record 's sub_state_repo =
  ssr_get :: "string \<Rightarrow> string \<Rightarrow> ('s, sub_state option) op"
  ssr_upsert :: "sub_state \<Rightarrow> ('s, unit) op"
  ssr_list_for_incident :: "string \<Rightarrow> ('s, sub_state list) op"

record 's token_repo =
  tr_create :: "time \<Rightarrow> token \<Rightarrow> ('s, token) op"
  tr_get_by_hash :: "string \<Rightarrow> ('s, token option) op"
  tr_get :: "string \<Rightarrow> ('s, token option) op"
  tr_list :: "('s, token list) op"
  tr_revoke :: "string \<Rightarrow> ('s, unit) op"
  tr_touch_last_used :: "string \<Rightarrow> int \<Rightarrow> ('s, unit) op"
  tr_delete :: "string \<Rightarrow> ('s, unit) op"

record 's store =
  st_rules :: "'s rule_repo"
  st_subscribers :: "'s subscriber_repo"
  st_subscriptions :: "'s subscription_repo"
  st_incidents :: "'s incident_repo"
  st_notifications :: "'s notification_repo"
  st_live_states :: "'s live_repo"
  st_sub_states :: "'s sub_state_repo"
  st_api_tokens :: "'s token_repo"

section \<open>What the dispatcher observes\<close>

text \<open>
  Times are kept in milliseconds. A stored time that is zero or not after the epoch reads back
  as the zero time.
\<close>

definition norm_time :: "time \<Rightarrow> time" where
  "norm_time t =
     (if t = zero_time then zero_time
      else if unix_milli t > 0 then of_unix_milli (unix_milli t) else zero_time)"

definition norm_live :: "live_state \<Rightarrow> live_state" where
  "norm_live x = x\<lparr>ls_triggered_at := norm_time (ls_triggered_at x),
                   ls_last_eval_at := norm_time (ls_last_eval_at x)\<rparr>"

definition norm_sub_state :: "sub_state \<Rightarrow> sub_state" where
  "norm_sub_state x = x\<lparr>ss_last_notified_at := norm_time (ss_last_notified_at x)\<rparr>"

definition norm_notif :: "notification \<Rightarrow> notification" where
  "norm_notif n = n\<lparr>nt_sent_at := trunc_ms (nt_sent_at n)\<rparr>"

definition norm_incident :: "incident \<Rightarrow> incident" where
  "norm_incident i = i\<lparr>in_triggered_at := trunc_ms (in_triggered_at i), in_resolved_at := zero_time\<rparr>"

lemma norm_time_pos: "millisecond \<le> t \<Longrightarrow> norm_time t = trunc_ms t"
  using unix_milli_pos [of t] zero_time_neg by (auto simp: norm_time_def trunc_ms_def)

lemma norm_time_zero [simp]: "norm_time zero_time = zero_time"
  by (simp add: norm_time_def)

lemma norm_time_idem [simp]: "norm_time (norm_time t) = norm_time t"
  using zero_time_neg of_unix_milli_pos [of "unix_milli t"]
  by (auto simp: norm_time_def)

lemma norm_live_simps [simp]:
  "ls_rule_id (norm_live x) = ls_rule_id x" "ls_state (norm_live x) = ls_state x"
  "ls_incident_id (norm_live x) = ls_incident_id x" "ls_last_value (norm_live x) = ls_last_value x"
  "ls_last_error (norm_live x) = ls_last_error x"
  "ls_triggered_at (norm_live x) = norm_time (ls_triggered_at x)"
  "ls_last_eval_at (norm_live x) = norm_time (ls_last_eval_at x)"
  by (simp_all add: norm_live_def)

lemma norm_sub_state_simps [simp]:
  "ss_incident_id (norm_sub_state x) = ss_incident_id x"
  "ss_subscription_id (norm_sub_state x) = ss_subscription_id x"
  "ss_notify_count (norm_sub_state x) = ss_notify_count x"
  "ss_resolution_sent (norm_sub_state x) = ss_resolution_sent x"
  "ss_last_notified_at (norm_sub_state x) = norm_time (ss_last_notified_at x)"
  by (simp_all add: norm_sub_state_def)

lemma norm_notif_simps [simp]:
  "nt_id (norm_notif n) = nt_id n" "nt_kind (norm_notif n) = nt_kind n"
  "nt_subscription_id (norm_notif n) = nt_subscription_id n"
  "nt_incident_id (norm_notif n) = nt_incident_id n"
  by (simp_all add: norm_notif_def)

lemma norm_incident_simps [simp]:
  "in_id (norm_incident i) = in_id i" "in_rule_id (norm_incident i) = in_rule_id i"
  "in_resolved_at (norm_incident i) = zero_time"
  by (simp_all add: norm_incident_def)

record store_view =
  v_live :: "string \<Rightarrow> live_state option"
  v_incident :: "string \<Rightarrow> incident option"
  v_subs :: "subscription list"
  v_sub_state :: "string \<Rightarrow> string \<Rightarrow> sub_state option"
  v_notifs :: "notification list"
  v_subscriber :: "string \<Rightarrow> subscriber option"

text \<open>
  The subscriptions a rule reaches: bound to its id, or with a non-empty selector all of whose
  entries the labels carry; reading an absent label gives the empty string.
\<close>

definition label_at :: "(string \<times> string) list \<Rightarrow> string \<Rightarrow> string" where
  "label_at m k = (case map_of m k of None \<Rightarrow> '''' | Some v \<Rightarrow> v)"

definition selector_matches :: "(string \<times> string) list \<Rightarrow> (string \<times> string) list \<Rightarrow> bool" where
  "selector_matches selector actual \<longleftrightarrow>
     selector \<noteq> [] \<and> (\<forall>(k, v) \<in> set selector. label_at actual k = v)"

definition subs_for_rule ::
  "string \<Rightarrow> (string \<times> string) list \<Rightarrow> subscription list \<Rightarrow> subscription list" where
  "subs_for_rule rid labels subs =
     filter (\<lambda>s. su_rule_id s \<noteq> '''' \<and> su_rule_id s = rid) subs @
     filter (\<lambda>s. su_rule_id s = '''' \<and> selector_matches (su_label_selector s) labels) subs"

section \<open>Contracts\<close>

definition op_reads :: "('s \<Rightarrow> 'v) \<Rightarrow> ('s, 'a) op \<Rightarrow> ('v \<Rightarrow> 'a) \<Rightarrow> bool" where
  "op_reads view m f \<longleftrightarrow>
     (\<forall>s r s'. m s = (r, s') \<longrightarrow> view s' = view s \<and> (\<forall>x. r = Inr x \<longrightarrow> x = f (view s)))"

definition op_writes :: "('s \<Rightarrow> 'v) \<Rightarrow> ('s, 'a) op \<Rightarrow> ('v \<Rightarrow> bool) \<Rightarrow> ('v \<Rightarrow> 'v) \<Rightarrow> bool" where
  "op_writes view m P g \<longleftrightarrow>
     (\<forall>s r s'. m s = (r, s') \<longrightarrow>
        (case r of Inl e \<Rightarrow> view s' = view s | Inr x \<Rightarrow> P (view s) \<and> view s' = g (view s)))"

lemma op_readsI:
  "(\<And>s r s'. m s = (r, s') \<Longrightarrow> view s' = view s \<and> (\<forall>x. r = Inr x \<longrightarrow> x = f (view s))) \<Longrightarrow>
   op_reads view m f"
  by (auto simp: op_reads_def)

lemma op_writesI:
  "(\<And>s r s'. m s = (r, s') \<Longrightarrow>
      (case r of Inl e \<Rightarrow> view s' = view s | Inr x \<Rightarrow> P (view s) \<and> view s' = g (view s))) \<Longrightarrow>
   op_writes view m P g"
  unfolding op_writes_def by blast

lemma op_readsD:
  "op_reads view m f \<Longrightarrow> m s = (r, s') \<Longrightarrow> view s' = view s"
  "op_reads view m f \<Longrightarrow> m s = (Inr x, s') \<Longrightarrow> x = f (view s)"
  by (auto simp: op_reads_def)

lemma op_writesD:
  "op_writes view m P g \<Longrightarrow> m s = (Inl e, s') \<Longrightarrow> view s' = view s"
  "op_writes view m P g \<Longrightarrow> m s = (Inr x, s') \<Longrightarrow> P (view s)"
  "op_writes view m P g \<Longrightarrow> m s = (Inr x, s') \<Longrightarrow> view s' = g (view s)"
  by (fastforce simp: op_writes_def)+

lemma op_reads_wp:
  assumes "op_reads view m f"
    and "\<And>e s'. view s' = view s \<Longrightarrow> Q (Inl e) s'"
    and "\<And>s'. view s' = view s \<Longrightarrow> Q (Inr (f (view s))) s'"
  shows "op_wp m Q s"
proof (rule op_wpI)
  fix r s' assume run: "m s = (r, s')"
  show "Q r s'"
  proof (cases r)
    case (Inl e)
    with run show ?thesis using assms(2) op_readsD(1) [OF assms(1)] by simp
  next
    case (Inr x)
    with run show ?thesis using assms(3) op_readsD [OF assms(1)] by blast
  qed
qed

lemma op_writes_wp:
  assumes "op_writes view m P g"
    and "\<And>e s'. view s' = view s \<Longrightarrow> Q (Inl e) s'"
    and "\<And>x s'. P (view s) \<Longrightarrow> view s' = g (view s) \<Longrightarrow> Q (Inr x) s'"
  shows "op_wp m Q s"
proof (rule op_wpI)
  fix r s' assume run: "m s = (r, s')"
  show "Q r s'"
  proof (cases r)
    case (Inl e)
    with run show ?thesis using assms(2) op_writesD(1) [OF assms(1)] by simp
  next
    case (Inr x)
    with run show ?thesis using assms(3) op_writesD(2,3) [OF assms(1)] by simp
  qed
qed

definition put_live :: "live_state \<Rightarrow> store_view \<Rightarrow> store_view" where
  "put_live x v = v\<lparr>v_live := (v_live v)(ls_rule_id x \<mapsto> norm_live x)\<rparr>"

definition put_incident :: "incident \<Rightarrow> store_view \<Rightarrow> store_view" where
  "put_incident i v = v\<lparr>v_incident := (v_incident v)(in_id i \<mapsto> norm_incident i)\<rparr>"

definition resolve_incident :: "string \<Rightarrow> int \<Rightarrow> store_view \<Rightarrow> store_view" where
  "resolve_incident i ms v =
     v\<lparr>v_incident := (\<lambda>j. if j = i then map_option (\<lambda>x. x\<lparr>in_resolved_at := of_unix_milli ms\<rparr>) (v_incident v j)
                          else v_incident v j)\<rparr>"

definition put_sub_state :: "sub_state \<Rightarrow> store_view \<Rightarrow> store_view" where
  "put_sub_state x v =
     v\<lparr>v_sub_state := (\<lambda>i j. if i = ss_incident_id x \<and> j = ss_subscription_id x
                            then Some (norm_sub_state x) else v_sub_state v i j)\<rparr>"

definition add_notif :: "notification \<Rightarrow> store_view \<Rightarrow> store_view" where
  "add_notif n v = v\<lparr>v_notifs := v_notifs v @ [norm_notif n]\<rparr>"

lemmas view_updates =
  put_live_def put_incident_def resolve_incident_def put_sub_state_def add_notif_def

locale dispatch_store =
  fixes st :: "'s store" and view :: "'s \<Rightarrow> store_view"
  assumes live_get: "op_reads view (lr_get (st_live_states st) rid) (\<lambda>v. v_live v rid)"
    and live_upsert: "op_writes view (lr_upsert (st_live_states st) x) (\<lambda>_. True) (put_live x)"
    and inc_open: "op_writes view (inr_open (st_incidents st) i)
                     (\<lambda>v. v_incident v (in_id i) = None) (put_incident i)"
    and inc_resolve: "op_writes view (inr_resolve (st_incidents st) iid ms) (\<lambda>_. True)
                        (resolve_incident iid ms)"
    and list_for_rule: "rid \<noteq> '''' \<Longrightarrow> op_reads view (sur_list_for_rule (st_subscriptions st) rid labels)
                          (\<lambda>v. subs_for_rule rid labels (v_subs v))"
    and sub_state_get: "op_reads view (ssr_get (st_sub_states st) iid sid) (\<lambda>v. v_sub_state v iid sid)"
    and sub_state_upsert: "op_writes view (ssr_upsert (st_sub_states st) y) (\<lambda>_. True) (put_sub_state y)"
    and notif_exists: "op_reads view (nr_exists_for_subscription (st_notifications st) sid)
                         (\<lambda>v. sid \<in> nt_subscription_id ` set (v_notifs v))"
    and notif_record: "op_writes view (nr_record (st_notifications st) n)
                         (\<lambda>v. nt_id n \<notin> nt_id ` set (v_notifs v)) (add_notif n)"
    and subscriber_get: "op_reads view (sbr_get (st_subscribers st) sb) (\<lambda>v. v_subscriber v sb)"

text \<open>States in which no call fails; \<open>ok\<close> is kept by the calls the dispatcher makes.\<close>

definition op_total :: "('s \<Rightarrow> bool) \<Rightarrow> ('s \<Rightarrow> bool) \<Rightarrow> ('s, 'a) op \<Rightarrow> bool" where
  "op_total ok P m \<longleftrightarrow> (\<forall>s r s'. ok s \<longrightarrow> P s \<longrightarrow> m s = (r, s') \<longrightarrow> is_ok r \<and> ok s')"

locale reliable_store = dispatch_store +
  fixes ok :: "'s \<Rightarrow> bool"
  assumes live_get_ok: "op_total ok (\<lambda>_. True) (lr_get (st_live_states st) rid)"
    and live_upsert_ok: "op_total ok (\<lambda>_. True) (lr_upsert (st_live_states st) x)"
    and inc_open_ok: "op_total ok (\<lambda>s. v_incident (view s) (in_id i) = None)
                        (inr_open (st_incidents st) i)"
    and inc_resolve_ok: "op_total ok (\<lambda>_. True) (inr_resolve (st_incidents st) iid ms)"
    and list_for_rule_ok: "op_total ok (\<lambda>_. True) (sur_list_for_rule (st_subscriptions st) rid labels)"
    and sub_state_get_ok: "op_total ok (\<lambda>_. True) (ssr_get (st_sub_states st) iid sid)"
    and sub_state_upsert_ok: "op_total ok (\<lambda>_. True) (ssr_upsert (st_sub_states st) y)"
    and notif_exists_ok: "op_total ok (\<lambda>_. True) (nr_exists_for_subscription (st_notifications st) sid)"
    and notif_record_ok: "op_total ok (\<lambda>s. nt_id n \<notin> nt_id ` set (v_notifs (view s)))
                            (nr_record (st_notifications st) n)"
    and subscriber_get_ok: "op_total ok (\<lambda>_. True) (sbr_get (st_subscribers st) sb)"

end
