(* ===== verification/Dispatcher.thy ===== *)
theory Dispatcher
  imports Store_Iface
begin

text \<open>
  internal/dispatcher/dispatcher.go: ticks, the per-subscription state machine and delivery,
  over any store. A channel is the outcome of its Send for the number of sends made so far and
  the payload, so that every pattern of failures is covered; the generator of identifiers is
  the sequence of the values it returns. Spans and log lines are not modelled, with the
  counters that only they use.
\<close>

section \<open>Dispatcher and world\<close>

record channel_notification =
  cn_incident_id :: string
  cn_rule_id :: string
  cn_rule_name :: string
  cn_severity :: string
  cn_description :: string
  cn_value :: string
  cn_kind :: string
  cn_address :: string
  cn_now :: time
  cn_triggered_at :: time

type_synonym channel_send = "nat \<Rightarrow> channel_notification \<Rightarrow> go_error option"

record 's dispatcher =
  d_store :: "'s store"
  d_channels :: "string \<Rightarrow> channel_send option"
  d_id :: "nat \<Rightarrow> string"

text \<open>\<open>w_ids\<close> counts the identifiers handed out, \<open>w_sent\<close> logs the calls of Send.\<close>

record sent_entry =
  se_channel :: string
  se_payload :: channel_notification
  se_outcome :: "go_error option"

record 's world =
  w_store :: 's
  w_ids :: nat
  w_sent :: "sent_entry list"

definition on_store :: "('s, 'a) op \<Rightarrow> ('s world, 'a) op" where
  "on_store m w = (case m (w_store w) of (r, s') \<Rightarrow> (r, w\<lparr>w_store := s'\<rparr>))"

definition fresh_id :: "'s dispatcher \<Rightarrow> ('s world, string) op" where
  "fresh_id d w = (Inr (d_id d (w_ids w)), w\<lparr>w_ids := Suc (w_ids w)\<rparr>)"

definition do_send ::
  "string \<Rightarrow> channel_send \<Rightarrow> channel_notification \<Rightarrow> ('s world, go_error option) op" where
  "do_send ch send n w =
     (let res = send (length (w_sent w)) n
      in (Inr res, w\<lparr>w_sent := w_sent w @ [\<lparr>se_channel = ch, se_payload = n, se_outcome = res\<rparr>]\<rparr>))"

section \<open>Delivery\<close>

definition channel_filter_set :: "string list \<Rightarrow> string set option" where
  "channel_filter_set flt = (if flt = [] then None else Some (set flt))"

definition payload ::
  "rule \<Rightarrow> string \<Rightarrow> string \<Rightarrow> string \<Rightarrow> time \<Rightarrow> channel_binding \<Rightarrow> channel_notification" where
  "payload r inc kind val now b =
     \<lparr>cn_incident_id = inc, cn_rule_id = r_id r, cn_rule_name = r_name r,
      cn_severity = r_severity r, cn_description = r_description r, cn_value = val,
      cn_kind = kind, cn_address = cb_address b, cn_now = now, cn_triggered_at = now\<rparr>"

definition audit_record ::
  "string \<Rightarrow> subscription \<Rightarrow> subscriber \<Rightarrow> string \<Rightarrow> string \<Rightarrow> time \<Rightarrow> channel_binding
   \<Rightarrow> go_error option \<Rightarrow> notification" where
  "audit_record i sub row inc kind now b res =
     \<lparr>nt_id = i, nt_incident_id = inc, nt_subscription_id = su_id sub, nt_subscriber_id = sb_id row,
      nt_channel = cb_channel b, nt_address = cb_address b, nt_kind = kind, nt_sent_at = now,
      nt_status = (case res of None \<Rightarrow> ''ok'' | Some e \<Rightarrow> ''error''),
      nt_error = (case res of None \<Rightarrow> '''' | Some e \<Rightarrow> err_text e)\<rparr>"

definition deliver_binding ::
  "'s dispatcher \<Rightarrow> rule \<Rightarrow> subscription \<Rightarrow> subscriber \<Rightarrow> string \<Rightarrow> string \<Rightarrow> string \<Rightarrow> time
   \<Rightarrow> channel_binding \<Rightarrow> ('s world, unit) op" where
  "deliver_binding d r sub row inc kind val now b =
     (if (case channel_filter_set (su_channel_filter sub) of
            None \<Rightarrow> False | Some allowed \<Rightarrow> cb_channel b \<notin> allowed)
      then op_return ()
      else (case d_channels d (cb_channel b) of
              None \<Rightarrow> op_return ()
            | Some send \<Rightarrow>
                op_bind (fresh_id d) (\<lambda>i.
                op_bind (do_send (cb_channel b) send (payload r inc kind val now b)) (\<lambda>res.
                op_logged (on_store (nr_record (st_notifications (d_store d))
                  (audit_record i sub row inc kind now b res)))))))"

definition deliver_all ::
  "'s dispatcher \<Rightarrow> rule \<Rightarrow> subscription \<Rightarrow> string \<Rightarrow> string \<Rightarrow> string \<Rightarrow> time
   \<Rightarrow> ('s world, unit) op" where
  "deliver_all d r sub inc kind val now =
     op_bind (on_store (sbr_get (st_subscribers (d_store d)) (su_subscriber_id sub))) (\<lambda>found.
       case found of
         None \<Rightarrow> op_fail (ErrNew (''subscriber '' @ su_subscriber_id sub @ '' not found''))
       | Some row \<Rightarrow> op_for (deliver_binding d r sub row inc kind val now) (sb_channels row))"

definition deliver ::
  "'s dispatcher \<Rightarrow> rule \<Rightarrow> subscription \<Rightarrow> string \<Rightarrow> string \<Rightarrow> string \<Rightarrow> time
   \<Rightarrow> ('s world, unit) op" where
  "deliver d r sub inc kind val now =
     op_bind (if su_one_shot sub
              then op_wrap ''dispatcher: one_shot lookup'' (on_store
                     (nr_exists_for_subscription (st_notifications (d_store d)) (su_id sub)))
              else op_return False) (\<lambda>seen.
     if seen then op_return () else deliver_all d r sub inc kind val now)"

section \<open>The per-subscription state machine\<close>

definition put_state :: "'s dispatcher \<Rightarrow> sub_state \<Rightarrow> ('s world, unit) op" where
  "put_state d st = on_store (ssr_upsert (st_sub_states (d_store d)) st)"

definition evaluate_subscription ::
  "'s dispatcher \<Rightarrow> rule \<Rightarrow> live_state \<Rightarrow> subscription \<Rightarrow> transition \<Rightarrow> time \<Rightarrow> ('s world, unit) op" where
  "evaluate_subscription d r ls sub t now =
     (if tr_closed t \<and> tr_incident_id t \<noteq> '''' then
        op_bind (on_store (ssr_get (st_sub_states (d_store d)) (tr_incident_id t) (su_id sub))) (\<lambda>found.
          case found of
            None \<Rightarrow> op_return ()
          | Some state \<Rightarrow>
              if ss_notify_count state = 0 \<or> ss_resolution_sent state then op_return ()
              else if \<not> su_notify_on_resolve sub then op_return ()
              else op_bind (deliver d r sub (tr_incident_id t) kind_resolved (ls_last_value ls) now)
                (\<lambda>_. put_state d (state\<lparr>ss_resolution_sent := True\<rparr>)))
      else if ls_state ls \<noteq> state_firing then op_return ()
      else if time_sub now (ls_triggered_at ls) < su_dwell sub then op_return ()
      else
        op_bind (on_store (ssr_get (st_sub_states (d_store d)) (ls_incident_id ls) (su_id sub))) (\<lambda>found.
          let state = (case found of None \<Rightarrow> fresh_sub_state (ls_incident_id ls) (su_id sub)
                       | Some st \<Rightarrow> st)
          in if ss_notify_count state = 0 then
               op_bind (deliver d r sub (ls_incident_id ls) kind_firing (ls_last_value ls) now)
                 (\<lambda>_. put_state d (state\<lparr>ss_last_notified_at := now, ss_notify_count := 1\<rparr>))
             else if 0 < su_repeat_interval sub \<and>
                     su_repeat_interval sub \<le> time_sub now (ss_last_notified_at state) then
               op_bind (deliver d r sub (ls_incident_id ls) kind_repeat (ls_last_value ls) now)
                 (\<lambda>_. put_state d (state\<lparr>ss_last_notified_at := now,
                                         ss_notify_count := ss_notify_count state + 1\<rparr>))
             else op_return ()))"

section \<open>Tick\<close>

definition open_or_close ::
  "'s dispatcher \<Rightarrow> rule \<Rightarrow> transition \<Rightarrow> string \<Rightarrow> time \<Rightarrow> ('s world, unit) op" where
  "open_or_close d r t val now =
     (if tr_opened t then
        op_wrap ''dispatcher: open incident'' (on_store (inr_open (st_incidents (d_store d))
          \<lparr>in_id = tr_incident_id t, in_rule_id = r_id r, in_triggered_at = tr_triggered_at t,
           in_resolved_at = zero_time, in_last_value = val\<rparr>))
      else if tr_closed t then
        op_wrap ''dispatcher: resolve incident'' (on_store
          (inr_resolve (st_incidents (d_store d)) (tr_incident_id t) (unix_milli now)))
      else op_return ())"

definition tick ::
  "'s dispatcher \<Rightarrow> rule \<Rightarrow> bool \<Rightarrow> string \<Rightarrow> time \<Rightarrow> ('s world, unit) op" where
  "tick d r triggered val now =
     op_bind (op_wrap ''dispatcher: load live state''
                (on_store (lr_get (st_live_states (d_store d)) (r_id r)))) (\<lambda>found.
       let ls0 = (case found of None \<Rightarrow> fresh_live_state (r_id r) | Some ls \<Rightarrow> ls) in
     op_bind (if triggered \<and> ls_state ls0 \<noteq> state_firing then fresh_id d else op_return '''') (\<lambda>new_id.
       let ls = fst (apply_outcome ls0 triggered val now new_id);
           t = snd (apply_outcome ls0 triggered val now new_id) in
     op_bind (op_wrap ''dispatcher: upsert live state''
                (on_store (lr_upsert (st_live_states (d_store d)) ls))) (\<lambda>_.
     op_bind (open_or_close d r t val now) (\<lambda>_.
     op_bind (op_wrap ''dispatcher: list subscriptions''
                (on_store (sur_list_for_rule (st_subscriptions (d_store d)) (r_id r) (r_labels r)))) (\<lambda>subs.
       op_for (\<lambda>sub. op_logged (evaluate_subscription d r ls sub t now)) subs)))))"

section \<open>Specification\<close>

text \<open>
  The decision table of docs/ARCHITECTURE.md, on what is known of one subscription: what to
  send, if anything, and the delivery state that is recorded after a completed delivery.
\<close>

datatype decision = Quiet | Notify string

definition notified_before :: "sub_state option \<Rightarrow> bool" where
  "notified_before st \<longleftrightarrow> (\<exists>s. st = Some s \<and> ss_notify_count s \<noteq> 0)"

definition resolution_done :: "sub_state option \<Rightarrow> bool" where
  "resolution_done st \<longleftrightarrow> (\<exists>s. st = Some s \<and> ss_resolution_sent s)"

definition last_notified :: "sub_state option \<Rightarrow> time" where
  "last_notified st = (case st of None \<Rightarrow> zero_time | Some s \<Rightarrow> ss_last_notified_at s)"

definition decide ::
  "subscription \<Rightarrow> bool \<Rightarrow> bool \<Rightarrow> duration \<Rightarrow> sub_state option \<Rightarrow> time \<Rightarrow> decision" where
  "decide sub firing just_resolved triggered_for st now =
     (if just_resolved then
        (if notified_before st \<and> \<not> resolution_done st \<and> su_notify_on_resolve sub
         then Notify kind_resolved else Quiet)
      else if \<not> firing \<or> triggered_for < su_dwell sub then Quiet
      else if \<not> notified_before st then Notify kind_firing
      else if 0 < su_repeat_interval sub \<and> su_repeat_interval sub \<le> time_sub now (last_notified st)
        then Notify kind_repeat
      else Quiet)"

definition state_after :: "string \<Rightarrow> string \<Rightarrow> sub_state option \<Rightarrow> string \<Rightarrow> time \<Rightarrow> sub_state" where
  "state_after inc sid st kind now =
     (let s = (case st of None \<Rightarrow> fresh_sub_state inc sid | Some s \<Rightarrow> s) in
      if kind = kind_resolved then s\<lparr>ss_resolution_sent := True\<rparr>
      else s\<lparr>ss_last_notified_at := now, ss_notify_count := ss_notify_count s + 1\<rparr>)"

text \<open>The incident an evaluation is about, and the decision of one evaluation.\<close>

definition subject_incident :: "live_state \<Rightarrow> transition \<Rightarrow> string" where
  "subject_incident ls t = (if tr_closed t then tr_incident_id t else ls_incident_id ls)"

definition decision_for ::
  "live_state \<Rightarrow> transition \<Rightarrow> subscription \<Rightarrow> time \<Rightarrow> store_view \<Rightarrow> decision" where
  "decision_for ls t sub now v =
     decide sub (ls_state ls = state_firing) (tr_closed t) (time_sub now (ls_triggered_at ls))
       (v_sub_state v (subject_incident ls t) (su_id sub)) now"

text \<open>What a delivery sends: nothing when a one-shot subscription has a recorded notification.\<close>

definition eligible :: "'s dispatcher \<Rightarrow> subscription \<Rightarrow> subscriber \<Rightarrow> channel_binding list" where
  "eligible d sub row = filter (\<lambda>b.
     (su_channel_filter sub = [] \<or> cb_channel b \<in> set (su_channel_filter sub)) \<and>
     d_channels d (cb_channel b) \<noteq> None) (sb_channels row)"

definition one_shot_spent :: "subscription \<Rightarrow> store_view \<Rightarrow> bool" where
  "one_shot_spent sub v \<longleftrightarrow> su_one_shot sub \<and> su_id sub \<in> nt_subscription_id ` set (v_notifs v)"

definition messages ::
  "'s dispatcher \<Rightarrow> rule \<Rightarrow> subscription \<Rightarrow> string \<Rightarrow> string \<Rightarrow> string \<Rightarrow> time \<Rightarrow> store_view
   \<Rightarrow> (string \<times> channel_notification) list" where
  "messages d r sub inc kind val now v =
     (if one_shot_spent sub v then []
      else (case v_subscriber v (su_subscriber_id sub) of
              None \<Rightarrow> []
            | Some row \<Rightarrow> map (\<lambda>b. (cb_channel b, payload r inc kind val now b)) (eligible d sub row)))"

definition sent_messages :: "'s world \<Rightarrow> (string \<times> channel_notification) list" where
  "sent_messages w = map (\<lambda>e. (se_channel e, se_payload e)) (w_sent w)"

end
