(* ===== verification/Dispatcher_Spec.thy ===== *)
theory Dispatcher_Spec
  imports Dispatcher
begin

text \<open>
  The dispatcher against its decision table, for any store that keeps the contract
  \<open>dispatch_store\<close>: whatever calls fail, what a tick sends is what the table says or nothing.
\<close>

section \<open>Worlds\<close>

text \<open>Steps that the dispatcher does not observe.\<close>

definition unobserved :: "('s \<Rightarrow> store_view) \<Rightarrow> 's world \<Rightarrow> 's world \<Rightarrow> bool" where
  "unobserved view w w' \<longleftrightarrow>
     view (w_store w') = view (w_store w) \<and> w_ids w' = w_ids w \<and> w_sent w' = w_sent w"

lemma unobserved_refl [simp]: "unobserved view w w"
  by (simp add: unobserved_def)

lemma unobserved_trans: "unobserved view a b \<Longrightarrow> unobserved view b c \<Longrightarrow> unobserved view a c"
  by (simp add: unobserved_def)

lemma unobserved_view: "unobserved view w w' \<Longrightarrow> view (w_store w') = view (w_store w)"
  by (simp add: unobserved_def)

lemma on_store_reads:
  assumes "op_reads view m f"
    and "\<And>e w'. unobserved view w w' \<Longrightarrow> Q (Inl e) w'"
    and "\<And>w'. unobserved view w w' \<Longrightarrow> Q (Inr (f (view (w_store w)))) w'"
  shows "op_wp (on_store m) Q w"
proof -
  have "op_wp m (\<lambda>r s'. Q r (w\<lparr>w_store := s'\<rparr>)) (w_store w)"
    by (rule op_reads_wp [OF assms(1)]) (simp_all add: assms(2,3) unobserved_def)
  then show ?thesis by (auto simp: op_wp_def on_store_def split: prod.splits)
qed

lemma on_store_writes:
  assumes "op_writes view m P g"
    and "\<And>e w'. unobserved view w w' \<Longrightarrow> Q (Inl e) w'"
    and "\<And>x w'. P (view (w_store w)) \<Longrightarrow> view (w_store w') = g (view (w_store w)) \<Longrightarrow>
            w_ids w' = w_ids w \<Longrightarrow> w_sent w' = w_sent w \<Longrightarrow> Q (Inr x) w'"
  shows "op_wp (on_store m) Q w"
proof -
  have "op_wp m (\<lambda>r s'. Q r (w\<lparr>w_store := s'\<rparr>)) (w_store w)"
    by (rule op_writes_wp [OF assms(1)]) (simp_all add: assms(2,3) unobserved_def)
  then show ?thesis by (auto simp: op_wp_def on_store_def split: prod.splits)
qed

lemma op_wp_fresh_id [wp_simps]:
  "op_wp (fresh_id d) Q w \<longleftrightarrow> Q (Inr (d_id d (w_ids w))) (w\<lparr>w_ids := Suc (w_ids w)\<rparr>)"
  by (simp add: op_wp_def fresh_id_def)

lemma op_wp_do_send [wp_simps]:
  "op_wp (do_send ch send n) Q w \<longleftrightarrow>
     Q (Inr (send (length (w_sent w)) n))
       (w\<lparr>w_sent := w_sent w @ [\<lparr>se_channel = ch, se_payload = n,
                                  se_outcome = send (length (w_sent w)) n\<rparr>]\<rparr>)"
  by (simp add: op_wp_def do_send_def Let_def)

lemma sent_messages_simps [simp]:
  "sent_messages (w\<lparr>w_store := s\<rparr>) = sent_messages w"
  "sent_messages (w\<lparr>w_ids := n\<rparr>) = sent_messages w"
  "sent_messages (w\<lparr>w_sent := es\<rparr>) = map (\<lambda>e. (se_channel e, se_payload e)) es"
  by (simp_all add: sent_messages_def)

text \<open>
  The effect of a delivery on the world: messages sent, identifiers used, audit records of
  the one subscription and incident appended (fewer than messages when recording fails), the
  rest of the store as before.
\<close>

definition delivered ::
  "('s \<Rightarrow> store_view) \<Rightarrow> 's dispatcher \<Rightarrow> string \<Rightarrow> string \<Rightarrow> (string \<times> channel_notification) list
   \<Rightarrow> 's world \<Rightarrow> 's world \<Rightarrow> bool" where
  "delivered view d sid inc msgs w w' \<longleftrightarrow>
     sent_messages w' = sent_messages w @ msgs \<and> w_ids w \<le> w_ids w' \<and>
     (\<exists>new. view (w_store w') = (view (w_store w))\<lparr>v_notifs := v_notifs (view (w_store w)) @ new\<rparr> \<and>
        (\<forall>n \<in> set new. nt_subscription_id n = sid \<and> nt_incident_id n = inc \<and>
           nt_id n \<in> d_id d ` {w_ids w..<w_ids w'}))"

lemma delivered_refl [simp]: "delivered view d sid inc [] w w"
  by (auto simp: delivered_def intro: exI [of _ "[]"])

lemma delivered_same:
  "view (w_store w') = view (w_store w) \<Longrightarrow> w_ids w \<le> w_ids w' \<Longrightarrow>
   sent_messages w' = sent_messages w @ ms \<Longrightarrow> delivered view d sid inc ms w w'"
  by (auto simp: delivered_def intro!: exI [of _ "[]"])

lemma delivered_trans:
  assumes "delivered view d sid inc ms w w1" and "delivered view d sid inc ms' w1 w2"
  shows "delivered view d sid inc (ms @ ms') w w2"
proof -
  obtain n1 where n1: "view (w_store w1) = (view (w_store w))\<lparr>v_notifs := v_notifs (view (w_store w)) @ n1\<rparr>"
    "\<forall>n \<in> set n1. nt_subscription_id n = sid \<and> nt_incident_id n = inc \<and>
       nt_id n \<in> d_id d ` {w_ids w..<w_ids w1}"
    using assms(1) by (auto simp: delivered_def)
  obtain n2 where n2: "view (w_store w2) = (view (w_store w1))\<lparr>v_notifs := v_notifs (view (w_store w1)) @ n2\<rparr>"
    "\<forall>n \<in> set n2. nt_subscription_id n = sid \<and> nt_incident_id n = inc \<and>
       nt_id n \<in> d_id d ` {w_ids w1..<w_ids w2}"
    using assms(2) by (auto simp: delivered_def)
  have le: "w_ids w \<le> w_ids w1" "w_ids w1 \<le> w_ids w2" using assms by (auto simp: delivered_def)
  have "view (w_store w2) = (view (w_store w))\<lparr>v_notifs := v_notifs (view (w_store w)) @ (n1 @ n2)\<rparr>"
    using n1(1) n2(1) by simp
  moreover have "{w_ids w..<w_ids w1} \<subseteq> {w_ids w..<w_ids w2}" "{w_ids w1..<w_ids w2} \<subseteq> {w_ids w..<w_ids w2}"
    using le by auto
  then have "\<forall>n \<in> set (n1 @ n2). nt_subscription_id n = sid \<and> nt_incident_id n = inc \<and>
       nt_id n \<in> d_id d ` {w_ids w..<w_ids w2}"
    using n1(2) n2(2) by auto
  moreover have "sent_messages w2 = sent_messages w @ (ms @ ms')"
    using assms by (simp add: delivered_def)
  moreover have "w_ids w \<le> w_ids w2" using le by simp
  ultimately show ?thesis unfolding delivered_def by blast
qed

lemma delivered_viewD:
  "delivered view d sid inc ms w w' \<Longrightarrow> v_sub_state (view (w_store w')) = v_sub_state (view (w_store w))"
  "delivered view d sid inc ms w w' \<Longrightarrow> v_live (view (w_store w')) = v_live (view (w_store w))"
  "delivered view d sid inc ms w w' \<Longrightarrow> v_incident (view (w_store w')) = v_incident (view (w_store w))"
  "delivered view d sid inc ms w w' \<Longrightarrow> v_subs (view (w_store w')) = v_subs (view (w_store w))"
  "delivered view d sid inc ms w w' \<Longrightarrow> v_subscriber (view (w_store w')) = v_subscriber (view (w_store w))"
  by (auto simp: delivered_def)

lemma delivered_unobserved: "unobserved view w w' \<Longrightarrow> delivered view d sid inc [] w w'"
  by (rule delivered_same) (simp_all add: unobserved_def sent_messages_def)

text \<open>A failed evaluation of a subscription may still have delivered; it changes no state.\<close>

definition evaluated ::
  "('s \<Rightarrow> store_view) \<Rightarrow> 's dispatcher \<Rightarrow> string \<Rightarrow> string \<Rightarrow> sub_state option
   \<Rightarrow> (string \<times> channel_notification) list \<Rightarrow> 's world \<Rightarrow> 's world \<Rightarrow> bool" where
  "evaluated view d sid inc st msgs w w' \<longleftrightarrow>
     (\<exists>w1. delivered view d sid inc msgs w w1 \<and> sent_messages w' = sent_messages w1 \<and>
        w_ids w' = w_ids w1 \<and>
        view (w_store w') = (case st of None \<Rightarrow> view (w_store w1)
                             | Some s \<Rightarrow> put_sub_state s (view (w_store w1))))"

lemma evaluated_quiet: "delivered view d sid inc ms w w' \<Longrightarrow> evaluated view d sid inc None ms w w'"
  by (auto simp: evaluated_def)

lemma evaluated_put:
  "delivered view d sid inc ms w w1 \<Longrightarrow> w_sent w' = w_sent w1 \<Longrightarrow> w_ids w' = w_ids w1 \<Longrightarrow>
   view (w_store w') = put_sub_state s (view (w_store w1)) \<Longrightarrow>
   evaluated view d sid inc (Some s) ms w w'"
  by (auto simp: evaluated_def sent_messages_def)

lemma evaluated_after:
  "unobserved view w w1 \<Longrightarrow> evaluated view d sid inc st ms w1 w' \<Longrightarrow> evaluated view d sid inc st ms w w'"
  unfolding evaluated_def by (metis append_Nil delivered_trans delivered_unobserved)

text \<open>
  One evaluation of a subscription, by its decision: completed, or given up after a failing
  call, in which case the messages may have gone out but no state is recorded.
\<close>

definition step_done ::
  "('s \<Rightarrow> store_view) \<Rightarrow> 's dispatcher \<Rightarrow> rule \<Rightarrow> live_state \<Rightarrow> transition \<Rightarrow> time \<Rightarrow> subscription
   \<Rightarrow> 's world \<Rightarrow> 's world \<Rightarrow> bool" where
  "step_done view d r ls t now sub w w' =
     (let v = view (w_store w); inc = subject_incident ls t in
      case decision_for ls t sub now v of
        Quiet \<Rightarrow> evaluated view d (su_id sub) inc None [] w w'
      | Notify k \<Rightarrow> evaluated view d (su_id sub) inc
          (Some (state_after inc (su_id sub) (v_sub_state v inc (su_id sub)) k now))
          (messages d r sub inc k (ls_last_value ls) now v) w w')"

definition step_failed ::
  "('s \<Rightarrow> store_view) \<Rightarrow> 's dispatcher \<Rightarrow> rule \<Rightarrow> live_state \<Rightarrow> transition \<Rightarrow> time \<Rightarrow> subscription
   \<Rightarrow> 's world \<Rightarrow> 's world \<Rightarrow> bool" where
  "step_failed view d r ls t now sub w w' =
     (let v = view (w_store w); inc = subject_incident ls t in
      case decision_for ls t sub now v of
        Quiet \<Rightarrow> evaluated view d (su_id sub) inc None [] w w'
      | Notify k \<Rightarrow> evaluated view d (su_id sub) inc None [] w w' \<or>
          evaluated view d (su_id sub) inc None
            (messages d r sub inc k (ls_last_value ls) now v) w w')"

definition closes_known :: "live_state \<Rightarrow> transition \<Rightarrow> bool" where
  "closes_known ls t \<longleftrightarrow> (tr_closed t \<longrightarrow> tr_incident_id t \<noteq> [] \<and> ls_state ls \<noteq> state_firing)"

lemma channel_filter_allows:
  "(case channel_filter_set flt of None \<Rightarrow> False | Some allowed \<Rightarrow> ch \<notin> allowed) \<longleftrightarrow>
   \<not> (flt = [] \<or> ch \<in> set flt)"
  by (simp add: channel_filter_set_def)

context dispatch_store
begin

subsection \<open>Delivery\<close>

lemma deliver_binding_effect:
  assumes "d_store d = st"
  shows "op_wp (deliver_binding d r sub row inc kind val now b)
    (\<lambda>res w'. res = Inr () \<and> delivered view d (su_id sub) inc
       (if (su_channel_filter sub = [] \<or> cb_channel b \<in> set (su_channel_filter sub)) \<and>
           d_channels d (cb_channel b) \<noteq> None
        then [(cb_channel b, payload r inc kind val now b)] else []) w w') w"
proof (cases "(su_channel_filter sub = [] \<or> cb_channel b \<in> set (su_channel_filter sub)) \<and>
           d_channels d (cb_channel b) \<noteq> None")
  case False
  then show ?thesis
    by (auto simp: deliver_binding_def channel_filter_allows wp_simps split: option.splits)
next
  case True
  then obtain send where send: "d_channels d (cb_channel b) = Some send" by auto
  let ?n = "payload r inc kind val now b"
  let ?res = "send (length (w_sent w)) ?n"
  let ?a = "audit_record (d_id d (w_ids w)) sub row inc kind now b ?res"
  let ?w1 = "w\<lparr>w_ids := Suc (w_ids w), w_sent := w_sent w @
     [\<lparr>se_channel = cb_channel b, se_payload = ?n, se_outcome = ?res\<rparr>]\<rparr>"
  have msgs: "sent_messages w' = sent_messages w @ [(cb_channel b, ?n)]"
    if "w_sent w' = w_sent ?w1" for w' :: "'s world" using that by (simp add: sent_messages_def)
  have "op_wp (on_store (nr_record (st_notifications st) ?a))
      (\<lambda>_. delivered view d (su_id sub) inc [(cb_channel b, ?n)] w) ?w1"
  proof (rule on_store_writes [OF notif_record])
    fix w' :: "'s world" assume "unobserved view ?w1 w'"
    then show "delivered view d (su_id sub) inc [(cb_channel b, ?n)] w w'"
      using msgs [of w'] by (intro delivered_same) (simp_all add: unobserved_def)
  next
    fix w' :: "'s world" assume "view (w_store w') = add_notif ?a (view (w_store ?w1))"
      "w_ids w' = w_ids ?w1" "w_sent w' = w_sent ?w1"
    then show "delivered view d (su_id sub) inc [(cb_channel b, ?n)] w w'"
      using msgs [of w'] unfolding delivered_def
      by (auto simp: add_notif_def audit_record_def intro!: exI [of _ "[norm_notif ?a]"])
  qed
  then show ?thesis using True send assms
    by (simp add: deliver_binding_def channel_filter_allows wp_simps)
qed

lemma deliver_bindings_effect:
  assumes "d_store d = st"
  shows "op_wp (op_for (deliver_binding d r sub row inc kind val now) bs)
    (\<lambda>res w'. res = Inr () \<and> delivered view d (su_id sub) inc
       (map (\<lambda>b. (cb_channel b, payload r inc kind val now b))
          (filter (\<lambda>b. (su_channel_filter sub = [] \<or> cb_channel b \<in> set (su_channel_filter sub)) \<and>
             d_channels d (cb_channel b) \<noteq> None) bs)) w w') w"
proof (induction bs arbitrary: w)
  case Nil
  then show ?case by (simp add: wp_simps)
next
  case (Cons b bs)
  show ?case unfolding op_for.simps op_wp_bind
    by (rule op_wp_mono [OF deliver_binding_effect [OF assms]])
      (auto intro!: op_wp_mono [OF Cons.IH] dest: delivered_trans)
qed

lemma deliver_all_effect:
  assumes "d_store d = st"
  shows "op_wp (deliver_all d r sub inc kind val now)
    (\<lambda>res w'. case res of
       Inl e \<Rightarrow> delivered view d (su_id sub) inc [] w w'
     | Inr _ \<Rightarrow> delivered view d (su_id sub) inc
         (case v_subscriber (view (w_store w)) (su_subscriber_id sub) of
            None \<Rightarrow> []
          | Some row \<Rightarrow> map (\<lambda>b. (cb_channel b, payload r inc kind val now b)) (eligible d sub row)) w w') w"
  unfolding deliver_all_def op_wp_bind assms
proof (rule on_store_reads [OF subscriber_get], goal_cases)
  case (1 e w1)
  then show ?case by (simp add: delivered_unobserved)
next
  case (2 w1)
  then have start: "delivered view d (su_id sub) inc [] w w1" by (rule delivered_unobserved)
  show ?case
  proof (cases "v_subscriber (view (w_store w)) (su_subscriber_id sub)")
    case None
    with start show ?thesis by (simp add: wp_simps)
  next
    case (Some row)
    have "op_wp (op_for (deliver_binding d r sub row inc kind val now) (sb_channels row))
      (\<lambda>res w'. res = Inr () \<and> delivered view d (su_id sub) inc
         (map (\<lambda>b. (cb_channel b, payload r inc kind val now b)) (eligible d sub row)) w w') w1"
      unfolding eligible_def
      by (rule op_wp_mono [OF deliver_bindings_effect [OF assms]])
        (use delivered_trans [OF start] in auto)
    then have "op_wp (op_for (deliver_binding d r sub row inc kind val now) (sb_channels row))
      (\<lambda>res w'. case res of Inl e \<Rightarrow> delivered view d (su_id sub) inc [] w w'
         | Inr _ \<Rightarrow> delivered view d (su_id sub) inc
         (map (\<lambda>b. (cb_channel b, payload r inc kind val now b)) (eligible d sub row)) w w') w1"
      by (rule op_wp_mono) simp
    then show ?thesis unfolding Some option.case sum.case .
  qed
qed

lemma deliver_effect:
  assumes "d_store d = st"
  shows "op_wp (deliver d r sub inc kind val now)
    (\<lambda>res w'. case res of
       Inl e \<Rightarrow> delivered view d (su_id sub) inc [] w w'
     | Inr _ \<Rightarrow> delivered view d (su_id sub) inc
                 (messages d r sub inc kind val now (view (w_store w))) w w') w"
proof -
  let ?v = "view (w_store w)"
  let ?Q = "\<lambda>res w'. case res of
       Inl e \<Rightarrow> delivered view d (su_id sub) inc [] w w'
     | Inr _ \<Rightarrow> delivered view d (su_id sub) inc (messages d r sub inc kind val now ?v) w w'"
  have go: "op_wp (deliver_all d r sub inc kind val now) ?Q w1"
    if same: "unobserved view w w1" and "\<not> one_shot_spent sub ?v" for w1
  proof (rule op_wp_mono [OF deliver_all_effect [OF assms]])
    fix res w' assume "case res of
       Inl e \<Rightarrow> delivered view d (su_id sub) inc [] w1 w'
     | Inr _ \<Rightarrow> delivered view d (su_id sub) inc
         (case v_subscriber (view (w_store w1)) (su_subscriber_id sub) of
            None \<Rightarrow> []
          | Some row \<Rightarrow> map (\<lambda>b. (cb_channel b, payload r inc kind val now b)) (eligible d sub row)) w1 w'"
    then show "?Q res w'" using that delivered_trans [OF delivered_unobserved [OF same]]
      by (auto simp: messages_def unobserved_view split: sum.splits)
  qed
  show ?thesis
  proof (cases "su_one_shot sub")
    case False
    then have "\<not> one_shot_spent sub ?v" by (simp add: one_shot_spent_def)
    with False show ?thesis using go [of w] by (simp add: deliver_def wp_simps)
  next
    case True
    then have spent: "one_shot_spent sub ?v \<longleftrightarrow> su_id sub \<in> nt_subscription_id ` set (v_notifs ?v)"
      by (simp add: one_shot_spent_def)
    show ?thesis
      unfolding deliver_def op_wp_bind assms using True
      by (simp add: op_wp_wrap, intro on_store_reads [OF notif_exists])
        (simp_all add: delivered_unobserved messages_def wp_simps go flip: spent)
  qed
qed

subsection \<open>Evaluation\<close>

lemma messages_unobserved:
  "unobserved view w w1 \<Longrightarrow>
   messages d r sub inc k val now (view (w_store w1)) = messages d r sub inc k val now (view (w_store w))"
  by (simp add: unobserved_view)

lemma notify_effect:
  assumes "d_store d = st" and "unobserved view w0 w"
  shows "op_wp (op_bind (deliver d r sub inc k val now) (\<lambda>_. put_state d s))
    (\<lambda>res w'. case res of
       Inl e \<Rightarrow> evaluated view d (su_id sub) inc None [] w0 w' \<or>
               evaluated view d (su_id sub) inc None
                 (messages d r sub inc k val now (view (w_store w0))) w0 w'
     | Inr _ \<Rightarrow> evaluated view d (su_id sub) inc (Some s)
                 (messages d r sub inc k val now (view (w_store w0))) w0 w') w"
  unfolding op_wp_bind
proof (rule op_wp_mono [OF deliver_effect [OF assms(1)]], goal_cases)
  case (1 res w1)
  note start = delivered_trans [OF delivered_unobserved [OF assms(2)]]
  show ?case
  proof (cases res)
    case (Inl e)
    with 1 start [of d "su_id sub" inc "[]" w1] show ?thesis
      by (simp add: evaluated_quiet)
  next
    case (Inr u)
    let ?ms = "messages d r sub inc k val now (view (w_store w0))"
    have del: "delivered view d (su_id sub) inc ?ms w0 w1"
      using 1 Inr start [of d "su_id sub" inc ?ms w1] by (simp add: messages_unobserved [OF assms(2)])
    have "op_wp (put_state d s)
      (\<lambda>res w'. case res of
         Inl e \<Rightarrow> evaluated view d (su_id sub) inc None ?ms w0 w'
       | Inr _ \<Rightarrow> evaluated view d (su_id sub) inc (Some s) ?ms w0 w') w1"
      unfolding put_state_def assms(1)
    proof (rule on_store_writes [OF sub_state_upsert], goal_cases)
      case (1 e w2)
      then show ?case
        using delivered_trans [OF del delivered_unobserved [OF 1]] by (simp add: evaluated_quiet)
    next
      case (2 x w2)
      then show ?case using evaluated_put [OF del] by simp
    qed
    then show ?thesis unfolding Inr sum.case
      by (rule op_wp_mono) (auto split: sum.splits)
  qed
qed

lemma evaluate_effect:
  assumes "d_store d = st" and "closes_known ls t"
  shows "op_wp (evaluate_subscription d r ls sub t now)
    (\<lambda>res w'. case res of Inl e \<Rightarrow> step_failed view d r ls t now sub w w'
       | Inr _ \<Rightarrow> step_done view d r ls t now sub w w') w"
proof -
  let ?inc = "subject_incident ls t"
  let ?s = "v_sub_state (view (w_store w)) ?inc (su_id sub)"
  let ?Q = "\<lambda>res w'. case res of Inl e \<Rightarrow> step_failed view d r ls t now sub w w'
       | Inr _ \<Rightarrow> step_done view d r ls t now sub w w'"
  have stop: "?Q res w'" if "unobserved view w w'"
      "decision_for ls t sub now (view (w_store w)) = Quiet \<or> (\<exists>e. res = Inl e)" for res w'
    using that by (auto simp: step_done_def step_failed_def Let_def
        intro: evaluated_quiet delivered_unobserved split: sum.splits decision.splits)
  have halt: "step_done view d r ls t now sub w w'"
    if "unobserved view w w'" "decision_for ls t sub now (view (w_store w)) = Quiet" for w'
    using stop [of w' "Inr ()"] that by simp
  have go: "op_wp (op_bind (deliver d r sub ?inc k (ls_last_value ls) now) (\<lambda>_. put_state d s)) ?Q w1"
    if "unobserved view w w1" "decision_for ls t sub now (view (w_store w)) = Notify k"
      "s = state_after ?inc (su_id sub) ?s k now" for w1 k s
    by (rule op_wp_mono [OF notify_effect [OF assms(1) that(1)]])
      (auto simp: step_done_def step_failed_def that(2,3) split: sum.splits)
  show ?thesis
  proof (cases "tr_closed t")
    case True
    then have inc: "tr_incident_id t = ?inc" "tr_incident_id t \<noteq> []"
      using assms(2) by (auto simp: closes_known_def subject_incident_def)
    have dec: "decision_for ls t sub now (view (w_store w)) =
        (if notified_before ?s \<and> \<not> resolution_done ?s \<and> su_notify_on_resolve sub
         then Notify kind_resolved else Quiet)"
      using True by (simp add: decision_for_def decide_def)
    show ?thesis
      unfolding evaluate_subscription_def using True inc(2) assms(1)
    proof (simp add: op_wp_bind del: op_wp_if, unfold inc(1), intro on_store_reads [OF sub_state_get], goal_cases)
      case (1 e w1)
      then show ?case using stop [of w1 "Inl e"] by simp
    next
      case (2 w1)
      then have same: "unobserved view w w1" by simp
      show ?case
      proof (cases "?s")
        case None
        with 2 show ?thesis using halt dec by (simp add: wp_simps notified_before_def)
      next
        case (Some s)
        have fit: "s\<lparr>ss_resolution_sent := True\<rparr> = state_after ?inc (su_id sub) ?s kind_resolved now"
          using Some by (simp add: state_after_def)
        show ?thesis
          using 2 halt dec go [OF same _ fit] Some
          by (auto simp: wp_simps notified_before_def resolution_done_def simp del: op_wp_bind)
      qed
    qed
  next
    case False
    then have inc: "ls_incident_id ls = ?inc" by (simp add: subject_incident_def)
    show ?thesis
    proof (cases "ls_state ls \<noteq> state_firing \<or> time_sub now (ls_triggered_at ls) < su_dwell sub")
      case True
      then have "decision_for ls t sub now (view (w_store w)) = Quiet"
        using False by (auto simp: decision_for_def decide_def)
      then show ?thesis
        using True False stop [of w "Inr ()"] by (auto simp: evaluate_subscription_def wp_simps)
    next
      case due: False
      have dec: "decision_for ls t sub now (view (w_store w)) =
         (if \<not> notified_before ?s then Notify kind_firing
          else if 0 < su_repeat_interval sub \<and> su_repeat_interval sub \<le> time_sub now (last_notified ?s)
            then Notify kind_repeat else Quiet)"
        using False due by (simp add: decision_for_def decide_def)
      let ?state = "case ?s of None \<Rightarrow> fresh_sub_state ?inc (su_id sub) | Some x \<Rightarrow> x"
      have first: "notified_before ?s \<longleftrightarrow> ss_notify_count ?state \<noteq> 0"
        by (auto simp: notified_before_def fresh_sub_state_def split: option.splits)
      have last: "last_notified ?s = ss_last_notified_at ?state"
        by (simp add: last_notified_def fresh_sub_state_def split: option.splits)
      have fit1: "ss_notify_count ?state = 0 \<Longrightarrow>
          ?state\<lparr>ss_last_notified_at := now, ss_notify_count := 1\<rparr> =
          state_after ?inc (su_id sub) ?s kind_firing now"
        by (simp add: state_after_def Let_def)
      have fit2: "?state\<lparr>ss_last_notified_at := now, ss_notify_count := ss_notify_count ?state + 1\<rparr> =
          state_after ?inc (su_id sub) ?s kind_repeat now"
        by (simp add: state_after_def Let_def)
      show ?thesis
        unfolding evaluate_subscription_def using False due assms(1)
      proof (simp add: op_wp_bind del: op_wp_if, unfold inc, intro on_store_reads [OF sub_state_get], goal_cases)
        case (1 e w1)
        then show ?case using stop [of w1 "Inl e"] by simp
      next
        case (2 w1)
        then have same: "unobserved view w w1" by simp
        show ?case
          using halt [OF same] dec first last fit1 fit2 go [OF same]
          by (simp add: wp_simps Let_def split del: option.splits del: op_wp_bind)
      qed
    qed
  qed
qed

end

end
