(* ===== verification/Dispatcher_Tick.thy ===== *)
theory Dispatcher_Tick
  imports Dispatcher_Spec
begin

text \<open>
  A whole tick against the decision table: the core transition of live state and incidents,
  then one independent evaluation per matching subscription.
\<close>

section \<open>Evaluations in sequence\<close>

definition step_any ::
  "('s \<Rightarrow> store_view) \<Rightarrow> 's dispatcher \<Rightarrow> rule \<Rightarrow> live_state \<Rightarrow> transition \<Rightarrow> time \<Rightarrow> subscription
   \<Rightarrow> 's world \<Rightarrow> 's world \<Rightarrow> bool" where
  "step_any view d r ls t now sub w w' \<longleftrightarrow>
     step_done view d r ls t now sub w w' \<or> step_failed view d r ls t now sub w w'"

fun chain :: "('a \<Rightarrow> 'w \<Rightarrow> 'w \<Rightarrow> bool) \<Rightarrow> 'a list \<Rightarrow> 'w \<Rightarrow> 'w \<Rightarrow> bool" where
  "chain R [] w w' \<longleftrightarrow> w' = w"
| "chain R (x # xs) w w' \<longleftrightarrow> (\<exists>w1. R x w w1 \<and> chain R xs w1 w')"

lemma op_for_chain:
  assumes "\<And>x w. x \<in> set xs \<Longrightarrow> op_wp (f x) (\<lambda>r w'. r = Inr () \<and> R x w w') w"
  shows "op_wp (op_for f xs) (\<lambda>r w'. r = Inr () \<and> chain R xs w w') w"
  using assms
proof (induction xs arbitrary: w)
  case Nil
  then show ?case by (simp add: wp_simps)
next
  case (Cons x xs)
  have rest: "op_wp (op_for f xs) (\<lambda>r w'. r = Inr () \<and> chain R xs w1 w') w1" for w1
    by (rule Cons.IH) (simp add: Cons.prems)
  show ?case unfolding op_for.simps op_wp_bind
    by (rule op_wp_mono [OF Cons.prems [of x]])
      (auto intro: op_wp_mono [OF rest])
qed

lemma chain_inv: "chain R xs w w' \<Longrightarrow> I w \<Longrightarrow> (\<And>x w w'. x \<in> set xs \<Longrightarrow> R x w w' \<Longrightarrow> I w \<Longrightarrow> I w') \<Longrightarrow> I w'"
  by (induction xs arbitrary: w) auto

lemma chain_mono: "chain R xs w w' \<Longrightarrow> (\<And>x w w'. x \<in> set xs \<Longrightarrow> R x w w' \<Longrightarrow> S x w w') \<Longrightarrow> chain S xs w w'"
  by (induction xs arbitrary: w) (fastforce+)

text \<open>What one evaluation is meant to send.\<close>

definition plan ::
  "'s dispatcher \<Rightarrow> rule \<Rightarrow> live_state \<Rightarrow> transition \<Rightarrow> time \<Rightarrow> store_view \<Rightarrow> subscription
   \<Rightarrow> (string \<times> channel_notification) list" where
  "plan d r ls t now v sub =
     (case decision_for ls t sub now v of
        Quiet \<Rightarrow> []
      | Notify k \<Rightarrow> messages d r sub (subject_incident ls t) k (ls_last_value ls) now v)"

text \<open>The part of the view an evaluation of subscription \<open>sid\<close> reads.\<close>

definition agree :: "string \<Rightarrow> store_view \<Rightarrow> store_view \<Rightarrow> bool" where
  "agree sid v v' \<longleftrightarrow>
     (\<forall>i. v_sub_state v' i sid = v_sub_state v i sid) \<and>
     (sid \<in> nt_subscription_id ` set (v_notifs v') \<longleftrightarrow> sid \<in> nt_subscription_id ` set (v_notifs v)) \<and>
     v_subscriber v' = v_subscriber v"

lemma agree_refl [simp]: "agree sid v v"
  by (simp add: agree_def)

lemma agree_trans: "agree sid a b \<Longrightarrow> agree sid b c \<Longrightarrow> agree sid a c"
  by (simp add: agree_def)

lemma plan_agree: "agree (su_id sub) v v' \<Longrightarrow> plan d r ls t now v' sub = plan d r ls t now v sub"
proof -
  assume a: "agree (su_id sub) v v'"
  then have "one_shot_spent sub v' = one_shot_spent sub v" "v_subscriber v' = v_subscriber v"
    "decision_for ls t sub now v' = decision_for ls t sub now v"
    by (simp_all add: one_shot_spent_def decision_for_def agree_def)
  moreover from this have "messages d r sub i k x now v' = messages d r sub i k x now v" for i k x
    by (simp add: messages_def)
  ultimately show ?thesis by (simp add: plan_def split: decision.split)
qed

lemma evaluated_agree:
  assumes "evaluated view d sid inc st ms w w'" and "sid' \<noteq> sid"
    and "\<And>s. st = Some s \<Longrightarrow> ss_subscription_id s = sid"
  shows "agree sid' (view (w_store w)) (view (w_store w'))"
  using assms by (auto simp: evaluated_def delivered_def agree_def put_sub_state_def split: option.splits)

lemma evaluated_sent: "evaluated view d sid inc st ms w w' \<Longrightarrow> sent_messages w' = sent_messages w @ ms"
  by (auto simp: evaluated_def delivered_def)

text \<open>Delivery states are filed under their own keys.\<close>

definition keyed :: "store_view \<Rightarrow> bool" where
  "keyed v \<longleftrightarrow> (\<forall>i j s. v_sub_state v i j = Some s \<longrightarrow> ss_incident_id s = i \<and> ss_subscription_id s = j)"

lemma state_after_keys:
  "keyed v \<Longrightarrow> ss_incident_id (state_after inc sid (v_sub_state v inc sid) k now) = inc"
  "keyed v \<Longrightarrow> ss_subscription_id (state_after inc sid (v_sub_state v inc sid) k now) = sid"
  by (auto simp: state_after_def Let_def fresh_sub_state_def keyed_def split: option.splits)

lemma keyed_put: "keyed v \<Longrightarrow> keyed (put_sub_state s v)"
  by (auto simp: keyed_def put_sub_state_def)

lemma evaluated_keyed:
  "evaluated view d sid inc st ms w w' \<Longrightarrow> keyed (view (w_store w)) \<Longrightarrow> keyed (view (w_store w'))"
  by (auto simp: evaluated_def delivered_def keyed_put keyed_def [of "v_notifs_update f v" for f v]
      split: option.splits) (auto simp: keyed_def put_sub_state_def)

text \<open>A step that did all of its work, or fell short.\<close>

lemma step_any_cases:
  assumes "step_any view d r ls t now sub w w'"
  obtains st ms where "evaluated view d (su_id sub) (subject_incident ls t) st ms w w'"
    "ms = [] \<or> ms = plan d r ls t now (view (w_store w)) sub"
    "keyed (view (w_store w)) \<Longrightarrow> st \<noteq> None \<Longrightarrow> ss_subscription_id (the st) = su_id sub"
  using assms
  by (auto simp: step_any_def step_done_def step_failed_def Let_def plan_def state_after_keys
      split: decision.splits)

lemma step_done_sent:
  "step_done view d r ls t now sub w w' \<Longrightarrow>
   sent_messages w' = sent_messages w @ plan d r ls t now (view (w_store w)) sub"
  by (auto simp: step_done_def Let_def plan_def dest: evaluated_sent split: decision.splits)

lemma step_any_agree:
  assumes "step_any view d r ls t now sub w w'" and "keyed (view (w_store w))" and "sid \<noteq> su_id sub"
  shows "agree sid (view (w_store w)) (view (w_store w')) \<and> keyed (view (w_store w'))"
proof -
  obtain st ms where ev: "evaluated view d (su_id sub) (subject_incident ls t) st ms w w'"
    "keyed (view (w_store w)) \<Longrightarrow> st \<noteq> None \<Longrightarrow> ss_subscription_id (the st) = su_id sub"
    using step_any_cases [OF assms(1)] by metis
  then show ?thesis using assms(2,3)
    by (auto intro!: evaluated_agree [OF ev(1)] evaluated_keyed [OF ev(1)])
qed

text \<open>
  With distinct subscription identifiers the evaluations do not disturb one another: each
  sends its plan on the view before the loop, or nothing.
\<close>

lemma chain_sent:
  assumes "chain (step_any view d r ls t now) subs w w'"
    and "distinct (map su_id subs)" and "keyed (view (w_store w))"
  shows "\<exists>mss. sent_messages w' = sent_messages w @ concat mss \<and>
     list_all2 (\<lambda>sub ms. ms = [] \<or> ms = plan d r ls t now (view (w_store w)) sub) subs mss"
  using assms
proof (induction subs arbitrary: w)
  case Nil
  then show ?case by simp
next
  case (Cons sub subs)
  obtain w1 where s1: "step_any view d r ls t now sub w w1"
    and rest: "chain (step_any view d r ls t now) subs w1 w'"
    using Cons.prems(1) by auto
  obtain st ms where ev: "evaluated view d (su_id sub) (subject_incident ls t) st ms w w1"
    and ms: "ms = [] \<or> ms = plan d r ls t now (view (w_store w)) sub"
    using step_any_cases [OF s1] by metis
  have later: "agree (su_id s) (view (w_store w)) (view (w_store w1))" if "s \<in> set subs" for s
  proof -
    have "su_id s \<noteq> su_id sub" using that Cons.prems(2)
      by (metis distinct.simps(2) image_eqI list.map(2) list.set_map)
    then show ?thesis using step_any_agree [OF s1 Cons.prems(3)] by blast
  qed
  have "keyed (view (w_store w1))"
    using ev Cons.prems(3) by (rule evaluated_keyed)
  then obtain mss where mss: "sent_messages w' = sent_messages w1 @ concat mss"
    "list_all2 (\<lambda>sub ms. ms = [] \<or> ms = plan d r ls t now (view (w_store w1)) sub) subs mss"
    using Cons.IH [OF rest] Cons.prems(2) by auto
  have "list_all2 (\<lambda>sub ms. ms = [] \<or> ms = plan d r ls t now (view (w_store w)) sub) subs mss"
    by (rule list.rel_mono_strong [OF mss(2)]) (auto simp: plan_agree later)
  then show ?case
    using mss(1) ms evaluated_sent [OF ev] by (intro exI [of _ "ms # mss"]) simp
qed

section \<open>The core transition\<close>

text \<open>The live state before a tick, and what the tick makes of it.\<close>

definition live_before :: "rule \<Rightarrow> store_view \<Rightarrow> live_state" where
  "live_before r v = (case v_live v (r_id r) of None \<Rightarrow> fresh_live_state (r_id r) | Some ls \<Rightarrow> ls)"

definition new_incident_id :: "'s dispatcher \<Rightarrow> rule \<Rightarrow> bool \<Rightarrow> 's world \<Rightarrow> store_view \<Rightarrow> string" where
  "new_incident_id d r triggered w v =
     (if triggered \<and> ls_state (live_before r v) \<noteq> state_firing then d_id d (w_ids w) else '''')"

definition tick_outcome ::
  "'s dispatcher \<Rightarrow> rule \<Rightarrow> bool \<Rightarrow> string \<Rightarrow> time \<Rightarrow> 's world \<Rightarrow> store_view \<Rightarrow> live_state \<times> transition" where
  "tick_outcome d r triggered val now w v =
     apply_outcome (live_before r v) triggered val now (new_incident_id d r triggered w v)"

definition incident_effect :: "rule \<Rightarrow> transition \<Rightarrow> string \<Rightarrow> time \<Rightarrow> store_view \<Rightarrow> store_view" where
  "incident_effect r t val now v =
     (if tr_opened t then put_incident
        \<lparr>in_id = tr_incident_id t, in_rule_id = r_id r, in_triggered_at = tr_triggered_at t,
         in_resolved_at = zero_time, in_last_value = val\<rparr> v
      else if tr_closed t then resolve_incident (tr_incident_id t) (unix_milli now) v
      else v)"

definition core_effect :: "rule \<Rightarrow> live_state \<Rightarrow> transition \<Rightarrow> string \<Rightarrow> time \<Rightarrow> store_view \<Rightarrow> store_view" where
  "core_effect r ls t val now v = incident_effect r t val now (put_live ls v)"

lemma core_effect_sel [simp]:
  "v_subs (core_effect r ls t val now v) = v_subs v"
  "v_sub_state (core_effect r ls t val now v) = v_sub_state v"
  "v_notifs (core_effect r ls t val now v) = v_notifs v"
  "v_subscriber (core_effect r ls t val now v) = v_subscriber v"
  "v_live (core_effect r ls t val now v) = (v_live v)(ls_rule_id ls \<mapsto> norm_live ls)"
  by (simp_all add: core_effect_def incident_effect_def view_updates)

lemma keyed_core [simp]: "keyed (core_effect r ls t val now v) = keyed v"
  by (simp add: keyed_def)

lemma plan_core [simp]: "plan d r ls t now (core_effect r ls' t' val' now' v) sub = plan d r ls t now v sub"
  by (rule plan_agree) (simp add: agree_def)

text \<open>Worlds after the core transition: nothing sent, an identifier used for a new incident.\<close>

definition at_view :: "('s \<Rightarrow> store_view) \<Rightarrow> 's world \<Rightarrow> nat \<Rightarrow> store_view \<Rightarrow> 's world \<Rightarrow> bool" where
  "at_view view w k v w' \<longleftrightarrow>
     view (w_store w') = v \<and> w_sent w' = w_sent w \<and> w_ids w' = w_ids w + k"

definition ids_drawn :: "rule \<Rightarrow> bool \<Rightarrow> store_view \<Rightarrow> nat" where
  "ids_drawn r triggered v = (if triggered \<and> ls_state (live_before r v) \<noteq> state_firing then 1 else 0)"

lemma at_view_unobserved: "at_view view w k v w1 \<Longrightarrow> unobserved view w1 w' \<Longrightarrow> at_view view w k v w'"
  by (simp add: at_view_def unobserved_def)

lemma at_view_sent: "at_view view w k v w' \<Longrightarrow> sent_messages w' = sent_messages w"
  by (simp add: at_view_def sent_messages_def)

lemma op_bind_return: "op_bind (op_return x) f = f x"
  by (simp add: op_bind_def fun_eq_iff)

lemma op_wp_bind_fresh:
  "op_wp (op_bind (fresh_id d) f) Q w \<longleftrightarrow> op_wp (f (d_id d (w_ids w))) Q (w\<lparr>w_ids := Suc (w_ids w)\<rparr>)"
  by (simp add: wp_simps)

context dispatch_store
begin

lemma open_or_close_effect:
  assumes "d_store d = st" and "at_view view w0 k v w"
  shows "op_wp (open_or_close d r t val now)
    (\<lambda>res w'. case res of Inl e \<Rightarrow> at_view view w0 k v w'
       | Inr _ \<Rightarrow> at_view view w0 k (incident_effect r t val now v) w') w"
proof -
  have stay: "at_view view w0 k v w'" if "unobserved view w w'" for w'
    using assms(2) that by (rule at_view_unobserved)
  have go: "at_view view w0 k v' w'" if "view (w_store w') = v'" "w_ids w' = w_ids w" "w_sent w' = w_sent w"
    for v' and w' :: "'s world" using assms(2) that by (simp add: at_view_def)
  have v: "view (w_store w) = v" using assms(2) by (simp add: at_view_def)
  consider "tr_opened t" | "\<not> tr_opened t" "tr_closed t" | "\<not> tr_opened t" "\<not> tr_closed t" by blast
  then show ?thesis
  proof cases
    case 1
    show ?thesis unfolding open_or_close_def assms(1) using 1
      by (simp add: op_wp_wrap, intro on_store_writes [OF inc_open])
        (simp_all add: stay go v incident_effect_def)
  next
    case 2
    show ?thesis unfolding open_or_close_def assms(1) using 2
      by (simp add: op_wp_wrap, intro on_store_writes [OF inc_resolve])
        (simp_all add: stay go v incident_effect_def)
  next
    case 3
    then show ?thesis using stay [of w] by (simp add: open_or_close_def wp_simps incident_effect_def)
  qed
qed

text \<open>
  A tick: it fails with a prefix of the core transition done and nothing sent, or the core
  transition is done and every matching subscription was evaluated.
\<close>

lemma tick_effect:
  assumes "d_store d = st" and "r_id r \<noteq> []"
    and out: "tick_outcome d r triggered val now w (view (w_store w)) = (ls, t)"
    and known: "closes_known ls t"
  shows "op_wp (tick d r triggered val now)
    (\<lambda>res w'. case res of
       Inl e \<Rightarrow> (\<exists>k. at_view view w k (view (w_store w)) w') \<or>
         (\<exists>v \<in> {put_live ls (view (w_store w)), core_effect r ls t val now (view (w_store w))}.
            at_view view w (ids_drawn r triggered (view (w_store w))) v w')
     | Inr _ \<Rightarrow> \<exists>w1. at_view view w (ids_drawn r triggered (view (w_store w))) (core_effect r ls t val now (view (w_store w))) w1 \<and>
         chain (step_any view d r ls t now)
           (subs_for_rule (r_id r) (r_labels r) (v_subs (view (w_store w)))) w1 w') w"
proof -
  let ?v0 = "view (w_store w)"
  let ?k = "ids_drawn r triggered ?v0"
  define Q where "Q = (\<lambda>res w'. case res of
       Inl (e :: go_error) \<Rightarrow> (\<exists>k. at_view view w k ?v0 w') \<or>
         (\<exists>v \<in> {put_live ls ?v0, core_effect r ls t val now ?v0}. at_view view w ?k v w')
     | Inr (u :: unit) \<Rightarrow> \<exists>w1. at_view view w ?k (core_effect r ls t val now ?v0) w1 \<and>
         chain (step_any view d r ls t now) (subs_for_rule (r_id r) (r_labels r) (v_subs ?v0)) w1 w')"
  have Q_err: "Q (Inl e) w'" if "v \<in> {?v0, put_live ls ?v0, core_effect r ls t val now ?v0}"
      "at_view view w ?k v w'" for e v w' using that by (auto simp: Q_def)
  let ?each = "\<lambda>sub. op_logged (evaluate_subscription d r ls sub t now)"
  have each: "op_wp (?each sub) (\<lambda>res w'. res = Inr () \<and> step_any view d r ls t now sub w1 w') w1" for sub w1
    unfolding op_wp_logged
    by (rule op_wp_mono [OF evaluate_effect [OF assms(1) known]])
      (auto simp: step_any_def split: sum.splits)
  have loop: "op_wp (op_bind (op_wrap ''dispatcher: list subscriptions''
        (on_store (sur_list_for_rule (st_subscriptions st) (r_id r) (r_labels r)))) (op_for ?each)) Q w1"
    if at: "at_view view w ?k (core_effect r ls t val now ?v0) w1" for w1
    unfolding op_wp_bind op_wp_wrap
  proof (rule on_store_reads [OF list_for_rule [OF assms(2)]], goal_cases)
    case (1 e w2)
    then show ?case using Q_err [OF _ at_view_unobserved [OF at 1]] by simp
  next
    case (2 w2)
    have subs: "v_subs (view (w_store w1)) = v_subs ?v0" using at by (simp add: at_view_def)
    have at2: "at_view view w ?k (core_effect r ls t val now ?v0) w2" using at 2 by (rule at_view_unobserved)
    show ?case unfolding res_wrap_simps sum.case subs
      by (rule op_wp_mono [OF op_for_chain [where R = "step_any view d r ls t now"]])
        (use each at2 in \<open>auto simp: Q_def\<close>)
  qed
  have main: "op_wp (op_bind (op_wrap ''dispatcher: upsert live state''
                (on_store (lr_upsert (st_live_states st) ls))) (\<lambda>_.
     op_bind (open_or_close d r t val now) (\<lambda>_.
     op_bind (op_wrap ''dispatcher: list subscriptions''
        (on_store (sur_list_for_rule (st_subscriptions st) (r_id r) (r_labels r)))) (op_for ?each)))) Q w1"
    if at: "at_view view w ?k ?v0 w1" for w1
    unfolding op_wp_bind op_wp_wrap
  proof (rule on_store_writes [OF live_upsert], goal_cases)
    case (1 e w2)
    then show ?case using Q_err [OF _ at_view_unobserved [OF at 1]] by simp
  next
    case (2 x w2)
    have v2: "at_view view w ?k (put_live ls ?v0) w2" using at 2 by (simp add: at_view_def)
    have "op_wp (open_or_close d r t val now)
      (\<lambda>res w'. case res of Inl e \<Rightarrow> Q (Inl e) w' | Inr _ \<Rightarrow>
        op_wp (op_bind (op_wrap ''dispatcher: list subscriptions''
          (on_store (sur_list_for_rule (st_subscriptions st) (r_id r) (r_labels r)))) (op_for ?each)) Q w') w2"
      by (rule op_wp_mono [OF open_or_close_effect [OF assms(1) v2]])
        (auto split: sum.splits intro: loop Q_err [of "put_live ls ?v0"] simp: core_effect_def)
    then show ?case unfolding op_wp_bind op_wp_wrap by simp
  qed
  have "op_wp (tick d r triggered val now) Q w"
    unfolding tick_def op_wp_bind [of "op_wrap _ _"] op_wp_wrap assms(1)
  proof (rule on_store_reads [OF live_get], goal_cases)
    case (1 e w1)
    then have "at_view view w 0 ?v0 w1" by (simp add: at_view_def unobserved_def)
    then show ?case by (auto simp: Q_def)
  next
    case (2 w1)
    have ids: "w_ids w1 = w_ids w" using 2 by (simp add: unobserved_def)
    show ?case
    proof (cases "triggered \<and> ls_state (live_before r ?v0) \<noteq> state_firing")
      case True
      then have "at_view view w ?k ?v0 (w1\<lparr>w_ids := Suc (w_ids w1)\<rparr>)"
        using 2 by (simp add: at_view_def unobserved_def ids_drawn_def)
      from main [OF this] show ?thesis using True out ids
        by (auto simp: tick_outcome_def new_incident_id_def live_before_def Let_def
            op_bind_return op_wp_bind_fresh simp del: op_return_run op_wp_bind op_wp_wrap)
    next
      case False
      then have "at_view view w ?k ?v0 w1"
        using 2 by (simp add: at_view_def unobserved_def ids_drawn_def)
      from main [OF this] show ?thesis using False out ids
        by (auto simp: tick_outcome_def new_incident_id_def live_before_def Let_def
            op_bind_return op_wp_bind_fresh simp del: op_return_run op_wp_bind op_wp_wrap)
    qed
  qed
  then show ?thesis by (simp only: Q_def)
qed

end

end
