(* ===== verification/Dispatcher_Reliable.thy ===== *)
theory Dispatcher_Reliable
  imports Dispatcher_Tick
begin

text \<open>
  Ticks on a store whose calls succeed: every tick completes and sends exactly the plans. The
  generator of identifiers must not repeat itself.
\<close>

section \<open>Identifiers\<close>

text \<open>The identifiers of stored incidents and notifications come from the generator.\<close>

definition ids_ok :: "'s dispatcher \<Rightarrow> nat \<Rightarrow> store_view \<Rightarrow> bool" where
  "ids_ok d n v \<longleftrightarrow>
     (\<forall>x \<in> set (v_notifs v). nt_id x \<in> d_id d ` {..<n}) \<and>
     (\<forall>i. v_incident v i \<noteq> None \<longrightarrow> i \<in> d_id d ` {..<n})"

definition good_ids :: "'s dispatcher \<Rightarrow> bool" where
  "good_ids d \<longleftrightarrow> inj (d_id d) \<and> (\<forall>n. d_id d n \<noteq> [])"

lemma ids_ok_mono: "ids_ok d n v \<Longrightarrow> n \<le> m \<Longrightarrow> ids_ok d m v"
proof -
  assume a: "ids_ok d n v" "n \<le> m"
  then have "d_id d ` {..<n} \<subseteq> d_id d ` {..<m}" by (intro image_mono) auto
  with a(1) show ?thesis unfolding ids_ok_def by blast
qed

lemma next_id_fresh: "good_ids d \<Longrightarrow> d_id d n \<notin> d_id d ` {..<n}"
  by (auto simp: good_ids_def inj_def)

lemma fresh_notif: "good_ids d \<Longrightarrow> ids_ok d n v \<Longrightarrow> d_id d n \<notin> nt_id ` set (v_notifs v)"
  using next_id_fresh [of d n] by (auto simp: ids_ok_def)

lemma fresh_incident: "good_ids d \<Longrightarrow> ids_ok d n v \<Longrightarrow> v_incident v (d_id d n) = None"
  using next_id_fresh [of d n] by (auto simp: ids_ok_def)

lemma ids_ok_delivered:
  assumes "delivered view d sid inc ms w w'" and "ids_ok d (w_ids w) (view (w_store w))"
  shows "ids_ok d (w_ids w') (view (w_store w'))"
proof -
  have le: "w_ids w \<le> w_ids w'" using assms(1) by (simp add: delivered_def)
  obtain new where view: "view (w_store w') = (view (w_store w))\<lparr>v_notifs := v_notifs (view (w_store w)) @ new\<rparr>"
    and new: "\<forall>n \<in> set new. nt_id n \<in> d_id d ` {w_ids w..<w_ids w'}"
    using assms(1) by (auto simp: delivered_def)
  have "ids_ok d (w_ids w') (view (w_store w))" using assms(2) le by (rule ids_ok_mono)
  then show ?thesis using new by (auto simp: ids_ok_def view)
qed

lemma ids_ok_sub_state [simp]: "ids_ok d n (put_sub_state s v) = ids_ok d n v"
  by (simp add: ids_ok_def put_sub_state_def)

lemma ids_ok_evaluated:
  assumes "evaluated view d sid inc st ms w w'" and "ids_ok d (w_ids w) (view (w_store w))"
  shows "ids_ok d (w_ids w') (view (w_store w'))"
proof -
  obtain w1 where w1: "delivered view d sid inc ms w w1" "w_ids w' = w_ids w1"
    "view (w_store w') = (case st of None \<Rightarrow> view (w_store w1)
                          | Some s \<Rightarrow> put_sub_state s (view (w_store w1)))"
    using assms(1) by (auto simp: evaluated_def)
  then show ?thesis using ids_ok_delivered [OF w1(1) assms(2)] by (simp split: option.splits)
qed

text \<open>An evaluation that completed, or could not because the subscriber is gone.\<close>

definition step_full ::
  "('s \<Rightarrow> store_view) \<Rightarrow> 's dispatcher \<Rightarrow> rule \<Rightarrow> live_state \<Rightarrow> transition \<Rightarrow> time \<Rightarrow> subscription
   \<Rightarrow> 's world \<Rightarrow> 's world \<Rightarrow> bool" where
  "step_full view d r ls t now sub w w' \<longleftrightarrow>
     step_done view d r ls t now sub w w' \<or>
     (v_subscriber (view (w_store w)) (su_subscriber_id sub) = None \<and>
      step_failed view d r ls t now sub w w')"

lemma step_full_any: "step_full view d r ls t now sub w w' \<Longrightarrow> step_any view d r ls t now sub w w'"
  by (auto simp: step_full_def step_any_def)

lemma step_full_sent:
  assumes "step_full view d r ls t now sub w w'"
  shows "sent_messages w' = sent_messages w @ plan d r ls t now (view (w_store w)) sub"
  using assms unfolding step_full_def
proof
  assume "step_done view d r ls t now sub w w'"
  then show ?thesis by (rule step_done_sent)
next
  assume "v_subscriber (view (w_store w)) (su_subscriber_id sub) = None \<and>
      step_failed view d r ls t now sub w w'"
  then show ?thesis
    by (auto simp: step_failed_def plan_def messages_def Let_def dest: evaluated_sent
        split: decision.splits)
qed

lemma chain_full_sent:
  assumes "chain (step_full view d r ls t now) subs w w'"
    and "distinct (map su_id subs)" and "keyed (view (w_store w))"
  shows "sent_messages w' = sent_messages w @ concat (map (plan d r ls t now (view (w_store w))) subs)"
  using assms
proof (induction subs arbitrary: w)
  case Nil
  then show ?case by simp
next
  case (Cons sub subs)
  obtain w1 where s1: "step_full view d r ls t now sub w w1"
    and rest: "chain (step_full view d r ls t now) subs w1 w'"
    using Cons.prems(1) by auto
  note any = step_full_any [OF s1]
  have "agree (su_id s) (view (w_store w)) (view (w_store w1))" if "s \<in> set subs" for s
  proof -
    have "su_id s \<noteq> su_id sub" using that Cons.prems(2)
      by (metis distinct.simps(2) image_eqI list.map(2) list.set_map)
    then show ?thesis using step_any_agree [OF any Cons.prems(3)] by blast
  qed
  then have "concat (map (plan d r ls t now (view (w_store w1))) subs) =
      concat (map (plan d r ls t now (view (w_store w))) subs)"
    by (auto intro!: arg_cong [where f = concat] plan_agree)
  moreover obtain st ms where "evaluated view d (su_id sub) (subject_incident ls t) st ms w w1"
    using step_any_cases [OF any] by metis
  then have "keyed (view (w_store w1))" using Cons.prems(3) by (rule evaluated_keyed)
  ultimately show ?case
    using Cons.IH [OF rest] Cons.prems(2) step_full_sent [OF s1] by simp
qed

section \<open>Calls that succeed\<close>

lemma on_store_reads_ok:
  assumes "op_reads view m f" and "op_total ok (\<lambda>_. True) m" and "ok (w_store w)"
    and "\<And>w'. unobserved view w w' \<Longrightarrow> ok (w_store w') \<Longrightarrow> Q (Inr (f (view (w_store w)))) w'"
  shows "op_wp (on_store m) Q w"
proof (rule op_wpI)
  fix r w' assume run: "on_store m w = (r, w')"
  obtain r1 s1 where m: "m (w_store w) = (r1, s1)" by (cases "m (w_store w)")
  then have w': "r = r1" "w' = w\<lparr>w_store := s1\<rparr>" using run by (auto simp: on_store_def)
  have "is_ok r1 \<and> ok s1" using assms(2,3) m unfolding op_total_def by blast
  then obtain x where "r1 = Inr x" "ok s1" by (auto simp: is_ok_iff)
  then show "Q r w'"
    using op_readsD [OF assms(1)] m assms(4) [of w'] by (auto simp: w' unobserved_def)
qed

lemma on_store_writes_ok:
  assumes "op_writes view m P g" and "op_total ok R m" and "ok (w_store w)" and "R (w_store w)"
    and "\<And>x w'. view (w_store w') = g (view (w_store w)) \<Longrightarrow> w_ids w' = w_ids w \<Longrightarrow>
            w_sent w' = w_sent w \<Longrightarrow> ok (w_store w') \<Longrightarrow> Q (Inr x) w'"
  shows "op_wp (on_store m) Q w"
proof (rule op_wpI)
  fix r w' assume run: "on_store m w = (r, w')"
  obtain r1 s1 where m: "m (w_store w) = (r1, s1)" by (cases "m (w_store w)")
  then have w': "r = r1" "w' = w\<lparr>w_store := s1\<rparr>" using run by (auto simp: on_store_def)
  have "is_ok r1 \<and> ok s1" using assms(2,3,4) m unfolding op_total_def by blast
  then obtain x where "r1 = Inr x" "ok s1" by (auto simp: is_ok_iff)
  then show "Q r w'"
    using op_writesD [OF assms(1)] m assms(5) [of w'] by (auto simp: w')
qed

definition healthy ::
  "('s \<Rightarrow> bool) \<Rightarrow> ('s \<Rightarrow> store_view) \<Rightarrow> 's dispatcher \<Rightarrow> 's world \<Rightarrow> bool" where
  "healthy ok view d w \<longleftrightarrow> ok (w_store w) \<and> ids_ok d (w_ids w) (view (w_store w))"

lemma healthy_unobserved:
  "healthy ok view d w \<Longrightarrow> unobserved view w w' \<Longrightarrow> ok (w_store w') \<Longrightarrow> healthy ok view d w'"
  by (simp add: healthy_def unobserved_def)

lemma healthy_delivered:
  "healthy ok view d w \<Longrightarrow> delivered view d sid inc ms w w' \<Longrightarrow> ok (w_store w') \<Longrightarrow> healthy ok view d w'"
  by (simp add: healthy_def ids_ok_delivered)

lemma healthy_evaluated:
  "healthy ok view d w \<Longrightarrow> evaluated view d sid inc s ms w w' \<Longrightarrow> ok (w_store w') \<Longrightarrow> healthy ok view d w'"
  by (simp add: healthy_def ids_ok_evaluated)

lemma chain_guarded:
  "chain (\<lambda>x w w'. I w \<longrightarrow> R x w w' \<and> I w') xs w w' \<Longrightarrow> I w \<Longrightarrow> chain R xs w w' \<and> I w'"
  by (induction xs arbitrary: w) auto

context reliable_store
begin

lemma deliver_binding_ok:
  assumes "d_store d = st" and "good_ids d" and "healthy ok view d w"
  shows "op_wp (deliver_binding d r sub row inc kind val now b) (\<lambda>res w'. ok (w_store w')) w"
proof (cases "d_channels d (cb_channel b)")
  case None
  with assms show ?thesis by (simp add: deliver_binding_def wp_simps healthy_def)
next
  case (Some send)
  let ?n = "payload r inc kind val now b"
  let ?res = "send (length (w_sent w)) ?n"
  let ?a = "audit_record (d_id d (w_ids w)) sub row inc kind now b ?res"
  let ?w1 = "w\<lparr>w_ids := Suc (w_ids w), w_sent := w_sent w @
     [\<lparr>se_channel = cb_channel b, se_payload = ?n, se_outcome = ?res\<rparr>]\<rparr>"
  have "nt_id ?a \<notin> nt_id ` set (v_notifs (view (w_store w)))"
    using assms(3) fresh_notif [OF assms(2)] by (simp add: healthy_def audit_record_def)
  then have "op_wp (on_store (nr_record (st_notifications st) ?a)) (\<lambda>_ w'. ok (w_store w')) ?w1"
    using assms(3)
    by (intro on_store_writes_ok [OF notif_record notif_record_ok]) (simp_all add: healthy_def)
  then show ?thesis using Some assms(1,3)
    by (simp add: deliver_binding_def wp_simps healthy_def)
qed

lemma deliver_bindings_ok:
  assumes "d_store d = st" and "good_ids d" and "healthy ok view d w"
  shows "op_wp (op_for (deliver_binding d r sub row inc kind val now) bs)
    (\<lambda>res w'. res = Inr () \<and> healthy ok view d w') w"
proof (rule op_wp_for [where I = "healthy ok view d"], rule assms(3))
  fix b and w :: "'s world" assume w: "healthy ok view d w"
  have "op_wp (deliver_binding d r sub row inc kind val now b)
    (\<lambda>res w'. (res = Inr () \<and> delivered view d (su_id sub) inc
       (if (su_channel_filter sub = [] \<or> cb_channel b \<in> set (su_channel_filter sub)) \<and>
           d_channels d (cb_channel b) \<noteq> None
        then [(cb_channel b, payload r inc kind val now b)] else []) w w') \<and> ok (w_store w')) w"
    by (rule op_wp_conjI [OF deliver_binding_effect [OF assms(1)] deliver_binding_ok [OF assms(1,2) w]])
  then show "op_wp (deliver_binding d r sub row inc kind val now b)
    (\<lambda>res w'. res = Inr () \<and> healthy ok view d w') w"
    by (rule op_wp_mono) (auto intro: healthy_delivered [OF w])
qed

lemma deliver_ok:
  assumes "d_store d = st" and "good_ids d" and "healthy ok view d w"
  shows "op_wp (deliver d r sub inc kind val now)
    (\<lambda>res w'. healthy ok view d w' \<and>
       (v_subscriber (view (w_store w)) (su_subscriber_id sub) \<noteq> None \<longrightarrow> res = Inr ())) w"
proof -
  let ?Q = "\<lambda>res w'. healthy ok view d w' \<and>
       (v_subscriber (view (w_store w)) (su_subscriber_id sub) \<noteq> None \<longrightarrow> res = Inr ())"
  have go: "op_wp (deliver_all d r sub inc kind val now) ?Q w1"
    if same: "unobserved view w w1" and "ok (w_store w1)" for w1
    unfolding deliver_all_def op_wp_bind assms(1)
  proof (rule on_store_reads_ok [OF subscriber_get subscriber_get_ok that(2)], goal_cases)
    case (1 w2)
    have w2: "healthy ok view d w2"
      using assms(3) unobserved_trans [OF same 1(1)] 1(2) by (rule healthy_unobserved)
    show ?case
    proof (cases "v_subscriber (view (w_store w)) (su_subscriber_id sub)")
      case None
      then show ?thesis using w2 by (simp add: unobserved_view [OF same] wp_simps)
    next
      case (Some row)
      then show ?thesis
        by (auto simp: unobserved_view [OF same] intro: op_wp_mono [OF deliver_bindings_ok [OF assms(1,2) w2]])
    qed
  qed
  show ?thesis
  proof (cases "su_one_shot sub")
    case False
    then show ?thesis using go [of w] assms(3) by (simp add: deliver_def wp_simps healthy_def)
  next
    case True
    have "op_wp (on_store (nr_exists_for_subscription (st_notifications st) (su_id sub)))
      (\<lambda>res w1. case res of Inl e \<Rightarrow> ?Q (Inl e) w1 | Inr seen \<Rightarrow>
         op_wp (if seen then op_return () else deliver_all d r sub inc kind val now) ?Q w1) w"
    proof (rule on_store_reads_ok [OF notif_exists notif_exists_ok])
      show "ok (w_store w)" using assms(3) by (simp add: healthy_def)
    qed (use go healthy_unobserved [OF assms(3)] in \<open>auto simp: wp_simps\<close>)
    then show ?thesis unfolding deliver_def op_wp_bind assms(1) using True
      by (simp add: op_wp_wrap) (erule op_wp_mono, auto split: sum.splits)
  qed
qed

lemma notify_ok:
  assumes "d_store d = st" and "good_ids d" and "healthy ok view d w"
  shows "op_wp (op_bind (deliver d r sub inc k val now) (\<lambda>_. put_state d s))
    (\<lambda>res w'. healthy ok view d w' \<and>
       (v_subscriber (view (w_store w)) (su_subscriber_id sub) \<noteq> None \<longrightarrow> res = Inr ())) w"
  unfolding op_wp_bind
proof (rule op_wp_mono [OF deliver_ok [OF assms]], goal_cases)
  case (1 res w1)
  show ?case
  proof (cases res)
    case (Inl e)
    with 1 show ?thesis by auto
  next
    case (Inr u)
    have "op_wp (put_state d s) (\<lambda>res w'. healthy ok view d w' \<and> res = Inr ()) w1"
      unfolding put_state_def assms(1) using 1
      by (intro on_store_writes_ok [OF sub_state_upsert sub_state_upsert_ok]) (simp_all add: healthy_def)
    then show ?thesis unfolding Inr sum.case by (rule op_wp_mono) simp
  qed
qed

lemma evaluate_ok:
  assumes "d_store d = st" and "good_ids d" and "healthy ok view d w"
  shows "op_wp (evaluate_subscription d r ls sub t now)
    (\<lambda>res w'. healthy ok view d w' \<and>
       (v_subscriber (view (w_store w)) (su_subscriber_id sub) \<noteq> None \<longrightarrow> res = Inr ())) w"
proof -
  have ok: "ok (w_store w)" using assms(3) by (simp add: healthy_def)
  let ?Q = "\<lambda>res w'. healthy ok view d w' \<and>
       (v_subscriber (view (w_store w)) (su_subscriber_id sub) \<noteq> None \<longrightarrow> res = Inr ())"
  have go: "op_wp (op_bind (deliver d r sub inc k val now) (\<lambda>_. put_state d s)) ?Q w1"
    if "unobserved view w w1" "ok (w_store w1)" for w1 inc k val s
    using notify_ok [OF assms(1,2) healthy_unobserved [OF assms(3) that], of r sub inc k val now s]
    by (simp add: unobserved_view [OF that(1)])
  have halt: "?Q (Inr ()) w1" if "unobserved view w w1" "ok (w_store w1)" for w1
    using healthy_unobserved [OF assms(3) that] by simp
  have get: "op_wp (on_store (ssr_get (st_sub_states st) i (su_id sub)))
      (\<lambda>r s'. case r of Inl e \<Rightarrow> ?Q (Inl e) s' | Inr x \<Rightarrow> op_wp (f x) ?Q s') w"
    if "\<And>x w1. unobserved view w w1 \<Longrightarrow> ok (w_store w1) \<Longrightarrow> op_wp (f x) ?Q w1" for i f
    by (rule on_store_reads_ok [OF sub_state_get sub_state_get_ok ok]) (simp only: sum.case that)
  show ?thesis
  proof (cases "tr_closed t \<and> tr_incident_id t \<noteq> []")
    case True
    show ?thesis
      unfolding evaluate_subscription_def assms(1) if_P [OF True] op_wp_bind [of "on_store _"]
    proof (rule get)
      fix found w1 assume same: "unobserved view w w1" "ok (w_store w1)"
      show "op_wp (case found of None \<Rightarrow> op_return () | Some state \<Rightarrow>
          if ss_notify_count state = 0 \<or> ss_resolution_sent state then op_return ()
          else if \<not> su_notify_on_resolve sub then op_return ()
          else op_bind (deliver d r sub (tr_incident_id t) kind_resolved (ls_last_value ls) now)
            (\<lambda>_. put_state d (state\<lparr>ss_resolution_sent := True\<rparr>))) ?Q w1"
        using halt [OF same] go [OF same]
        by (cases found) (simp_all del: op_return_run add: op_wp_return)
    qed
  next
    case False
    show ?thesis
    proof (cases "ls_state ls \<noteq> state_firing \<or> time_sub now (ls_triggered_at ls) < su_dwell sub")
      case True
      then show ?thesis
        using False halt [of w] ok by (auto simp: evaluate_subscription_def op_wp_return simp del: op_return_run)
    next
      case due: False
      then have late: "\<not> (ls_state ls \<noteq> state_firing)" "\<not> time_sub now (ls_triggered_at ls) < su_dwell sub"
        by auto
      show ?thesis
        unfolding evaluate_subscription_def assms(1) if_not_P [OF False] if_not_P [OF late(1)]
          if_not_P [OF late(2)] op_wp_bind [of "on_store _"]
        by (rule get)
          (simp only: Let_def op_wp_if op_wp_return go healthy_unobserved [OF assms(3)] simp_thms if_cancel)
    qed
  qed
qed

lemma evaluate_full:
  assumes "d_store d = st" and "good_ids d" and "closes_known ls t"
  shows "op_wp (op_logged (evaluate_subscription d r ls sub t now))
    (\<lambda>res w'. res = Inr () \<and> (healthy ok view d w \<longrightarrow>
       step_full view d r ls t now sub w w' \<and> healthy ok view d w')) w"
proof (cases "healthy ok view d w")
  case False
  then show ?thesis by (simp add: op_wp_def op_logged_def)
next
  case True
  show ?thesis unfolding op_wp_logged
  proof (rule op_wp_mono [OF op_wp_conjI [OF evaluate_effect [OF assms(1,3)] evaluate_ok [OF assms(1,2) True]]],
      goal_cases)
    case (1 res w')
    then show ?case unfolding step_full_def by (cases res) auto
  qed
qed

lemma open_or_close_ok:
  assumes "d_store d = st" and "ok (w_store w)"
    and "tr_opened t \<Longrightarrow> v_incident (view (w_store w)) (tr_incident_id t) = None"
  shows "op_wp (open_or_close d r t val now) (\<lambda>res w'. res = Inr () \<and> ok (w_store w') \<and>
     view (w_store w') = incident_effect r t val now (view (w_store w)) \<and>
     w_ids w' = w_ids w \<and> w_sent w' = w_sent w) w"
proof -
  consider "tr_opened t" | "\<not> tr_opened t" "tr_closed t" | "\<not> tr_opened t" "\<not> tr_closed t" by blast
  then show ?thesis
  proof cases
    case 1
    show ?thesis unfolding open_or_close_def assms(1) using 1 assms(2,3)
      by (simp add: op_wp_wrap, intro on_store_writes_ok [OF inc_open inc_open_ok])
        (simp_all add: incident_effect_def)
  next
    case 2
    show ?thesis unfolding open_or_close_def assms(1) using 2 assms(2)
      by (simp add: op_wp_wrap, intro on_store_writes_ok [OF inc_resolve inc_resolve_ok])
        (simp_all add: incident_effect_def)
  next
    case 3
    then show ?thesis using assms(2) by (simp add: open_or_close_def wp_simps incident_effect_def)
  qed
qed

lemma incident_effect_ids:
  "ids_ok d n v \<Longrightarrow> (tr_opened t \<Longrightarrow> tr_incident_id t \<in> d_id d ` {..<n}) \<Longrightarrow>
   ids_ok d n (incident_effect r t val now (put_live ls v))"
  by (auto simp: ids_ok_def incident_effect_def view_updates split: if_splits)

text \<open>\<open>w1\<close> has the identifier of a new incident already drawn, when there is one.\<close>

lemma tick_rest_ok:
  fixes w0 w1 :: "'s world"
  assumes "d_store d = st" and good: "good_ids d" and "r_id r \<noteq> []" and known: "closes_known ls t"
    and at: "at_view view w0 k v0 w1" and w1: "healthy ok view d w1"
    and opened: "tr_opened t \<Longrightarrow> v_incident v0 (tr_incident_id t) = None \<and>
                   tr_incident_id t \<in> d_id d ` {..<w_ids w1}"
  shows "op_wp (op_bind (op_wrap ''dispatcher: upsert live state''
                (on_store (lr_upsert (st_live_states st) ls))) (\<lambda>_.
     op_bind (open_or_close d r t val now) (\<lambda>_.
     op_bind (op_wrap ''dispatcher: list subscriptions''
        (on_store (sur_list_for_rule (st_subscriptions st) (r_id r) (r_labels r))))
        (op_for (\<lambda>sub. op_logged (evaluate_subscription d r ls sub t now))))))
    (\<lambda>res w'. res = Inr () \<and> healthy ok view d w' \<and>
       (\<exists>w2. at_view view w0 k (core_effect r ls t val now v0) w2 \<and>
          chain (step_full view d r ls t now) (subs_for_rule (r_id r) (r_labels r) (v_subs v0)) w2 w')) w1"
  unfolding op_wp_bind op_wp_wrap
proof (rule on_store_writes_ok [OF live_upsert live_upsert_ok], goal_cases)
  case 1
  then show ?case using w1 by (simp add: healthy_def)
next
  case (3 x w2)
  have v0: "view (w_store w1) = v0" using at by (simp add: at_view_def)
  have fresh: "tr_opened t \<Longrightarrow> v_incident (view (w_store w2)) (tr_incident_id t) = None"
    using opened 3(1) v0 by (simp add: put_live_def)
  show ?case unfolding res_wrap_simps sum.case
  proof (rule op_wp_mono [OF open_or_close_ok [OF assms(1) 3(4) fresh]], goal_cases)
    case 1 then show ?case .
  next
    case (2 res w3)
    have at3: "at_view view w0 k (core_effect r ls t val now v0) w3"
      using 2 3(1-3) at v0 by (simp add: at_view_def core_effect_def)
    have "ids_ok d (w_ids w1) v0" using w1 v0 by (simp add: healthy_def)
    then have w3: "healthy ok view d w3"
      using 2 3(1-3) v0 opened incident_effect_ids [of d "w_ids w1" v0 t r val now ls]
      by (simp add: healthy_def)
    have subs: "v_subs (view (w_store w3)) = v_subs v0" using at3 by (simp add: at_view_def)
    have "op_wp (on_store (sur_list_for_rule (st_subscriptions st) (r_id r) (r_labels r)))
      (\<lambda>rs s'. case res_wrap ''dispatcher: list subscriptions'' rs of
          Inl e \<Rightarrow> (Inl e :: unit result) = Inr () \<and> healthy ok view d s' \<and>
            (\<exists>w2. at_view view w0 k (core_effect r ls t val now v0) w2 \<and>
              chain (step_full view d r ls t now) (subs_for_rule (r_id r) (r_labels r) (v_subs v0)) w2 s')
        | Inr xs \<Rightarrow> op_wp (op_for (\<lambda>sub. op_logged (evaluate_subscription d r ls sub t now)) xs)
            (\<lambda>res w'. res = Inr () \<and> healthy ok view d w' \<and>
            (\<exists>w2. at_view view w0 k (core_effect r ls t val now v0) w2 \<and>
              chain (step_full view d r ls t now) (subs_for_rule (r_id r) (r_labels r) (v_subs v0)) w2 w')) s') w3"
    proof (rule on_store_reads_ok [OF list_for_rule [OF assms(3)] list_for_rule_ok], goal_cases)
      case 1
      then show ?case using w3 by (simp add: healthy_def)
    next
      case (2 w4)
      have w4: "healthy ok view d w4" "at_view view w0 k (core_effect r ls t val now v0) w4"
        using healthy_unobserved [OF w3 2] at_view_unobserved [OF at3 2(1)] by auto
      show ?case unfolding res_wrap_simps sum.case subs
      proof (rule op_wp_mono)
        show "op_wp (op_for (\<lambda>sub. op_logged (evaluate_subscription d r ls sub t now)) 
              (subs_for_rule (r_id r) (r_labels r) (v_subs v0)))
          (\<lambda>res w'. res = Inr () \<and> chain (\<lambda>sub w w'. healthy ok view d w \<longrightarrow>
             step_full view d r ls t now sub w w' \<and> healthy ok view d w')
             (subs_for_rule (r_id r) (r_labels r) (v_subs v0)) w4 w') w4"
          by (rule op_for_chain) (rule evaluate_full [OF assms(1) good known])
      qed (use chain_guarded [where I = "healthy ok view d" and R = "step_full view d r ls t now"] w4 in blast)
    qed
    with 2 show ?case by simp
  qed
qed simp

lemma tick_ok:
  assumes "d_store d = st" and good: "good_ids d" and "r_id r \<noteq> []"
    and out: "tick_outcome d r triggered val now w (view (w_store w)) = (ls, t)"
    and known: "closes_known ls t" and w: "healthy ok view d w"
  shows "op_wp (tick d r triggered val now)
    (\<lambda>res w'. res = Inr () \<and> healthy ok view d w' \<and>
       (\<exists>w2. at_view view w (ids_drawn r triggered (view (w_store w))) (core_effect r ls t val now (view (w_store w))) w2 \<and>
          chain (step_full view d r ls t now)
            (subs_for_rule (r_id r) (r_labels r) (v_subs (view (w_store w)))) w2 w')) w"
proof -
  let ?v0 = "view (w_store w)"
  show ?thesis
    unfolding tick_def op_wp_bind [of "op_wrap _ _"] op_wp_wrap assms(1)
  proof (rule on_store_reads_ok [OF live_get live_get_ok], goal_cases)
    case 1
    then show ?case using w by (simp add: healthy_def)
  next
    case (2 w1)
    let ?w1 = "w1\<lparr>w_ids := Suc (w_ids w1)\<rparr>"
    have w1: "healthy ok view d w1" using w 2 by (rule healthy_unobserved)
    have at: "at_view view w 0 ?v0 w1" "at_view view w 1 ?v0 ?w1" and ids: "w_ids w1 = w_ids w"
      using 2(1) by (simp_all add: at_view_def unobserved_def)
    have ids_ok: "ids_ok d (w_ids w) ?v0" using w by (simp add: healthy_def)
    have w1': "healthy ok view d ?w1"
      using w1 ids_ok_mono [of d "w_ids w1" "view (w_store w1)"] by (simp add: healthy_def)
    show ?case
    proof (cases "triggered \<and> ls_state (live_before r ?v0) \<noteq> state_firing")
      case True
      then have "v_incident ?v0 (tr_incident_id t) = None \<and> tr_incident_id t \<in> d_id d ` {..<w_ids ?w1}"
        using out good ids fresh_incident [OF good ids_ok]
        by (auto simp: tick_outcome_def new_incident_id_def apply_outcome_open good_ids_def)
      from tick_rest_ok [OF assms(1) good assms(3) known at(2) w1' this] show ?thesis
        using True out ids
        by (auto simp: tick_outcome_def new_incident_id_def live_before_def ids_drawn_def Let_def
            op_bind_return op_wp_bind_fresh simp del: op_return_run op_wp_bind op_wp_wrap)
    next
      case False
      have "t = snd (tick_outcome d r triggered val now w ?v0)" using out by simp
      then have "\<not> tr_opened t" using False by (auto simp: tick_outcome_def apply_outcome_opened_iff)
      then have "tr_opened t \<Longrightarrow> v_incident ?v0 (tr_incident_id t) = None \<and>
          tr_incident_id t \<in> d_id d ` {..<w_ids w1}" by simp
      from tick_rest_ok [OF assms(1) good assms(3) known at(1) w1 this] show ?thesis
        using False out ids
        by (auto simp: tick_outcome_def new_incident_id_def live_before_def ids_drawn_def Let_def
            op_bind_return op_wp_bind_fresh simp del: op_return_run op_wp_bind op_wp_wrap)
    qed
  qed
qed

end

end
