(* ===== verification/Incident_Inv.thy ===== *)
theory Incident_Inv
  imports Dispatcher_Reliable
begin

text \<open>
  Invariants of live states and incidents over ticks. \<open>sys_inv\<close> holds while no call fails: a
  rule is firing exactly when it has an open incident, which is then the one its live state
  names. \<open>fault_inv\<close> survives failing calls: live states are well formed, no incident belongs
  to two rules, and an incident with a closing notification is no rule's current incident.
\<close>

section \<open>Messages of an evaluation\<close>

definition about :: "rule \<Rightarrow> live_state \<Rightarrow> transition \<Rightarrow> time \<Rightarrow> string \<times> channel_notification \<Rightarrow> bool" where
  "about r ls t now m \<longleftrightarrow>
     cn_incident_id (snd m) = subject_incident ls t \<and> cn_rule_id (snd m) = r_id r \<and>
     cn_now (snd m) = now \<and> cn_value (snd m) = ls_last_value ls \<and>
     (cn_kind (snd m) = kind_resolved \<longleftrightarrow> tr_closed t)"

lemma decision_kind:
  "decision_for ls t sub now v = Notify k \<Longrightarrow> k = kind_resolved \<longleftrightarrow> tr_closed t"
  by (auto simp: decision_for_def decide_def split: if_splits)

lemma plan_about: "m \<in> set (plan d r ls t now v sub) \<Longrightarrow> about r ls t now m"
  by (auto simp: plan_def messages_def about_def payload_def dest: decision_kind [OF sym]
      split: decision.splits if_splits option.splits)

lemma chain_about:
  "chain (step_any view d r ls t now) subs w w' \<Longrightarrow>
   \<exists>ms. sent_messages w' = sent_messages w @ ms \<and> (\<forall>m \<in> set ms. about r ls t now m)"
proof (induction subs arbitrary: w)
  case Nil
  then show ?case by simp
next
  case (Cons sub subs)
  then obtain w1 where s1: "step_any view d r ls t now sub w w1"
    and rest: "chain (step_any view d r ls t now) subs w1 w'" by auto
  obtain st ms where ev: "evaluated view d (su_id sub) (subject_incident ls t) st ms w w1"
    and ms: "ms = [] \<or> ms = plan d r ls t now (view (w_store w)) sub"
    using step_any_cases [OF s1] by metis
  obtain ms' where ms': "sent_messages w' = sent_messages w1 @ ms'" "\<forall>m \<in> set ms'. about r ls t now m"
    using Cons.IH [OF rest] by auto
  have "\<forall>m \<in> set (ms @ ms'). about r ls t now m" using ms ms'(2) by (auto dest: plan_about)
  moreover have "sent_messages w' = sent_messages w @ (ms @ ms')"
    using ms'(1) evaluated_sent [OF ev] by simp
  ultimately show ?case by blast
qed

text \<open>What the evaluations leave alone.\<close>

definition same_core :: "store_view \<Rightarrow> store_view \<Rightarrow> bool" where
  "same_core v v' \<longleftrightarrow> v_live v' = v_live v \<and> v_incident v' = v_incident v \<and> v_subs v' = v_subs v \<and>
     v_subscriber v' = v_subscriber v"

lemma evaluated_same_core:
  "evaluated view d sid inc st ms w w' \<Longrightarrow> same_core (view (w_store w)) (view (w_store w'))"
  by (auto simp: evaluated_def delivered_def same_core_def put_sub_state_def split: option.splits)

lemma chain_same_core:
  "chain (step_any view d r ls t now) subs w w' \<Longrightarrow>
   same_core (view (w_store w)) (view (w_store w')) \<and>
   (keyed (view (w_store w)) \<longrightarrow> keyed (view (w_store w'))) \<and>
   (ids_ok d (w_ids w) (view (w_store w)) \<longrightarrow> ids_ok d (w_ids w') (view (w_store w')))  \<and> w_ids w \<le> w_ids w'"
proof (induction subs arbitrary: w)
  case Nil
  then show ?case by (simp add: same_core_def)
next
  case (Cons sub subs)
  then obtain w1 where s1: "step_any view d r ls t now sub w w1"
    and rest: "chain (step_any view d r ls t now) subs w1 w'" by auto
  obtain st ms where ev: "evaluated view d (su_id sub) (subject_incident ls t) st ms w w1"
    using step_any_cases [OF s1] by metis
  have "w_ids w \<le> w_ids w1" using ev by (auto simp: evaluated_def delivered_def)
  then show ?case
    using Cons.IH [OF rest] evaluated_same_core [OF ev] evaluated_keyed [OF ev] ids_ok_evaluated [OF ev]
    by (auto simp: same_core_def)
qed

section \<open>Open incidents\<close>

definition open_incidents :: "store_view \<Rightarrow> string \<Rightarrow> string set" where
  "open_incidents v rid =
     {i. \<exists>inc. v_incident v i = Some inc \<and> in_rule_id inc = rid \<and> in_resolved_at inc = zero_time}"

definition live_of :: "store_view \<Rightarrow> string \<Rightarrow> live_state" where
  "live_of v rid = (case v_live v rid of None \<Rightarrow> fresh_live_state rid | Some ls \<Rightarrow> ls)"

definition live_keyed :: "store_view \<Rightarrow> bool" where
  "live_keyed v \<longleftrightarrow> (\<forall>rid. ls_rule_id (live_of v rid) = rid \<and> live_wf (live_of v rid))"

definition sys_inv :: "store_view \<Rightarrow> bool" where
  "sys_inv v \<longleftrightarrow> live_keyed v \<and> keyed v \<and>
     (\<forall>rid. open_incidents v rid =
        (if ls_state (live_of v rid) = state_firing then {ls_incident_id (live_of v rid)} else {}))"

lemma live_before_eq: "live_before r v = live_of v (r_id r)"
  by (simp add: live_before_def live_of_def)

lemma live_of_core:
  "ls_rule_id ls = r_id r \<Longrightarrow>
   live_of (core_effect r ls t val now v) rid = (if rid = r_id r then norm_live ls else live_of v rid)"
  by (simp add: live_of_def)

lemma live_wf_norm: "live_wf ls \<Longrightarrow> live_wf (norm_live ls)"
  by (auto simp: live_wf_def)

lemma resolve_ms_not_zero: "0 \<le> now \<Longrightarrow> of_unix_milli (unix_milli now) \<noteq> zero_time"
proof -
  assume "0 \<le> now"
  then have "0 \<le> of_unix_milli (unix_milli now)"
    by (simp add: of_unix_milli_def unix_milli_def pos_imp_zdiv_nonneg_iff)
  then show ?thesis using zero_time_neg by linarith
qed

text \<open>The three shapes of a tick outcome on a well-formed live state.\<close>

lemma tick_outcome_wf:
  assumes "live_keyed v" and "good_ids d"
    and "tick_outcome d r triggered val now w v = (ls, t)"
  shows "ls_rule_id ls = r_id r \<and> live_wf ls \<and> closes_known ls t"
proof -
  let ?ls = "live_of v (r_id r)"
  have wf: "live_wf ?ls" "ls_rule_id ?ls = r_id r" using assms(1) by (auto simp: live_keyed_def)
  have new: "new_incident_id d r triggered w v \<noteq> []" if "triggered" "ls_state ?ls \<noteq> state_firing"
    using that assms(2) by (simp add: new_incident_id_def live_before_eq good_ids_def)
  have ls: "ls = fst (apply_outcome ?ls triggered val now (new_incident_id d r triggered w v))"
    and t: "t = snd (apply_outcome ?ls triggered val now (new_incident_id d r triggered w v))"
    using assms(3) by (simp_all add: tick_outcome_def live_before_eq)
  have "live_wf ls" unfolding ls using new by (intro live_wf_apply [OF wf(1)])
  moreover have "closes_known ls t"
    unfolding closes_known_def
  proof
    assume "tr_closed t"
    then have c: "\<not> triggered" "ls_state ?ls = state_firing"
      unfolding t apply_outcome_closed_iff by auto
    then have "ls_incident_id ?ls \<noteq> []" using wf(1) by (auto simp: live_wf_def)
    then show "tr_incident_id t \<noteq> [] \<and> ls_state ls \<noteq> state_firing"
      unfolding t ls apply_outcome_close [OF c] by simp
  qed
  ultimately show ?thesis using wf(2) by (simp add: ls)
qed

lemma tick_outcome_cases:
  assumes "live_keyed v" and "good_ids d"
    and "tick_outcome d r triggered val now w v = (ls, t)"
  obtains (opens) "triggered" "ls_state (live_of v (r_id r)) = state_ok"
      "ls_state ls = state_firing" "ls_incident_id ls = d_id d (w_ids w)"
      "ls_triggered_at ls = now" "tr_opened t" "\<not> tr_closed t"
      "tr_incident_id t = d_id d (w_ids w)" "tr_triggered_at t = now"
  | (keeps) "triggered" "ls_state (live_of v (r_id r)) = state_firing"
      "ls_state ls = state_firing" "ls_incident_id ls = ls_incident_id (live_of v (r_id r))"
      "ls_triggered_at ls = ls_triggered_at (live_of v (r_id r))" "\<not> tr_opened t" "\<not> tr_closed t"
  | (closes) "\<not> triggered" "ls_state (live_of v (r_id r)) = state_firing"
      "ls_state ls = state_ok" "ls_incident_id ls = []" "\<not> tr_opened t" "tr_closed t"
      "tr_incident_id t = ls_incident_id (live_of v (r_id r))"
  | (rests) "\<not> triggered" "ls_state (live_of v (r_id r)) = state_ok"
      "ls_state ls = state_ok" "ls_incident_id ls = []" "\<not> tr_opened t" "\<not> tr_closed t"
proof -
  let ?ls = "live_of v (r_id r)" and ?i = "new_incident_id d r triggered w v"
  have wf: "live_wf ?ls" using assms(1) by (auto simp: live_keyed_def)
  have out: "apply_outcome ?ls triggered val now ?i = (ls, t)"
    using assms(3) by (simp add: tick_outcome_def live_before_eq)
  have two: "ls_state ?ls = state_ok \<or> ls_state ?ls = state_firing" using wf by (auto simp: live_wf_def)
  show thesis
  proof (cases triggered)
    case True
    show thesis
    proof (cases "ls_state ?ls = state_firing")
      case f: True
      from out [unfolded apply_outcome_stay_firing [OF True f]] True f keeps show thesis
        by (auto simp: tr_opened_def tr_closed_def)
    next
      case f: False
      have i: "?i = d_id d (w_ids w)" "?i \<noteq> []"
        using True f assms(2) by (auto simp: new_incident_id_def live_before_eq good_ids_def)
      from out [unfolded apply_outcome_open [OF True f i(2)]] True f two i(1) opens show thesis
        by (auto simp: tr_opened_def tr_closed_def)
    qed
  next
    case False
    show thesis
    proof (cases "ls_state ?ls = state_firing")
      case f: True
      from out [unfolded apply_outcome_close [OF False f]] False f closes show thesis
        by (auto simp: tr_opened_def tr_closed_def)
    next
      case f: False
      from out [unfolded apply_outcome_stay_ok [OF False f]] False f two rests wf show thesis
        by (auto simp: tr_opened_def tr_closed_def live_wf_def)
    qed
  qed
qed

section \<open>Invariant without failures\<close>

lemma open_put_live [simp]: "open_incidents (put_live ls v) rid = open_incidents v rid"
  by (simp add: open_incidents_def put_live_def)

lemma open_put_incident:
  "v_incident v (in_id i) = None \<Longrightarrow>
   open_incidents (put_incident i v) rid =
     (if in_rule_id i = rid then insert (in_id i) (open_incidents v rid) else open_incidents v rid)"
  by (auto simp: open_incidents_def put_incident_def)

lemma open_resolve:
  "of_unix_milli ms \<noteq> zero_time \<Longrightarrow>
   open_incidents (resolve_incident i ms v) rid = open_incidents v rid - {i}"
  by (auto simp: open_incidents_def resolve_incident_def)

lemma open_disjoint: "i \<in> open_incidents v rid \<Longrightarrow> rid \<noteq> rid' \<Longrightarrow> i \<notin> open_incidents v rid'"
  by (auto simp: open_incidents_def)

lemma open_incident_effect:
  assumes "ids_ok d (w_ids w) v" and "good_ids d" and "live_keyed v" and "0 \<le> now"
    and "tick_outcome d r triggered val now w v = (ls, t)"
  shows "open_incidents (core_effect r ls t val now v) rid =
    (if tr_opened t \<and> rid = r_id r then insert (tr_incident_id t) (open_incidents v rid)
     else if tr_closed t then open_incidents v rid - {tr_incident_id t}
     else open_incidents v rid)"
  using assms(3,2,5)
proof (cases rule: tick_outcome_cases)
  case opens
  then have "v_incident (put_live ls v) (tr_incident_id t) = None"
    using fresh_incident [OF assms(2,1)] by (simp add: put_live_def)
  then show ?thesis using opens by (auto simp: core_effect_def incident_effect_def open_put_incident)
next
  case closes
  then show ?thesis
    by (simp add: core_effect_def incident_effect_def open_resolve resolve_ms_not_zero [OF assms(4)])
qed (simp_all add: core_effect_def incident_effect_def)

lemma live_keyed_core:
  assumes "live_keyed v" and "good_ids d" and "tick_outcome d r triggered val now w v = (ls, t)"
  shows "live_keyed (core_effect r ls t val now v)"
  using tick_outcome_wf [OF assms] assms(1)
  by (simp add: live_keyed_def live_of_core live_wf_norm)

lemma sys_inv_core:
  assumes inv: "sys_inv v" and ids: "ids_ok d (w_ids w) v" and good: "good_ids d" and now: "0 \<le> now"
    and out: "tick_outcome d r triggered val now w v = (ls, t)"
  shows "sys_inv (core_effect r ls t val now v)"
proof -
  have lk: "live_keyed v" using inv by (simp add: sys_inv_def)
  let ?v = "core_effect r ls t val now v"
  note wf = tick_outcome_wf [OF lk good out]
  have live: "live_of ?v rid = (if rid = r_id r then norm_live ls else live_of v rid)" for rid
    using wf by (simp add: live_of_core)
  have before: "open_incidents v rid =
      (if ls_state (live_of v rid) = state_firing then {ls_incident_id (live_of v rid)} else {})" for rid
    using inv by (simp add: sys_inv_def)
  note eff = open_incident_effect [OF ids good lk now out]
  have "open_incidents ?v rid =
      (if ls_state (live_of ?v rid) = state_firing then {ls_incident_id (live_of ?v rid)} else {})" for rid
    using lk good out
  proof (cases rule: tick_outcome_cases)
    case opens
    then show ?thesis using before [of rid] by (auto simp: eff live)
  next
    case keeps
    then show ?thesis using before [of rid] by (simp add: eff live)
  next
    case closes
    then have mem: "tr_incident_id t \<in> open_incidents v (r_id r)" using before by simp
    then have "rid \<noteq> r_id r \<Longrightarrow> tr_incident_id t \<notin> open_incidents v rid" by (rule open_disjoint) simp
    then show ?thesis using closes before [of rid] by (auto simp: eff live)
  next
    case rests
    then show ?thesis using before [of rid] by (simp add: eff live)
  qed
  then show ?thesis using inv live_keyed_core [OF lk good out] by (simp add: sys_inv_def)
qed

lemma sys_inv_same_core: "same_core v v' \<Longrightarrow> keyed v' \<Longrightarrow> sys_inv v \<Longrightarrow> sys_inv v'"
  by (simp add: same_core_def sys_inv_def live_keyed_def live_of_def open_incidents_def)

section \<open>Invariant under failures\<close>

text \<open>
  \<open>closed_out\<close>: an incident for which a closing notification went out. Current incidents are
  identifiers already drawn, of one rule each, and none of them is closed out.
\<close>

definition closed_out :: "'s world \<Rightarrow> string set" where
  "closed_out w = {cn_incident_id (snd m) |m. m \<in> set (sent_messages w) \<and> cn_kind (snd m) = kind_resolved}"

definition current :: "store_view \<Rightarrow> string \<Rightarrow> bool" where
  "current v i \<longleftrightarrow> i \<noteq> [] \<and> (\<exists>rid. ls_incident_id (live_of v rid) = i)"

definition fault_inv :: "('s \<Rightarrow> store_view) \<Rightarrow> 's dispatcher \<Rightarrow> 's world \<Rightarrow> bool" where
  "fault_inv view d w \<longleftrightarrow> (let v = view (w_store w) in
     live_keyed v \<and>
     (\<forall>i. current v i \<longrightarrow> i \<in> d_id d ` {..<w_ids w} \<and> i \<notin> closed_out w) \<and>
     (\<forall>rid rid'. ls_incident_id (live_of v rid) = ls_incident_id (live_of v rid') \<longrightarrow>
        ls_incident_id (live_of v rid) = [] \<or> rid = rid') \<and>
     closed_out w \<subseteq> d_id d ` {..<w_ids w})"

text \<open>A change of one rule's live state that keeps, drops or renews its incident.\<close>

lemma fault_inv_live:
  assumes inv: "fault_inv view d w" and good: "good_ids d" and ids: "w_ids w \<le> w_ids w'"
    and live: "\<And>rid. live_of (view (w_store w')) rid =
       (if rid = rid0 then ls else live_of (view (w_store w)) rid)"
    and wf: "ls_rule_id ls = rid0" "live_wf ls"
    and inc: "ls_incident_id ls = [] \<or> ls_incident_id ls = ls_incident_id (live_of (view (w_store w)) rid0) \<or>
       (ls_incident_id ls = d_id d (w_ids w) \<and> w_ids w < w_ids w')"
    and out: "closed_out w' \<subseteq> insert i (closed_out w)"
    and i: "i = [] \<or> (i = ls_incident_id (live_of (view (w_store w)) rid0) \<and> ls_incident_id ls = [])"
    and nonempty: "[] \<notin> closed_out w'"
  shows "fault_inv view d w'"
proof -
  let ?v = "view (w_store w)" and ?v' = "view (w_store w')"
  let ?used = "d_id d ` {..<w_ids w}" and ?used' = "d_id d ` {..<w_ids w'}"
  have mono: "?used \<subseteq> ?used'" using ids by (intro image_mono) auto
  have lk: "live_keyed ?v" and cur: "\<And>j. current ?v j \<Longrightarrow> j \<in> ?used \<and> j \<notin> closed_out w"
    and one: "\<And>a b. ls_incident_id (live_of ?v a) = ls_incident_id (live_of ?v b) \<Longrightarrow>
        ls_incident_id (live_of ?v a) = [] \<or> a = b"
    and co: "closed_out w \<subseteq> ?used"
    using inv unfolding fault_inv_def Let_def by blast+
  have new: "d_id d (w_ids w) \<notin> ?used" using good by (rule next_id_fresh)
  have newmem: "w_ids w < w_ids w' \<Longrightarrow> d_id d (w_ids w) \<in> ?used'" by auto
  have curI: "ls_incident_id (live_of ?v rid) \<noteq> [] \<Longrightarrow> current ?v (ls_incident_id (live_of ?v rid))" for rid
    by (auto simp: current_def)
  have other: "ls_incident_id (live_of ?v rid) \<in> ?used \<and> ls_incident_id (live_of ?v rid) \<notin> closed_out w \<or>
      ls_incident_id (live_of ?v rid) = []" for rid
    using cur curI by blast
  have lk': "live_keyed ?v'" using lk wf by (simp add: live_keyed_def live)
  have co': "closed_out w' \<subseteq> ?used'"
  proof
    fix j assume j: "j \<in> closed_out w'"
    then have "j = i \<or> j \<in> closed_out w" "j \<noteq> []" using out nonempty by auto
    then show "j \<in> ?used'" using co mono i other [of rid0] by blast
  qed
  have cur': "j \<in> ?used' \<and> j \<notin> closed_out w'" if "current ?v' j" for j
  proof -
    obtain rid where rid: "j \<noteq> []" "j = ls_incident_id (live_of ?v' rid)"
      using \<open>current ?v' j\<close> by (auto simp: current_def)
    have ex: "j \<in> closed_out w' \<Longrightarrow> j = i \<or> j \<in> closed_out w" using out by blast
    show ?thesis
    proof (cases "rid = rid0")
      case True
      then have j: "j = ls_incident_id ls" using rid(2) by (simp add: live)
      with rid(1) i have "i = []" by auto
      with ex rid(1) have out_j: "j \<in> closed_out w' \<Longrightarrow> j \<in> closed_out w" by auto
      from inc j rid(1) consider "j = ls_incident_id (live_of ?v rid0)"
        | "j = d_id d (w_ids w)" "w_ids w < w_ids w'" by auto
      then show ?thesis
      proof cases
        case 1
        then show ?thesis using other [of rid0] mono rid(1) out_j by auto
      next
        case 2
        then show ?thesis using new newmem co out_j by auto
      qed
    next
      case False
      then have j: "j = ls_incident_id (live_of ?v rid)" using rid(2) by (simp add: live)
      have "j \<noteq> i" using i one [of rid rid0] False rid(1) j by auto
      then show ?thesis using other [of rid] mono rid(1) j ex by auto
    qed
  qed
  have one': "ls_incident_id (live_of ?v' a) = [] \<or> a = b"
    if "ls_incident_id (live_of ?v' a) = ls_incident_id (live_of ?v' b)" for a b
  proof (rule ccontr)
    assume "\<not> ?thesis"
    then have ne: "ls_incident_id (live_of ?v' a) \<noteq> []" "a \<noteq> b" by auto
    have clash: False if "rid \<noteq> rid0" "ls_incident_id ls = ls_incident_id (live_of ?v rid)"
      "ls_incident_id ls \<noteq> []" for rid
    proof -
      from inc that(3) consider "ls_incident_id ls = ls_incident_id (live_of ?v rid0)"
        | "ls_incident_id ls = d_id d (w_ids w)" by auto
      then show False
      proof cases
        case 1
        then show False using one [of rid rid0] that by auto
      next
        case 2
        then show False using new other [of rid] that by auto
      qed
    qed
    show False
    proof (cases "a = rid0")
      case True
      then show False using clash [of b] ne that by (simp add: live)
    next
      case False
      then show False using clash [of a] one [of a b] ne that by (cases "b = rid0") (auto simp: live)
    qed
  qed
  show ?thesis unfolding fault_inv_def Let_def using lk' co' cur' one' by blast
qed

lemma fault_inv_same_live:
  assumes "fault_inv view d w" and "good_ids d" and "w_ids w \<le> w_ids w'"
    and "v_live (view (w_store w')) = v_live (view (w_store w))"
    and "closed_out w' = closed_out w"
  shows "fault_inv view d w'"
proof -
  have lk: "live_keyed (view (w_store w))" and co: "closed_out w \<subseteq> d_id d ` {..<w_ids w}"
    using assms(1) by (auto simp: fault_inv_def Let_def)
  have live: "live_of (view (w_store w')) rid = live_of (view (w_store w)) rid" for rid
    using assms(4) by (simp add: live_of_def)
  have "[] \<notin> closed_out w"
    using co assms(2) by (metis good_ids_def image_iff subsetD)
  then show ?thesis
    by (intro fault_inv_live [OF assms(1-3), where ?rid0.0 = "[]" and ls = "live_of (view (w_store w)) []" and i = "[]"])
      (use lk assms(5) in \<open>auto simp: live live_keyed_def\<close>)
qed

lemma closed_out_sent:
  assumes "sent_messages w' = sent_messages w @ ms" and "\<forall>m \<in> set ms. about r ls t now m"
  shows "closed_out w' \<subseteq> (if tr_closed t then insert (tr_incident_id t) (closed_out w) else closed_out w)"
  using assms by (fastforce simp: closed_out_def about_def subject_incident_def)

lemma fault_inv_tick_step:
  assumes inv: "fault_inv view d w" and good: "good_ids d"
    and out: "tick_outcome d r triggered val now w (view (w_store w)) = (ls, t)"
    and ids: "w_ids w + ids_drawn r triggered (view (w_store w)) \<le> w_ids w'"
    and live: "v_live (view (w_store w')) = (v_live (view (w_store w)))(r_id r \<mapsto> norm_live ls)"
    and closed: "closed_out w' \<subseteq>
      (if tr_closed t then insert (tr_incident_id t) (closed_out w) else closed_out w)"
  shows "fault_inv view d w'"
proof -
  let ?v = "view (w_store w)"
  have lk: "live_keyed ?v" and co: "closed_out w \<subseteq> d_id d ` {..<w_ids w}"
    and cur: "\<And>i. current ?v i \<Longrightarrow> i \<in> d_id d ` {..<w_ids w}"
    using inv by (auto simp: fault_inv_def Let_def)
  note wf = tick_outcome_wf [OF lk good out]
  have live': "live_of (view (w_store w')) rid = (if rid = r_id r then norm_live ls else live_of ?v rid)" for rid
    using live by (simp add: live_of_def)
  have ne: "[] \<notin> closed_out w"
    using co good by (metis good_ids_def image_iff subsetD)
  have ids': "w_ids w \<le> w_ids w'" using ids by simp
  have wfn: "ls_rule_id (norm_live ls) = r_id r" "live_wf (norm_live ls)"
    using wf by (simp_all add: live_wf_norm)
  show ?thesis using lk good out
  proof (cases rule: tick_outcome_cases)
    case opens
    then have "w_ids w < w_ids w'" using ids by (simp add: ids_drawn_def live_before_eq)
    with opens closed ne show ?thesis
      by (intro fault_inv_live [OF inv good ids' live' wfn, where i = "[]"]) auto
  next
    case keeps
    with closed ne show ?thesis
      by (intro fault_inv_live [OF inv good ids' live' wfn, where i = "[]"]) auto
  next
    case closes
    then have "tr_incident_id t \<noteq> []" using wf by (simp add: closes_known_def)
    with closes closed ne show ?thesis
      by (intro fault_inv_live [OF inv good ids' live' wfn, where i = "tr_incident_id t"]) auto
  next
    case rests
    with closed ne show ?thesis
      by (intro fault_inv_live [OF inv good ids' live' wfn, where i = "[]"]) auto
  qed
qed

text \<open>
  New messages of a step: none is about an incident closed out before, and all close or none
  does. So after a closing notification nothing but closing notifications follows for its
  incident.
\<close>

definition closes_once :: "'s world \<Rightarrow> 's world \<Rightarrow> bool" where
  "closes_once w w' \<longleftrightarrow> (\<exists>ms. sent_messages w' = sent_messages w @ ms \<and>
     (\<forall>m \<in> set ms. cn_incident_id (snd m) \<notin> closed_out w) \<and>
     ((\<forall>m \<in> set ms. cn_kind (snd m) = kind_resolved) \<or> (\<forall>m \<in> set ms. cn_kind (snd m) \<noteq> kind_resolved)))"

fun resolve_final :: "(string \<times> channel_notification) list \<Rightarrow> bool" where
  "resolve_final [] \<longleftrightarrow> True"
| "resolve_final (m # ms) \<longleftrightarrow>
     (cn_kind (snd m) = kind_resolved \<longrightarrow>
        (\<forall>m' \<in> set ms. cn_incident_id (snd m') = cn_incident_id (snd m) \<longrightarrow> cn_kind (snd m') = kind_resolved)) \<and>
     resolve_final ms"

lemma resolve_final_append:
  "resolve_final (xs @ ys) \<longleftrightarrow> resolve_final xs \<and> resolve_final ys \<and>
     (\<forall>m \<in> set xs. \<forall>m' \<in> set ys. cn_kind (snd m) = kind_resolved \<longrightarrow>
        cn_incident_id (snd m') = cn_incident_id (snd m) \<longrightarrow> cn_kind (snd m') = kind_resolved)"
  by (induction xs) auto

lemma resolve_final_uniform:
  "(\<forall>m \<in> set ms. cn_kind (snd m) = kind_resolved) \<or> (\<forall>m \<in> set ms. cn_kind (snd m) \<noteq> kind_resolved) \<Longrightarrow>
   resolve_final ms"
  by (induction ms) auto

lemma closes_once_final:
  assumes "closes_once w w'" and "resolve_final (sent_messages w)"
  shows "resolve_final (sent_messages w')"
proof -
  obtain ms where ms: "sent_messages w' = sent_messages w @ ms"
    "\<forall>m \<in> set ms. cn_incident_id (snd m) \<notin> closed_out w" "resolve_final ms"
    using assms(1) resolve_final_uniform unfolding closes_once_def by blast
  then show ?thesis using assms(2) by (force simp: resolve_final_append closed_out_def)
qed

lemma closes_once_silent: "sent_messages w' = sent_messages w \<Longrightarrow> closes_once w w'"
  by (auto simp: closes_once_def)

lemma subject_not_closed:
  assumes inv: "fault_inv view d w" and good: "good_ids d"
    and out: "tick_outcome d r triggered val now w (view (w_store w)) = (ls, t)"
  shows "subject_incident ls t \<notin> closed_out w"
proof -
  let ?v = "view (w_store w)"
  have lk: "live_keyed ?v" and cur: "\<And>i. current ?v i \<Longrightarrow> i \<notin> closed_out w"
    and co: "closed_out w \<subseteq> d_id d ` {..<w_ids w}"
    using inv by (auto simp: fault_inv_def Let_def)
  have ne: "[] \<notin> closed_out w" using co good by (metis good_ids_def image_iff subsetD)
  have old: "ls_incident_id (live_of ?v (r_id r)) \<notin> closed_out w"
    using cur [of "ls_incident_id (live_of ?v (r_id r))"] ne unfolding current_def by metis
  show ?thesis using lk good out
    by (cases rule: tick_outcome_cases)
      (use ne old co next_id_fresh [OF good, of "w_ids w"] in \<open>auto simp: subject_incident_def\<close>)
qed

context dispatch_store
begin

lemma tick_fault_inv:
  assumes "d_store d = st" and good: "good_ids d" and "r_id r \<noteq> []" and inv: "fault_inv view d w"
  shows "op_wp (tick d r triggered val now) (\<lambda>res w'. fault_inv view d w' \<and> closes_once w w') w"
proof -
  let ?v = "view (w_store w)" and ?k = "ids_drawn r triggered (view (w_store w))"
  obtain ls t where out: "tick_outcome d r triggered val now w ?v = (ls, t)"
    by (cases "tick_outcome d r triggered val now w ?v")
  have lk: "live_keyed ?v" using inv by (simp add: fault_inv_def Let_def)
  note wf = tick_outcome_wf [OF lk good out]
  have stop: "fault_inv view d w' \<and> closes_once w w'" if "at_view view w k ?v w'" for k w'
    using that by (intro conjI fault_inv_same_live [OF inv good] closes_once_silent)
      (auto simp: at_view_def closed_out_def sent_messages_def)
  have core: "fault_inv view d w' \<and> closes_once w w'"
    if "at_view view w ?k v w'" "v_live v = (v_live ?v)(r_id r \<mapsto> norm_live ls)" for v w'
    using that by (intro conjI fault_inv_tick_step [OF inv good out] closes_once_silent)
      (auto simp: at_view_def closed_out_def sent_messages_def)
  have all: "fault_inv view d w' \<and> closes_once w w'"
    if at: "at_view view w ?k (core_effect r ls t val now ?v) w1"
      and loop: "chain (step_any view d r ls t now) subs w1 w'" for subs w1 w'
  proof -
    have same: "same_core (view (w_store w1)) (view (w_store w'))" "w_ids w1 \<le> w_ids w'"
      using chain_same_core [OF loop] by auto
    obtain ms where ms: "sent_messages w' = sent_messages w @ ms" "\<forall>m \<in> set ms. about r ls t now m"
      using chain_about [OF loop] at_view_sent [OF at] by auto
    have "fault_inv view d w'"
      by (rule fault_inv_tick_step [OF inv good out _ _ closed_out_sent [OF ms]])
        (use same at wf in \<open>auto simp: at_view_def same_core_def\<close>)
    moreover have "closes_once w w'"
      unfolding closes_once_def using ms subject_not_closed [OF inv good out]
      by (cases "tr_closed t") (auto simp: about_def intro!: exI [of _ ms])
    ultimately show ?thesis ..
  qed
  show ?thesis
  proof (rule op_wp_mono [OF tick_effect [OF assms(1,3) out]], goal_cases)
    case 1
    then show ?case using wf by simp
  next
    case (2 res w')
    show ?case
    proof (cases res)
      case (Inl e)
      have "v_live (put_live ls ?v) = (v_live ?v)(r_id r \<mapsto> norm_live ls)"
        "v_live (core_effect r ls t val now ?v) = (v_live ?v)(r_id r \<mapsto> norm_live ls)"
        using wf by (simp_all add: put_live_def)
      with 2 Inl stop core show ?thesis by auto
    next
      case (Inr u)
      with 2 all show ?thesis by auto
    qed
  qed
qed

end

context reliable_store
begin

lemma tick_sys_inv:
  assumes "d_store d = st" and good: "good_ids d" and "r_id r \<noteq> []" and now: "0 \<le> now"
    and w: "healthy ok view d w" and inv: "sys_inv (view (w_store w))"
  shows "op_wp (tick d r triggered val now)
    (\<lambda>res w'. res = Inr () \<and> healthy ok view d w' \<and> sys_inv (view (w_store w'))) w"
proof -
  let ?v = "view (w_store w)"
  obtain ls t where out: "tick_outcome d r triggered val now w ?v = (ls, t)"
    by (cases "tick_outcome d r triggered val now w ?v")
  have lk: "live_keyed ?v" using inv by (simp add: sys_inv_def)
  have known: "closes_known ls t" using tick_outcome_wf [OF lk good out] by simp
  have ids: "ids_ok d (w_ids w) ?v" using w by (simp add: healthy_def)
  show ?thesis
  proof (rule op_wp_mono [OF tick_ok [OF assms(1) good assms(3) out known w]], goal_cases)
    case (1 res w')
    then obtain w2 where at: "at_view view w (ids_drawn r triggered ?v) (core_effect r ls t val now ?v) w2"
      and loop: "chain (step_full view d r ls t now)
            (subs_for_rule (r_id r) (r_labels r) (v_subs ?v)) w2 w'" by auto
    have inv2: "sys_inv (view (w_store w2))"
      using sys_inv_core [OF inv ids good now out] at by (simp add: at_view_def)
    have "chain (step_any view d r ls t now) (subs_for_rule (r_id r) (r_labels r) (v_subs ?v)) w2 w'"
      using loop by (rule chain_mono) (rule step_full_any)
    moreover have "keyed (view (w_store w2))" using inv2 by (simp add: sys_inv_def)
    ultimately have "same_core (view (w_store w2)) (view (w_store w')) \<and> keyed (view (w_store w'))"
      using chain_same_core by blast
    then have "sys_inv (view (w_store w'))" using sys_inv_same_core inv2 by blast
    with 1 show ?case by simp
  qed
qed

end

end
