(* ===== verification/Sql_Base.thy ===== *)
theory Sql_Base
  imports Store_Iface
begin

text \<open>
  What the three SQL drivers share: the tables of the schema (migrations/*.sql) with their
  rows, NULL as None, the JSON of the text columns as trees, and database/sql itself. Every
  call that reaches the database may fail: \<open>db_faults\<close> is the list of outcomes the
  environment chose for the next calls, consumed one per call (an empty list is a database
  that does not fail any more). A failing statement changes nothing; a transaction that does
  not commit is rolled back. Rows are in insertion order, which is the order of a query
  without ORDER BY and the order of ties.
\<close>

section \<open>Tables\<close>

record rule_row =
  rw_id :: string
  rw_name :: string
  rw_description :: "string option"
  rw_enabled :: int
  rw_severity :: string
  rw_labels :: json
  rw_input_ref :: string
  rw_condition :: json
  rw_schedule_ns :: int
  rw_created_at :: int
  rw_updated_at :: int

record subscriber_row =
  br_id :: string
  br_name :: string
  br_channels :: json
  br_created_at :: int
  br_updated_at :: int

record subscription_row =
  ur_id :: string
  ur_subscriber_id :: string
  ur_rule_id :: "string option"
  ur_label_selector :: json
  ur_dwell_ns :: int
  ur_repeat_interval_ns :: int
  ur_notify_on_resolve :: int
  ur_one_shot :: int
  ur_channel_filter :: json
  ur_created_at :: int
  ur_updated_at :: int

record incident_row =
  ir_id :: string
  ir_rule_id :: string
  ir_triggered_at :: int
  ir_resolved_at :: "int option"
  ir_last_value :: "string option"

record notification_row =
  nw_id :: string
  nw_incident_id :: string
  nw_subscription_id :: string
  nw_subscriber_id :: string
  nw_channel :: string
  nw_address :: string
  nw_kind :: string
  nw_sent_at :: int
  nw_status :: string
  nw_error :: "string option"

record live_row =
  lw_rule_id :: string
  lw_state :: string
  lw_triggered_at :: int
  lw_last_eval_at :: int
  lw_last_value :: "string option"
  lw_last_error :: "string option"
  lw_incident_id :: "string option"

record sub_state_row =
  sw_incident_id :: string
  sw_subscription_id :: string
  sw_last_notified_at :: int
  sw_notify_count :: int
  sw_resolution_sent :: int

record token_row =
  kw_id :: string
  kw_name :: string
  kw_token_hash :: string
  kw_scopes :: json
  kw_created_at :: int
  kw_expires_at :: "int option"
  kw_last_used_at :: "int option"
  kw_revoked :: int

text \<open>
  \<open>t_migrations\<close> is schema_migrations; \<open>t_scripts\<close> records the migration scripts whose
  statements were executed, in order.
\<close>

record db =
  t_rules :: "rule_row list"
  t_subscribers :: "subscriber_row list"
  t_subscriptions :: "subscription_row list"
  t_incidents :: "incident_row list"
  t_notifications :: "notification_row list"
  t_live :: "live_row list"
  t_sub_states :: "sub_state_row list"
  t_tokens :: "token_row list"
  t_migrations :: "(string \<times> int) list"
  t_scripts :: "string list"
  db_faults :: "go_error option list"

definition empty_db :: db where
  "empty_db = \<lparr>t_rules = [], t_subscribers = [], t_subscriptions = [], t_incidents = [],
     t_notifications = [], t_live = [], t_sub_states = [], t_tokens = [], t_migrations = [],
     t_scripts = [], db_faults = []\<rparr>"

section \<open>Calls, statements, transactions\<close>

definition db_call :: "(db, 'a) op \<Rightarrow> (db, 'a) op" where
  "db_call m d = (case db_faults d of
       [] \<Rightarrow> m d
     | None # fs \<Rightarrow> m (d\<lparr>db_faults := fs\<rparr>)
     | Some e # fs \<Rightarrow> (Inl e, d\<lparr>db_faults := fs\<rparr>))"

definition db_query :: "(db \<Rightarrow> 'a result) \<Rightarrow> (db, 'a) op" where
  "db_query f = db_call (\<lambda>d. (f d, d))"

definition db_exec :: "(db \<Rightarrow> db result) \<Rightarrow> (db, unit) op" where
  "db_exec f = db_call (\<lambda>d. case f d of Inl e \<Rightarrow> (Inl e, d) | Inr d' \<Rightarrow> (Inr (), d'))"

definition db_tx :: "(db, 'a) op \<Rightarrow> (db, 'a) op" where
  "db_tx body = op_bind (db_query (\<lambda>_. Inr ())) (\<lambda>_ d.
     (case body d of
        (Inl e, d') \<Rightarrow> (Inl e, d\<lparr>db_faults := db_faults d'\<rparr>)
      | (Inr x, d') \<Rightarrow>
          (case db_query (\<lambda>_. Inr ()) d' of
             (Inl e, d'') \<Rightarrow> (Inl e, d\<lparr>db_faults := db_faults d''\<rparr>)
           | (Inr _, d'') \<Rightarrow> (Inr x, d''))))"

definition sql_insert :: "string \<Rightarrow> ('r \<Rightarrow> 'k) \<Rightarrow> 'r \<Rightarrow> 'r list \<Rightarrow> 'r list result" where
  "sql_insert what key r rows =
     (if key r \<in> key ` set rows then Inl (ErrNew (''UNIQUE constraint failed: '' @ what))
      else Inr (rows @ [r]))"

definition sql_limit :: "int \<Rightarrow> 'r list \<Rightarrow> 'r list" where
  "sql_limit n rows = take (nat n) rows"

definition scan_one :: "('r \<Rightarrow> 'a result) \<Rightarrow> 'r option \<Rightarrow> 'a option result" where
  "scan_one scan r = (case r of None \<Rightarrow> Inr None | Some row \<Rightarrow> res_map Some (scan row))"

definition scan_all :: "('r \<Rightarrow> 'a result) \<Rightarrow> 'r list \<Rightarrow> 'a list result" where
  "scan_all scan rows = res_list (map scan rows)"

definition scan_text :: "string option \<Rightarrow> string result" where
  "scan_text c = (case c of
       None \<Rightarrow> Inl (ErrNew ''sql: Scan error: converting NULL to string is unsupported'')
     | Some s \<Rightarrow> Inr s)"

section \<open>JSON columns\<close>

text \<open>
  A map of strings prints with its keys sorted. Reading ignores errors as the scan functions
  do: a value of the wrong type leaves an empty string, another shape leaves the map nil.
\<close>

definition json_of_labels :: "golib \<Rightarrow> (string \<times> string) list \<Rightarrow> json" where
  "json_of_labels lib m =
     JObj (map (\<lambda>(k, v). (lib_utf8 lib k, json_of_string lib v)) (sort_key fst m))"

definition json_text :: "json \<Rightarrow> string" where
  "json_text j = (case j of JStr s \<Rightarrow> s | _ \<Rightarrow> '''')"

definition labels_of_json :: "json \<Rightarrow> (string \<times> string) list" where
  "labels_of_json j =
     (case j of JObj ms \<Rightarrow> fold (\<lambda>(k, v) m. tbl_upsert fst (k, json_text v) m) ms [] | _ \<Rightarrow> [])"

definition json_of_strings :: "golib \<Rightarrow> string list \<Rightarrow> json" where
  "json_of_strings lib xs = JArr (map (json_of_string lib) xs)"

definition strings_of_json :: "json \<Rightarrow> string list" where
  "strings_of_json j = (case j of JArr js \<Rightarrow> map json_text js | _ \<Rightarrow> [])"

definition json_of_binding :: "golib \<Rightarrow> channel_binding \<Rightarrow> json" where
  "json_of_binding lib b =
     JObj [(''channel'', json_of_string lib (cb_channel b)), (''address'', json_of_string lib (cb_address b))]"

definition binding_member :: "channel_binding \<Rightarrow> string \<times> json \<Rightarrow> channel_binding" where
  "binding_member b kv = (case kv of (k, v) \<Rightarrow>
     (case v of
        JStr s \<Rightarrow> (if to_lower k = ''channel'' then b\<lparr>cb_channel := s\<rparr>
                   else if to_lower k = ''address'' then b\<lparr>cb_address := s\<rparr> else b)
      | _ \<Rightarrow> b))"

definition binding_of_json :: "json \<Rightarrow> channel_binding" where
  "binding_of_json j =
     fold (\<lambda>kv b. binding_member b kv) (case j of JObj ms \<Rightarrow> ms | _ \<Rightarrow> [])
       \<lparr>cb_channel = '''', cb_address = ''''\<rparr>"

definition json_of_bindings :: "golib \<Rightarrow> channel_binding list \<Rightarrow> json" where
  "json_of_bindings lib bs = JArr (map (json_of_binding lib) bs)"

definition bindings_of_json :: "json \<Rightarrow> channel_binding list" where
  "bindings_of_json j = (case j of JArr js \<Rightarrow> map binding_of_json js | _ \<Rightarrow> [])"

section \<open>Running calls\<close>

definition same_tables :: "db \<Rightarrow> db \<Rightarrow> bool" where
  "same_tables d d' \<longleftrightarrow> d'\<lparr>db_faults := db_faults d\<rparr> = d"

lemma same_tables_refl [simp]: "same_tables d d"
  by (simp add: same_tables_def)

lemma same_tables_faults [simp]: "same_tables d (d\<lparr>db_faults := fs\<rparr>)"
  by (simp add: same_tables_def)

lemma same_tablesD:
  assumes "same_tables d d'"
  shows "t_rules d' = t_rules d" "t_subscribers d' = t_subscribers d"
    "t_subscriptions d' = t_subscriptions d" "t_incidents d' = t_incidents d"
    "t_notifications d' = t_notifications d" "t_live d' = t_live d"
    "t_sub_states d' = t_sub_states d" "t_tokens d' = t_tokens d"
    "t_migrations d' = t_migrations d" "t_scripts d' = t_scripts d"
  using assms unfolding same_tables_def by (cases d; cases d'; simp)+

lemma same_tables_trans: "same_tables a b \<Longrightarrow> same_tables b c \<Longrightarrow> same_tables a c"
  unfolding same_tables_def by (cases a; cases b; cases c) auto

lemma db_query_tables: "db_query f d = (r, d') \<Longrightarrow> same_tables d d'"
  by (auto simp: db_query_def db_call_def split: list.splits option.splits)

text \<open>
  A statement either fails and changes no table, or does what its function says on the same
  tables; the functions the drivers use do not look at the faults.
\<close>

lemma db_call_cases:
  assumes "db_call m d = (r, d')"
  obtains e where "r = Inl e" "same_tables d d'"
  | fs where "m (d\<lparr>db_faults := fs\<rparr>) = (r, d')"
proof (cases "db_faults d")
  case Nil
  then have "d\<lparr>db_faults := []\<rparr> = d" by (cases d) simp
  with Nil assms that(2) [of "[]"] show ?thesis by (simp add: db_call_def)
next
  case (Cons x fs)
  show ?thesis
  proof (cases x)
    case None
    with Cons assms that(2) [of fs] show ?thesis by (simp add: db_call_def)
  next
    case (Some e)
    with Cons assms that(1) [of e] show ?thesis by (auto simp: db_call_def)
  qed
qed

lemma db_query_cases:
  assumes "db_query f d = (r, d')"
  obtains e where "r = Inl e" "same_tables d d'"
  | fs where "r = f (d\<lparr>db_faults := fs\<rparr>)" "d' = d\<lparr>db_faults := fs\<rparr>"
  using assms unfolding db_query_def by (rule db_call_cases) (use that in auto)

lemma db_exec_cases:
  assumes "db_exec f d = (r, d')"
  obtains e where "r = Inl e" "same_tables d d'"
  | fs where "r = Inr ()" "f (d\<lparr>db_faults := fs\<rparr>) = Inr d'"
  using assms unfolding db_exec_def
  by (rule db_call_cases) (use that in \<open>auto split: sum.splits\<close>)

lemma db_query_no_fault: "db_faults d = [] \<Longrightarrow> db_query f d = (f d, d)"
  by (simp add: db_query_def db_call_def)

lemma db_exec_no_fault:
  "db_faults d = [] \<Longrightarrow>
   db_exec f d = (case f d of Inl e \<Rightarrow> (Inl e, d) | Inr d' \<Rightarrow> (Inr (), d'))"
  by (simp add: db_exec_def db_call_def)

lemma sql_insert_Inr_iff:
  "sql_insert what key r rows = Inr rows' \<longleftrightarrow> key r \<notin> key ` set rows \<and> rows' = rows @ [r]"
  by (auto simp: sql_insert_def)

text \<open>A transaction: all of its body and the commit, or nothing.\<close>

lemma db_tx_cases:
  assumes "db_tx body d = (r, d')"
  obtains e where "r = Inl e" "same_tables d d'"
  | x d1 d2 where "r = Inr x" "same_tables d d1" "body d1 = (Inr x, d2)" "same_tables d2 d'"
proof (cases "db_query (\<lambda>_. Inr ()) d")
  case (Pair r1 d1)
  have t1: "same_tables d d1" by (rule db_query_tables [OF Pair])
  show ?thesis
  proof (cases r1)
    case (Inl e)
    with assms Pair have "r = Inl e \<and> d' = d1" by (simp add: db_tx_def op_bind_def)
    with t1 that(1) show ?thesis by blast
  next
    case (Inr u)
    note run = assms [unfolded db_tx_def op_bind_def Pair Inr, simplified]
    obtain r2 d2 where body: "body d1 = (r2, d2)" by (cases "body d1")
    show ?thesis
    proof (cases r2)
      case (Inl e)
      with run body have "r = Inl e \<and> d' = d1\<lparr>db_faults := db_faults d2\<rparr>" by simp
      with t1 that(1) show ?thesis
        by (metis same_tables_faults same_tables_trans)
    next
      case (Inr x)
      obtain r3 d3 where commit: "db_query (\<lambda>_. Inr ()) d2 = (r3, d3)"
        by (cases "db_query (\<lambda>_. Inr () :: unit result) d2")
      have t3: "same_tables d2 d3" by (rule db_query_tables [OF commit])
      show ?thesis
      proof (cases r3)
        case (Inl e)
        with run body Inr commit have "r = Inl e \<and> d' = d1\<lparr>db_faults := db_faults d3\<rparr>"
          by simp
        with t1 that(1) show ?thesis
          by (metis same_tables_faults same_tables_trans)
      next
        case (Inr v)
        with run body \<open>r2 = Inr x\<close> commit have "r = Inr x \<and> d' = d3" by simp
        with t1 t3 body \<open>r2 = Inr x\<close> that(2) show ?thesis by blast
      qed
    qed
  qed
qed

lemma db_tx_no_fault:
  assumes "db_faults d = []" and "body d = (Inr x, d')" and "db_faults d' = []"
  shows "db_tx body d = (Inr x, d')"
  using assms by (simp add: db_tx_def op_bind_def db_query_no_fault)

end
