(* ===== verification/Sqlite_Store.thy ===== *)
theory Sqlite_Store
  imports Sql_Base
begin

text \<open>
  internal/store/sqlite: the SQLite driver. One definition per repository method, on the
  tables of Sql_Base; \<open>lib\<close> supplies the replacement of invalid UTF-8 in JSON text.
\<close>

definition bool_int :: "bool \<Rightarrow> int" where
  "bool_int b = (if b then 1 else 0)"

definition nullable :: "string \<Rightarrow> string option" where
  "nullable s = (if s = '''' then None else Some s)"

definition from_null :: "string option \<Rightarrow> string" where
  "from_null c = (case c of None \<Rightarrow> '''' | Some s \<Rightarrow> s)"

section \<open>Rules\<close>

definition rule_to_row :: "golib \<Rightarrow> rule \<Rightarrow> json \<Rightarrow> rule_row" where
  "rule_to_row lib x cond =
     \<lparr>rw_id = r_id x, rw_name = r_name x, rw_description = Some (r_description x),
      rw_enabled = bool_int (r_enabled x), rw_severity = r_severity x,
      rw_labels = json_of_labels lib (r_labels x), rw_input_ref = r_input_ref x,
      rw_condition = cond, rw_schedule_ns = r_schedule x,
      rw_created_at = unix_milli (r_created_at x), rw_updated_at = unix_milli (r_updated_at x)\<rparr>"

definition scan_rule :: "golib \<Rightarrow> rule_row \<Rightarrow> rule result" where
  "scan_rule lib row =
     res_bind (scan_text (rw_description row)) (\<lambda>desc.
     res_bind (unmarshal_condition lib (Some (rw_condition row))) (\<lambda>cond.
       Inr \<lparr>r_id = rw_id row, r_name = rw_name row, r_description = desc,
            r_enabled = (rw_enabled row \<noteq> 0), r_severity = rw_severity row,
            r_labels = labels_of_json (rw_labels row), r_input_ref = rw_input_ref row,
            r_condition = Some cond, r_schedule = rw_schedule_ns row,
            r_created_at = of_unix_milli (rw_created_at row),
            r_updated_at = of_unix_milli (rw_updated_at row)\<rparr>))"

text \<open>MarshalCondition on a nil condition is a nil pointer dereference.\<close>

definition rule_cond_json :: "golib \<Rightarrow> rule \<Rightarrow> json result" where
  "rule_cond_json lib x = (case r_condition x of
       None \<Rightarrow> Inl (ErrPanic ''nil pointer dereference'')
     | Some c \<Rightarrow> marshal_condition lib c)"

definition lite_rule_create :: "golib \<Rightarrow> time \<Rightarrow> rule \<Rightarrow> (db, rule) op" where
  "lite_rule_create lib now x =
     (case rule_cond_json lib x of
        Inl e \<Rightarrow> op_fail e
      | Inr cond \<Rightarrow>
          (let x1 = (if r_created_at x = zero_time then x\<lparr>r_created_at := now\<rparr> else x);
               x2 = x1\<lparr>r_updated_at := now\<rparr>
           in op_bind (db_exec (\<lambda>d. res_map (\<lambda>rows. d\<lparr>t_rules := rows\<rparr>)
                (sql_insert ''rules.id'' rw_id (rule_to_row lib x2 cond) (t_rules d))))
              (\<lambda>_. op_return x2)))"

definition lite_rule_update :: "golib \<Rightarrow> time \<Rightarrow> rule \<Rightarrow> (db, rule) op" where
  "lite_rule_update lib now x =
     (case rule_cond_json lib x of
        Inl e \<Rightarrow> op_fail e
      | Inr cond \<Rightarrow>
          (let x1 = x\<lparr>r_updated_at := now\<rparr>
           in op_bind (db_exec (\<lambda>d. Inr (d\<lparr>t_rules := tbl_update (\<lambda>row. rw_id row = r_id x)
                (\<lambda>row. (rule_to_row lib x1 cond)\<lparr>rw_id := rw_id row, rw_created_at := rw_created_at row\<rparr>)
                (t_rules d)\<rparr>)))
              (\<lambda>_. op_return x1)))"

definition lite_rule_delete :: "string \<Rightarrow> (db, unit) op" where
  "lite_rule_delete i =
     db_exec (\<lambda>d. Inr (d\<lparr>t_rules := filter (\<lambda>row. rw_id row \<noteq> i) (t_rules d)\<rparr>))"

definition lite_rule_get :: "golib \<Rightarrow> string \<Rightarrow> (db, rule option) op" where
  "lite_rule_get lib i =
     db_query (\<lambda>d. scan_one (scan_rule lib) (tbl_find rw_id i (t_rules d)))"

definition lite_rule_list :: "golib \<Rightarrow> (db, rule list) op" where
  "lite_rule_list lib =
     db_query (\<lambda>d. scan_all (scan_rule lib) (sort_key rw_name (t_rules d)))"

definition lite_rule_list_by_input :: "golib \<Rightarrow> string \<Rightarrow> (db, rule list) op" where
  "lite_rule_list_by_input lib ref =
     db_query (\<lambda>d. scan_all (scan_rule lib)
       (filter (\<lambda>row. rw_input_ref row = ref \<and> rw_enabled row = 1) (t_rules d)))"

section \<open>Subscribers\<close>

definition scan_subscriber :: "subscriber_row \<Rightarrow> subscriber" where
  "scan_subscriber row =
     \<lparr>sb_id = br_id row, sb_name = br_name row, sb_channels = bindings_of_json (br_channels row),
      sb_created_at = of_unix_milli (br_created_at row),
      sb_updated_at = of_unix_milli (br_updated_at row)\<rparr>"

definition lite_subscriber_create :: "golib \<Rightarrow> time \<Rightarrow> subscriber \<Rightarrow> (db, subscriber) op" where
  "lite_subscriber_create lib now s =
     (let s1 = (if sb_created_at s = zero_time then s\<lparr>sb_created_at := now\<rparr> else s);
          s2 = s1\<lparr>sb_updated_at := now\<rparr>;
          row = \<lparr>br_id = sb_id s2, br_name = sb_name s2,
                 br_channels = json_of_bindings lib (sb_channels s2),
                 br_created_at = unix_milli (sb_created_at s2),
                 br_updated_at = unix_milli (sb_updated_at s2)\<rparr>
      in op_bind (db_exec (\<lambda>d. res_map (\<lambda>rows. d\<lparr>t_subscribers := rows\<rparr>)
           (sql_insert ''subscribers.id'' br_id row (t_subscribers d))))
         (\<lambda>_. op_return s2))"

definition lite_subscriber_update :: "golib \<Rightarrow> time \<Rightarrow> subscriber \<Rightarrow> (db, subscriber) op" where
  "lite_subscriber_update lib now s =
     (let s1 = s\<lparr>sb_updated_at := now\<rparr>
      in op_bind (db_exec (\<lambda>d. Inr (d\<lparr>t_subscribers := tbl_update (\<lambda>row. br_id row = sb_id s)
           (\<lambda>row. row\<lparr>br_name := sb_name s1, br_channels := json_of_bindings lib (sb_channels s1),
                     br_updated_at := unix_milli (sb_updated_at s1)\<rparr>) (t_subscribers d)\<rparr>)))
         (\<lambda>_. op_return s1))"

text \<open>The subscriptions of a subscriber go with it: its foreign key is ON DELETE CASCADE.\<close>

definition lite_subscriber_delete :: "string \<Rightarrow> (db, unit) op" where
  "lite_subscriber_delete i =
     db_exec (\<lambda>d. Inr (d\<lparr>t_subscribers := filter (\<lambda>row. br_id row \<noteq> i) (t_subscribers d),
       t_subscriptions := filter (\<lambda>row. \<not> (ur_subscriber_id row = i \<and> i \<in> br_id ` set (t_subscribers d)))
         (t_subscriptions d)\<rparr>))"

definition lite_subscriber_get :: "string \<Rightarrow> (db, subscriber option) op" where
  "lite_subscriber_get i =
     db_query (\<lambda>d. Inr (map_option scan_subscriber (tbl_find br_id i (t_subscribers d))))"

definition lite_subscriber_list :: "(db, subscriber list) op" where
  "lite_subscriber_list =
     db_query (\<lambda>d. Inr (map scan_subscriber (sort_key br_name (t_subscribers d))))"

section \<open>Subscriptions\<close>

definition subscription_to_row :: "golib \<Rightarrow> subscription \<Rightarrow> subscription_row" where
  "subscription_to_row lib s =
     \<lparr>ur_id = su_id s, ur_subscriber_id = su_subscriber_id s, ur_rule_id = nullable (su_rule_id s),
      ur_label_selector = json_of_labels lib (su_label_selector s), ur_dwell_ns = su_dwell s,
      ur_repeat_interval_ns = su_repeat_interval s,
      ur_notify_on_resolve = bool_int (su_notify_on_resolve s),
      ur_one_shot = bool_int (su_one_shot s),
      ur_channel_filter = json_of_strings lib (su_channel_filter s),
      ur_created_at = unix_milli (su_created_at s), ur_updated_at = unix_milli (su_updated_at s)\<rparr>"

definition scan_subscription :: "subscription_row \<Rightarrow> subscription" where
  "scan_subscription row =
     \<lparr>su_id = ur_id row, su_subscriber_id = ur_subscriber_id row,
      su_rule_id = from_null (ur_rule_id row),
      su_label_selector = labels_of_json (ur_label_selector row), su_dwell = ur_dwell_ns row,
      su_repeat_interval = ur_repeat_interval_ns row,
      su_notify_on_resolve = (ur_notify_on_resolve row \<noteq> 0), su_one_shot = (ur_one_shot row \<noteq> 0),
      su_channel_filter = strings_of_json (ur_channel_filter row),
      su_created_at = of_unix_milli (ur_created_at row),
      su_updated_at = of_unix_milli (ur_updated_at row)\<rparr>"

definition fk_error :: go_error where
  "fk_error = ErrNew ''FOREIGN KEY constraint failed''"

definition lite_subscription_create :: "golib \<Rightarrow> time \<Rightarrow> subscription \<Rightarrow> (db, subscription) op" where
  "lite_subscription_create lib now s =
     (let s1 = (if su_created_at s = zero_time then s\<lparr>su_created_at := now\<rparr> else s);
          s2 = s1\<lparr>su_updated_at := now\<rparr>
      in op_bind (db_exec (\<lambda>d.
           res_bind (sql_insert ''subscriptions.id'' ur_id (subscription_to_row lib s2) (t_subscriptions d))
             (\<lambda>rows. if su_subscriber_id s2 \<in> br_id ` set (t_subscribers d)
                then Inr (d\<lparr>t_subscriptions := rows\<rparr>) else Inl fk_error)))
         (\<lambda>_. op_return s2))"

definition lite_subscription_update :: "golib \<Rightarrow> time \<Rightarrow> subscription \<Rightarrow> (db, subscription) op" where
  "lite_subscription_update lib now s =
     (let s1 = s\<lparr>su_updated_at := now\<rparr>
      in op_bind (db_exec (\<lambda>d.
           if su_id s \<in> ur_id ` set (t_subscriptions d) \<and>
              su_subscriber_id s1 \<notin> br_id ` set (t_subscribers d)
           then Inl fk_error
           else Inr (d\<lparr>t_subscriptions := tbl_update (\<lambda>row. ur_id row = su_id s)
             (\<lambda>row. (subscription_to_row lib s1)\<lparr>ur_id := ur_id row, ur_created_at := ur_created_at row\<rparr>)
             (t_subscriptions d)\<rparr>)))
         (\<lambda>_. op_return s1))"

definition lite_subscription_delete :: "string \<Rightarrow> (db, unit) op" where
  "lite_subscription_delete i =
     db_exec (\<lambda>d. Inr (d\<lparr>t_subscriptions := filter (\<lambda>row. ur_id row \<noteq> i) (t_subscriptions d)\<rparr>))"

definition lite_subscription_get :: "string \<Rightarrow> (db, subscription option) op" where
  "lite_subscription_get i =
     db_query (\<lambda>d. Inr (map_option scan_subscription (tbl_find ur_id i (t_subscriptions d))))"

definition lite_subscription_list :: "(db, subscription list) op" where
  "lite_subscription_list =
     db_query (\<lambda>d. Inr (map scan_subscription (sort_key ur_id (t_subscriptions d))))"

fun match_all :: "(string \<times> string) list \<Rightarrow> (string \<times> string) list \<Rightarrow> bool" where
  "match_all [] actual = True"
| "match_all ((k, v) # sel) actual = (if label_at actual k \<noteq> v then False else match_all sel actual)"

definition match_labels :: "(string \<times> string) list \<Rightarrow> (string \<times> string) list \<Rightarrow> bool" where
  "match_labels selector actual = (if selector = [] then False else match_all selector actual)"

definition lite_subscription_list_for_rule ::
  "string \<Rightarrow> (string \<times> string) list \<Rightarrow> (db, subscription list) op" where
  "lite_subscription_list_for_rule rid labels =
     op_bind (db_query (\<lambda>d. Inr (map scan_subscription
        (filter (\<lambda>row. ur_rule_id row = Some rid) (t_subscriptions d))))) (\<lambda>out.
     op_bind (db_query (\<lambda>d. Inr (map scan_subscription
        (filter (\<lambda>row. ur_rule_id row = None) (t_subscriptions d))))) (\<lambda>rest.
       op_return (out @ filter (\<lambda>s. match_labels (su_label_selector s) labels) rest)))"

section \<open>Incidents\<close>

definition scan_incident :: "incident_row \<Rightarrow> incident result" where
  "scan_incident row =
     res_bind (scan_text (ir_last_value row)) (\<lambda>v.
       Inr \<lparr>in_id = ir_id row, in_rule_id = ir_rule_id row,
            in_triggered_at = of_unix_milli (ir_triggered_at row),
            in_resolved_at = (case ir_resolved_at row of None \<Rightarrow> zero_time | Some ms \<Rightarrow> of_unix_milli ms),
            in_last_value = v\<rparr>)"

definition lite_incident_open :: "incident \<Rightarrow> (db, unit) op" where
  "lite_incident_open i =
     db_exec (\<lambda>d. res_map (\<lambda>rows. d\<lparr>t_incidents := rows\<rparr>)
       (sql_insert ''incidents.id'' ir_id
          \<lparr>ir_id = in_id i, ir_rule_id = in_rule_id i, ir_triggered_at = unix_milli (in_triggered_at i),
           ir_resolved_at = None, ir_last_value = Some (in_last_value i)\<rparr> (t_incidents d)))"

definition lite_incident_resolve :: "string \<Rightarrow> int \<Rightarrow> (db, unit) op" where
  "lite_incident_resolve i ms =
     db_exec (\<lambda>d. Inr (d\<lparr>t_incidents := tbl_update (\<lambda>row. ir_id row = i)
       (\<lambda>row. row\<lparr>ir_resolved_at := Some ms\<rparr>) (t_incidents d)\<rparr>))"

definition lite_incident_get :: "string \<Rightarrow> (db, incident option) op" where
  "lite_incident_get i = db_query (\<lambda>d. scan_one scan_incident (tbl_find ir_id i (t_incidents d)))"

definition default_limit :: "int \<Rightarrow> int" where
  "default_limit limit = (if limit \<le> 0 then 100 else limit)"

definition lite_incident_list :: "int \<Rightarrow> (db, incident list) op" where
  "lite_incident_list limit =
     db_query (\<lambda>d. scan_all scan_incident (sql_limit (default_limit limit)
       (sort_key (\<lambda>row. - ir_triggered_at row) (t_incidents d))))"

definition lite_incident_list_for_rule :: "string \<Rightarrow> int \<Rightarrow> (db, incident list) op" where
  "lite_incident_list_for_rule rid limit =
     db_query (\<lambda>d. scan_all scan_incident (sql_limit (default_limit limit)
       (sort_key (\<lambda>row. - ir_triggered_at row) (filter (\<lambda>row. ir_rule_id row = rid) (t_incidents d)))))"

definition resolved_before :: "int \<Rightarrow> incident_row \<Rightarrow> bool" where
  "resolved_before t row = (case ir_resolved_at row of None \<Rightarrow> False | Some ms \<Rightarrow> ms < t)"

definition lite_incident_list_resolved_before :: "int \<Rightarrow> (db, incident list) op" where
  "lite_incident_list_resolved_before t =
     db_query (\<lambda>d. scan_all scan_incident
       (sort_key (\<lambda>row. case ir_resolved_at row of None \<Rightarrow> 0 | Some ms \<Rightarrow> ms)
          (filter (resolved_before t) (t_incidents d))))"

definition delete_children :: "string \<Rightarrow> (db, unit) op" where
  "delete_children i =
     op_bind (db_exec (\<lambda>d. Inr (d\<lparr>t_notifications :=
        filter (\<lambda>n. nw_incident_id n \<noteq> i) (t_notifications d)\<rparr>))) (\<lambda>_.
       db_exec (\<lambda>d. Inr (d\<lparr>t_sub_states :=
        filter (\<lambda>s. sw_incident_id s \<noteq> i) (t_sub_states d)\<rparr>)))"

definition lite_incident_delete_resolved_before :: "int \<Rightarrow> (db, int) op" where
  "lite_incident_delete_resolved_before t = db_tx
     (op_bind (db_query (\<lambda>d. Inr (map ir_id (filter (resolved_before t) (t_incidents d))))) (\<lambda>ids.
        if ids = [] then op_return 0
        else op_bind (op_for delete_children ids) (\<lambda>_ d.
          (let n = int (length (filter (resolved_before t) (t_incidents d)))
           in op_bind (db_exec (\<lambda>d. Inr (d\<lparr>t_incidents :=
                 filter (\<lambda>row. \<not> resolved_before t row) (t_incidents d)\<rparr>)))
              (\<lambda>_. op_return n) d))))"

section \<open>Notifications\<close>

definition notification_to_row :: "notification \<Rightarrow> notification_row" where
  "notification_to_row n =
     \<lparr>nw_id = nt_id n, nw_incident_id = nt_incident_id n, nw_subscription_id = nt_subscription_id n,
      nw_subscriber_id = nt_subscriber_id n, nw_channel = nt_channel n, nw_address = nt_address n,
      nw_kind = nt_kind n, nw_sent_at = unix_milli (nt_sent_at n), nw_status = nt_status n,
      nw_error = Some (nt_error n)\<rparr>"

definition scan_notification :: "notification_row \<Rightarrow> notification" where
  "scan_notification row =
     \<lparr>nt_id = nw_id row, nt_incident_id = nw_incident_id row,
      nt_subscription_id = nw_subscription_id row, nt_subscriber_id = nw_subscriber_id row,
      nt_channel = nw_channel row, nt_address = nw_address row, nt_kind = nw_kind row,
      nt_sent_at = of_unix_milli (nw_sent_at row), nt_status = nw_status row,
      nt_error = from_null (nw_error row)\<rparr>"

definition lite_notification_record :: "notification \<Rightarrow> (db, unit) op" where
  "lite_notification_record n =
     db_exec (\<lambda>d. res_map (\<lambda>rows. d\<lparr>t_notifications := rows\<rparr>)
       (sql_insert ''notifications.id'' nw_id (notification_to_row n) (t_notifications d)))"

definition lite_notification_list_for_incident :: "string \<Rightarrow> (db, notification list) op" where
  "lite_notification_list_for_incident i =
     db_query (\<lambda>d. Inr (map scan_notification (sort_key nw_sent_at
       (filter (\<lambda>row. nw_incident_id row = i) (t_notifications d)))))"

definition lite_notification_list :: "int \<Rightarrow> (db, notification list) op" where
  "lite_notification_list limit =
     db_query (\<lambda>d. Inr (map scan_notification (sql_limit (default_limit limit)
       (sort_key (\<lambda>row. - nw_sent_at row) (t_notifications d)))))"

definition lite_notification_exists_for_subscription :: "string \<Rightarrow> (db, bool) op" where
  "lite_notification_exists_for_subscription sid =
     db_query (\<lambda>d. Inr (list_ex (\<lambda>row. nw_subscription_id row = sid) (t_notifications d)))"

section \<open>Live states\<close>

definition stored_ms :: "time \<Rightarrow> int" where
  "stored_ms t = (if t = zero_time then 0 else unix_milli t)"

definition read_ms :: "int \<Rightarrow> time" where
  "read_ms ms = (if ms > 0 then of_unix_milli ms else zero_time)"

definition live_to_row :: "live_state \<Rightarrow> live_row" where
  "live_to_row s =
     \<lparr>lw_rule_id = ls_rule_id s, lw_state = ls_state s,
      lw_triggered_at = stored_ms (ls_triggered_at s),
      lw_last_eval_at = stored_ms (ls_last_eval_at s), lw_last_value = Some (ls_last_value s),
      lw_last_error = Some (ls_last_error s), lw_incident_id = nullable (ls_incident_id s)\<rparr>"

definition scan_live :: "live_row \<Rightarrow> live_state result" where
  "scan_live row =
     res_bind (scan_text (lw_last_value row)) (\<lambda>lv.
     res_bind (scan_text (lw_last_error row)) (\<lambda>le.
       Inr \<lparr>ls_rule_id = lw_rule_id row, ls_state = lw_state row,
            ls_triggered_at = read_ms (lw_triggered_at row),
            ls_last_eval_at = read_ms (lw_last_eval_at row), ls_last_value = lv,
            ls_last_error = le, ls_incident_id = from_null (lw_incident_id row)\<rparr>))"

definition lite_live_get :: "string \<Rightarrow> (db, live_state option) op" where
  "lite_live_get rid = db_query (\<lambda>d. scan_one scan_live (tbl_find lw_rule_id rid (t_live d)))"

definition lite_live_upsert :: "live_state \<Rightarrow> (db, unit) op" where
  "lite_live_upsert s =
     db_exec (\<lambda>d. Inr (d\<lparr>t_live := tbl_upsert lw_rule_id (live_to_row s) (t_live d)\<rparr>))"

definition lite_live_list :: "(db, live_state list) op" where
  "lite_live_list = db_query (\<lambda>d. scan_all scan_live (t_live d))"

section \<open>Delivery states\<close>

definition sub_state_key :: "sub_state_row \<Rightarrow> string \<times> string" where
  "sub_state_key row = (sw_incident_id row, sw_subscription_id row)"

definition sub_state_to_row :: "sub_state \<Rightarrow> sub_state_row" where
  "sub_state_to_row s =
     \<lparr>sw_incident_id = ss_incident_id s, sw_subscription_id = ss_subscription_id s,
      sw_last_notified_at = stored_ms (ss_last_notified_at s), sw_notify_count = ss_notify_count s,
      sw_resolution_sent = bool_int (ss_resolution_sent s)\<rparr>"

definition scan_sub_state :: "sub_state_row \<Rightarrow> sub_state" where
  "scan_sub_state row =
     \<lparr>ss_incident_id = sw_incident_id row, ss_subscription_id = sw_subscription_id row,
      ss_last_notified_at = read_ms (sw_last_notified_at row),
      ss_notify_count = sw_notify_count row, ss_resolution_sent = (sw_resolution_sent row \<noteq> 0)\<rparr>"

definition lite_sub_state_get :: "string \<Rightarrow> string \<Rightarrow> (db, sub_state option) op" where
  "lite_sub_state_get i sid =
     db_query (\<lambda>d. Inr (map_option scan_sub_state (tbl_find sub_state_key (i, sid) (t_sub_states d))))"

definition lite_sub_state_upsert :: "sub_state \<Rightarrow> (db, unit) op" where
  "lite_sub_state_upsert s =
     db_exec (\<lambda>d. Inr (d\<lparr>t_sub_states := tbl_upsert sub_state_key (sub_state_to_row s) (t_sub_states d)\<rparr>))"

definition lite_sub_state_list_for_incident :: "string \<Rightarrow> (db, sub_state list) op" where
  "lite_sub_state_list_for_incident i =
     db_query (\<lambda>d. Inr (map scan_sub_state (filter (\<lambda>row. sw_incident_id row = i) (t_sub_states d))))"

section \<open>API tokens\<close>

definition token_to_row :: "golib \<Rightarrow> token \<Rightarrow> token_row" where
  "token_to_row lib t =
     \<lparr>kw_id = tk_id t, kw_name = tk_name t, kw_token_hash = tk_hash t,
      kw_scopes = json_of_strings lib (tk_scopes t), kw_created_at = unix_milli (tk_created_at t),
      kw_expires_at = map_option unix_milli (tk_expires_at t),
      kw_last_used_at = map_option unix_milli (tk_last_used_at t),
      kw_revoked = bool_int (tk_revoked t)\<rparr>"

definition scan_token :: "token_row \<Rightarrow> token result" where
  "scan_token row =
     res_bind (json_get_strings (kw_scopes row)) (\<lambda>scopes.
       Inr \<lparr>tk_id = kw_id row, tk_name = kw_name row, tk_hash = kw_token_hash row,
            tk_scopes = scopes, tk_created_at = of_unix_milli (kw_created_at row),
            tk_expires_at = map_option of_unix_milli (kw_expires_at row),
            tk_last_used_at = map_option of_unix_milli (kw_last_used_at row),
            tk_revoked = (kw_revoked row \<noteq> 0)\<rparr>)"

definition lite_token_create :: "golib \<Rightarrow> time \<Rightarrow> token \<Rightarrow> (db, token) op" where
  "lite_token_create lib now t =
     (if tk_hash t = '''' then op_fail (ErrNew ''sqlite: api_tokens: TokenHash required'')
      else let t1 = (if tk_created_at t = zero_time then t\<lparr>tk_created_at := now\<rparr> else t)
        in op_bind (db_exec (\<lambda>d.
             res_bind (sql_insert ''api_tokens.id'' kw_id (token_to_row lib t1) (t_tokens d)) (\<lambda>rows.
             res_bind (sql_insert ''api_tokens.token_hash'' kw_token_hash (token_to_row lib t1) (t_tokens d))
               (\<lambda>_. Inr (d\<lparr>t_tokens := rows\<rparr>)))))
           (\<lambda>_. op_return t1))"

definition lite_token_get_by_hash :: "string \<Rightarrow> (db, token option) op" where
  "lite_token_get_by_hash h =
     db_query (\<lambda>d. scan_one scan_token (tbl_find kw_token_hash h (t_tokens d)))"

definition lite_token_get :: "string \<Rightarrow> (db, token option) op" where
  "lite_token_get i = db_query (\<lambda>d. scan_one scan_token (tbl_find kw_id i (t_tokens d)))"

definition lite_token_list :: "(db, token list) op" where
  "lite_token_list =
     db_query (\<lambda>d. scan_all scan_token (sort_key (\<lambda>row. - kw_created_at row) (t_tokens d)))"

definition lite_token_revoke :: "string \<Rightarrow> (db, unit) op" where
  "lite_token_revoke i =
     db_exec (\<lambda>d. Inr (d\<lparr>t_tokens := tbl_update (\<lambda>row. kw_id row = i)
       (\<lambda>row. row\<lparr>kw_revoked := 1\<rparr>) (t_tokens d)\<rparr>))"

definition lite_token_touch_last_used :: "string \<Rightarrow> int \<Rightarrow> (db, unit) op" where
  "lite_token_touch_last_used i ts =
     db_exec (\<lambda>d. Inr (d\<lparr>t_tokens := tbl_update (\<lambda>row. kw_id row = i)
       (\<lambda>row. row\<lparr>kw_last_used_at := Some ts\<rparr>) (t_tokens d)\<rparr>))"

definition lite_token_delete :: "string \<Rightarrow> (db, unit) op" where
  "lite_token_delete i =
     db_exec (\<lambda>d. Inr (d\<lparr>t_tokens := filter (\<lambda>row. kw_id row \<noteq> i) (t_tokens d)\<rparr>))"

section \<open>Migrations\<close>

text \<open>
  \<open>names\<close> is the listing of the embedded directory; a script that is not recorded runs in a
  transaction with its own record. \<open>now\<close> is the clock reading for a script.
\<close>

definition lite_migrate_one :: "(string \<Rightarrow> time) \<Rightarrow> string \<Rightarrow> (db, unit) op" where
  "lite_migrate_one now name =
     op_bind (db_query (\<lambda>d. Inr (length (filter (\<lambda>(v, _). v = name) (t_migrations d))))) (\<lambda>n.
       if 0 < n then op_return ()
       else db_tx (op_bind
         (op_wrap (''migrate '' @ name) (db_exec (\<lambda>d. Inr (d\<lparr>t_scripts := t_scripts d @ [name]\<rparr>))))
         (\<lambda>_. db_exec (\<lambda>d. res_map (\<lambda>rows. d\<lparr>t_migrations := rows\<rparr>)
            (sql_insert ''schema_migrations.version'' fst (name, now name div second) (t_migrations d))))))"

definition has_suffix :: "string \<Rightarrow> string \<Rightarrow> bool" where
  "has_suffix s suf \<longleftrightarrow> has_prefix (rev s) (rev suf)"

definition lite_migrate :: "string list \<Rightarrow> (string \<Rightarrow> time) \<Rightarrow> (db, unit) op" where
  "lite_migrate names now =
     op_bind (db_exec Inr) (\<lambda>_.
       op_for (lite_migrate_one now) (sort (filter (\<lambda>n. has_suffix n ''.sql'') names)))"

definition lite_migration_names :: "string list" where
  "lite_migration_names =
     [''0001_init.sql'', ''0002_api_tokens.sql'', ''0003_subscriptions_one_shot.sql'']"

section \<open>The store\<close>

definition sqlite_store :: "golib \<Rightarrow> db store" where
  "sqlite_store lib = \<lparr>
     st_rules = \<lparr>rr_create = lite_rule_create lib, rr_update = lite_rule_update lib,
       rr_delete = lite_rule_delete, rr_get = lite_rule_get lib, rr_list = lite_rule_list lib,
       rr_list_by_input = lite_rule_list_by_input lib\<rparr>,
     st_subscribers = \<lparr>sbr_create = lite_subscriber_create lib, sbr_update = lite_subscriber_update lib,
       sbr_delete = lite_subscriber_delete, sbr_get = lite_subscriber_get,
       sbr_list = lite_subscriber_list\<rparr>,
     st_subscriptions = \<lparr>sur_create = lite_subscription_create lib,
       sur_update = lite_subscription_update lib, sur_delete = lite_subscription_delete,
       sur_get = lite_subscription_get, sur_list = lite_subscription_list,
       sur_list_for_rule = lite_subscription_list_for_rule\<rparr>,
     st_incidents = \<lparr>inr_open = lite_incident_open, inr_resolve = lite_incident_resolve,
       inr_get = lite_incident_get, inr_list = lite_incident_list,
       inr_list_for_rule = lite_incident_list_for_rule,
       inr_list_resolved_before = lite_incident_list_resolved_before,
       inr_delete_resolved_before = lite_incident_delete_resolved_before\<rparr>,
     st_notifications = \<lparr>nr_record = lite_notification_record,
       nr_list_for_incident = lite_notification_list_for_incident,
       nr_list = lite_notification_list,
       nr_exists_for_subscription = lite_notification_exists_for_subscription\<rparr>,
     st_live_states = \<lparr>lr_get = lite_live_get, lr_upsert = lite_live_upsert,
       lr_list = lite_live_list\<rparr>,
     st_sub_states = \<lparr>ssr_get = lite_sub_state_get, ssr_upsert = lite_sub_state_upsert,
       ssr_list_for_incident = lite_sub_state_list_for_incident\<rparr>,
     st_api_tokens = \<lparr>tr_create = lite_token_create lib, tr_get_by_hash = lite_token_get_by_hash,
       tr_get = lite_token_get, tr_list = lite_token_list, tr_revoke = lite_token_revoke,
       tr_touch_last_used = lite_token_touch_last_used, tr_delete = lite_token_delete\<rparr>\<rparr>"

lemma sqlite_store_sel [simp]:
  "st_rules (sqlite_store lib) = \<lparr>rr_create = lite_rule_create lib, rr_update = lite_rule_update lib,
       rr_delete = lite_rule_delete, rr_get = lite_rule_get lib, rr_list = lite_rule_list lib,
       rr_list_by_input = lite_rule_list_by_input lib\<rparr>"
  "lr_get (st_live_states (sqlite_store lib)) = lite_live_get"
  "lr_upsert (st_live_states (sqlite_store lib)) = lite_live_upsert"
  "inr_open (st_incidents (sqlite_store lib)) = lite_incident_open"
  "inr_resolve (st_incidents (sqlite_store lib)) = lite_incident_resolve"
  "sur_list_for_rule (st_subscriptions (sqlite_store lib)) = lite_subscription_list_for_rule"
  "ssr_get (st_sub_states (sqlite_store lib)) = lite_sub_state_get"
  "ssr_upsert (st_sub_states (sqlite_store lib)) = lite_sub_state_upsert"
  "nr_exists_for_subscription (st_notifications (sqlite_store lib)) =
     lite_notification_exists_for_subscription"
  "nr_record (st_notifications (sqlite_store lib)) = lite_notification_record"
  "sbr_get (st_subscribers (sqlite_store lib)) = lite_subscriber_get"
  "inr_list_resolved_before (st_incidents (sqlite_store lib)) = lite_incident_list_resolved_before"
  "inr_delete_resolved_before (st_incidents (sqlite_store lib)) = lite_incident_delete_resolved_before"
  "st_api_tokens (sqlite_store lib) = \<lparr>tr_create = lite_token_create lib,
       tr_get_by_hash = lite_token_get_by_hash, tr_get = lite_token_get, tr_list = lite_token_list,
       tr_revoke = lite_token_revoke, tr_touch_last_used = lite_token_touch_last_used,
       tr_delete = lite_token_delete\<rparr>"
  by (simp_all add: sqlite_store_def)

end
