(* ===== verification/Sqlite_Contract.thy ===== *)
theory Sqlite_Contract
  imports Incident_Inv Sqlite_Store
begin

text \<open>
  The SQLite driver keeps the contracts of Store_Iface: what the dispatcher observes of the
  tables, the effect of each call on it, failing calls included, and the states in which no
  call fails.
\<close>

section \<open>The view of the tables\<close>

definition scan_opt :: "('r \<Rightarrow> 'a result) \<Rightarrow> 'r option \<Rightarrow> 'a option" where
  "scan_opt scan r = (case r of None \<Rightarrow> None
     | Some row \<Rightarrow> (case scan row of Inl _ \<Rightarrow> None | Inr x \<Rightarrow> Some x))"

text \<open>
  A subscription row whose rule id is the empty string, which no method writes, is never
  selected for a rule.
\<close>

definition lite_view :: "db \<Rightarrow> store_view" where
  "lite_view d = \<lparr>
     v_live = (\<lambda>rid. scan_opt scan_live (tbl_find lw_rule_id rid (t_live d))),
     v_incident = (\<lambda>i. scan_opt scan_incident (tbl_find ir_id i (t_incidents d))),
     v_subs = map scan_subscription (filter (\<lambda>row. ur_rule_id row \<noteq> Some '''') (t_subscriptions d)),
     v_sub_state = (\<lambda>i s. map_option scan_sub_state (tbl_find sub_state_key (i, s) (t_sub_states d))),
     v_notifs = map scan_notification (t_notifications d),
     v_subscriber = (\<lambda>i. map_option scan_subscriber (tbl_find br_id i (t_subscribers d)))\<rparr>"

lemma lite_view_same: "same_tables d d' \<Longrightarrow> lite_view d' = lite_view d"
  by (simp add: lite_view_def same_tablesD)

lemma lite_view_faults [simp]: "lite_view (d\<lparr>db_faults := fs\<rparr>) = lite_view d"
  by (rule lite_view_same) simp

lemma scan_one_Inr: "scan_one scan r = Inr x \<Longrightarrow> x = scan_opt scan r"
  by (cases r) (auto simp: scan_one_def scan_opt_def res_map_def res_bind_def split: sum.splits)

text \<open>Queries and statements against the view.\<close>

lemma query_reads:
  assumes "\<And>d x. f d = Inr x \<Longrightarrow> x = g (lite_view d)"
  shows "op_reads lite_view (db_query f) g"
proof (rule op_readsI)
  fix d r d' assume run: "db_query f d = (r, d')"
  from run show "lite_view d' = lite_view d \<and> (\<forall>x. r = Inr x \<longrightarrow> x = g (lite_view d))"
  proof (cases rule: db_query_cases)
    case (1 e)
    then show ?thesis by (simp add: lite_view_same)
  next
    case (2 fs)
    then show ?thesis using assms [of "d\<lparr>db_faults := fs\<rparr>"] by auto
  qed
qed

lemma exec_writes:
  assumes "\<And>d d'. f d = Inr d' \<Longrightarrow> P (lite_view d) \<and> lite_view d' = g (lite_view d)"
  shows "op_writes lite_view (db_exec f) P g"
proof (rule op_writesI)
  fix d r d' assume run: "db_exec f d = (r, d')"
  from run show "case r of Inl e \<Rightarrow> lite_view d' = lite_view d
      | Inr x \<Rightarrow> P (lite_view d) \<and> lite_view d' = g (lite_view d)"
  proof (cases rule: db_exec_cases)
    case (1 e)
    then show ?thesis by (simp add: lite_view_same)
  next
    case (2 fs)
    then show ?thesis using assms [of "d\<lparr>db_faults := fs\<rparr>"] by auto
  qed
qed

section \<open>Rows and values\<close>

lemma from_null_nullable [simp]: "from_null (nullable s) = s"
  by (simp add: from_null_def nullable_def)

lemma read_stored_ms [simp]: "read_ms (stored_ms t) = norm_time t"
  by (simp add: read_ms_def stored_ms_def norm_time_def)

lemma scan_live_row [simp]: "scan_live (live_to_row s) = Inr (norm_live s)"
  by (simp add: scan_live_def live_to_row_def scan_text_def norm_live_def)

lemma live_to_row_id [simp]: "lw_rule_id (live_to_row s) = ls_rule_id s"
  by (simp add: live_to_row_def)

lemma scan_sub_state_row [simp]: "scan_sub_state (sub_state_to_row s) = norm_sub_state s"
  by (simp add: scan_sub_state_def sub_state_to_row_def norm_sub_state_def bool_int_def)

lemma sub_state_to_row_key [simp]:
  "sub_state_key (sub_state_to_row s) = (ss_incident_id s, ss_subscription_id s)"
  by (simp add: sub_state_key_def sub_state_to_row_def)

lemma scan_notification_row [simp]: "scan_notification (notification_to_row n) = norm_notif n"
  by (simp add: scan_notification_def notification_to_row_def norm_notif_def trunc_ms_def from_null_def)

lemma scan_notification_sel [simp]:
  "nt_id (scan_notification row) = nw_id row"
  "nt_subscription_id (scan_notification row) = nw_subscription_id row"
  by (simp_all add: scan_notification_def)

lemma match_labels_eq: "match_labels sel actual = selector_matches sel actual"
proof -
  have "match_all sel actual \<longleftrightarrow> (\<forall>(k, v) \<in> set sel. label_at actual k = v)"
    by (induction sel) (auto split: if_splits simp del: if_split)
  then show ?thesis by (auto simp: match_labels_def selector_matches_def)
qed

section \<open>Each call\<close>

lemma lite_live_get_reads: "op_reads lite_view (lite_live_get rid) (\<lambda>v. v_live v rid)"
  unfolding lite_live_get_def by (rule query_reads) (auto dest: scan_one_Inr simp: lite_view_def)

lemma lite_live_upsert_writes: "op_writes lite_view (lite_live_upsert x) (\<lambda>_. True) (put_live x)"
  unfolding lite_live_upsert_def
  by (rule exec_writes) (auto simp: lite_view_def put_live_def tbl_find_upsert scan_opt_def)

lemma lite_incident_open_writes:
  "op_writes lite_view (lite_incident_open i) (\<lambda>v. v_incident v (in_id i) = None) (put_incident i)"
  unfolding lite_incident_open_def
proof (rule exec_writes)
  fix d d' :: db
  let ?row = "\<lparr>ir_id = in_id i, ir_rule_id = in_rule_id i, ir_triggered_at = unix_milli (in_triggered_at i),
     ir_resolved_at = None, ir_last_value = Some (in_last_value i)\<rparr>"
  assume "res_map (\<lambda>rows. d\<lparr>t_incidents := rows\<rparr>)
     (sql_insert ''incidents.id'' ir_id ?row (t_incidents d)) = Inr d'"
  then have d': "d' = d\<lparr>t_incidents := t_incidents d @ [?row]\<rparr>"
    and fresh: "tbl_find ir_id (in_id i) (t_incidents d) = None"
    by (auto simp: res_map_def res_bind_Inr_iff sql_insert_Inr_iff tbl_find_None_iff)
  have row: "scan_incident ?row = Inr (norm_incident i)"
    by (simp add: scan_incident_def scan_text_def norm_incident_def trunc_ms_def)
  have "v_incident (lite_view d') = (v_incident (lite_view d))(in_id i \<mapsto> norm_incident i)"
    using fresh row by (auto simp: d' lite_view_def scan_opt_def split: option.splits)
  then show "v_incident (lite_view d) (in_id i) = None \<and> lite_view d' = put_incident i (lite_view d)"
    using fresh by (simp add: put_incident_def d' lite_view_def scan_opt_def)
qed

lemma lite_incident_resolve_writes:
  "op_writes lite_view (lite_incident_resolve i ms) (\<lambda>_. True) (resolve_incident i ms)"
  unfolding lite_incident_resolve_def
proof (rule exec_writes)
  fix d d' :: db
  assume "Inr (d\<lparr>t_incidents := tbl_update (\<lambda>row. ir_id row = i)
     (\<lambda>row. row\<lparr>ir_resolved_at := Some ms\<rparr>) (t_incidents d)\<rparr>) = (Inr d' :: db result)"
  then have d': "d' = d\<lparr>t_incidents := tbl_update (\<lambda>row. ir_id row = i)
     (\<lambda>row. row\<lparr>ir_resolved_at := Some ms\<rparr>) (t_incidents d)\<rparr>" by simp
  have "v_incident (lite_view d') j = (if j = i
      then map_option (\<lambda>x. x\<lparr>in_resolved_at := of_unix_milli ms\<rparr>) (v_incident (lite_view d) j)
      else v_incident (lite_view d) j)" for j
    by (auto simp: d' lite_view_def scan_opt_def tbl_find_update scan_incident_def scan_text_def
        dest: tbl_find_SomeD split: option.splits)
  then show "True \<and> lite_view d' = resolve_incident i ms (lite_view d)"
    by (simp add: resolve_incident_def d' lite_view_def fun_eq_iff)
qed

lemma lite_sub_state_get_reads:
  "op_reads lite_view (lite_sub_state_get i sid) (\<lambda>v. v_sub_state v i sid)"
  unfolding lite_sub_state_get_def by (rule query_reads) (auto simp: lite_view_def)

lemma lite_sub_state_upsert_writes:
  "op_writes lite_view (lite_sub_state_upsert x) (\<lambda>_. True) (put_sub_state x)"
  unfolding lite_sub_state_upsert_def
  by (rule exec_writes) (auto simp: lite_view_def put_sub_state_def tbl_find_upsert fun_eq_iff)

lemma lite_notification_exists_reads:
  "op_reads lite_view (lite_notification_exists_for_subscription sid)
     (\<lambda>v. sid \<in> nt_subscription_id ` set (v_notifs v))"
  unfolding lite_notification_exists_for_subscription_def
  by (rule query_reads) (auto simp: lite_view_def list_ex_iff image_image)

lemma lite_notification_record_writes:
  "op_writes lite_view (lite_notification_record n) (\<lambda>v. nt_id n \<notin> nt_id ` set (v_notifs v)) (add_notif n)"
  unfolding lite_notification_record_def
  by (rule exec_writes)
    (auto simp: res_map_def res_bind_Inr_iff sql_insert_Inr_iff lite_view_def add_notif_def
      image_image notification_to_row_def [of n] simp flip: scan_notification_row)

lemma lite_subscriber_get_reads: "op_reads lite_view (lite_subscriber_get i) (\<lambda>v. v_subscriber v i)"
  unfolding lite_subscriber_get_def by (rule query_reads) (auto simp: lite_view_def)

text \<open>ListForRule: the rows bound to the rule, then the matching selectors.\<close>

lemma scan_subscription_rule_id [simp]: "su_rule_id (scan_subscription row) = from_null (ur_rule_id row)"
  by (simp add: scan_subscription_def)

lemma filter_direct:
  "rid \<noteq> [] \<Longrightarrow>
   map scan_subscription (filter (\<lambda>row. ur_rule_id row = Some rid) rows) =
   filter (\<lambda>s. su_rule_id s \<noteq> [] \<and> su_rule_id s = rid)
     (map scan_subscription (filter (\<lambda>row. ur_rule_id row \<noteq> Some []) rows))"
  by (induction rows) (auto simp: from_null_def split: option.splits)

lemma filter_selected:
  "filter (\<lambda>s. match_labels (su_label_selector s) labels)
     (map scan_subscription (filter (\<lambda>row. ur_rule_id row = None) rows)) =
   filter (\<lambda>s. su_rule_id s = [] \<and> selector_matches (su_label_selector s) labels)
     (map scan_subscription (filter (\<lambda>row. ur_rule_id row \<noteq> Some []) rows))"
  by (induction rows) (auto simp: from_null_def match_labels_eq split: option.splits)

lemma lite_subscription_list_for_rule_reads:
  assumes "rid \<noteq> []"
  shows "op_reads lite_view (lite_subscription_list_for_rule rid labels)
    (\<lambda>v. subs_for_rule rid labels (v_subs v))"
proof (rule op_readsI)
  fix d r d'
  let ?direct = "db_query (\<lambda>d. Inr (map scan_subscription
        (filter (\<lambda>row. ur_rule_id row = Some rid) (t_subscriptions d))))"
  let ?rest = "db_query (\<lambda>d. Inr (map scan_subscription
        (filter (\<lambda>row. ur_rule_id row = None) (t_subscriptions d))))"
  let ?f = "\<lambda>v. filter (\<lambda>s. su_rule_id s \<noteq> [] \<and> su_rule_id s = rid) (v_subs v)"
  let ?g = "\<lambda>v. map scan_subscription (filter (\<lambda>row. ur_rule_id row = None) v)"
  assume run: "lite_subscription_list_for_rule rid labels d = (r, d')"
  obtain r1 d1 where run1: "?direct d = (r1, d1)" by (cases "?direct d")
  have t1: "same_tables d d1" by (rule db_query_tables [OF run1])
  show "lite_view d' = lite_view d \<and> (\<forall>x. r = Inr x \<longrightarrow> x = subs_for_rule rid labels (v_subs (lite_view d)))"
  proof (cases r1)
    case (Inl e)
    with run run1 t1 show ?thesis
      by (auto simp: lite_subscription_list_for_rule_def op_bind_def lite_view_same)
  next
    case (Inr out)
    have out: "out = ?f (lite_view d)"
      using db_query_cases [OF run1] Inr assms by (auto simp: lite_view_def filter_direct)
    obtain r2 d2 where run2: "?rest d1 = (r2, d2)" by (cases "?rest d1")
    have t2: "same_tables d d2" using t1 db_query_tables [OF run2] by (rule same_tables_trans)
    show ?thesis
    proof (cases r2)
      case (Inl e)
      with run run1 run2 Inr t2 show ?thesis
        by (auto simp: lite_subscription_list_for_rule_def op_bind_def lite_view_same)
    next
      case (Inr rest)
      have "rest = ?g (t_subscriptions d1)"
        using db_query_cases [OF run2] Inr by auto
      then have rest: "rest = ?g (t_subscriptions d)"
        by (simp add: same_tablesD [OF t1])
      have "r = Inr (out @ filter (\<lambda>s. match_labels (su_label_selector s) labels) rest) \<and> d' = d2"
        using run run1 run2 \<open>r1 = Inr out\<close> Inr
        by (simp add: lite_subscription_list_for_rule_def op_bind_def)
      with out rest t2 show ?thesis
        by (simp add: subs_for_rule_def filter_selected lite_view_same) (simp add: lite_view_def)
    qed
  qed
qed

section \<open>States without failures\<close>

text \<open>
  No pending fault and no NULL in the text columns the driver scans into plain strings; every
  row the driver writes has none.
\<close>

definition lite_ok :: "db \<Rightarrow> bool" where
  "lite_ok d \<longleftrightarrow> db_faults d = [] \<and> (\<forall>row \<in> set (t_incidents d). ir_last_value row \<noteq> None) \<and>
     (\<forall>row \<in> set (t_live d). lw_last_value row \<noteq> None \<and> lw_last_error row \<noteq> None)"

lemma lite_ok_empty [simp]: "lite_ok empty_db"
  by (simp add: lite_ok_def empty_db_def)

lemma query_total:
  assumes "\<And>d. lite_ok d \<Longrightarrow> is_ok (f d)"
  shows "op_total lite_ok P (db_query f)"
proof -
  have "is_ok r \<and> lite_ok d'" if "lite_ok d" "db_query f d = (r, d')" for d r d'
  proof -
    have "db_faults d = []" using that(1) by (simp add: lite_ok_def)
    then have "r = f d \<and> d' = d" using that(2) by (auto simp: db_query_no_fault)
    then show ?thesis using that(1) assms by simp
  qed
  then show ?thesis by (auto simp: op_total_def)
qed

lemma exec_total:
  assumes "\<And>d. lite_ok d \<Longrightarrow> P d \<Longrightarrow> \<exists>d'. f d = Inr d' \<and> lite_ok d'"
  shows "op_total lite_ok P (db_exec f)"
proof -
  have "is_ok r \<and> lite_ok d'" if "lite_ok d" "P d" "db_exec f d = (r, d')" for d r d'
  proof -
    have "db_faults d = []" using that(1) by (simp add: lite_ok_def)
    moreover have "\<exists>d2. f d = Inr d2 \<and> lite_ok d2" using assms that(1,2) by blast
    ultimately show ?thesis using that(3) by (auto simp: db_exec_no_fault)
  qed
  then show ?thesis by (auto simp: op_total_def)
qed

lemma scan_live_ok:
  "lw_last_value row \<noteq> None \<Longrightarrow> lw_last_error row \<noteq> None \<Longrightarrow> \<exists>x. scan_live row = Inr x"
  by (auto simp: scan_live_def scan_text_def)

lemma scan_incident_ok: "ir_last_value row \<noteq> None \<Longrightarrow> \<exists>x. scan_incident row = Inr x"
  by (auto simp: scan_incident_def scan_text_def)

lemma scan_one_ok:
  "(\<And>row. r = Some row \<Longrightarrow> \<exists>x. scan row = Inr x) \<Longrightarrow> is_ok (scan_one scan r)"
  by (cases r) (auto simp: scan_one_def)

lemma lite_live_get_total: "op_total lite_ok P (lite_live_get rid)"
  unfolding lite_live_get_def
  by (rule query_total, rule scan_one_ok)
    (auto dest!: tbl_find_SomeD intro!: scan_live_ok simp: lite_ok_def)

lemma lite_live_upsert_total: "op_total lite_ok P (lite_live_upsert x)"
  unfolding lite_live_upsert_def
  by (rule exec_total)
    (auto simp: lite_ok_def live_to_row_def tbl_upsert_def)

lemma lite_incident_open_total:
  "op_total lite_ok (\<lambda>d. v_incident (lite_view d) (in_id i) = None) (lite_incident_open i)"
  unfolding lite_incident_open_def
proof (rule exec_total)
  fix d assume ok: "lite_ok d" and fresh: "v_incident (lite_view d) (in_id i) = None"
  have "tbl_find ir_id (in_id i) (t_incidents d) = None"
  proof (rule ccontr)
    assume "tbl_find ir_id (in_id i) (t_incidents d) \<noteq> None"
    then obtain row where row: "tbl_find ir_id (in_id i) (t_incidents d) = Some row" by blast
    then have "ir_last_value row \<noteq> None" using ok by (auto simp: lite_ok_def dest: tbl_find_SomeD)
    then show False using fresh row scan_incident_ok [of row] by (auto simp: lite_view_def scan_opt_def)
  qed
  then show "\<exists>d'. res_map (\<lambda>rows. d\<lparr>t_incidents := rows\<rparr>) (sql_insert ''incidents.id'' ir_id
      \<lparr>ir_id = in_id i, ir_rule_id = in_rule_id i, ir_triggered_at = unix_milli (in_triggered_at i),
       ir_resolved_at = None, ir_last_value = Some (in_last_value i)\<rparr> (t_incidents d)) = Inr d' \<and> lite_ok d'"
    using ok by (auto simp: sql_insert_def tbl_find_None_iff lite_ok_def)
qed

lemma lite_incident_resolve_total: "op_total lite_ok P (lite_incident_resolve i ms)"
  unfolding lite_incident_resolve_def
  by (rule exec_total) (auto simp: lite_ok_def set_tbl_update)

lemma lite_subscription_list_for_rule_total:
  "op_total lite_ok P (lite_subscription_list_for_rule rid labels)"
  by (auto simp: op_total_def lite_ok_def lite_subscription_list_for_rule_def op_bind_def
      db_query_no_fault)

lemma lite_sub_state_get_total: "op_total lite_ok P (lite_sub_state_get i sid)"
  unfolding lite_sub_state_get_def by (rule query_total) simp

lemma lite_sub_state_upsert_total: "op_total lite_ok P (lite_sub_state_upsert x)"
  unfolding lite_sub_state_upsert_def by (rule exec_total) (simp add: lite_ok_def)

lemma lite_notification_exists_total:
  "op_total lite_ok P (lite_notification_exists_for_subscription sid)"
  unfolding lite_notification_exists_for_subscription_def by (rule query_total) simp

lemma lite_notification_record_total:
  "op_total lite_ok (\<lambda>d. nt_id n \<notin> nt_id ` set (v_notifs (lite_view d))) (lite_notification_record n)"
  unfolding lite_notification_record_def
  by (rule exec_total)
    (auto simp: sql_insert_def lite_view_def image_image lite_ok_def notification_to_row_def [of n])

lemma lite_subscriber_get_total: "op_total lite_ok P (lite_subscriber_get i)"
  unfolding lite_subscriber_get_def by (rule query_total) simp

lemmas lite_reads =
  lite_live_get_reads lite_subscription_list_for_rule_reads lite_sub_state_get_reads
  lite_notification_exists_reads lite_subscriber_get_reads

lemmas lite_writes =
  lite_live_upsert_writes lite_incident_open_writes lite_incident_resolve_writes
  lite_sub_state_upsert_writes lite_notification_record_writes

lemmas lite_totals =
  lite_live_get_total lite_live_upsert_total lite_incident_open_total lite_incident_resolve_total
  lite_subscription_list_for_rule_total lite_sub_state_get_total lite_sub_state_upsert_total
  lite_notification_exists_total lite_notification_record_total lite_subscriber_get_total

interpretation lite: reliable_store "sqlite_store lib" lite_view lite_ok
  by unfold_locales (unfold sqlite_store_sel, (rule lite_reads lite_writes lite_totals; assumption?)+)

end
