(* ===== verification/Retention.thy ===== *)
theory Retention
  imports Sqlite_Contract
begin

text \<open>
  internal/retention: one pass of the pruner over any store, the two archive sinks, and the
  deletion it relies on in the SQLite driver. An archiver is an operation on its own state;
  the file system and the HTTP client are parameters.
\<close>

section \<open>Pruner\<close>

type_synonym 'a archiver = "incident \<Rightarrow> notification list \<Rightarrow> ('a, unit) op"

record 'a pruner =
  pr_window :: duration
  pr_interval :: duration
  pr_archiver :: "'a archiver option"

definition new_pruner ::
  "'s store option \<Rightarrow> duration \<Rightarrow> duration \<Rightarrow> 'a archiver option \<Rightarrow> 'a pruner result" where
  "new_pruner st window interval arch =
     (case st of
        None \<Rightarrow> Inl (ErrNew ''retention: Store required'')
      | Some _ \<Rightarrow>
          if window \<le> 0 then Inl (ErrNew ''retention: Window must be > 0'')
          else Inr \<lparr>pr_window = window,
                    pr_interval = (if interval \<le> 0 then hour else interval), pr_archiver = arch\<rparr>)"

text \<open>Archiving one candidate: notifications that cannot be read are left out.\<close>

definition archive_one ::
  "'s store \<Rightarrow> 'a archiver \<Rightarrow> incident \<Rightarrow> 's \<times> 'a \<Rightarrow> 's \<times> 'a" where
  "archive_one st arch inc sa =
     (case nr_list_for_incident (st_notifications st) (in_id inc) (fst sa) of (res, s') \<Rightarrow>
        (let notifs = (case res of Inl e \<Rightarrow> [] | Inr ns \<Rightarrow> ns)
         in (s', snd (arch inc notifs (snd sa)))))"

definition run_once :: "'s store \<Rightarrow> 'a pruner \<Rightarrow> time \<Rightarrow> 's \<times> 'a \<Rightarrow> 's \<times> 'a" where
  "run_once st p now sa =
     (let cutoff_ms = unix_milli (now - pr_window p) in
      case inr_list_resolved_before (st_incidents st) cutoff_ms (fst sa) of
        (Inl e, s1) \<Rightarrow> (s1, snd sa)
      | (Inr candidates, s1) \<Rightarrow>
          if candidates = [] then (s1, snd sa)
          else
            (let sa2 = (case pr_archiver p of
                 None \<Rightarrow> (s1, snd sa)
               | Some arch \<Rightarrow> fold (archive_one st arch) candidates (s1, snd sa))
             in (snd (inr_delete_resolved_before (st_incidents st) cutoff_ms (fst sa2)), snd sa2)))"

text \<open>
  Start: a pass at once, then one per tick until the context is done, whose error it returns; the
  list is what the select of the loop receives, and None says that the loop goes on.
\<close>

datatype prune_event = PruneTick time | PruneDone go_error

fun prune_loop :: "'s store \<Rightarrow> 'a pruner \<Rightarrow> prune_event list \<Rightarrow> 's \<times> 'a \<Rightarrow> go_error option \<times> 's \<times> 'a" where
  "prune_loop st p [] sa = (None, sa)"
| "prune_loop st p (PruneDone e # evs) sa = (Some e, sa)"
| "prune_loop st p (PruneTick now # evs) sa = prune_loop st p evs (run_once st p now sa)"

definition pruner_start ::
  "'s store \<Rightarrow> 'a pruner \<Rightarrow> time \<Rightarrow> prune_event list \<Rightarrow> 's \<times> 'a \<Rightarrow> go_error option \<times> 's \<times> 'a" where
  "pruner_start st p now evs sa = prune_loop st p evs (run_once st p now sa)"

text \<open>The passes of a run: one at the start and one for each tick before the context is done.\<close>

fun pass_times :: "prune_event list \<Rightarrow> time list" where
  "pass_times (PruneTick now # evs) = now # pass_times evs"
| "pass_times _ = []"

lemma pruner_start_passes:
  "snd (pruner_start st p now evs sa) = fold (run_once st p) (now # pass_times evs) sa \<and>
   fst (pruner_start st p now evs sa) =
     (case dropWhile (\<lambda>ev. \<exists>t. ev = PruneTick t) evs of PruneDone e # _ \<Rightarrow> Some e | _ \<Rightarrow> None)"
proof -
  have "snd (prune_loop st p evs sa) = fold (run_once st p) (pass_times evs) sa \<and>
    fst (prune_loop st p evs sa) =
      (case dropWhile (\<lambda>ev. \<exists>t. ev = PruneTick t) evs of PruneDone e # _ \<Rightarrow> Some e | _ \<Rightarrow> None)" for sa
    by (induction st p evs sa rule: prune_loop.induct) simp_all
  then show ?thesis by (simp add: pruner_start_def)
qed

section \<open>Archive sinks\<close>

text \<open>A line of an archive is its entry; the printed JSON is not modelled.\<close>

record archive_entry =
  ae_incident :: incident
  ae_notifications :: "notification list"
  ae_archived_at :: time

text \<open>Calendar date of a time in UTC, as Format prints it with layout 2006-01-02.\<close>

definition civil_of_days :: "int \<Rightarrow> int \<times> int \<times> int" where
  "civil_of_days z0 =
     (let z = z0 + 719468; era = z div 146097; doe = z - era * 146097;
          yoe = (doe - doe div 1460 + doe div 36524 - doe div 146096) div 365;
          doy = doe - (365 * yoe + yoe div 4 - yoe div 100);
          mp = (5 * doy + 2) div 153;
          dd = doy - (153 * mp + 2) div 5 + 1;
          mm = (if mp < 10 then mp + 3 else mp - 9);
          yy = yoe + era * 400
      in (if mm \<le> 2 then yy + 1 else yy, mm, dd))"

definition pad2 :: "int \<Rightarrow> string" where
  "pad2 n = (if n < 10 then ''0'' else '''') @ show_int n"

definition pad4 :: "int \<Rightarrow> string" where
  "pad4 n = replicate (4 - length (show_int n)) (CHR ''0'') @ show_int n"

definition fmt_date :: "time \<Rightarrow> string" where
  "fmt_date t = (case civil_of_days (t div (24 * hour)) of (y, m, dd) \<Rightarrow>
     pad4 y @ ''-'' @ pad2 m @ ''-'' @ pad2 dd)"

text \<open>
  The file archiver: \<open>jf_open\<close> is the path of the current file and whether its handle is still
  open (a failed rotation leaves a closed one), \<open>jf_files\<close> the lines of the files.
  \<open>io\<close> is the outcome of the directory creation, the open and the write of one call.
\<close>

record file_sink =
  jf_dir :: string
  jf_open :: "(string \<times> bool) option"
  jf_date :: string
  jf_files :: "string \<Rightarrow> archive_entry list"

record file_io =
  io_mkdir :: "go_error option"
  io_open :: "go_error option"
  io_write :: "go_error option"

definition archive_path :: "string \<Rightarrow> string \<Rightarrow> string" where
  "archive_path dir date = dir @ ''/incidents-'' @ date @ ''.jsonl''"

definition rotate :: "file_io \<Rightarrow> string \<Rightarrow> (file_sink, unit) op" where
  "rotate io date a =
     (if jf_date a = date then (Inr (), a)
      else (let a1 = a\<lparr>jf_open := map_option (\<lambda>(path, _). (path, False)) (jf_open a)\<rparr> in
            case io_mkdir io of
              Some e \<Rightarrow> (Inl (ErrWrap ''retention: mkdir'' e), a1)
            | None \<Rightarrow>
                (case io_open io of
                   Some e \<Rightarrow> (Inl (ErrWrap ''retention: open archive'' e), a1)
                 | None \<Rightarrow>
                     (Inr (), a1\<lparr>jf_open := Some (archive_path (jf_dir a) date, True), jf_date := date\<rparr>))))"

definition file_archive :: "file_io \<Rightarrow> time \<Rightarrow> time \<Rightarrow> file_sink archiver" where
  "file_archive io now1 now2 inc notifs a =
     (if jf_dir a = '''' then (Inl (ErrNew ''retention: JSONFileArchiver.Dir required''), a)
      else op_bind (rotate io (fmt_date now1)) (\<lambda>_ a1.
        (case io_write io of
           Some e \<Rightarrow> (Inl (ErrWrap ''retention: write'' e), a1)
         | None \<Rightarrow>
             (case jf_open a1 of
                None \<Rightarrow> (Inl (ErrWrap ''retention: write'' (ErrNew ''invalid argument'')), a1)
              | Some (path, False) \<Rightarrow>
                  (Inl (ErrWrap ''retention: write'' (ErrNew ''file already closed'')), a1)
              | Some (path, True) \<Rightarrow>
                  (Inr (), a1\<lparr>jf_files := (jf_files a1)(path := jf_files a1 path @
                     [\<lparr>ae_incident = inc, ae_notifications = notifs, ae_archived_at = now2\<rparr>])\<rparr>)))) a)"

definition file_close :: "go_error option \<Rightarrow> (file_sink, unit) op" where
  "file_close res a =
     (case jf_open a of
        None \<Rightarrow> (Inr (), a)
      | Some _ \<Rightarrow> ((case res of None \<Rightarrow> Inr () | Some e \<Rightarrow> Inl e), a\<lparr>jf_open := None, jf_date := ''''\<rparr>))"

text \<open>The webhook archiver: \<open>http\<close> answers a POST of the entry with a status code.\<close>

definition webhook_archive ::
  "string \<Rightarrow> (nat \<Rightarrow> string \<Rightarrow> archive_entry \<Rightarrow> int result) \<Rightarrow> time \<Rightarrow> (string \<times> archive_entry) list archiver" where
  "webhook_archive url http now inc notifs sent =
     (let entry = \<lparr>ae_incident = inc, ae_notifications = notifs, ae_archived_at = now\<rparr> in
      if url = '''' then (Inl (ErrNew ''retention: WebhookArchiver.URL required''), sent)
      else (case http (length sent) url entry of
              Inl e \<Rightarrow> (Inl (ErrWrap ''retention: webhook'' e), sent @ [(url, entry)])
            | Inr status \<Rightarrow>
                ((if status div 100 \<noteq> 2 then Inl (ErrNew (''retention: webhook status '' @ show_int status))
                  else Inr ()), sent @ [(url, entry)])))"

section \<open>Deletion in the SQLite driver\<close>

text \<open>
  What DeleteResolvedBefore leaves: the incidents that are open or were resolved later, and
  the notifications and delivery states that belong to none of the deleted ones.
\<close>

definition pruned_ids :: "int \<Rightarrow> db \<Rightarrow> string set" where
  "pruned_ids t d = ir_id ` {row \<in> set (t_incidents d). resolved_before t row}"

definition pruned :: "int \<Rightarrow> db \<Rightarrow> db" where
  "pruned t d =
     d\<lparr>t_incidents := filter (\<lambda>row. \<not> resolved_before t row) (t_incidents d),
       t_notifications := filter (\<lambda>n. nw_incident_id n \<notin> pruned_ids t d) (t_notifications d),
       t_sub_states := filter (\<lambda>s. sw_incident_id s \<notin> pruned_ids t d) (t_sub_states d)\<rparr>"

definition drop_children :: "string list \<Rightarrow> db \<Rightarrow> db" where
  "drop_children ids d =
     d\<lparr>t_notifications := filter (\<lambda>n. nw_incident_id n \<notin> set ids) (t_notifications d),
       t_sub_states := filter (\<lambda>s. sw_incident_id s \<notin> set ids) (t_sub_states d)\<rparr>"

lemma same_tables_drop: "same_tables d d' \<Longrightarrow> same_tables (drop_children ids d) (drop_children ids d')"
  by (cases d; cases d') (simp add: same_tables_def drop_children_def)

lemma same_tables_pruned: "same_tables d d' \<Longrightarrow> same_tables (pruned t d) (pruned t d')"
  by (cases d; cases d') (simp add: same_tables_def pruned_def pruned_ids_def)

lemma exec_ok_tables:
  assumes "db_exec (\<lambda>d. Inr (g d)) d = (Inr u, d')" and "\<And>d fs. g (d\<lparr>db_faults := fs\<rparr>) = (g d)\<lparr>db_faults := fs\<rparr>"
  shows "same_tables (g d) d'"
  using assms(1)
proof (cases rule: db_exec_cases)
  case (1 e)
  then show ?thesis by simp
next
  case (2 fs)
  then show ?thesis using assms(2) by auto
qed

lemma delete_children_ok:
  assumes "delete_children i d = (Inr u, d')"
  shows "same_tables (drop_children [i] d) d'"
proof -
  let ?n = "\<lambda>d. d\<lparr>t_notifications := filter (\<lambda>n. nw_incident_id n \<noteq> i) (t_notifications d)\<rparr>"
  let ?s = "\<lambda>d. d\<lparr>t_sub_states := filter (\<lambda>s. sw_incident_id s \<noteq> i) (t_sub_states d)\<rparr>"
  obtain d1 where d1: "db_exec (\<lambda>d. Inr (?n d)) d = (Inr (), d1)" "db_exec (\<lambda>d. Inr (?s d)) d1 = (Inr u, d')"
    using assms by (auto simp: delete_children_def op_bind_def split: prod.splits sum.splits)
  have t1: "same_tables (?n d) d1" by (rule exec_ok_tables [OF d1(1)]) simp
  have t2: "same_tables (?s d1) d'" by (rule exec_ok_tables [OF d1(2)]) simp
  have "same_tables (?s (?n d)) (?s d1)" using t1 by (cases d; cases d1) (simp add: same_tables_def)
  from same_tables_trans [OF this t2] show ?thesis by (simp add: drop_children_def)
qed

lemma delete_all_children_ok:
  "op_for delete_children ids d = (Inr u, d') \<Longrightarrow> same_tables (drop_children ids d) d'"
proof (induction ids arbitrary: d)
  case Nil
  then show ?case by (cases d) (simp add: drop_children_def)
next
  case (Cons i ids)
  obtain d1 where d1: "delete_children i d = (Inr (), d1)" "op_for delete_children ids d1 = (Inr u, d')"
    using Cons.prems by (auto simp: op_bind_def split: prod.splits sum.splits)
  have "same_tables (drop_children ids (drop_children [i] d)) (drop_children ids d1)"
    using delete_children_ok [OF d1(1)] by (rule same_tables_drop)
  moreover have "drop_children ids (drop_children [i] d) = drop_children (i # ids) d"
    by (cases d) (simp add: drop_children_def conj_commute)
  ultimately show ?case using Cons.IH [OF d1(2)] same_tables_trans by metis
qed

lemma pruned_eq:
  "pruned t d = (drop_children (map ir_id (filter (resolved_before t) (t_incidents d))) d)
     \<lparr>t_incidents := filter (\<lambda>row. \<not> resolved_before t row) (t_incidents d)\<rparr>"
  by (cases d) (simp add: pruned_def drop_children_def pruned_ids_def)

lemma pruned_none: "filter (resolved_before t) (t_incidents d) = [] \<Longrightarrow> pruned t d = d"
proof -
  assume none: "filter (resolved_before t) (t_incidents d) = []"
  then have "pruned_ids t d = {}" by (auto simp: pruned_ids_def filter_empty_conv)
  with none show ?thesis by (cases d) (simp add: pruned_def filter_empty_conv)
qed

text \<open>The deletion happens in full or not at all, whatever call fails.\<close>

lemma delete_resolved_before_effect:
  assumes "lite_incident_delete_resolved_before t d = (r, d')"
  shows "case r of Inl e \<Rightarrow> same_tables d d'
    | Inr n \<Rightarrow> same_tables (pruned t d) d' \<and>
        n = int (length (filter (resolved_before t) (t_incidents d)))"
proof -
  let ?q = "db_query (\<lambda>d. Inr (map ir_id (filter (resolved_before t) (t_incidents d))) :: string list result)"
  let ?del = "\<lambda>d. d\<lparr>t_incidents := filter (\<lambda>row. \<not> resolved_before t row) (t_incidents d)\<rparr>"
  have body: "same_tables (pruned t d1) d2 \<and> n = int (length (filter (resolved_before t) (t_incidents d1)))"
    if run: "op_bind ?q (\<lambda>ids.
        if ids = [] then op_return 0
        else op_bind (op_for delete_children ids) (\<lambda>_ d.
          (let n = int (length (filter (resolved_before t) (t_incidents d)))
           in op_bind (db_exec (\<lambda>d. Inr (?del d))) (\<lambda>_. op_return n) d))) d1 = (Inr n, d2)" for d1 d2 n
  proof -
    obtain ids d3 where q: "?q d1 = (Inr ids, d3)"
      using run by (auto simp: op_bind_def split: prod.splits sum.splits)
    have t3: "same_tables d1 d3" by (rule db_query_tables [OF q])
    have ids: "ids = map ir_id (filter (resolved_before t) (t_incidents d1))"
      using db_query_cases [OF q] by auto
    show ?thesis
    proof (cases "ids = []")
      case True
      then have "d2 = d3" "n = 0" using run q by (auto simp: op_bind_def)
      moreover have "pruned t d1 = d1" using True ids by (intro pruned_none) simp
      ultimately show ?thesis using True ids t3 by simp
    next
      case False
      obtain d4 where d4: "op_for delete_children ids d3 = (Inr (), d4)"
        "db_exec (\<lambda>d. Inr (?del d)) d4 = (Inr (), d2)"
        "n = int (length (filter (resolved_before t) (t_incidents d4)))"
        using run q False by (auto simp: op_bind_def Let_def split: prod.splits sum.splits)
      have t4: "same_tables (drop_children ids d1) d4"
        using same_tables_trans [OF same_tables_drop [OF t3] delete_all_children_ok [OF d4(1)]] .
      have "same_tables (?del d4) d2" by (rule exec_ok_tables [OF d4(2)]) simp
      moreover have "same_tables (?del (drop_children ids d1)) (?del d4)"
        using t4 by (cases d1; cases d4) (simp add: same_tables_def drop_children_def)
      moreover have "?del (drop_children ids d1) = pruned t d1"
        by (simp add: pruned_eq ids drop_children_def)
      moreover have "t_incidents d4 = t_incidents d1"
        using same_tablesD(4) [OF t4] by (simp add: drop_children_def)
      ultimately show ?thesis using d4(3) same_tables_trans by metis
    qed
  qed
  from assms [unfolded lite_incident_delete_resolved_before_def] show ?thesis
  proof (cases rule: db_tx_cases)
    case (1 e)
    then show ?thesis by simp
  next
    case (2 n d1 d2)
    have "same_tables (pruned t d) d'"
      using same_tables_trans [OF same_tables_pruned [OF 2(2)] same_tables_trans [OF conjunct1 [OF body [OF 2(3)]] 2(4)]] .
    then show ?thesis using body [OF 2(3)] 2(1) by (simp add: same_tablesD [OF 2(2)])
  qed
qed

end
