(* ===== verification/Window.thy ===== *)
theory Window
  imports Rule_Model "HOL-Library.Sublist"
begin

text \<open>
  internal/eval/window.go: the rolling sample buffers behind the window helpers. The map from
  keys to slices is a function giving the empty slice for absent keys. A clock reading is an
  argument at each place the code calls its clock.
\<close>

section \<open>Operations\<close>

record sample =
  sm_at :: time
  sm_v :: f64

record window_buffers =
  wb_max_span :: duration
  wb_buf :: "string \<Rightarrow> sample list"

definition new_window_buffers :: "duration \<Rightarrow> window_buffers" where
  "new_window_buffers max_span = \<lparr>wb_max_span = max_span, wb_buf = (\<lambda>_. [])\<rparr>"

fun window_numeric :: "gval \<Rightarrow> f64 option" where
  "window_numeric (GFloat64 x) = Some x"
| "window_numeric (GFloat32 x) = Some x"
| "window_numeric (GInt n) = Some (f64_of_int n)"
| "window_numeric (GInt32 n) = Some (f64_of_int n)"
| "window_numeric (GInt64 n) = Some (f64_of_int n)"
| "window_numeric _ = None"

definition sample_key :: "string \<Rightarrow> string \<Rightarrow> string" where
  "sample_key input_ref fld = input_ref @ ''/'' @ fld"

definition prune :: "time \<Rightarrow> window_buffers \<Rightarrow> window_buffers" where
  "prune now w =
     (if wb_max_span w \<le> 0 then w
      else w\<lparr>wb_buf := (\<lambda>k. dropWhile (\<lambda>s. \<not> now - wb_max_span w < sm_at s) (wb_buf w k))\<rparr>)"

fun observe_fields ::
  "string \<Rightarrow> time \<Rightarrow> grecord \<Rightarrow> (string \<Rightarrow> sample list) \<Rightarrow> (string \<Rightarrow> sample list)" where
  "observe_fields input_ref wh [] buf = buf"
| "observe_fields input_ref wh ((k, v) # r) buf =
     (case window_numeric v of
        None \<Rightarrow> observe_fields input_ref wh r buf
      | Some f \<Rightarrow>
          (let key = sample_key input_ref k
           in observe_fields input_ref wh r (buf(key := buf key @ [\<lparr>sm_at = wh, sm_v = f\<rparr>]))))"

definition observe :: "string \<Rightarrow> grecord \<Rightarrow> time \<Rightarrow> time \<Rightarrow> window_buffers \<Rightarrow> window_buffers" where
  "observe input_ref r wh now w =
     prune now (w\<lparr>wb_buf := observe_fields input_ref wh r (wb_buf w)\<rparr>)"

text \<open>\<open>now1\<close> is the reading given to prune, \<open>now2\<close> the one the cutoff is computed from.\<close>

definition samples ::
  "string \<Rightarrow> string \<Rightarrow> duration \<Rightarrow> time \<Rightarrow> time \<Rightarrow> window_buffers \<Rightarrow> sample list \<times> window_buffers" where
  "samples input_ref fld win now1 now2 w =
     (let w1 = prune now1 w
      in (filter (\<lambda>s. \<not> sm_at s < now2 - win) (wb_buf w1 (sample_key input_ref fld)), w1))"

definition sum_samples :: "sample list \<Rightarrow> f64" where
  "sum_samples ss = fold (\<lambda>s acc. f_add acc (sm_v s)) ss (Fin 0)"

definition avg_over :: "sample list \<Rightarrow> f64 \<times> bool" where
  "avg_over ss =
     (if ss = [] then (Fin 0, False)
      else (f_div_pos (sum_samples ss) (f64_of_int (int (length ss))), True))"

definition sum_over :: "sample list \<Rightarrow> f64 \<times> bool" where
  "sum_over ss = (if ss = [] then (Fin 0, False) else (sum_samples ss, True))"

definition min_over :: "sample list \<Rightarrow> f64 \<times> bool" where
  "min_over ss =
     (case ss of [] \<Rightarrow> (Fin 0, False)
      | s # rest \<Rightarrow> (fold (\<lambda>s m. if f_less (sm_v s) m then sm_v s else m) rest (sm_v s), True))"

definition max_over :: "sample list \<Rightarrow> f64 \<times> bool" where
  "max_over ss =
     (case ss of [] \<Rightarrow> (Fin 0, False)
      | s # rest \<Rightarrow> (fold (\<lambda>s m. if f_less m (sm_v s) then sm_v s else m) rest (sm_v s), True))"

definition count_over :: "sample list \<Rightarrow> int \<times> bool" where
  "count_over ss = (int (length ss), True)"

text \<open>
  The helpers bound to an input reference read the buffers through \<open>samples\<close>;
  RecordRegexMatch is the stub of the source.
\<close>

definition record_regex_match :: "string \<Rightarrow> string \<Rightarrow> bool result" where
  "record_regex_match fld pat = Inr False"

definition bound_helpers :: "string \<Rightarrow> time \<Rightarrow> time \<Rightarrow> window_buffers \<Rightarrow> helper_fns" where
  "bound_helpers input_ref now1 now2 w =
     (let get = (\<lambda>fld win. fst (samples input_ref fld win now1 now2 w))
      in \<lparr>h_avg_over = (\<lambda>f d. avg_over (get f d)),
          h_count_over = (\<lambda>f d. count_over (get f d)),
          h_min_over = (\<lambda>f d. min_over (get f d)),
          h_max_over = (\<lambda>f d. max_over (get f d)),
          h_sum_over = (\<lambda>f d. sum_over (get f d)),
          h_regex = record_regex_match\<rparr>)"

section \<open>The buffer against the full history\<close>

text \<open>
  A history is everything ever observed, unpruned; \<open>window_of\<close> is the specification of a
  window read on it. Operations on the buffers are observations and reads, each with its
  clock readings.
\<close>

datatype window_event =
    WObserve string grecord time time
  | WRead string string duration time time

fun run_event :: "window_event \<Rightarrow> window_buffers \<Rightarrow> window_buffers" where
  "run_event (WObserve i r wh now) w = observe i r wh now w"
| "run_event (WRead i f d now1 now2) w = snd (samples i f d now1 now2 w)"

fun event_clock :: "window_event \<Rightarrow> time" where
  "event_clock (WObserve i r wh now) = now"
| "event_clock (WRead i f d now1 now2) = now1"

fun event_history :: "window_event \<Rightarrow> (string \<Rightarrow> sample list) \<Rightarrow> (string \<Rightarrow> sample list)" where
  "event_history (WObserve i r wh now) h = observe_fields i wh r h"
| "event_history (WRead i f d now1 now2) h = h"

definition run_events :: "window_event list \<Rightarrow> window_buffers \<Rightarrow> window_buffers" where
  "run_events es w = fold run_event es w"

definition history :: "window_event list \<Rightarrow> string \<Rightarrow> sample list" where
  "history es = fold event_history es (\<lambda>_. [])"

definition window_of :: "sample list \<Rightarrow> time \<Rightarrow> duration \<Rightarrow> sample list" where
  "window_of ss now win = filter (\<lambda>s. now - win \<le> sm_at s) ss"

text \<open>
  The invariant: every buffer is its history without a prefix, and what the prefix held was
  older than the span at the clock \<open>t\<close> of the latest operation.
\<close>

definition buffer_inv :: "(string \<Rightarrow> sample list) \<Rightarrow> time \<Rightarrow> window_buffers \<Rightarrow> bool" where
  "buffer_inv h t w \<longleftrightarrow>
     (\<forall>k. \<exists>old. h k = old @ wb_buf w k \<and> (\<forall>s \<in> set old. sm_at s \<le> t - wb_max_span w))"

lemma prune_max_span [simp]: "wb_max_span (prune now w) = wb_max_span w"
  by (simp add: prune_def)

lemma observe_max_span [simp]: "wb_max_span (observe i r wh now w) = wb_max_span w"
  by (simp add: observe_def)

lemma run_event_max_span [simp]: "wb_max_span (run_event e w) = wb_max_span w"
  by (cases e) (simp_all add: samples_def Let_def)

lemma run_events_max_span [simp]: "wb_max_span (run_events es w) = wb_max_span w"
  unfolding run_events_def by (induction es arbitrary: w) simp_all

lemma prune_buf:
  "0 < wb_max_span w \<Longrightarrow>
   wb_buf (prune now w) k = dropWhile (\<lambda>s. \<not> now - wb_max_span w < sm_at s) (wb_buf w k)"
  by (simp add: prune_def)

lemma observe_fields_prefix:
  "observe_fields i wh r (\<lambda>k. h k @ b k) k = h k @ observe_fields i wh r b k"
proof (induction r arbitrary: b)
  case Nil
  then show ?case by simp
next
  case (Cons kv r)
  obtain f v where kv: "kv = (f, v)" by (cases kv)
  show ?case
  proof (cases "window_numeric v")
    case None
    with kv Cons.IH [of b] show ?thesis by simp
  next
    case (Some x)
    let ?s = "\<lparr>sm_at = wh, sm_v = x\<rparr>"
    let ?b = "b(sample_key i f := b (sample_key i f) @ [?s])"
    have "(\<lambda>k. h k @ b k)(sample_key i f := h (sample_key i f) @ b (sample_key i f) @ [?s]) =
        (\<lambda>k. h k @ ?b k)"
      by auto
    with kv Some Cons.IH [of ?b] show ?thesis by (simp add: Let_def fun_upd_def)
  qed
qed

lemma buffer_inv_observe_fields:
  assumes "buffer_inv h t w"
  shows "buffer_inv (observe_fields i wh r h) t (w\<lparr>wb_buf := observe_fields i wh r (wb_buf w)\<rparr>)"
proof -
  obtain old where old: "\<And>k. h k = old k @ wb_buf w k"
    and aged: "\<And>k. \<forall>s \<in> set (old k). sm_at s \<le> t - wb_max_span w"
    using assms unfolding buffer_inv_def by metis
  have h: "h = (\<lambda>k. old k @ wb_buf w k)" using old by auto
  show ?thesis
    unfolding buffer_inv_def h observe_fields_prefix using aged by auto
qed

lemma buffer_inv_prune:
  assumes "buffer_inv h t w" and "t \<le> now"
  shows "buffer_inv h now (prune now w)"
proof (cases "0 < wb_max_span w")
  case False
  with assms show ?thesis by (fastforce simp: buffer_inv_def prune_def)
next
  case True
  let ?p = "\<lambda>s. \<not> now - wb_max_span w < sm_at s"
  show ?thesis unfolding buffer_inv_def
  proof
    fix k
    obtain old where old: "h k = old @ wb_buf w k" "\<forall>s \<in> set old. sm_at s \<le> t - wb_max_span w"
      using assms(1) unfolding buffer_inv_def by blast
    have split: "wb_buf w k = takeWhile ?p (wb_buf w k) @ wb_buf (prune now w) k"
      by (simp add: prune_buf True)
    have "h k = (old @ takeWhile ?p (wb_buf w k)) @ wb_buf (prune now w) k"
      using old(1) split by simp
    moreover have "\<forall>s \<in> set (old @ takeWhile ?p (wb_buf w k)). sm_at s \<le> now - wb_max_span w"
      using old(2) assms(2) by (auto dest: set_takeWhileD)
    ultimately show "\<exists>old. h k = old @ wb_buf (prune now w) k \<and>
        (\<forall>s \<in> set old. sm_at s \<le> now - wb_max_span (prune now w))"
      by auto
  qed
qed

lemma buffer_inv_event:
  assumes "buffer_inv h t w" and "t \<le> event_clock e"
  shows "buffer_inv (event_history e h) (event_clock e) (run_event e w)"
proof (cases e)
  case (WObserve i r wh now)
  with assms show ?thesis
    by (simp add: observe_def buffer_inv_prune [OF buffer_inv_observe_fields])
next
  case (WRead i f d now1 now2)
  with assms show ?thesis
    by (simp add: samples_def Let_def buffer_inv_prune)
qed

text \<open>Clock readings that never go back, from \<open>t\<close> on.\<close>

fun clocks_from :: "time \<Rightarrow> window_event list \<Rightarrow> bool" where
  "clocks_from t [] = True"
| "clocks_from t (e # es) = (t \<le> event_clock e \<and> clocks_from (event_clock e) es)"

fun last_clock :: "time \<Rightarrow> window_event list \<Rightarrow> time" where
  "last_clock t [] = t"
| "last_clock t (e # es) = last_clock (event_clock e) es"

lemma buffer_inv_run_gen:
  "buffer_inv h t w \<Longrightarrow> clocks_from t es \<Longrightarrow>
   buffer_inv (fold event_history es h) (last_clock t es) (fold run_event es w)"
proof (induction es arbitrary: h t w)
  case Nil
  then show ?case by simp
next
  case (Cons e es)
  then show ?case by (simp add: buffer_inv_event)
qed

lemma buffer_inv_run:
  "clocks_from t es \<Longrightarrow>
   buffer_inv (history es) (last_clock t es) (run_events es (new_window_buffers max_span))"
  unfolding history_def run_events_def
  by (rule buffer_inv_run_gen) (simp_all add: buffer_inv_def new_window_buffers_def)

lemma filter_all_old: "\<forall>s \<in> set old. \<not> p s \<Longrightarrow> filter p (old @ new) = filter p new"
  by (induction old) auto

lemma samples_eq_window:
  assumes inv: "buffer_inv h t w" and mono: "t \<le> now1" "now1 \<le> now2"
    and win: "win < wb_max_span w"
  shows "fst (samples i f win now1 now2 w) = window_of (h (sample_key i f)) now2 win"
proof -
  have "buffer_inv h now1 (prune now1 w)"
    using inv mono(1) by (rule buffer_inv_prune)
  then obtain old where old: "h (sample_key i f) = old @ wb_buf (prune now1 w) (sample_key i f)"
      "\<forall>s \<in> set old. sm_at s \<le> now1 - wb_max_span w"
    unfolding buffer_inv_def by force
  have "\<forall>s \<in> set old. \<not> now2 - win \<le> sm_at s"
    using old(2) mono(2) win by force
  then have "window_of (h (sample_key i f)) now2 win =
      filter (\<lambda>s. now2 - win \<le> sm_at s) (wb_buf (prune now1 w) (sample_key i f))"
    unfolding window_of_def old(1) by (rule filter_all_old)
  then show ?thesis
    by (simp add: samples_def Let_def not_less)
qed

lemma prune_prune: "now1 \<le> now2 \<Longrightarrow> prune now2 (prune now1 w) = prune now2 w"
proof -
  assume le: "now1 \<le> now2"
  have "dropWhile (\<lambda>s. \<not> now2 - m < sm_at s) (dropWhile (\<lambda>s. \<not> now1 - m < sm_at s) ss) =
      dropWhile (\<lambda>s. \<not> now2 - m < sm_at s) ss" for m and ss :: "sample list"
    using le by (induction ss) auto
  then show ?thesis by (auto simp: prune_def)
qed

section \<open>Aggregates\<close>

text \<open>A loop that keeps the better of the best so far and the next sample.\<close>

lemma fold_best:
  assumes asym: "\<And>a b. R a b \<Longrightarrow> \<not> R b a"
    and ntrans: "\<And>a b c. b \<noteq> NaN \<Longrightarrow> \<not> R b a \<Longrightarrow> \<not> R c b \<Longrightarrow> \<not> R c a"
    and "m0 \<noteq> NaN" and "\<forall>s \<in> set ss. sm_v s \<noteq> NaN"
  shows "fold (\<lambda>s m. if R (sm_v s) m then sm_v s else m) ss m0 \<in> insert m0 (sm_v ` set ss) \<and>
    (\<forall>x \<in> insert m0 (sm_v ` set ss). \<not> R x (fold (\<lambda>s m. if R (sm_v s) m then sm_v s else m) ss m0))"
  using assms(3,4)
proof (induction ss arbitrary: m0)
  case Nil
  then show ?case using asym by auto
next
  case (Cons s ss)
  let ?f = "\<lambda>s m. if R (sm_v s) m then sm_v s else m"
  let ?m = "?f s m0"
  let ?r = "fold ?f ss ?m"
  have m: "?m \<noteq> NaN" using Cons.prems by auto
  have IH: "?r \<in> insert ?m (sm_v ` set ss) \<and> (\<forall>x \<in> insert ?m (sm_v ` set ss). \<not> R x ?r)"
    by (rule Cons.IH [OF m]) (use Cons.prems in simp)
  have low: "\<not> R m0 ?m" "\<not> R (sm_v s) ?m"
    using asym by auto
  have "\<not> R ?m ?r" using IH by blast
  then have "\<not> R m0 ?r" "\<not> R (sm_v s) ?r"
    using low ntrans [OF m] by blast+
  with IH show ?case by auto
qed

lemma min_over_least:
  assumes "\<forall>s \<in> set ss. sm_v s \<noteq> NaN" and "min_over ss = (m, True)"
  shows "m \<in> sm_v ` set ss \<and> (\<forall>s \<in> set ss. \<not> f_less (sm_v s) m)"
proof (cases ss)
  case Nil
  with assms show ?thesis by (simp add: min_over_def)
next
  case (Cons s rest)
  then show ?thesis
    using assms fold_best [of f_less "sm_v s" rest, OF f_less_asym not_f_less_trans]
    by (simp add: min_over_def)
qed

lemma max_over_greatest:
  assumes "\<forall>s \<in> set ss. sm_v s \<noteq> NaN" and "max_over ss = (m, True)"
  shows "m \<in> sm_v ` set ss \<and> (\<forall>s \<in> set ss. \<not> f_less m (sm_v s))"
proof (cases ss)
  case Nil
  with assms show ?thesis by (simp add: max_over_def)
next
  case (Cons s rest)
  then show ?thesis
    using assms fold_best [of "\<lambda>a b. f_less b a" "sm_v s" rest, OF f_less_asym not_f_less_trans]
    by (simp add: max_over_def)
qed

end
