(* ===== verification/Evaluator.thy ===== *)
theory Evaluator
  imports Dispatcher Window
begin

text \<open>
  internal/eval/eval.go and internal/input/sqlquery: the cache of compiled rules, one record
  of the push evaluator and one timer tick of the scheduled evaluator. A loop over the cache
  takes its entries in the order of the list, which stands for the order Go's map iteration
  happened to choose. Clock readings are arguments: \<open>clk rid\<close> is the reading the dispatcher
  makes in the tick of rule \<open>rid\<close>. The queries of SQL rules are answered by the parameter
  \<open>dbs\<close>, for each registered datasource a query's row count or error.
\<close>

section \<open>Cache\<close>

record compiled_rule =
  cr_rule :: rule
  cr_compiled :: "compiled option"

definition cr_id :: "compiled_rule \<Rightarrow> string" where
  "cr_id c = r_id (cr_rule c)"

type_synonym rule_cache = "compiled_rule list"

definition cache_set :: "compiled_rule \<Rightarrow> rule_cache \<Rightarrow> rule_cache" where
  "cache_set c m = tbl_upsert cr_id c m"

definition cache_delete :: "string \<Rightarrow> rule_cache \<Rightarrow> rule_cache" where
  "cache_delete i m = filter (\<lambda>c. cr_id c \<noteq> i) m"

definition cache_get :: "string \<Rightarrow> rule_cache \<Rightarrow> compiled_rule option" where
  "cache_get i m = tbl_find cr_id i m"

definition cache_by_input :: "string \<Rightarrow> rule_cache \<Rightarrow> compiled_rule list" where
  "cache_by_input ref m =
     filter (\<lambda>c. r_input_ref (cr_rule c) = ref \<and> r_enabled (cr_rule c) \<and> cr_compiled c \<noteq> None) m"

text \<open>The mode of a cached rule; the engine caches no rule without a condition.\<close>

definition cached_mode :: "compiled_rule \<Rightarrow> string" where
  "cached_mode c = (case r_condition (cr_rule c) of None \<Rightarrow> '''' | Some k \<Rightarrow> condition_mode k)"

definition cache_scheduled :: "rule_cache \<Rightarrow> compiled_rule list" where
  "cache_scheduled m = filter (\<lambda>c. r_enabled (cr_rule c) \<and> cached_mode c = mode_scheduled) m"

section \<open>Datasources\<close>

type_synonym datasources = "string \<Rightarrow> (string \<Rightarrow> int result) option"

definition ds_register :: "string \<Rightarrow> (string \<Rightarrow> int result) \<Rightarrow> datasources \<Rightarrow> datasources" where
  "ds_register name db dbs = dbs(name \<mapsto> db)"

definition count_rows :: "golib \<Rightarrow> datasources \<Rightarrow> string \<Rightarrow> string \<Rightarrow> int result" where
  "count_rows lib dbs ds query = (case dbs ds of
       None \<Rightarrow> Inl (ErrNew (''sqlquery: datasource '' @ lib_quote lib ds @ '' not registered''))
     | Some db \<Rightarrow> db query)"

section \<open>Push evaluator\<close>

record eval_record =
  er_input_ref :: string
  er_when :: time
  er_record :: "grecord option"

definition push_rule ::
  "golib \<Rightarrow> 's dispatcher \<Rightarrow> (string \<Rightarrow> time) \<Rightarrow> eval_record \<Rightarrow> compiled_rule \<Rightarrow> ('s world, unit) op" where
  "push_rule lib d clk rec c =
     (if cached_mode c \<noteq> mode_push then op_return ()
      else (case cr_compiled c of
              None \<Rightarrow> op_return ()
            | Some k \<Rightarrow>
                (case eval_compiled lib k \<lparr>cx_now = er_when rec, cx_helpers = None\<rparr> (er_record rec) of
                   Inl e \<Rightarrow> op_return ()
                 | Inr (triggered, val) \<Rightarrow>
                     op_logged (tick d (cr_rule c) triggered val (clk (cr_id c))))))"

definition push_step ::
  "golib \<Rightarrow> 's dispatcher \<Rightarrow> (string \<Rightarrow> time) \<Rightarrow> time \<Rightarrow> rule_cache \<Rightarrow> eval_record
   \<Rightarrow> window_buffers \<times> 's world \<Rightarrow> window_buffers \<times> 's world" where
  "push_step lib d clk now m rec bw =
     (observe (er_input_ref rec) (case er_record rec of None \<Rightarrow> [] | Some r \<Rightarrow> r) (er_when rec) now (fst bw),
      snd (op_for (push_rule lib d clk rec) (cache_by_input (er_input_ref rec) m) (snd bw)))"

section \<open>Scheduled evaluator\<close>

definition scheduled_outcome ::
  "golib \<Rightarrow> datasources \<Rightarrow> window_buffers \<Rightarrow> time \<Rightarrow> compiled_rule \<Rightarrow> (bool \<times> string) result" where
  "scheduled_outcome lib dbs w now c =
     (case cr_compiled c of
        None \<Rightarrow> Inl (ErrPanic ''nil pointer dereference'')
      | Some k \<Rightarrow>
          (case sql_spec k of
             Some (ds, query, min_rows) \<Rightarrow>
               res_map (\<lambda>n. (min_rows \<le> n,
                   ''rows='' @ show_int n @ '' (>='' @ show_int min_rows @ ''?)''))
                 (count_rows lib dbs ds query)
           | None \<Rightarrow>
               eval_compiled lib k
                 \<lparr>cx_now = now, cx_helpers = Some (bound_helpers (r_input_ref (cr_rule c)) now now w)\<rparr> None))"

text \<open>The error path of evalOne: the result of Get is used whether or not it failed.\<close>

definition record_eval_error ::
  "'s dispatcher \<Rightarrow> rule \<Rightarrow> go_error \<Rightarrow> time \<Rightarrow> ('s world, unit) op" where
  "record_eval_error d r e now w =
     (case on_store (lr_get (st_live_states (d_store d)) (r_id r)) w of (res, w1) \<Rightarrow>
        (let ls = (case res of Inr (Some ls) \<Rightarrow> ls | _ \<Rightarrow> fresh_live_state (r_id r))
         in op_logged (on_store (lr_upsert (st_live_states (d_store d))
              (ls\<lparr>ls_last_eval_at := now, ls_last_error := err_text e\<rparr>))) w1))"

definition eval_one ::
  "golib \<Rightarrow> 's dispatcher \<Rightarrow> datasources \<Rightarrow> (string \<Rightarrow> time) \<Rightarrow> window_buffers \<Rightarrow> time \<Rightarrow> compiled_rule
   \<Rightarrow> ('s world, unit) op" where
  "eval_one lib d dbs clk w now c =
     (case scheduled_outcome lib dbs w now c of
        Inl e \<Rightarrow> record_eval_error d (cr_rule c) e now
      | Inr (triggered, val) \<Rightarrow>
          op_logged (tick d (cr_rule c) triggered val (clk (cr_id c))))"

text \<open>\<open>prev\<close> gives the zero time for rules not evaluated yet.\<close>

definition rule_due :: "(string \<Rightarrow> time) \<Rightarrow> time \<Rightarrow> compiled_rule \<Rightarrow> bool" where
  "rule_due prev now c \<longleftrightarrow>
     \<not> (prev (cr_id c) \<noteq> zero_time \<and> time_sub now (prev (cr_id c)) < r_schedule (cr_rule c))"

fun scheduled_loop ::
  "golib \<Rightarrow> 's dispatcher \<Rightarrow> datasources \<Rightarrow> (string \<Rightarrow> time) \<Rightarrow> window_buffers \<Rightarrow> time
   \<Rightarrow> compiled_rule list \<Rightarrow> (string \<Rightarrow> time) \<times> 's world \<Rightarrow> (string \<Rightarrow> time) \<times> 's world" where
  "scheduled_loop lib d dbs clk w now [] lw = lw"
| "scheduled_loop lib d dbs clk w now (c # cs) (prev, wd) =
     (if rule_due prev now c
      then scheduled_loop lib d dbs clk w now cs
             (prev(cr_id c := now), snd (eval_one lib d dbs clk w now c wd))
      else scheduled_loop lib d dbs clk w now cs (prev, wd))"

definition scheduled_step ::
  "golib \<Rightarrow> 's dispatcher \<Rightarrow> datasources \<Rightarrow> (string \<Rightarrow> time) \<Rightarrow> window_buffers \<Rightarrow> rule_cache \<Rightarrow> time
   \<Rightarrow> (string \<Rightarrow> time) \<times> 's world \<Rightarrow> (string \<Rightarrow> time) \<times> 's world" where
  "scheduled_step lib d dbs clk w m now lw =
     scheduled_loop lib d dbs clk w now (cache_scheduled m) lw"

section \<open>Cache facts\<close>

lemma cache_get_set: "cache_get i (cache_set c m) = (if i = cr_id c then Some c else cache_get i m)"
  by (simp add: cache_get_def cache_set_def tbl_find_upsert)

lemma cache_get_delete: "cache_get i (cache_delete j m) = (if i = j then None else cache_get i m)"
  using tbl_find_filter_key [of cr_id i "\<lambda>k. k \<noteq> j" m] by (auto simp: cache_get_def cache_delete_def)

end
