(* ===== verification/Db_Inv.thy ===== *)
theory Db_Inv
  imports Retention Evaluator
begin

text \<open>
  The integrity of the SQLite tables: primary keys and unique columns have no duplicates,
  every subscription has its subscriber, resolution times are not negative. Every method of
  the driver keeps it, with or without failing calls, and so does every tick.
\<close>

section \<open>Integrity\<close>

definition db_wf :: "db \<Rightarrow> bool" where
  "db_wf d \<longleftrightarrow> tbl_unique rw_id (t_rules d) \<and> tbl_unique br_id (t_subscribers d) \<and>
     tbl_unique ur_id (t_subscriptions d) \<and> tbl_unique ir_id (t_incidents d) \<and>
     tbl_unique nw_id (t_notifications d) \<and> tbl_unique lw_rule_id (t_live d) \<and>
     tbl_unique sub_state_key (t_sub_states d) \<and> tbl_unique kw_id (t_tokens d) \<and>
     tbl_unique kw_token_hash (t_tokens d) \<and>
     (\<forall>row \<in> set (t_subscriptions d). ur_subscriber_id row \<in> br_id ` set (t_subscribers d)) \<and>
     (\<forall>row \<in> set (t_incidents d). \<forall>ms. ir_resolved_at row = Some ms \<longrightarrow> 0 \<le> ms)"

definition op_keeps :: "('s \<Rightarrow> bool) \<Rightarrow> ('s, 'a) op \<Rightarrow> bool" where
  "op_keeps P m \<longleftrightarrow> (\<forall>s. P s \<longrightarrow> P (snd (m s)))"

lemma op_keepsD: "op_keeps P m \<Longrightarrow> P s \<Longrightarrow> m s = (r, s') \<Longrightarrow> P s'"
  by (metis op_keeps_def snd_conv)

lemma op_keeps_return [simp]: "op_keeps P (op_return x)"
  by (simp add: op_keeps_def)

lemma op_keeps_fail [simp]: "op_keeps P (op_fail e)"
  by (simp add: op_keeps_def)

lemma op_keeps_bind: "op_keeps P m \<Longrightarrow> (\<And>x. op_keeps P (f x)) \<Longrightarrow> op_keeps P (op_bind m f)"
  by (auto simp: op_keeps_def op_bind_def split: prod.splits sum.splits)

lemma op_keeps_wrap: "op_keeps P m \<Longrightarrow> op_keeps P (op_wrap p m)"
  by (auto simp: op_keeps_def op_wrap_def split: prod.splits)

lemma op_keeps_logged: "op_keeps P m \<Longrightarrow> op_keeps P (op_logged m)"
  by (auto simp: op_keeps_def op_logged_def)

lemma op_keeps_for: "(\<And>x. x \<in> set xs \<Longrightarrow> op_keeps P (f x)) \<Longrightarrow> op_keeps P (op_for f xs)"
  by (induction xs) (auto intro: op_keeps_bind)

lemmas op_keeps_intros = op_keeps_bind op_keeps_wrap op_keeps_logged op_keeps_for

definition faultless :: "(db \<Rightarrow> bool) \<Rightarrow> bool" where
  "faultless P \<longleftrightarrow> (\<forall>d d'. same_tables d d' \<longrightarrow> P d = P d')"

lemma db_wf_same: "same_tables d d' \<Longrightarrow> db_wf d' = db_wf d"
  by (simp add: db_wf_def same_tablesD)

lemma faultless_wf [simp]: "faultless db_wf"
  by (simp add: faultless_def db_wf_same)

lemma query_keeps: "faultless P \<Longrightarrow> op_keeps P (db_query f)"
  unfolding op_keeps_def faultless_def by (metis db_query_tables prod.collapse)

lemma exec_keeps:
  assumes "faultless P" and "\<And>d d'. P d \<Longrightarrow> f d = Inr d' \<Longrightarrow> P d'"
  shows "op_keeps P (db_exec f)"
  unfolding op_keeps_def
proof (intro allI impI)
  fix d assume d: "P d"
  obtain r d' where run: "db_exec f d = (r, d')" by (cases "db_exec f d")
  then have "P d'"
  proof (cases rule: db_exec_cases)
    case (1 e)
    then show ?thesis using assms(1) d by (auto simp: faultless_def)
  next
    case (2 fs)
    have "P (d\<lparr>db_faults := fs\<rparr>)" using assms(1) d by (metis faultless_def same_tables_faults)
    then show ?thesis using assms(2) 2(2) by blast
  qed
  then show "P (snd (db_exec f d))" using run by simp
qed

section \<open>The methods of the driver\<close>

lemma unique_insert: "tbl_unique key rows \<Longrightarrow> key r \<notin> key ` set rows \<Longrightarrow> tbl_unique key (rows @ [r])"
  by (simp add: tbl_unique_def)

lemma key_set_update: "(\<And>r. key (f r) = key r) \<Longrightarrow> key ` set (tbl_update p f rows) = key ` set rows"
  by (induction rows) (auto simp: tbl_update_def)

lemma keys_without: "key ` {x \<in> S. key x \<noteq> i} = key ` S - {i}"
  by auto

lemma lite_rule_keeps:
  "op_keeps db_wf (lite_rule_create lib now x)" "op_keeps db_wf (lite_rule_update lib now x)"
  "op_keeps db_wf (lite_rule_delete i)" "op_keeps db_wf (lite_rule_get lib i)"
  "op_keeps db_wf (lite_rule_list lib)" "op_keeps db_wf (lite_rule_list_by_input lib ref)"
  by (auto simp: lite_rule_create_def lite_rule_update_def lite_rule_delete_def lite_rule_get_def
      lite_rule_list_def lite_rule_list_by_input_def Let_def db_wf_def res_map_def res_bind_Inr_iff
      sql_insert_Inr_iff unique_insert tbl_unique_filter split: sum.splits
      intro!: op_keeps_intros query_keeps exec_keeps tbl_unique_update)

lemma lite_subscriber_keeps:
  "op_keeps db_wf (lite_subscriber_create lib now s)" "op_keeps db_wf (lite_subscriber_get i)"
  "op_keeps db_wf lite_subscriber_list"
  by (auto simp: lite_subscriber_create_def lite_subscriber_get_def lite_subscriber_list_def
      Let_def db_wf_def res_map_def res_bind_Inr_iff sql_insert_Inr_iff unique_insert
      intro!: op_keeps_intros query_keeps exec_keeps)

lemma lite_subscriber_update_keeps: "op_keeps db_wf (lite_subscriber_update lib now s)"
  unfolding lite_subscriber_update_def Let_def
  by (intro op_keeps_intros exec_keeps faultless_wf op_keeps_return)
    (auto simp: db_wf_def key_set_update intro!: tbl_unique_update)

lemma lite_subscriber_delete_keeps: "op_keeps db_wf (lite_subscriber_delete i)"
  unfolding lite_subscriber_delete_def
  by (intro exec_keeps faultless_wf) (auto simp: db_wf_def tbl_unique_filter keys_without)

lemma lite_subscription_create_keeps: "op_keeps db_wf (lite_subscription_create lib now s)"
  unfolding lite_subscription_create_def Let_def
  by (intro op_keeps_intros exec_keeps faultless_wf op_keeps_return)
    (auto simp: db_wf_def res_bind_Inr_iff sql_insert_Inr_iff subscription_to_row_def unique_insert
      split: if_splits)

lemma lite_subscription_update_keeps: "op_keeps db_wf (lite_subscription_update lib now s)"
  unfolding lite_subscription_update_def Let_def
proof (intro op_keeps_bind exec_keeps faultless_wf op_keeps_return, goal_cases)
  case (1 d d')
  let ?f = "\<lambda>row. (subscription_to_row lib (s\<lparr>su_updated_at := now\<rparr>))\<lparr>ur_id := ur_id row, ur_created_at := ur_created_at row\<rparr>"
  have d': "d' = d\<lparr>t_subscriptions := tbl_update (\<lambda>row. ur_id row = su_id s) ?f (t_subscriptions d)\<rparr>"
    and fk: "su_id s \<in> ur_id ` set (t_subscriptions d) \<Longrightarrow> su_subscriber_id s \<in> br_id ` set (t_subscribers d)"
    using 1(2) by (auto split: if_splits)
  have "tbl_unique ur_id (t_subscriptions d')"
    using 1(1) by (auto simp: d' db_wf_def intro!: tbl_unique_update)
  moreover have "ur_subscriber_id row \<in> br_id ` set (t_subscribers d')" if "row \<in> set (t_subscriptions d')" for row
  proof -
    have "row \<in> (\<lambda>row. if ur_id row = su_id s then ?f row else row) ` set (t_subscriptions d)"
      using that unfolding d' by (simp add: set_tbl_update)
    then obtain old where old: "old \<in> set (t_subscriptions d)"
      "row = (if ur_id old = su_id s then ?f old else old)" by blast
    show ?thesis
    proof (cases "ur_id old = su_id s")
      case True
      then have "su_id s \<in> ur_id ` set (t_subscriptions d)" using old(1) by force
      then show ?thesis using fk True old(2) by (simp add: d' subscription_to_row_def)
    next
      case False
      then show ?thesis using old 1(1) by (auto simp: d' db_wf_def)
    qed
  qed
  ultimately show ?case using 1(1) by (simp add: db_wf_def d')
qed

lemma lite_subscription_keeps:
  "op_keeps db_wf (lite_subscription_delete i)" "op_keeps db_wf (lite_subscription_get i)"
  "op_keeps db_wf lite_subscription_list" "op_keeps db_wf (lite_subscription_list_for_rule rid labels)"
  by (auto simp: lite_subscription_delete_def lite_subscription_get_def lite_subscription_list_def
      lite_subscription_list_for_rule_def db_wf_def tbl_unique_filter
      intro!: op_keeps_intros query_keeps exec_keeps)

lemma lite_incident_keeps:
  "op_keeps db_wf (lite_incident_open i)" "0 \<le> ms \<Longrightarrow> op_keeps db_wf (lite_incident_resolve j ms)"
  "op_keeps db_wf (lite_incident_get j)" "op_keeps db_wf (lite_incident_list n)"
  "op_keeps db_wf (lite_incident_list_for_rule j n)"
  "op_keeps db_wf (lite_incident_list_resolved_before t)"
  by (auto simp: lite_incident_open_def lite_incident_resolve_def lite_incident_get_def
      lite_incident_list_def lite_incident_list_for_rule_def lite_incident_list_resolved_before_def
      db_wf_def res_map_def res_bind_Inr_iff sql_insert_Inr_iff unique_insert set_tbl_update
      intro!: query_keeps exec_keeps tbl_unique_update)

lemma lite_incident_delete_keeps: "op_keeps db_wf (lite_incident_delete_resolved_before t)"
  unfolding op_keeps_def
proof (intro allI impI)
  fix d assume d: "db_wf d"
  obtain r d' where run: "lite_incident_delete_resolved_before t d = (r, d')"
    by (cases "lite_incident_delete_resolved_before t d")
  have "db_wf (pruned t d)" using d by (auto simp: db_wf_def pruned_def tbl_unique_filter)
  then have "db_wf d'" using delete_resolved_before_effect [OF run] d db_wf_same
    by (auto split: sum.splits)
  then show "db_wf (snd (lite_incident_delete_resolved_before t d))" using run by simp
qed

lemma lite_notification_keeps:
  "op_keeps db_wf (lite_notification_record n)" "op_keeps db_wf (lite_notification_list_for_incident i)"
  "op_keeps db_wf (lite_notification_list k)" "op_keeps db_wf (lite_notification_exists_for_subscription i)"
  by (auto simp: lite_notification_record_def lite_notification_list_for_incident_def
      lite_notification_list_def lite_notification_exists_for_subscription_def
      db_wf_def res_map_def res_bind_Inr_iff sql_insert_Inr_iff unique_insert
      intro!: query_keeps exec_keeps)

lemma lite_live_keeps:
  "op_keeps db_wf (lite_live_get i)" "op_keeps db_wf (lite_live_upsert s)" "op_keeps db_wf lite_live_list"
  by (auto simp: lite_live_get_def lite_live_upsert_def lite_live_list_def db_wf_def tbl_unique_upsert
      intro!: query_keeps exec_keeps)

lemma lite_sub_state_keeps:
  "op_keeps db_wf (lite_sub_state_get i j)" "op_keeps db_wf (lite_sub_state_upsert s)"
  "op_keeps db_wf (lite_sub_state_list_for_incident i)"
  by (auto simp: lite_sub_state_get_def lite_sub_state_upsert_def lite_sub_state_list_for_incident_def
      db_wf_def tbl_unique_upsert intro!: query_keeps exec_keeps)

lemma lite_token_keeps:
  "op_keeps db_wf (lite_token_create lib now t)" "op_keeps db_wf (lite_token_get_by_hash h)"
  "op_keeps db_wf (lite_token_get i)" "op_keeps db_wf lite_token_list" "op_keeps db_wf (lite_token_revoke i)"
  "op_keeps db_wf (lite_token_touch_last_used i ms)" "op_keeps db_wf (lite_token_delete i)"
  by (auto simp: lite_token_create_def lite_token_get_by_hash_def lite_token_get_def lite_token_list_def
      lite_token_revoke_def lite_token_touch_last_used_def lite_token_delete_def Let_def
      db_wf_def res_bind_Inr_iff sql_insert_Inr_iff unique_insert tbl_unique_filter
      intro!: op_keeps_intros query_keeps exec_keeps tbl_unique_update)

section \<open>Ticks\<close>

text \<open>A property of the store that every call a dispatcher makes keeps; a resolution time is not negative.\<close>

locale store_keeps =
  fixes st :: "'s store" and P :: "'s \<Rightarrow> bool"
  assumes live_get: "op_keeps P (lr_get (st_live_states st) rid)"
    and live_upsert: "op_keeps P (lr_upsert (st_live_states st) x)"
    and inc_open: "op_keeps P (inr_open (st_incidents st) i)"
    and inc_resolve: "0 \<le> ms \<Longrightarrow> op_keeps P (inr_resolve (st_incidents st) iid ms)"
    and list_for_rule: "op_keeps P (sur_list_for_rule (st_subscriptions st) rid labels)"
    and sub_state_get: "op_keeps P (ssr_get (st_sub_states st) iid sid)"
    and sub_state_upsert: "op_keeps P (ssr_upsert (st_sub_states st) y)"
    and notif_exists: "op_keeps P (nr_exists_for_subscription (st_notifications st) sid)"
    and notif_record: "op_keeps P (nr_record (st_notifications st) n)"
    and subscriber_get: "op_keeps P (sbr_get (st_subscribers st) sb)"

lemma on_store_keeps: "op_keeps P m \<Longrightarrow> op_keeps (\<lambda>w. P (w_store w)) (on_store m)"
  by (auto simp: op_keeps_def on_store_def split: prod.splits)

lemma fresh_id_keeps: "op_keeps (\<lambda>w. P (w_store w)) (fresh_id d)"
  by (simp add: op_keeps_def fresh_id_def)

lemma do_send_keeps: "op_keeps (\<lambda>w. P (w_store w)) (do_send ch send n)"
  by (simp add: op_keeps_def do_send_def Let_def)

context store_keeps
begin

lemmas call_keeps =
  live_get live_upsert inc_open list_for_rule sub_state_get sub_state_upsert notif_exists
  notif_record subscriber_get

lemma deliver_keeps:
  assumes "d_store d = st"
  shows "op_keeps (\<lambda>w. P (w_store w)) (deliver d r sub inc kind val now)"
  by (auto simp: assms deliver_def deliver_all_def deliver_binding_def split: option.splits
      intro!: op_keeps_intros on_store_keeps call_keeps fresh_id_keeps do_send_keeps)

lemma evaluate_keeps:
  assumes "d_store d = st"
  shows "op_keeps (\<lambda>w. P (w_store w)) (evaluate_subscription d r ls sub t now)"
  by (auto simp: assms evaluate_subscription_def put_state_def Let_def split: option.splits
      intro!: op_keeps_intros on_store_keeps call_keeps deliver_keeps [OF assms])

lemma tick_keeps:
  assumes "d_store d = st" and "0 \<le> now"
  shows "op_keeps (\<lambda>w. P (w_store w)) (tick d r triggered val now)"
proof -
  have "0 \<le> unix_milli now"
    using assms(2) by (simp add: unix_milli_def pos_imp_zdiv_nonneg_iff)
  then have "op_keeps (\<lambda>w. P (w_store w)) (open_or_close d r t val now)" for t
    by (auto simp: assms(1) open_or_close_def intro!: op_keeps_intros on_store_keeps call_keeps inc_resolve)
  then show ?thesis
    by (auto simp: assms(1) tick_def Let_def
        intro!: op_keeps_intros on_store_keeps call_keeps evaluate_keeps [OF assms(1)] fresh_id_keeps)
qed

lemma record_error_keeps:
  assumes "d_store d = st"
  shows "op_keeps (\<lambda>w. P (w_store w)) (record_eval_error d r e now)"
  unfolding op_keeps_def
proof (intro allI impI)
  fix w :: "'s world" assume w: "P (w_store w)"
  obtain res w1 where get: "on_store (lr_get (st_live_states st) (r_id r)) w = (res, w1)"
    by (cases "on_store (lr_get (st_live_states st) (r_id r)) w")
  have "P (w_store w1)"
    using op_keepsD [OF on_store_keeps [OF live_get]] w get by blast
  then show "P (w_store (snd (record_eval_error d r e now w)))"
    using op_keeps_logged [OF on_store_keeps [OF live_upsert]]
    by (simp add: record_eval_error_def assms get Let_def op_keeps_def)
qed

end

interpretation lite_wf: store_keeps "sqlite_store lib" db_wf
  by unfold_locales
    (simp_all add: lite_live_keeps lite_incident_keeps lite_subscription_keeps lite_sub_state_keeps
      lite_notification_keeps lite_subscriber_keeps)

end
