(* ===== verification/Engine.thy ===== *)
theory Engine
  imports Evaluator
begin

text \<open>
  engine/engine.go and internal/input/event: construction, start, close and submission, and
  the rule API that keeps the cache of compiled rules in step with the store. The operations
  work on the pair of store state and cache; the goroutines Start launches are the steps of
  Evaluator. Channels of Go are lists with a capacity; a call that would block gives None.
\<close>

section \<open>Construction and life cycle\<close>

record engine_opts =
  eo_has_store :: bool
  eo_max_window_span :: duration

record engine_state =
  eg_max_span :: duration
  eg_started :: bool
  eg_sink :: "eval_record list option"

definition sink_capacity :: nat where
  "sink_capacity = 256"

definition engine_new :: "engine_opts \<Rightarrow> engine_state result" where
  "engine_new o1 =
     (if \<not> eo_has_store o1 then Inl (ErrNew ''engine: Store is required'')
      else Inr \<lparr>eg_max_span = (if eo_max_window_span o1 \<le> 0 then 24 * hour else eo_max_window_span o1),
                eg_started = False, eg_sink = None\<rparr>)"

section \<open>Compilation into the cache\<close>

definition compile_and_cache :: "golib \<Rightarrow> rule \<Rightarrow> ('s \<times> rule_cache, unit) op" where
  "compile_and_cache lib r sm =
     (case r_condition r of
        None \<Rightarrow> (Inl (ErrPanic ''nil pointer dereference''), sm)
      | Some c \<Rightarrow>
          (case compile_condition lib c of
             Inl e \<Rightarrow> (Inl e, sm)
           | Inr k \<Rightarrow> (Inr (), (fst sm, cache_set \<lparr>cr_rule = r, cr_compiled = Some k\<rparr> (snd sm)))))"

definition on_rules :: "('s, 'a) op \<Rightarrow> ('s \<times> rule_cache, 'a) op" where
  "on_rules m sm = (case m (fst sm) of (r, s') \<Rightarrow> (r, (s', snd sm)))"

definition reload_all :: "golib \<Rightarrow> 's store \<Rightarrow> ('s \<times> rule_cache, unit) op" where
  "reload_all lib st =
     op_bind (on_rules (rr_list (st_rules st))) (\<lambda>rules.
       op_for (\<lambda>r. if \<not> r_enabled r then op_return ()
                   else op_logged (compile_and_cache lib r)) rules)"

definition engine_start ::
  "golib \<Rightarrow> 's store \<Rightarrow> ('s, unit) op \<Rightarrow> (engine_state \<times> 's \<times> rule_cache, unit) op" where
  "engine_start lib st migrate es =
     (case es of (e, sm) \<Rightarrow>
        if eg_started e then (Inl (ErrNew ''engine: already started''), es)
        else (case op_bind (op_wrap ''engine: migrate'' (on_rules migrate)) (\<lambda>_. reload_all lib st) sm of
                (Inl err, sm') \<Rightarrow> (Inl err, (e, sm'))
              | (Inr _, sm') \<Rightarrow> (Inr (), (e\<lparr>eg_started := True, eg_sink := Some []\<rparr>, sm'))))"

definition engine_close :: "engine_state \<Rightarrow> engine_state" where
  "engine_close e = (if \<not> eg_started e then e else e\<lparr>eg_started := False\<rparr>)"

section \<open>Rule API\<close>

definition api_rule_create :: "golib \<Rightarrow> 's store \<Rightarrow> time \<Rightarrow> rule \<Rightarrow> ('s \<times> rule_cache, rule) op" where
  "api_rule_create lib st now r =
     (case rule_validate r of
        Inl e \<Rightarrow> op_fail e
      | Inr _ \<Rightarrow> op_bind (on_rules (rr_create (st_rules st) now r)) (\<lambda>r'.
          if r_enabled r' then op_bind (compile_and_cache lib r') (\<lambda>_. op_return r')
          else op_return r'))"

definition api_rule_update :: "golib \<Rightarrow> 's store \<Rightarrow> time \<Rightarrow> rule \<Rightarrow> ('s \<times> rule_cache, rule) op" where
  "api_rule_update lib st now r =
     (case rule_validate r of
        Inl e \<Rightarrow> op_fail e
      | Inr _ \<Rightarrow> op_bind (on_rules (rr_update (st_rules st) now r)) (\<lambda>r'.
          if r_enabled r' then op_bind (compile_and_cache lib r') (\<lambda>_. op_return r')
          else (\<lambda>(s, m). (Inr r', (s, cache_delete (r_id r') m)))))"

definition api_rule_delete :: "'s store \<Rightarrow> string \<Rightarrow> ('s \<times> rule_cache, unit) op" where
  "api_rule_delete st i =
     op_bind (on_rules (rr_delete (st_rules st) i)) (\<lambda>_ (s, m). (Inr (), (s, cache_delete i m)))"

definition api_rule_get :: "'s store \<Rightarrow> string \<Rightarrow> ('s \<times> rule_cache, rule option) op" where
  "api_rule_get st i = on_rules (rr_get (st_rules st) i)"

definition api_rule_list :: "'s store \<Rightarrow> ('s \<times> rule_cache, rule list) op" where
  "api_rule_list st = on_rules (rr_list (st_rules st))"

section \<open>Submission\<close>

record event_input =
  ev_name :: string
  ev_sink :: "eval_record list option"

definition event_new :: "string \<Rightarrow> event_input" where
  "event_new name = \<lparr>ev_name = (if name = '''' then ''events'' else name), ev_sink = None\<rparr>"

text \<open>
  Start binds the sink and clears it when the context ends. Submit sends or gives up when the
  context is done; \<open>prefer_send\<close> is the choice of select when both can proceed.
\<close>

definition event_start :: "eval_record list \<Rightarrow> event_input \<Rightarrow> event_input" where
  "event_start q i = i\<lparr>ev_sink := Some q\<rparr>"

definition event_stop :: "event_input \<Rightarrow> event_input" where
  "event_stop i = i\<lparr>ev_sink := None\<rparr>"

definition event_submit ::
  "time \<Rightarrow> go_error option \<Rightarrow> bool \<Rightarrow> string \<Rightarrow> grecord option \<Rightarrow> event_input
   \<Rightarrow> (unit result \<times> event_input) option" where
  "event_submit now done prefer_send ref r i =
     (case ev_sink i of
        None \<Rightarrow> Some (Inl (ErrNew ''event input: not started''), i)
      | Some q \<Rightarrow>
          (let rec = \<lparr>er_input_ref = (if ref = '''' then ev_name i else ref), er_when = now, er_record = r\<rparr>;
               sent = (Inr (), i\<lparr>ev_sink := Some (q @ [rec])\<rparr>)
           in case done of
                None \<Rightarrow> (if length q < sink_capacity then Some sent else None)
              | Some e \<Rightarrow>
                  if length q < sink_capacity \<and> prefer_send then Some sent else Some (Inl e, i)))"

definition engine_submit ::
  "time \<Rightarrow> go_error option \<Rightarrow> bool \<Rightarrow> string \<Rightarrow> grecord option \<Rightarrow> event_input option
   \<Rightarrow> (unit result \<times> event_input option) option" where
  "engine_submit now done prefer_send ref r ei =
     (case ei of
        None \<Rightarrow> Some (Inl (ErrNew ''engine: no EventInput configured''), None)
      | Some i \<Rightarrow> map_option (\<lambda>(res, i'). (res, Some i')) (event_submit now done prefer_send ref r i))"

end
