(* ===== verification/System.thy ===== *)
theory System
  imports Db_Inv Incident_Inv Engine
begin

text \<open>
  The running system on the SQLite driver as a step relation: records reach the push
  evaluator, the timer fires, the pruner runs, rules are changed through the engine's rule
  API, other rows through their repositories, and the process restarts. Ticks of the two
  evaluators are taken one after another; they never work on the same rule, whose condition
  has one mode.
\<close>

section \<open>Invariants of the evaluators\<close>

text \<open>A property of worlds that ticks and recorded errors keep is kept by both evaluators.\<close>

definition tick_stable :: "'s dispatcher \<Rightarrow> ('s world \<Rightarrow> bool) \<Rightarrow> bool" where
  "tick_stable d I \<longleftrightarrow>
     (\<forall>r trig val now w. r_id r \<noteq> [] \<longrightarrow> 0 \<le> now \<longrightarrow> I w \<longrightarrow> I (snd (tick d r trig val now w)))"

definition error_stable :: "'s dispatcher \<Rightarrow> ('s world \<Rightarrow> bool) \<Rightarrow> bool" where
  "error_stable d I \<longleftrightarrow>
     (\<forall>r e now w. r_id r \<noteq> [] \<longrightarrow> I w \<longrightarrow> I (snd (record_eval_error d r e now w)))"

definition cache_ids :: "rule_cache \<Rightarrow> bool" where
  "cache_ids m \<longleftrightarrow> (\<forall>c \<in> set m. cr_id c \<noteq> [])"

lemma op_for_snd_inv:
  "I w \<Longrightarrow> (\<And>x w. x \<in> set xs \<Longrightarrow> I w \<Longrightarrow> I (snd (f x w))) \<Longrightarrow> I (snd (op_for f xs w))"
proof (induction xs arbitrary: w)
  case Nil
  then show ?case by simp
next
  case (Cons x xs)
  obtain r w1 where w1: "f x w = (r, w1)" by (cases "f x w")
  then have i1: "I w1" using Cons.prems(2) [of x w] Cons.prems(1) by simp
  show ?case
  proof (cases r)
    case (Inl e)
    then show ?thesis using w1 i1 by (simp add: op_bind_def)
  next
    case (Inr u)
    then show ?thesis using w1 Cons.IH [OF i1] Cons.prems(2) by (simp add: op_bind_def)
  qed
qed

lemma push_step_inv:
  assumes "tick_stable d I" and "cache_ids m" and "\<And>rid. 0 \<le> clk rid" and "I (snd bw)"
  shows "I (snd (push_step lib d clk now m rec bw))"
  unfolding push_step_def snd_conv
proof (rule op_for_snd_inv)
  fix c w assume c: "c \<in> set (cache_by_input (er_input_ref rec) m)" and w: "I w"
  then have "r_id (cr_rule c) \<noteq> []"
    using assms(2) by (auto simp: cache_ids_def cache_by_input_def cr_id_def)
  then show "I (snd (push_rule lib d clk rec c w))"
    using assms(1,3) w
    by (auto simp: push_rule_def tick_stable_def op_logged_def split: option.splits sum.splits)
qed (rule assms(4))

lemma eval_one_inv:
  assumes "tick_stable d I" and "error_stable d I" and "cr_id c \<noteq> []" and "\<And>rid. 0 \<le> clk rid" and "I w"
  shows "I (snd (eval_one lib d dbs clk wb now c w))"
proof (cases "scheduled_outcome lib dbs wb now c")
  case (Inl e)
  have "I (snd (record_eval_error d (cr_rule c) e now w))"
    using assms(2,3,5) unfolding error_stable_def cr_id_def by blast
  with Inl show ?thesis by (simp add: eval_one_def)
next
  case (Inr tv)
  have "I (snd (tick d (cr_rule c) (fst tv) (snd tv) (clk (cr_id c)) w))"
    using assms(1,3,4,5) unfolding tick_stable_def cr_id_def by blast
  with Inr show ?thesis by (cases tv) (simp add: eval_one_def op_logged_def)
qed

lemma scheduled_loop_inv:
  assumes "tick_stable d I" and "error_stable d I" and "\<And>rid. 0 \<le> clk rid"
    and "\<forall>c \<in> set cs. cr_id c \<noteq> []" and "I (snd lw)"
  shows "I (snd (scheduled_loop lib d dbs clk wb now cs lw))"
  using assms(4,5)
proof (induction cs arbitrary: lw)
  case Nil
  then show ?case by simp
next
  case (Cons c cs)
  obtain prev w where lw: "lw = (prev, w)" by (cases lw)
  have "I (snd (eval_one lib d dbs clk wb now c w))"
    using Cons.prems lw by (intro eval_one_inv [OF assms(1,2) _ assms(3)]) simp_all
  then show ?case using Cons.prems Cons.IH lw by simp
qed

lemma scheduled_step_inv:
  assumes "tick_stable d I" and "error_stable d I" and "cache_ids m" and "\<And>rid. 0 \<le> clk rid" and "I (snd lw)"
  shows "I (snd (scheduled_step lib d dbs clk wb m now lw))"
  unfolding scheduled_step_def
proof (rule scheduled_loop_inv [OF assms(1,2,4) _ assms(5)])
  show "\<forall>c \<in> set (cache_scheduled m). cr_id c \<noteq> []"
    using assms(3) by (simp add: cache_ids_def cache_scheduled_def)
qed

section \<open>Recorded evaluation errors\<close>

lemma fault_inv_put_live:
  assumes inv: "fault_inv view d w" and "good_ids d"
    and "view (w_store w') = put_live ls (view (w_store w))" and "w_ids w' = w_ids w" and "w_sent w' = w_sent w"
    and "live_wf ls"
    and "ls_incident_id ls = [] \<or> ls_incident_id ls = ls_incident_id (live_of (view (w_store w)) (ls_rule_id ls))"
  shows "fault_inv view d w'"
proof -
  have co: "closed_out w' = closed_out w" using assms(5) by (simp add: closed_out_def sent_messages_def)
  have "closed_out w \<subseteq> d_id d ` {..<w_ids w}" using inv by (simp add: fault_inv_def Let_def)
  then have ne: "[] \<notin> closed_out w" using assms(2) by (metis good_ids_def image_iff subsetD)
  have live: "live_of (view (w_store w')) rid =
      (if rid = ls_rule_id ls then norm_live ls else live_of (view (w_store w)) rid)" for rid
    by (simp add: assms(3) live_of_def put_live_def)
  show ?thesis
    by (rule fault_inv_live [OF inv assms(2) _ live, where i = "[]"])
      (use assms(4,6,7) co ne in \<open>auto intro: live_wf_norm\<close>)
qed

lemma sys_inv_put_live:
  assumes "sys_inv v" and "ls_rule_id ls = rid" and "live_wf ls"
    and "ls_state ls = ls_state (live_of v rid)" and "ls_incident_id ls = ls_incident_id (live_of v rid)"
  shows "sys_inv (put_live ls v)"
proof -
  have live: "live_of (put_live ls v) r = (if r = rid then norm_live ls else live_of v r)" for r
    using assms(2) by (simp add: live_of_def put_live_def)
  have "keyed (put_live ls v) = keyed v" by (simp add: keyed_def put_live_def)
  then show ?thesis
    using assms by (simp add: sys_inv_def live_keyed_def live live_wf_norm)
qed

lemma live_wf_errors:
  "live_wf ls \<Longrightarrow> live_wf (ls\<lparr>ls_last_eval_at := now, ls_last_error := e\<rparr>)"
  by (simp add: live_wf_def)

context dispatch_store
begin

lemma record_error_fault_inv:
  assumes "d_store d = st" and "good_ids d" and inv: "fault_inv view d w"
  shows "fault_inv view d (snd (record_eval_error d r e now w)) \<and>
    w_sent (snd (record_eval_error d r e now w)) = w_sent w"
proof -
  obtain res w1 where get: "on_store (lr_get (st_live_states st) (r_id r)) w = (res, w1)"
    by (cases "on_store (lr_get (st_live_states st) (r_id r)) w")
  have "op_wp (on_store (lr_get (st_live_states st) (r_id r)))
      (\<lambda>res w1. unobserved view w w1 \<and> (\<forall>x. res = Inr x \<longrightarrow> x = v_live (view (w_store w)) (r_id r))) w"
    by (rule on_store_reads [OF live_get]) auto
  then have w1: "unobserved view w w1"
    and res: "\<And>x. res = Inr x \<Longrightarrow> x = v_live (view (w_store w)) (r_id r)"
    using get by (auto dest: op_wpD)
  define ls where "ls = (case res of Inr (Some ls) \<Rightarrow> ls | _ \<Rightarrow> fresh_live_state (r_id r))"
  let ?ls = "ls\<lparr>ls_last_eval_at := now, ls_last_error := err_text e\<rparr>"
  have lk: "live_keyed (view (w_store w))" using inv by (simp add: fault_inv_def Let_def)
  have ls: "ls = live_of (view (w_store w)) (r_id r) \<or> ls = fresh_live_state (r_id r)"
    using res by (auto simp: ls_def live_of_def split: sum.splits option.splits)
  have wf: "ls_rule_id ls = r_id r" "live_wf ls"
    using ls lk by (auto simp: live_keyed_def fresh_live_state_def live_wf_def)
  have inc: "ls_incident_id ls = [] \<or> ls_incident_id ls = ls_incident_id (live_of (view (w_store w)) (r_id r))"
    using ls by (auto simp: fresh_live_state_def)
  have inv1: "fault_inv view d w1"
    using inv w1 by (simp add: fault_inv_def unobserved_def closed_out_def sent_messages_def)
  have "op_wp (on_store (lr_upsert (st_live_states st) ?ls))
      (\<lambda>res w2. fault_inv view d w2 \<and> w_sent w2 = w_sent w1) w1"
  proof (rule on_store_writes [OF live_upsert], goal_cases)
    case (1 e w2)
    then show ?case
      using inv1 by (simp add: fault_inv_def unobserved_def closed_out_def sent_messages_def)
  next
    case (2 x w2)
    have "fault_inv view d w2"
      by (rule fault_inv_put_live [OF inv1 assms(2) 2(2-4)])
        (use wf inc w1 in \<open>auto simp: unobserved_view live_wf_errors\<close>)
    with 2 show ?case by simp
  qed
  then have "op_wp (op_logged (on_store (lr_upsert (st_live_states st) ?ls)))
      (\<lambda>res w2. fault_inv view d w2 \<and> w_sent w2 = w_sent w1) w1"
    by (simp add: op_wp_logged)
  then show ?thesis
    using w1 by (simp add: record_eval_error_def assms(1) get Let_def op_wp_def unobserved_def
        split: prod.splits flip: ls_def)
qed

end

context reliable_store
begin

lemma record_error_sys_inv:
  assumes "d_store d = st" and w: "healthy ok view d w" and inv: "sys_inv (view (w_store w))"
  shows "healthy ok view d (snd (record_eval_error d r e now w)) \<and>
    sys_inv (view (w_store (snd (record_eval_error d r e now w))))"
proof -
  let ?v = "view (w_store w)"
  obtain res w1 where get: "on_store (lr_get (st_live_states st) (r_id r)) w = (res, w1)"
    by (cases "on_store (lr_get (st_live_states st) (r_id r)) w")
  have "op_wp (on_store (lr_get (st_live_states st) (r_id r)))
      (\<lambda>res w1. unobserved view w w1 \<and> ok (w_store w1) \<and> res = Inr (v_live ?v (r_id r))) w"
    by (rule on_store_reads_ok [OF live_get live_get_ok]) (use w in \<open>auto simp: healthy_def\<close>)
  then have w1: "unobserved view w w1" "ok (w_store w1)" and res: "res = Inr (v_live ?v (r_id r))"
    using get by (auto dest: op_wpD)
  let ?ls = "(live_of ?v (r_id r))\<lparr>ls_last_eval_at := now, ls_last_error := err_text e\<rparr>"
  have ls: "(case res of Inr (Some ls) \<Rightarrow> ls | _ \<Rightarrow> fresh_live_state (r_id r)) = live_of ?v (r_id r)"
    by (simp add: res live_of_def split: option.split)
  have h1: "healthy ok view d w1" using healthy_unobserved [OF w w1] .
  have v1: "view (w_store w1) = ?v" by (rule unobserved_view [OF w1(1)])
  have lk: "live_keyed ?v" using inv by (simp add: sys_inv_def)
  have "op_wp (on_store (lr_upsert (st_live_states st) ?ls))
      (\<lambda>res w2. healthy ok view d w2 \<and> sys_inv (view (w_store w2))) w1"
  proof (rule on_store_writes_ok [OF live_upsert live_upsert_ok w1(2)], goal_cases)
    case (2 x w2)
    have "sys_inv (put_live ?ls ?v)"
      by (rule sys_inv_put_live [OF inv, where rid = "r_id r"])
        (use lk in \<open>auto simp: live_keyed_def live_wf_errors\<close>)
    moreover have "ids_ok d (w_ids w1) (put_live ?ls ?v)"
      using h1 v1 by (simp add: healthy_def ids_ok_def put_live_def)
    ultimately show ?case using 2 v1 by (simp add: healthy_def)
  qed simp
  then have "op_wp (op_logged (on_store (lr_upsert (st_live_states st) ?ls)))
      (\<lambda>res w2. healthy ok view d w2 \<and> sys_inv (view (w_store w2))) w1"
    by (simp add: op_wp_logged)
  then show ?thesis
    by (simp add: record_eval_error_def assms(1) get Let_def ls op_wp_def split: prod.splits)
qed

end

section \<open>Calls outside the dispatcher\<close>

text \<open>Tables the dispatcher observes, and the absence of pending failures.\<close>

definition core_kept :: "db \<Rightarrow> db \<Rightarrow> bool" where
  "core_kept d d' \<longleftrightarrow> t_incidents d' = t_incidents d \<and> t_notifications d' = t_notifications d \<and>
     t_live d' = t_live d \<and> t_sub_states d' = t_sub_states d \<and>
     (db_faults d = [] \<longrightarrow> db_faults d' = [])"

lemma core_kept_refl [simp]: "core_kept d d"
  by (simp add: core_kept_def)

lemma core_kept_trans: "core_kept a b \<Longrightarrow> core_kept b c \<Longrightarrow> core_kept a c"
  by (simp add: core_kept_def)

definition op_core :: "(db, 'a) op \<Rightarrow> bool" where
  "op_core m \<longleftrightarrow> (\<forall>d. core_kept d (snd (m d)))"

lemma op_coreD: "op_core m \<Longrightarrow> m d = (r, d') \<Longrightarrow> core_kept d d'"
  by (metis op_core_def snd_conv)

lemma op_core_return [simp]: "op_core (op_return x)" "op_core (op_fail e)"
  by (simp_all add: op_core_def)

lemma op_core_bind: "op_core m \<Longrightarrow> (\<And>x. op_core (f x)) \<Longrightarrow> op_core (op_bind m f)"
  unfolding op_core_def op_bind_def
  by (auto split: prod.splits sum.splits) (metis core_kept_trans snd_conv)+

lemma op_core_query: "op_core (db_query f)"
  by (auto simp: op_core_def db_query_def db_call_def core_kept_def split: list.splits option.splits)

lemma op_core_exec:
  assumes "\<And>d d'. f d = Inr d' \<Longrightarrow> core_kept d d'"
  shows "op_core (db_exec f)"
  using assms
  by (auto simp: op_core_def db_exec_def db_call_def core_kept_def split: list.splits option.splits sum.splits)

lemma lite_rule_core:
  "op_core (lite_rule_create lib now x)" "op_core (lite_rule_update lib now x)" "op_core (lite_rule_delete i)"
  "op_core (lite_rule_list lib)"
  by (auto simp: lite_rule_create_def lite_rule_update_def lite_rule_delete_def lite_rule_list_def Let_def
      res_map_def res_bind_Inr_iff core_kept_def split: sum.splits
      intro!: op_core_bind op_core_exec op_core_query)

lemma lite_admin_core:
  "op_core (lite_subscriber_create lib now s)" "op_core (lite_subscriber_update lib now s)"
  "op_core (lite_subscriber_delete i)" "op_core (lite_subscription_create lib now u)"
  "op_core (lite_subscription_update lib now u)" "op_core (lite_subscription_delete i)"
  "op_core (lite_token_create lib now t)" "op_core (lite_token_revoke i)"
  "op_core (lite_token_touch_last_used i ms)" "op_core (lite_token_delete i)"
  by (auto simp: lite_subscriber_create_def lite_subscriber_update_def lite_subscriber_delete_def
      lite_subscription_create_def lite_subscription_update_def lite_subscription_delete_def
      lite_token_create_def lite_token_revoke_def lite_token_touch_last_used_def lite_token_delete_def
      Let_def res_map_def res_bind_Inr_iff core_kept_def split: if_splits
      intro!: op_core_bind op_core_exec)

text \<open>
  The calls of the API on rows the dispatcher does not write. A query, whatever it returns,
  changes the pending failures only.
\<close>

inductive admin_call :: "golib \<Rightarrow> (db \<Rightarrow> db) \<Rightarrow> bool" for lib where
  subscriber_create: "admin_call lib (\<lambda>d. snd (lite_subscriber_create lib now s d))"
| subscriber_update: "admin_call lib (\<lambda>d. snd (lite_subscriber_update lib now s d))"
| subscriber_delete: "admin_call lib (\<lambda>d. snd (lite_subscriber_delete i d))"
| subscription_create: "admin_call lib (\<lambda>d. snd (lite_subscription_create lib now u d))"
| subscription_update: "admin_call lib (\<lambda>d. snd (lite_subscription_update lib now u d))"
| subscription_delete: "admin_call lib (\<lambda>d. snd (lite_subscription_delete i d))"
| token_create: "admin_call lib (\<lambda>d. snd (lite_token_create lib now t d))"
| token_revoke: "admin_call lib (\<lambda>d. snd (lite_token_revoke i d))"
| token_touch: "admin_call lib (\<lambda>d. snd (lite_token_touch_last_used i ms d))"
| token_delete: "admin_call lib (\<lambda>d. snd (lite_token_delete i d))"
| any_read: "admin_call lib (\<lambda>d. snd (db_query (\<lambda>_. Inr ()) d))"

lemma admin_core: "admin_call lib f \<Longrightarrow> core_kept d (f d)"
proof (induction rule: admin_call.induct)
  case any_read
  show ?case by (rule op_core_query [unfolded op_core_def, rule_format])
qed (use lite_admin_core in \<open>simp_all add: op_core_def\<close>)

lemma admin_wf: "admin_call lib f \<Longrightarrow> db_wf d \<Longrightarrow> db_wf (f d)"
proof (induction rule: admin_call.induct)
  case any_read
  then show ?case by (rule query_keeps [OF faultless_wf, unfolded op_keeps_def, rule_format])
qed (use lite_subscriber_keeps lite_subscriber_update_keeps lite_subscriber_delete_keeps
    lite_subscription_create_keeps lite_subscription_update_keeps lite_subscription_keeps
    lite_token_keeps in \<open>simp_all add: op_keeps_def\<close>)

section \<open>System steps\<close>

record sys =
  sy_world :: "db world"
  sy_cache :: rule_cache
  sy_buffers :: window_buffers
  sy_prev :: "string \<Rightarrow> time"

definition sys_db :: "sys \<Rightarrow> db" where
  "sys_db s = w_store (sy_world s)"

definition with_db :: "db \<Rightarrow> sys \<Rightarrow> sys" where
  "with_db d s = s\<lparr>sy_world := (sy_world s)\<lparr>w_store := d\<rparr>\<rparr>"

inductive sys_step :: "golib \<Rightarrow> db dispatcher \<Rightarrow> datasources \<Rightarrow> sys \<Rightarrow> sys \<Rightarrow> bool"
  for lib d dbs where
  push_record:
    "(\<And>rid. 0 \<le> clk rid) \<Longrightarrow>
     push_step lib d clk now (sy_cache s) rec (sy_buffers s, sy_world s) = (b, w) \<Longrightarrow>
     sys_step lib d dbs s (s\<lparr>sy_buffers := b, sy_world := w\<rparr>)"
| timer:
    "(\<And>rid. 0 \<le> clk rid) \<Longrightarrow>
     scheduled_step lib d dbs clk (sy_buffers s) (sy_cache s) now (sy_prev s, sy_world s) = (p, w) \<Longrightarrow>
     sys_step lib d dbs s (s\<lparr>sy_prev := p, sy_world := w\<rparr>)"
| prune:
    "run_once (sqlite_store lib) pr now (sys_db s, ()) = (db', u) \<Longrightarrow>
     sys_step lib d dbs s (with_db db' s)"
| rule_create:
    "r_id r \<noteq> [] \<Longrightarrow> api_rule_create lib (sqlite_store lib) now r (sys_db s, sy_cache s) = (res, db', m) \<Longrightarrow>
     sys_step lib d dbs s ((with_db db' s)\<lparr>sy_cache := m\<rparr>)"
| rule_update:
    "r_id r \<noteq> [] \<Longrightarrow> api_rule_update lib (sqlite_store lib) now r (sys_db s, sy_cache s) = (res, db', m) \<Longrightarrow>
     sys_step lib d dbs s ((with_db db' s)\<lparr>sy_cache := m\<rparr>)"
| rule_delete:
    "api_rule_delete (sqlite_store lib) i (sys_db s, sy_cache s) = (res, db', m) \<Longrightarrow>
     sys_step lib d dbs s ((with_db db' s)\<lparr>sy_cache := m\<rparr>)"
| admin: "admin_call lib f \<Longrightarrow> sys_step lib d dbs s (with_db (f (sys_db s)) s)"
| restart:
    "reload_all lib (sqlite_store lib) (sys_db s, []) = (Inr u, db', m) \<Longrightarrow>
     sys_step lib d dbs s ((with_db db' s)\<lparr>sy_cache := m, sy_buffers := new_window_buffers max_span,
       sy_prev := (\<lambda>_. zero_time)\<rparr>)"

text \<open>The empty installation, with the failures the environment has in store.\<close>

definition sys_init :: "go_error option list \<Rightarrow> duration \<Rightarrow> sys" where
  "sys_init faults max_span =
     \<lparr>sy_world = \<lparr>w_store = empty_db\<lparr>db_faults := faults\<rparr>, w_ids = 0, w_sent = []\<rparr>,
      sy_cache = [], sy_buffers = new_window_buffers max_span, sy_prev = (\<lambda>_. zero_time)\<rparr>"

inductive reachable ::
  "golib \<Rightarrow> db dispatcher \<Rightarrow> datasources \<Rightarrow> go_error option list \<Rightarrow> sys \<Rightarrow> bool"
  for lib d dbs faults where
  start: "reachable lib d dbs faults (sys_init faults max_span)"
| step: "reachable lib d dbs faults s \<Longrightarrow> sys_step lib d dbs s s' \<Longrightarrow> reachable lib d dbs faults s'"

inductive_cases sys_stepE: "sys_step lib d dbs s s'"

lemma with_db_sel [simp]:
  "sy_world (with_db db' s) = (sy_world s)\<lparr>w_store := db'\<rparr>" "sy_cache (with_db db' s) = sy_cache s"
  "sys_db (with_db db' s) = db'"
  by (simp_all add: with_db_def sys_db_def)

section \<open>The view of the tables under other calls\<close>

lemma keyed_lite [simp]: "keyed (lite_view d)"
  by (auto simp: keyed_def lite_view_def sub_state_key_def scan_sub_state_def dest!: tbl_find_SomeD)

lemma core_kept_view:
  "core_kept d d' \<Longrightarrow> v_live (lite_view d') = v_live (lite_view d)"
  "core_kept d d' \<Longrightarrow> v_incident (lite_view d') = v_incident (lite_view d)"
  "core_kept d d' \<Longrightarrow> v_sub_state (lite_view d') = v_sub_state (lite_view d)"
  "core_kept d d' \<Longrightarrow> v_notifs (lite_view d') = v_notifs (lite_view d)"
  by (simp_all add: core_kept_def lite_view_def)

lemma core_kept_ok: "core_kept d d' \<Longrightarrow> lite_ok d \<Longrightarrow> lite_ok d'"
  by (auto simp: core_kept_def lite_ok_def)

lemma core_kept_sys_inv: "core_kept d d' \<Longrightarrow> sys_inv (lite_view d) \<Longrightarrow> sys_inv (lite_view d')"
  by (simp add: sys_inv_def live_keyed_def live_of_def open_incidents_def core_kept_view)

lemma core_kept_ids: "core_kept d d' \<Longrightarrow> ids_ok dp n (lite_view d) \<Longrightarrow> ids_ok dp n (lite_view d')"
  by (simp add: ids_ok_def core_kept_view)

lemma tbl_find_filter_unique:
  "tbl_unique key rows \<Longrightarrow> tbl_find key k (filter p rows) =
     (case tbl_find key k rows of None \<Rightarrow> None | Some r \<Rightarrow> if p r then Some r else None)"
proof (induction rows)
  case Nil
  then show ?case by simp
next
  case (Cons r rows)
  then have "tbl_unique key rows" and new: "key r \<notin> key ` set rows" by (auto simp: tbl_unique_def)
  then have none: "tbl_find key (key r) (filter p rows) = None"
    by (auto simp: tbl_find_None_iff)
  show ?case using Cons.IH \<open>tbl_unique key rows\<close> none by auto
qed

lemma scan_opt_Some_iff: "scan_opt scan r = Some x \<longleftrightarrow> (\<exists>row. r = Some row \<and> scan row = Inr x)"
  by (cases r) (auto simp: scan_opt_def split: sum.splits)

lemma pruned_view:
  assumes "db_wf d"
  shows "v_live (lite_view (pruned t d)) = v_live (lite_view d)"
    and "v_incident (lite_view (pruned t d)) i = v_incident (lite_view d) i \<or>
         v_incident (lite_view (pruned t d)) i = None"
    and "open_incidents (lite_view (pruned t d)) rid = open_incidents (lite_view d) rid"
    and "set (v_notifs (lite_view (pruned t d))) \<subseteq> set (v_notifs (lite_view d))"
proof -
  have u: "tbl_unique ir_id (t_incidents d)" using assms by (simp add: db_wf_def)
  have nonneg: "row \<in> set (t_incidents d) \<Longrightarrow> ir_resolved_at row = Some ms \<Longrightarrow> 0 \<le> ms" for row ms
    using assms by (simp add: db_wf_def)
  have inc: "v_incident (lite_view (pruned t d)) i = (case tbl_find ir_id i (t_incidents d) of
      None \<Rightarrow> None | Some row \<Rightarrow> if resolved_before t row then None else scan_opt scan_incident (Some row))" for i
    by (simp add: lite_view_def pruned_def tbl_find_filter_unique [OF u] scan_opt_def split: option.split)
  show "v_live (lite_view (pruned t d)) = v_live (lite_view d)"
    "set (v_notifs (lite_view (pruned t d))) \<subseteq> set (v_notifs (lite_view d))"
    by (auto simp: lite_view_def pruned_def)
  show some: "v_incident (lite_view (pruned t d)) i = v_incident (lite_view d) i \<or>
      v_incident (lite_view (pruned t d)) i = None" for i
    unfolding inc by (auto simp: lite_view_def split: option.split)
  have "v_incident (lite_view (pruned t d)) i = v_incident (lite_view d) i"
    if vis: "v_incident (lite_view d) i = Some x" and zero: "in_resolved_at x = zero_time" for i x
  proof -
    obtain row where row: "tbl_find ir_id i (t_incidents d) = Some row" "scan_incident row = Inr x"
      using vis by (auto simp: lite_view_def scan_opt_Some_iff)
    have "row \<in> set (t_incidents d)" using row(1) by (auto dest: tbl_find_SomeD)
    then have "\<not> resolved_before t row"
      using row(2) zero nonneg [of row] zero_time_neg
      by (auto simp: resolved_before_def scan_incident_def res_bind_Inr_iff of_unix_milli_def
          split: option.splits)
    then show ?thesis unfolding inc using row(1) by (simp add: lite_view_def)
  qed
  then show "open_incidents (lite_view (pruned t d)) rid = open_incidents (lite_view d) rid"
    using some by (auto simp: open_incidents_def) (metis option.distinct(1))+
qed

lemma pruned_sys_inv: "db_wf d \<Longrightarrow> sys_inv (lite_view d) \<Longrightarrow> sys_inv (lite_view (pruned t d))"
  by (simp add: sys_inv_def live_keyed_def live_of_def pruned_view)

lemma pruned_ids_ok:
  assumes "db_wf d" and "ids_ok dp n (lite_view d)"
  shows "ids_ok dp n (lite_view (pruned t d))"
proof -
  have "v_incident (lite_view (pruned t d)) i \<noteq> None \<Longrightarrow> v_incident (lite_view d) i \<noteq> None" for i
    using pruned_view(2) [OF assms(1), of t i] by auto
  then show ?thesis using assms(2) pruned_view(4) [OF assms(1), of t] unfolding ids_ok_def by blast
qed

lemma pruned_ok: "lite_ok d \<Longrightarrow> lite_ok (pruned t d)"
  by (auto simp: lite_ok_def pruned_def)

section \<open>The pruner and the rule API on the tables\<close>

lemma op_core_archive:
  assumes "\<And>i. op_core (nr_list_for_incident (st_notifications st) i)"
  shows "core_kept (fst sa) (fst (fold (archive_one st arch) incs sa))"
proof (induction incs arbitrary: sa)
  case Nil
  then show ?case by simp
next
  case (Cons inc incs)
  have "core_kept (fst sa) (fst (archive_one st arch inc sa))"
    using assms by (auto simp: archive_one_def Let_def split: prod.splits dest: op_coreD)
  then show ?case using Cons.IH [of "archive_one st arch inc sa"] core_kept_trans by auto
qed

lemma archive_same_tables:
  "same_tables (fst sa) (fst (fold (archive_one (sqlite_store lib) arch) incs sa))"
proof (induction incs arbitrary: sa)
  case Nil
  then show ?case by simp
next
  case (Cons inc incs)
  have "same_tables (fst sa) (fst (archive_one (sqlite_store lib) arch inc sa))"
    by (auto simp: archive_one_def sqlite_store_def lite_notification_list_for_incident_def Let_def
        split: prod.splits dest: db_query_tables)
  then show ?case using Cons.IH [of "archive_one (sqlite_store lib) arch inc sa"] same_tables_trans by auto
qed

text \<open>A pass of the pruner leaves the tables or prunes them, whatever fails.\<close>

lemma run_once_tables:
  assumes "run_once (sqlite_store lib) p now (d, a) = (d', a')"
  shows "same_tables d d' \<or> same_tables (pruned (unix_milli (now - pr_window p)) d) d'"
proof -
  let ?t = "unix_milli (now - pr_window p)"
  obtain res d1 where q: "lite_incident_list_resolved_before ?t d = (res, d1)"
    by (cases "lite_incident_list_resolved_before ?t d")
  have t1: "same_tables d d1"
    using q unfolding lite_incident_list_resolved_before_def by (rule db_query_tables)
  show ?thesis
  proof (cases res)
    case (Inl e)
    with assms q t1 show ?thesis by (simp add: run_once_def Let_def)
  next
    case (Inr cands)
    show ?thesis
    proof (cases "cands = []")
      case True
      with assms q t1 Inr show ?thesis by (simp add: run_once_def Let_def)
    next
      case False
      define sa where "sa = (case pr_archiver p of None \<Rightarrow> (d1, a)
         | Some arch \<Rightarrow> fold (archive_one (sqlite_store lib) arch) cands (d1, a))"
      have "same_tables d1 (fst sa)"
        using archive_same_tables [of "(d1, a)"] by (auto simp: sa_def split: option.split)
      with t1 have t2: "same_tables d (fst sa)" by (rule same_tables_trans)
      obtain r2 d2 where del: "lite_incident_delete_resolved_before ?t (fst sa) = (r2, d2)"
        by (cases "lite_incident_delete_resolved_before ?t (fst sa)")
      have d': "d' = d2"
        using assms q Inr False del unfolding sa_def
        by (cases "pr_archiver p") (simp_all add: run_once_def Let_def)
      show ?thesis
        using delete_resolved_before_effect [OF del] t2 same_tables_pruned [OF t2, of ?t] d'
        by (auto split: sum.splits intro: same_tables_trans)
    qed
  qed
qed

lemma db_faults_kept: "op_core m \<Longrightarrow> db_faults d = [] \<Longrightarrow> db_faults (snd (m d)) = []"
  by (auto simp: op_core_def core_kept_def)

definition rule_ids :: "db \<Rightarrow> bool" where
  "rule_ids d \<longleftrightarrow> (\<forall>row \<in> set (t_rules d). rw_id row \<noteq> [])"

lemma cache_set_ids: "cache_ids m \<Longrightarrow> cr_id c \<noteq> [] \<Longrightarrow> cache_ids (cache_set c m)"
  using set_tbl_upsert_subset [of cr_id c m] by (auto simp: cache_ids_def cache_set_def)

lemma cache_delete_ids: "cache_ids m \<Longrightarrow> cache_ids (cache_delete i m)"
  by (auto simp: cache_ids_def cache_delete_def)

lemma compile_and_cache_ids:
  "compile_and_cache lib r (s, m) = (res, s', m') \<Longrightarrow>
   s' = s \<and> (cache_ids m \<longrightarrow> r_id r \<noteq> [] \<longrightarrow> cache_ids m')"
  by (auto simp: compile_and_cache_def cr_id_def intro!: cache_set_ids split: option.splits sum.splits)

lemma rule_create_id: "lite_rule_create lib now r d = (Inr r', d') \<Longrightarrow> r_id r' = r_id r"
  by (auto simp: lite_rule_create_def op_bind_def Let_def split: sum.splits prod.splits)

lemma rule_update_id: "lite_rule_update lib now r d = (Inr r', d') \<Longrightarrow> r_id r' = r_id r"
  by (auto simp: lite_rule_update_def op_bind_def Let_def split: sum.splits prod.splits)

lemma api_create_effect:
  assumes "api_rule_create lib (sqlite_store lib) now r (d, m) = (res, d', m')" and "r_id r \<noteq> []"
  shows "d' = d \<or> d' = snd (lite_rule_create lib now r d)" and "cache_ids m \<Longrightarrow> cache_ids m'"
  using assms
  by (auto simp: api_rule_create_def on_rules_def op_bind_def split: sum.splits prod.splits if_splits
      dest: rule_create_id dest!: compile_and_cache_ids)

lemma api_update_effect:
  assumes "api_rule_update lib (sqlite_store lib) now r (d, m) = (res, d', m')" and "r_id r \<noteq> []"
  shows "d' = d \<or> d' = snd (lite_rule_update lib now r d)" and "cache_ids m \<Longrightarrow> cache_ids m'"
  using assms
  by (auto simp: api_rule_update_def on_rules_def op_bind_def cache_delete_ids
      split: sum.splits prod.splits if_splits dest: rule_update_id dest!: compile_and_cache_ids)

lemma api_delete_effect:
  assumes "api_rule_delete (sqlite_store lib) i (d, m) = (res, d', m')"
  shows "d' = snd (lite_rule_delete i d)" and "cache_ids m \<Longrightarrow> cache_ids m'"
  using assms
  by (auto simp: api_rule_delete_def on_rules_def op_bind_def cache_delete_ids split: sum.splits prod.splits)

end
