(* ===== verification/System_Inv.thy ===== *)
theory System_Inv
  imports System
begin

text \<open>
  Invariants of the reachable states of the system: whatever calls of the database fail, and
  when none fails. A world invariant is \<open>stable\<close> when ticks, recorded errors, calls outside the
  dispatcher and pruning keep it; every step of the system then keeps it.
\<close>

section \<open>Steps without failures\<close>

definition calm :: "db \<Rightarrow> bool" where
  "calm d \<longleftrightarrow> db_faults d = []"

lemma calm_query: "op_keeps calm (db_query f)"
  by (auto simp: op_keeps_def calm_def db_query_no_fault)

lemma calm_exec: "(\<And>d d'. f d = Inr d' \<Longrightarrow> db_faults d' = db_faults d) \<Longrightarrow> op_keeps calm (db_exec f)"
  by (auto simp: op_keeps_def calm_def db_exec_no_fault split: sum.splits)

lemma calm_tx: "op_keeps calm body \<Longrightarrow> op_keeps calm (db_tx body)"
  by (auto simp: op_keeps_def calm_def db_tx_def op_bind_def db_query_no_fault split: sum.splits prod.splits)

lemma op_keeps_counted: "op_keeps P m \<Longrightarrow> op_keeps P (\<lambda>d. op_bind m (\<lambda>_. op_return (g d)) d)"
  by (auto simp: op_keeps_def op_bind_def split: prod.splits sum.splits)

lemma calm_delete: "op_keeps calm (lite_incident_delete_resolved_before t)"
  unfolding lite_incident_delete_resolved_before_def Let_def
proof (intro calm_tx op_keeps_bind calm_query)
  fix ids
  have "op_keeps calm (op_for delete_children ids)"
    by (auto simp: delete_children_def intro!: op_keeps_intros calm_exec)
  then show "op_keeps calm (if ids = [] then op_return 0
     else op_bind (op_for delete_children ids) (\<lambda>_ d.
       op_bind (db_exec (\<lambda>d. Inr (d\<lparr>t_incidents := filter (\<lambda>row. \<not> resolved_before t row) (t_incidents d)\<rparr>)))
         (\<lambda>_. op_return (int (length (filter (resolved_before t) (t_incidents d))))) d))"
    by (cases "ids = []")
      (simp, simp only: if_False, intro op_keeps_bind op_keeps_counted calm_exec, auto)
qed

lemma archive_calm:
  "calm (fst sa) \<Longrightarrow> calm (fst (fold (archive_one (sqlite_store lib) arch) incs sa))"
proof (induction incs arbitrary: sa)
  case Nil
  then show ?case by simp
next
  case (Cons inc incs)
  have "op_keeps calm (lite_notification_list_for_incident i)" for i
    unfolding lite_notification_list_for_incident_def by (rule calm_query)
  then have "calm (fst (archive_one (sqlite_store lib) arch inc sa))"
    using Cons.prems by (auto simp: archive_one_def sqlite_store_def Let_def split: prod.splits dest: op_keepsD)
  then show ?case using Cons.IH by simp
qed

lemma run_once_calm:
  assumes "run_once (sqlite_store lib) p now (d, a) = (d', a')" and "calm d"
  shows "calm d'"
proof -
  let ?t = "unix_milli (now - pr_window p)"
  obtain res d1 where q: "lite_incident_list_resolved_before ?t d = (res, d1)"
    by (cases "lite_incident_list_resolved_before ?t d")
  have c1: "calm d1"
    using q assms(2) calm_query by (metis lite_incident_list_resolved_before_def op_keepsD)
  then have "calm (snd (lite_incident_delete_resolved_before ?t d1))"
    "calm (snd (lite_incident_delete_resolved_before ?t
       (fst (fold (archive_one (sqlite_store lib) arch) cands (d1, a)))))" for arch cands
    using calm_delete archive_calm [of "(d1, a)"] by (simp_all add: op_keeps_def)
  with c1 show ?thesis
    using assms(1) q by (auto simp: run_once_def Let_def split: sum.splits if_splits option.splits)
qed

lemma run_once_core:
  assumes "run_once (sqlite_store lib) p now (d, a) = (d', a')"
  shows "core_kept d d' \<or> core_kept (pruned (unix_milli (now - pr_window p)) d) d'"
proof -
  have "core_kept e d'" if "same_tables e d'" "db_faults e = db_faults d" for e
    using that run_once_calm [OF assms] same_tablesD [OF that(1)] by (simp add: core_kept_def calm_def)
  then show ?thesis using run_once_tables [OF assms] by (auto simp: pruned_def)
qed

section \<open>Identifiers of rules\<close>

lemma rule_ids_same: "same_tables d d' \<Longrightarrow> rule_ids d' = rule_ids d"
  by (simp add: rule_ids_def same_tablesD)

lemma faultless_rule_ids [simp]: "faultless rule_ids"
  by (simp add: faultless_def rule_ids_same)

lemma other_calls_rule_ids:
  "op_keeps rule_ids (lite_live_get i)" "op_keeps rule_ids (lite_live_upsert ls)"
  "op_keeps rule_ids (lite_incident_open inc)" "op_keeps rule_ids (lite_incident_resolve i ms)"
  "op_keeps rule_ids (lite_subscription_list_for_rule i labels)"
  "op_keeps rule_ids (lite_sub_state_get i j)" "op_keeps rule_ids (lite_sub_state_upsert ss)"
  "op_keeps rule_ids (lite_notification_exists_for_subscription i)"
  "op_keeps rule_ids (lite_notification_record n)" "op_keeps rule_ids (lite_subscriber_get i)"
  by (auto simp: lite_live_get_def lite_live_upsert_def lite_incident_open_def lite_incident_resolve_def
      lite_subscription_list_for_rule_def lite_sub_state_get_def lite_sub_state_upsert_def
      lite_notification_exists_for_subscription_def lite_notification_record_def lite_subscriber_get_def
      rule_ids_def res_map_def res_bind_Inr_iff intro!: op_keeps_intros query_keeps exec_keeps)

interpretation lite_rules: store_keeps "sqlite_store lib" rule_ids
  by unfold_locales (simp_all add: other_calls_rule_ids)

lemma rule_calls_rule_ids:
  "r_id r \<noteq> [] \<Longrightarrow> op_keeps rule_ids (lite_rule_create lib now r)"
  "r_id r \<noteq> [] \<Longrightarrow> op_keeps rule_ids (lite_rule_update lib now r)"
  "op_keeps rule_ids (lite_rule_delete i)" "op_keeps rule_ids (lite_rule_list lib)"
  by (auto simp: lite_rule_create_def lite_rule_update_def lite_rule_delete_def lite_rule_list_def
      rule_to_row_def rule_ids_def res_map_def res_bind_Inr_iff sql_insert_Inr_iff tbl_update_def Let_def
      split: sum.splits if_splits intro!: op_keeps_intros query_keeps exec_keeps)

lemma admin_calls_rule_ids:
  "op_keeps rule_ids (lite_subscriber_create lib now s)" "op_keeps rule_ids (lite_subscriber_update lib now s)"
  "op_keeps rule_ids (lite_subscriber_delete i)" "op_keeps rule_ids (lite_subscription_create lib now u)"
  "op_keeps rule_ids (lite_subscription_update lib now u)" "op_keeps rule_ids (lite_subscription_delete i)"
  "op_keeps rule_ids (lite_token_create lib now t)" "op_keeps rule_ids (lite_token_revoke i)"
  "op_keeps rule_ids (lite_token_touch_last_used i ms)" "op_keeps rule_ids (lite_token_delete i)"
  by (auto simp: lite_subscriber_create_def lite_subscriber_update_def lite_subscriber_delete_def
      lite_subscription_create_def lite_subscription_update_def lite_subscription_delete_def
      lite_token_create_def lite_token_revoke_def lite_token_touch_last_used_def lite_token_delete_def
      Let_def rule_ids_def res_map_def res_bind_Inr_iff split: if_splits
      intro!: op_keeps_intros exec_keeps)

lemma admin_rule_ids: "admin_call lib f \<Longrightarrow> rule_ids d \<Longrightarrow> rule_ids (f d)"
proof (induction rule: admin_call.induct)
  case any_read
  then show ?case by (rule query_keeps [OF faultless_rule_ids, unfolded op_keeps_def, rule_format])
qed (use admin_calls_rule_ids in \<open>simp_all add: op_keeps_def\<close>)

section \<open>Restart\<close>

lemma compile_loop_ids:
  "op_for (\<lambda>r. if \<not> r_enabled r then op_return () else op_logged (compile_and_cache lib r)) rs (s, m) =
     (res, s', m') \<Longrightarrow> s' = s \<and> (cache_ids m \<longrightarrow> (\<forall>r \<in> set rs. r_id r \<noteq> []) \<longrightarrow> cache_ids m')"
proof (induction rs arbitrary: m)
  case Nil
  then show ?case by simp
next
  case (Cons r rs)
  obtain res1 s1 m1 where c: "compile_and_cache lib r (s, m) = (res1, s1, m1)"
    by (cases "compile_and_cache lib r (s, m)") auto
  have c': "s1 = s" "cache_ids m \<Longrightarrow> r_id r \<noteq> [] \<Longrightarrow> cache_ids m1"
    using compile_and_cache_ids [OF c] by auto
  show ?case
  proof (cases "r_enabled r")
    case True
    with Cons.prems c c'(1) Cons.IH [of m1] c'(2) show ?thesis
      by (auto simp: op_bind_def op_logged_def)
  next
    case False
    with Cons.prems Cons.IH [of m] show ?thesis by (auto simp: op_bind_def)
  qed
qed

lemma scan_all_rule_ids:
  "scan_all (scan_rule lib) rows = Inr rs \<Longrightarrow> \<forall>row \<in> set rows. rw_id row \<noteq> [] \<Longrightarrow> \<forall>r \<in> set rs. r_id r \<noteq> []"
proof (induction rows arbitrary: rs)
  case Nil
  then show ?case by (simp add: scan_all_def)
next
  case (Cons row rows)
  then show ?case
    by (auto simp: scan_all_def res_bind_Inr_iff scan_rule_def)
qed

lemma reload_effect:
  assumes "reload_all lib (sqlite_store lib) (d, m) = (Inr u, d', m')"
  shows "d' = snd (lite_rule_list lib d)" and "rule_ids d \<Longrightarrow> cache_ids m \<Longrightarrow> cache_ids m'"
proof -
  obtain res d1 where l: "lite_rule_list lib d = (res, d1)" by (cases "lite_rule_list lib d")
  then obtain rs where rs: "res = Inr rs"
    using assms by (cases res) (auto simp: reload_all_def on_rules_def op_bind_def)
  note loop = assms [unfolded reload_all_def op_bind_def on_rules_def, simplified, unfolded l rs, simplified,
      THEN compile_loop_ids]
  show "d' = snd (lite_rule_list lib d)" using loop l by simp
  assume ids: "rule_ids d" "cache_ids m"
  have "\<forall>r \<in> set rs. r_id r \<noteq> []"
    using l unfolding lite_rule_list_def rs
    by (cases rule: db_query_cases) (use ids in \<open>auto simp: rule_ids_def dest!: scan_all_rule_ids [OF sym]\<close>)
  then show "cache_ids m'" using loop ids by blast
qed

section \<open>Stable invariants of worlds\<close>

definition stable :: "db dispatcher \<Rightarrow> (db world \<Rightarrow> bool) \<Rightarrow> bool" where
  "stable d I \<longleftrightarrow> tick_stable d I \<and> error_stable d I \<and>
     (\<forall>w d'. core_kept (w_store w) d' \<longrightarrow> I w \<longrightarrow> I (w\<lparr>w_store := d'\<rparr>)) \<and>
     (\<forall>w t. db_wf (w_store w) \<longrightarrow> I w \<longrightarrow> I (w\<lparr>w_store := pruned t (w_store w)\<rparr>))"

definition sound :: "(db world \<Rightarrow> bool) \<Rightarrow> sys \<Rightarrow> bool" where
  "sound I s \<longleftrightarrow> I (sy_world s) \<and> db_wf (sys_db s) \<and> rule_ids (sys_db s) \<and> cache_ids (sy_cache s)"

lemma stable_core: "stable d I \<Longrightarrow> core_kept (w_store w) d' \<Longrightarrow> I w \<Longrightarrow> I (w\<lparr>w_store := d'\<rparr>)"
  by (simp add: stable_def)

text \<open>Ticks and recorded errors keep the tables' integrity along with a stable invariant.\<close>

definition tables_ok :: "(db world \<Rightarrow> bool) \<Rightarrow> db world \<Rightarrow> bool" where
  "tables_ok I w \<longleftrightarrow> I w \<and> db_wf (w_store w) \<and> rule_ids (w_store w)"

lemma tables_ok_evaluators:
  assumes "d_store d = sqlite_store lib" and "stable d I"
  shows "tick_stable d (tables_ok I)" and "error_stable d (tables_ok I)"
  using assms lite_wf.tick_keeps [OF assms(1)] lite_rules.tick_keeps [OF assms(1)]
    lite_wf.record_error_keeps [OF assms(1)] lite_rules.record_error_keeps [OF assms(1)]
  by (simp_all add: tick_stable_def error_stable_def stable_def tables_ok_def op_keeps_def)

lemma sound_tables: "sound I s \<longleftrightarrow> tables_ok I (sy_world s) \<and> cache_ids (sy_cache s)"
  by (auto simp: sound_def tables_ok_def sys_db_def)

lemma sound_core:
  assumes "stable d I" and "sound I s" and "core_kept (sys_db s) db'" and "db_wf db'" and "rule_ids db'"
  shows "sound I (with_db db' s)"
  using assms stable_core [OF assms(1)] by (simp add: sound_def sys_db_def)

lemma sound_pruned:
  assumes "stable d I" and "sound I s"
  shows "sound I (with_db (pruned t (sys_db s)) s)"
proof -
  have "db_wf (pruned t (sys_db s))"
    using assms(2) by (auto simp: sound_def db_wf_def pruned_def tbl_unique_filter)
  moreover have "rule_ids (pruned t (sys_db s))"
    using assms(2) by (simp add: sound_def rule_ids_def pruned_def)
  ultimately show ?thesis using assms by (simp add: sound_def sys_db_def stable_def)
qed

lemma sound_step:
  assumes "d_store d = sqlite_store lib" and st: "stable d I"
    and "sys_step lib d dbs s s'" and inv: "sound I s"
  shows "sound I s'"
  using assms(3)
proof cases
  case (push_record clk now rec b w)
  have "tables_ok I (snd (push_step lib d clk now (sy_cache s) rec (sy_buffers s, sy_world s)))"
    by (rule push_step_inv [OF tables_ok_evaluators(1) [OF assms(1) st]])
      (use inv push_record(2) in \<open>auto simp: sound_tables\<close>)
  then show ?thesis using push_record(1,3) inv by (simp add: sound_tables)
next
  case (timer clk now p w)
  have "tables_ok I (snd (scheduled_step lib d dbs clk (sy_buffers s) (sy_cache s) now (sy_prev s, sy_world s)))"
    by (rule scheduled_step_inv [OF tables_ok_evaluators [OF assms(1) st]])
      (use inv timer(2) in \<open>auto simp: sound_tables\<close>)
  then show ?thesis using timer(1,3) inv by (simp add: sound_tables)
next
  case (prune pr now db' u)
  have same: "db_wf db'" "rule_ids db'" if "core_kept d' db'" "same_tables d' db'" "db_wf d'" "rule_ids d'" for d'
    using that db_wf_same rule_ids_same by auto
  let ?t = "unix_milli (now - pr_window pr)"
  have faults: "core_kept e db'" if "same_tables e db'" "db_faults e = db_faults (sys_db s)" for e
    using that run_once_calm [OF prune(2)] same_tablesD [OF that(1)] by (simp add: core_kept_def calm_def)
  consider "same_tables (sys_db s) db'" | "same_tables (pruned ?t (sys_db s)) db'"
    using run_once_tables [OF prune(2)] by blast
  then show ?thesis
  proof cases
    case 1
    then have "sound I (with_db db' s)"
      using inv faults [OF 1] by (intro sound_core [OF st inv] same) (auto simp: sound_def)
    then show ?thesis using prune(1) by simp
  next
    case 2
    let ?s = "with_db (pruned ?t (sys_db s)) s"
    have s': "sound I ?s" by (rule sound_pruned [OF st inv])
    have "core_kept (sys_db ?s) db'" using faults [OF 2] by (simp add: pruned_def)
    then have "sound I (with_db db' ?s)"
      using s' 2 by (intro sound_core [OF st s'] same) (auto simp: sound_def)
    then show ?thesis using prune(1) by (simp add: with_db_def)
  qed
next
  case (rule_create r now res db' m)
  note eff = api_create_effect [OF rule_create(3,2)]
  have "core_kept (sys_db s) db'" "db_wf db'" "rule_ids db'"
    using eff(1) inv lite_rule_core lite_rule_keeps rule_calls_rule_ids(1) [OF rule_create(2)]
    by (auto simp: sound_def op_core_def op_keeps_def)
  then show ?thesis using sound_core [OF st inv] eff(2) inv rule_create(1) by (simp add: sound_tables)
next
  case (rule_update r now res db' m)
  note eff = api_update_effect [OF rule_update(3,2)]
  have "core_kept (sys_db s) db'" "db_wf db'" "rule_ids db'"
    using eff(1) inv lite_rule_core lite_rule_keeps rule_calls_rule_ids(2) [OF rule_update(2)]
    by (auto simp: sound_def op_core_def op_keeps_def)
  then show ?thesis using sound_core [OF st inv] eff(2) inv rule_update(1) by (simp add: sound_tables)
next
  case (rule_delete i res db' m)
  note eff = api_delete_effect [OF rule_delete(2)]
  have "core_kept (sys_db s) db'" "db_wf db'" "rule_ids db'"
    using eff(1) inv lite_rule_core lite_rule_keeps rule_calls_rule_ids(3)
    by (auto simp: sound_def op_core_def op_keeps_def)
  then show ?thesis using sound_core [OF st inv] eff(2) inv rule_delete(1) by (simp add: sound_tables)
next
  case (admin f)
  then show ?thesis
    using sound_core [OF st inv admin_core] admin_wf admin_rule_ids inv by (simp add: sound_def)
next
  case (restart u db' m max_span)
  note eff = reload_effect [OF restart(2)]
  have "core_kept (sys_db s) db'" "db_wf db'" "rule_ids db'"
    using eff(1) inv lite_rule_core(4) lite_rule_keeps(5) rule_calls_rule_ids(4)
    by (auto simp: sound_def op_core_def op_keeps_def)
  moreover have "cache_ids m" using eff(2) inv by (simp add: sound_def cache_ids_def)
  ultimately show ?thesis using sound_core [OF st inv] restart(1) by (simp add: sound_tables)
qed

lemma sound_reachable:
  assumes "reachable lib d dbs faults s" and "d_store d = sqlite_store lib" and "stable d I"
    and "I (\<lparr>w_store = empty_db\<lparr>db_faults := faults\<rparr>, w_ids = 0, w_sent = []\<rparr>)"
  shows "sound I s"
  using assms(1)
proof (induction rule: reachable.induct)
  case (start max_span)
  then show ?case
    using assms(4) by (simp add: sound_def sys_init_def sys_db_def db_wf_def empty_db_def rule_ids_def
        cache_ids_def tbl_unique_def)
next
  case (step s s')
  then show ?case using sound_step [OF assms(2,3)] by blast
qed

section \<open>Invariants of the reachable states\<close>

text \<open>Without failures: incidents and live states agree.\<close>

definition agreed :: "db dispatcher \<Rightarrow> db world \<Rightarrow> bool" where
  "agreed d w \<longleftrightarrow> healthy lite_ok lite_view d w \<and> sys_inv (lite_view (w_store w))"

lemma agreed_stable:
  assumes "d_store d = sqlite_store lib" and "good_ids d"
  shows "stable d (agreed d)"
proof -
  have "tick_stable d (agreed d)"
    using lite.tick_sys_inv [OF assms] by (simp add: tick_stable_def agreed_def op_wp_def case_prod_beta)
  moreover have "error_stable d (agreed d)"
    using lite.record_error_sys_inv [OF assms(1)] by (simp add: error_stable_def agreed_def)
  moreover have "agreed d (w\<lparr>w_store := d'\<rparr>)" if "core_kept (w_store w) d'" "agreed d w" for w d'
    using that core_kept_ok core_kept_sys_inv core_kept_ids by (auto simp: agreed_def healthy_def)
  moreover have "agreed d (w\<lparr>w_store := pruned t (w_store w)\<rparr>)" if "db_wf (w_store w)" "agreed d w" for w t
    using that pruned_ok pruned_sys_inv pruned_ids_ok by (auto simp: agreed_def healthy_def)
  ultimately show ?thesis by (simp add: stable_def)
qed

text \<open>Whatever fails: an incident is announced as resolved after all other messages about it.\<close>

definition ordered :: "db dispatcher \<Rightarrow> db world \<Rightarrow> bool" where
  "ordered d w \<longleftrightarrow> fault_inv lite_view d w \<and> resolve_final (sent_messages w)"

lemma ordered_other:
  assumes "ordered d w" and "v_live (lite_view d') = v_live (lite_view (w_store w))"
  shows "ordered d (w\<lparr>w_store := d'\<rparr>)"
proof -
  have "live_of (lite_view d') = live_of (lite_view (w_store w))"
    using assms(2) by (simp add: live_of_def fun_eq_iff)
  then show ?thesis using assms(1)
    by (simp add: ordered_def fault_inv_def Let_def live_keyed_def current_def closed_out_def sent_messages_def)
qed

lemma ordered_stable:
  assumes "d_store d = sqlite_store lib" and "good_ids d"
  shows "stable d (ordered d)"
proof -
  have "tick_stable d (ordered d)"
    using lite.tick_fault_inv [OF assms] closes_once_final
    unfolding tick_stable_def ordered_def op_wp_def case_prod_beta by blast
  moreover have "error_stable d (ordered d)"
    using lite.record_error_fault_inv [OF assms] by (simp add: error_stable_def ordered_def sent_messages_def)
  moreover have "ordered d (w\<lparr>w_store := d'\<rparr>)" if "core_kept (w_store w) d'" "ordered d w" for w d'
    using that by (intro ordered_other) (simp_all add: core_kept_view)
  moreover have "ordered d (w\<lparr>w_store := pruned t (w_store w)\<rparr>)" if "db_wf (w_store w)" "ordered d w" for w t
    using that by (intro ordered_other) (simp_all add: pruned_view)
  ultimately show ?thesis by (simp add: stable_def)
qed

lemma live_none [simp]: "v_live v = (\<lambda>_. None) \<Longrightarrow> live_of v rid = fresh_live_state rid"
  by (simp add: live_of_def)

lemma lite_view_start:
  assumes "w = \<lparr>w_store = empty_db\<lparr>db_faults := fs\<rparr>, w_ids = 0, w_sent = []\<rparr>"
  shows "v_live (lite_view (w_store w)) = (\<lambda>_. None)" "v_incident (lite_view (w_store w)) = (\<lambda>_. None)"
    "v_notifs (lite_view (w_store w)) = []" "w_ids w = 0" "w_sent w = []" "lite_ok (w_store w) \<longleftrightarrow> fs = []"
  using assms by (simp_all add: lite_view_def empty_db_def scan_opt_def fun_eq_iff lite_ok_def)

lemma fresh_sel [simp]:
  "ls_state (fresh_live_state rid) = state_ok" "ls_incident_id (fresh_live_state rid) = []"
  "ls_rule_id (fresh_live_state rid) = rid"
  by (simp_all add: fresh_live_state_def)

lemma agreed_start:
  assumes w: "w = \<lparr>w_store = empty_db\<lparr>db_faults := []\<rparr>, w_ids = 0, w_sent = []\<rparr>"
  shows "agreed d w"
  by (simp add: agreed_def healthy_def ids_ok_def sys_inv_def live_keyed_def open_incidents_def
      lite_view_start [OF w])

lemma ordered_start:
  assumes w: "w = \<lparr>w_store = empty_db\<lparr>db_faults := faults\<rparr>, w_ids = 0, w_sent = []\<rparr>"
  shows "ordered d w"
  by (simp add: ordered_def fault_inv_def Let_def live_keyed_def current_def closed_out_def
      sent_messages_def lite_view_start [OF w]) blast

text \<open>The two facts about every reachable state.\<close>

lemma reachable_agreed:
  assumes "reachable lib d dbs [] s" and "d_store d = sqlite_store lib" and "good_ids d"
  shows "agreed d (sy_world s)"
  using sound_reachable [OF assms(1,2) agreed_stable [OF assms(2,3)] agreed_start [OF refl]]
  by (simp add: sound_def)

lemma reachable_ordered:
  assumes "reachable lib d dbs faults s" and "d_store d = sqlite_store lib" and "good_ids d"
  shows "sound (ordered d) s"
  by (rule sound_reachable [OF assms(1,2) ordered_stable [OF assms(2,3)] ordered_start [OF refl]])

end
