(* ===== verification/Rule_Props.thy ===== *)
theory Rule_Props
  imports Rule_State Subscriber Evaluator
begin

text \<open>
  The properties of the rule model, its evaluation and its windows. \<open>plain_lib\<close> is an instance
  of the parameters, for examples.
\<close>

section \<open>An instance of the library parameters\<close>

definition plain_lib :: golib where
  "plain_lib = \<lparr>lib_fmt_v = (\<lambda>_. ''v''), lib_fmt_dur = (\<lambda>_. ''d''), lib_quote = (\<lambda>s. s),
     lib_re_compile = (\<lambda>p. Inr (\<lambda>s. s = p)), lib_parse_float = (\<lambda>_. None),
     lib_parse_duration = (\<lambda>_. Inl (ErrNew ''duration'')),
     lib_expr_compile = (\<lambda>_. Inr (\<lambda>_. Inr (GBool True))), lib_f2i = (\<lambda>_. 0), lib_utf8 = (\<lambda>s. s)\<rparr>"

section \<open>Live states\<close>

text \<open>
  C10: One application of an outcome to a well-formed live state: the state follows the outcome,
  an incident is opened exactly on the way from ok to firing and closed on the way back, its
  id and start are kept while the rule keeps firing, and the transition names it.
\<close>

theorem apply_outcome_machine:
  assumes "live_wf st" and "b \<Longrightarrow> ls_state st \<noteq> state_firing \<Longrightarrow> i \<noteq> ''''"
    and "apply_outcome st b v now i = (st', t)"
  shows "live_wf st' \<and> ls_state st' = (if b then state_firing else state_ok) \<and>
    ls_incident_id st' = (if \<not> b then '''' else if ls_state st = state_firing then ls_incident_id st else i) \<and>
    ls_triggered_at st' =
      (if \<not> b then zero_time else if ls_state st = state_firing then ls_triggered_at st else now) \<and>
    (tr_opened t \<longleftrightarrow> b \<and> ls_state st = state_ok) \<and> (tr_closed t \<longleftrightarrow> \<not> b \<and> ls_state st = state_firing) \<and>
    tr_incident_id t = (if tr_closed t then ls_incident_id st else ls_incident_id st') \<and>
    (is_transition t \<longleftrightarrow> tr_opened t \<or> tr_closed t)"
  using assms live_wf_apply [OF assms(1), of b i v now]
  by (auto simp: live_wf_def apply_outcome_def Let_def tr_opened_def tr_closed_def is_transition_def
      split: if_splits)

lemma apply_outcome_machine_witness:
  "ls_state (fst (apply_outcome (fresh_live_state ''r'') True ''5'' 9 ''i'')) = state_firing"
  using apply_outcome_machine [of "fresh_live_state ''r''" True "''i''" "''5''" 9
      "fst (apply_outcome (fresh_live_state ''r'') True ''5'' 9 ''i'')"
      "snd (apply_outcome (fresh_live_state ''r'') True ''5'' 9 ''i'')"]
  by simp

section \<open>Compilation and evaluation\<close>

definition known_op :: "string \<Rightarrow> bool" where
  "known_op o1 \<longleftrightarrow> o1 \<in> {''>'', ''>='', ''<'', ''<='', ''=='', ''!=''}"

fun condition_ok :: "golib \<Rightarrow> condition \<Rightarrow> bool" where
  "condition_ok lib (CThreshold t) \<longleftrightarrow> th_field t \<noteq> '''' \<and> known_op (th_op t)"
| "condition_ok lib (CWindow w) \<longleftrightarrow> wa_field w \<noteq> '''' \<and> 0 < wa_window w \<and>
     wa_agg w \<in> {''avg'', ''sum'', ''min'', ''max'', ''count''} \<and> known_op (wa_op w)"
| "condition_ok lib (CPattern p) \<longleftrightarrow> pm_field p \<noteq> '''' \<and>
     (pm_kind p = ''regex'' \<and> is_ok (lib_re_compile lib (pm_pattern p)) \<or>
      pm_kind p = ''contains'' \<and> pm_pattern p \<noteq> '''')"
| "condition_ok lib (CSql s) \<longleftrightarrow> sq_data_source s \<noteq> '''' \<and> trim_space (sq_query s) \<noteq> ''''"
| "condition_ok lib (CExpr e) \<longleftrightarrow> trim_space (ex_expr e) \<noteq> '''' \<and>
     ex_mode e \<in> {'''', mode_push, mode_scheduled} \<and> is_ok (lib_expr_compile lib (trim_space (ex_expr e)))"

lemma op_validate_iff: "op_validate lib o1 = (if known_op o1 then Inr () else
    Inl (ErrNew (''invalid op '' @ lib_quote lib o1)))"
  by (simp add: op_validate_def known_op_def)

text \<open>
  A condition compiles exactly when it is complete: its field, window, aggregate, operator,
  pattern, query or expression is one that evaluation understands.
\<close>

theorem compile_condition_iff: "is_ok (compile_condition lib c) = condition_ok lib c"
proof (cases c)
  case (CPattern p)
  then show ?thesis
    by (cases "lib_re_compile lib (pm_pattern p)") (auto simp: compile_pattern_def)
next
  case (CExpr e)
  then show ?thesis
    by (cases "lib_expr_compile lib (trim_space (ex_expr e))") (auto simp: compile_expression_def Let_def)
qed (auto simp: compile_threshold_def compile_window_def compile_sql_def op_validate_iff)

fun rel_of :: "string \<Rightarrow> rat \<Rightarrow> rat \<Rightarrow> bool" where
  "rel_of o1 x y \<longleftrightarrow> (o1 = ''>'' \<and> y < x) \<or> (o1 = ''>='' \<and> y \<le> x) \<or> (o1 = ''<'' \<and> x < y) \<or>
     (o1 = ''<='' \<and> x \<le> y) \<or> (o1 = ''=='' \<and> x = y) \<or> (o1 = ''!='' \<and> x \<noteq> y)"

lemma op_compare_Fin: "op_compare o1 (Fin x) (Fin y) = rel_of o1 x y"
  by (auto simp: op_compare_def f_leq_def)

text \<open>
  A compiled threshold on a record with a finite number in its field triggers exactly when
  the relation its operator names holds of the number and the threshold.
\<close>

theorem threshold_triggers:
  assumes "compile_condition lib (CThreshold t) = Inr k"
    and "numeric_field lib m (th_field t) = Some (Fin x)" and "th_value t = Fin y"
  shows "\<exists>val. eval_compiled lib k ctx (Some m) = Inr (rel_of (th_op t) x y, val)"
proof -
  have "k = KThreshold t" using assms(1)
    by (auto simp: compile_threshold_def res_bind_Inr_iff split: if_splits)
  then show ?thesis using assms(2,3) by (simp add: eval_threshold_def op_compare_Fin)
qed

lemma threshold_triggers_witness:
  "\<exists>val. eval_compiled plain_lib (KThreshold \<lparr>th_field = ''x'', th_op = ''>'', th_value = Fin 3\<rparr>)
     \<lparr>cx_now = 0, cx_helpers = None\<rparr> (Some [(''x'', GFloat64 (Fin 5))]) = Inr (True, val)"
  using threshold_triggers [of plain_lib "\<lparr>th_field = ''x'', th_op = ''>'', th_value = Fin 3\<rparr>"
      "KThreshold \<lparr>th_field = ''x'', th_op = ''>'', th_value = Fin 3\<rparr>" "[(''x'', GFloat64 (Fin 5))]" 5 3
      "\<lparr>cx_now = 0, cx_helpers = None\<rparr>"]
  by (simp add: compile_threshold_def op_validate_def numeric_field_def)

section \<open>JSON form of conditions\<close>

fun condition_strings :: "condition \<Rightarrow> string list" where
  "condition_strings (CThreshold t) = [th_field t, th_op t]"
| "condition_strings (CWindow w) = [wa_field w, wa_agg w, wa_op w]"
| "condition_strings (CPattern p) = [pm_field p, pm_kind p, pm_pattern p]"
| "condition_strings (CSql s) = [sq_data_source s, sq_query s]"
| "condition_strings (CExpr e) = [ex_expr e, ex_mode e]"

text \<open>Numbers a value of the Go types can have.\<close>

definition int64_ok :: "int \<Rightarrow> bool" where
  "int64_ok n \<longleftrightarrow> min_int64 \<le> n \<and> n \<le> max_int64"

definition f64_ok :: "f64 \<Rightarrow> bool" where
  "f64_ok x \<longleftrightarrow> (\<forall>q. x = Fin q \<longrightarrow> round64 q = Fin q)"

fun condition_numbers_ok :: "condition \<Rightarrow> bool" where
  "condition_numbers_ok (CThreshold t) \<longleftrightarrow> f64_ok (th_value t)"
| "condition_numbers_ok (CWindow w) \<longleftrightarrow> int64_ok (wa_window w) \<and> f64_ok (wa_value w)"
| "condition_numbers_ok (CSql s) \<longleftrightarrow> int64_ok (sq_min_rows s)"
| "condition_numbers_ok _ \<longleftrightarrow> True"

lemma to_lower_names [simp]:
  "to_lower ''field'' = ''field''" "to_lower ''op'' = ''op''" "to_lower ''value'' = ''value''"
  "to_lower ''agg'' = ''agg''" "to_lower ''window'' = ''window''" "to_lower ''kind'' = ''kind''"
  "to_lower ''pattern'' = ''pattern''" "to_lower ''data_source'' = ''data_source''"
  "to_lower ''query'' = ''query''" "to_lower ''min_rows'' = ''min_rows''"
  "to_lower ''expr'' = ''expr''" "to_lower ''mode'' = ''mode''" "to_lower ''type'' = ''type''"
  "to_lower ''spec'' = ''spec''"
  by (simp_all add: to_lower_def)

lemma json_get_int64: "int64_ok n \<Longrightarrow> json_get_int cur (JNum (of_int n)) = Inr n"
  by (simp add: int64_ok_def)

lemma json_of_f64_Inr: "json_of_f64 x = Inr j \<longleftrightarrow> (\<exists>q. x = Fin q \<and> j = JNum q)"
  by (cases x) auto

lemmas json_form =
  unmarshal_condition_def marshal_wrapped_def unmarshal_spec_def json_struct_def json_of_string_def
  wrapper_member_def Let_def

lemma condition_decodes:
  assumes "marshal_condition lib c = Inr j" and "\<forall>s \<in> set (condition_strings c). lib_utf8 lib s = s"
    and "condition_numbers_ok c"
  shows "unmarshal_condition lib (Some j) = Inr c"
proof (cases c)
  case (CThreshold t)
  then obtain q where "th_value t = Fin q" using assms(1)
    by (auto simp: res_map_def res_bind_Inr_iff json_of_f64_Inr)
  with CThreshold assms show ?thesis
    by (auto simp: json_form threshold_member_def f64_ok_def)
next
  case (CWindow w)
  then obtain q where "wa_value w = Fin q" using assms(1)
    by (auto simp: res_map_def res_bind_Inr_iff json_of_f64_Inr)
  with CWindow assms show ?thesis
    by (auto simp: json_form window_member_def f64_ok_def json_get_int64 simp del: json_get_int.simps)
next
  case (CPattern p)
  with assms show ?thesis by (auto simp: json_form pattern_member_def)
next
  case (CSql s)
  with assms show ?thesis
    by (auto simp: json_form sql_member_def json_get_int64 simp del: json_get_int.simps)
next
  case (CExpr e)
  with assms show ?thesis by (auto simp: json_form expression_member_def)
qed

text \<open>
  C12: Decoding the JSON form of a condition gives the condition back, for strings of valid
  UTF-8 and numbers of the Go types.
\<close>

theorem condition_json_roundtrip:
  assumes "marshal_condition lib c = Inr j" and "\<forall>s \<in> set (condition_strings c). lib_utf8 lib s = s"
    and "condition_numbers_ok c"
  shows "unmarshal_condition lib (Some j) = Inr c"
  using assms by (rule condition_decodes)

lemma condition_json_roundtrip_witness:
  "unmarshal_condition plain_lib (Some (marshal_wrapped ''sql_returns_rows''
     (JObj [(''data_source'', JStr ''db''), (''query'', JStr ''select 1''), (''min_rows'', JNum (of_int 3))]))) =
   Inr (CSql \<lparr>sq_data_source = ''db'', sq_query = ''select 1'', sq_min_rows = 3\<rparr>)"
  by (rule condition_json_roundtrip) (simp_all add: plain_lib_def json_of_string_def int64_ok_def
      min_int64_def max_int64_def)

section \<open>Validation\<close>

text \<open>
  A rule is accepted exactly when it has a name, an input, a condition, a known severity
  and, if its condition is evaluated on a timer, a positive schedule.
\<close>

theorem rule_validate_iff:
  "rule_validate r = Inr () \<longleftrightarrow> r_name r \<noteq> '''' \<and> r_input_ref r \<noteq> '''' \<and>
     (\<exists>c. r_condition r = Some c \<and> (condition_mode c = mode_push \<or> 0 < r_schedule r)) \<and>
     r_severity r \<in> {'''', ''info'', ''warning'', ''critical''}"
proof -
  have mode: "condition_mode c = mode_push \<longleftrightarrow> condition_mode c \<noteq> mode_scheduled" for c
    by (cases c) (simp_all add: expr_mode_of_def)
  show ?thesis
  proof (cases "r_condition r")
    case None
    then show ?thesis by (simp add: rule_validate_def)
  next
    case (Some c)
    then show ?thesis
      by (simp only: rule_validate_def option.case option.inject mode simp_thms ex_simps split: if_split)
        (simp add: not_le)
  qed
qed

text \<open>
  A subscription is accepted exactly when it names its subscriber and either a rule or a
  label selector, not both, and its durations are not negative.
\<close>

theorem subscription_validate_iff:
  "subscription_validate s = Inr () \<longleftrightarrow>
     su_subscriber_id s \<noteq> '''' \<and> (su_rule_id s = '''' \<longleftrightarrow> su_label_selector s \<noteq> []) \<and>
     0 \<le> su_dwell s \<and> 0 \<le> su_repeat_interval s"
  by (rule subscription_validate_ok_iff)

end
