(* ===== verification/Dispatch_Props.thy ===== *)
theory Dispatch_Props
  imports System_Inv Rule_Props
begin

text \<open>
  The properties of ticks on the SQLite driver in the reachable states of the system: what is
  sent, with and without failing calls, which incidents are open, and what stays.
\<close>

section \<open>Subscriptions of a tick\<close>

lemma distinct_split:
  assumes "distinct (map f xs)" and "\<And>x. A x \<Longrightarrow> B x \<Longrightarrow> False"
  shows "distinct (map f (filter A xs @ filter B xs))"
proof -
  have "f x \<noteq> f y" if "x \<in> set (filter A xs)" "y \<in> set (filter B xs)" for x y
  proof
    assume "f x = f y"
    then have "x = y" using that assms(1) by (auto simp: distinct_map inj_on_def)
    then show False using that assms(2) by auto
  qed
  then show ?thesis
    using assms(1) by (fastforce simp: distinct_map_filter)
qed

lemma view_subs_distinct:
  assumes "db_wf d"
  shows "distinct (map su_id (v_subs (lite_view d)))"
proof -
  have "map su_id (map scan_subscription rows) = map ur_id rows" for rows
    by (simp add: scan_subscription_def)
  then show ?thesis
    using assms by (simp add: lite_view_def db_wf_def tbl_unique_def distinct_map_filter del: map_map)
qed

lemma subs_distinct:
  assumes "db_wf d"
  shows "distinct (map su_id (subs_for_rule rid labels (v_subs (lite_view d))))"
  unfolding subs_for_rule_def by (rule distinct_split [OF view_subs_distinct [OF assms]]) auto

text \<open>What a tick in a state of the system should do, from the tables before it.\<close>

definition tick_plan ::
  "'s dispatcher \<Rightarrow> rule \<Rightarrow> bool \<Rightarrow> string \<Rightarrow> time \<Rightarrow> 's world \<Rightarrow> store_view
   \<Rightarrow> (subscription \<times> (string \<times> channel_notification) list) list" where
  "tick_plan d r triggered val now w v =
     (case tick_outcome d r triggered val now w v of (ls, t) \<Rightarrow>
        map (\<lambda>sub. (sub, plan d r ls t now v sub)) (subs_for_rule (r_id r) (r_labels r) (v_subs v)))"

lemma core_agree: "agree sid v (core_effect r ls t val now v)"
  by (simp add: agree_def)

lemma plan_after_core: "plan d r ls t now (core_effect r ls' t' val now' v) = plan d r ls t now v"
  by (intro ext plan_agree core_agree)

section \<open>Messages without failures\<close>

lemma tick_exact:
  assumes "d_store d = sqlite_store lib" and good: "good_ids d" and "r_id r \<noteq> ''''"
    and ag: "agreed d w" and wf: "db_wf (w_store w)"
    and run: "tick d r triggered val now w = (res, w')"
  shows "res = Inr () \<and> sent_messages w' =
    sent_messages w @ concat (map snd (tick_plan d r triggered val now w (lite_view (w_store w))))"
proof -
  let ?v = "lite_view (w_store w)"
  obtain ls t where out: "tick_outcome d r triggered val now w ?v = (ls, t)"
    by (cases "tick_outcome d r triggered val now w ?v")
  have lk: "live_keyed ?v" using ag by (simp add: agreed_def sys_inv_def)
  have known: "closes_known ls t" using tick_outcome_wf [OF lk good out] by simp
  have "healthy lite_ok lite_view d w" using ag by (simp add: agreed_def)
  from lite.tick_ok [OF assms(1) good assms(3) out known this] run
  obtain w2 where res: "res = Inr ()"
    and at: "at_view lite_view w (ids_drawn r triggered ?v) (core_effect r ls t val now ?v) w2"
    and loop: "chain (step_full lite_view d r ls t now) (subs_for_rule (r_id r) (r_labels r) (v_subs ?v)) w2 w'"
    by (auto simp: op_wp_def)
  have "sent_messages w' = sent_messages w2 @ concat (map (plan d r ls t now (lite_view (w_store w2)))
      (subs_for_rule (r_id r) (r_labels r) (v_subs ?v)))"
    by (rule chain_full_sent [OF loop subs_distinct [OF wf]]) simp
  then show ?thesis
    using res at at_view_sent [OF at]
    by (simp add: at_view_def plan_after_core tick_plan_def out comp_def)
qed

text \<open>
  C3: With a working database, a tick in any reachable state succeeds and sends exactly the
  messages of the decision table, subscription by subscription in the order they are listed.
\<close>

theorem tick_sends_plan:
  assumes "reachable lib d dbs [] s" and "d_store d = sqlite_store lib" and "good_ids d" and "r_id r \<noteq> ''''"
  shows "fst (tick d r triggered val now (sy_world s)) = Inr () \<and>
    sent_messages (snd (tick d r triggered val now (sy_world s))) = sent_messages (sy_world s) @
      concat (map snd (tick_plan d r triggered val now (sy_world s) (lite_view (sys_db s))))"
  unfolding sys_db_def
  by (rule tick_exact [OF assms(2-4) reachable_agreed [OF assms(1-3)] _ surjective_pairing])
    (use reachable_ordered [OF assms(1-3)] in \<open>simp add: sound_def sys_db_def\<close>)

section \<open>Messages with failures\<close>

lemma tick_within:
  assumes "d_store d = sqlite_store lib" and good: "good_ids d" and "r_id r \<noteq> ''''"
    and lk: "live_keyed (lite_view (w_store w))" and wf: "db_wf (w_store w)"
    and run: "tick d r triggered val now w = (res, w')"
  shows "\<exists>mss. sent_messages w' = sent_messages w @ concat mss \<and>
    list_all2 (\<lambda>(sub, ms) ms'. ms' = [] \<or> ms' = ms)
      (tick_plan d r triggered val now w (lite_view (w_store w))) mss"
proof -
  let ?v = "lite_view (w_store w)"
  let ?subs = "subs_for_rule (r_id r) (r_labels r) (v_subs ?v)"
  obtain ls t where out: "tick_outcome d r triggered val now w ?v = (ls, t)"
    by (cases "tick_outcome d r triggered val now w ?v")
  have known: "closes_known ls t" using tick_outcome_wf [OF lk good out] by simp
  have silent: ?thesis if "sent_messages w' = sent_messages w"
  proof (intro exI conjI)
    let ?mss = "map (\<lambda>_. []) (tick_plan d r triggered val now w ?v)"
    show "sent_messages w' = sent_messages w @ concat ?mss" using that by simp
    show "list_all2 (\<lambda>(sub, ms) ms'. ms' = [] \<or> ms' = ms) (tick_plan d r triggered val now w ?v) ?mss"
      by (simp add: list_all2_conv_all_nth case_prod_beta)
  qed
  note eff = op_wpD [OF lite.tick_effect [OF assms(1,3) out known] run]
  show ?thesis
  proof (cases res)
    case (Inl e)
    then show ?thesis using eff by (intro silent) (auto dest: at_view_sent)
  next
    case (Inr u)
    with eff obtain w1 where at: "at_view lite_view w (ids_drawn r triggered ?v) (core_effect r ls t val now ?v) w1"
      and loop: "chain (step_any lite_view d r ls t now) ?subs w1 w'" by auto
    obtain mss where "sent_messages w' = sent_messages w1 @ concat mss"
      "list_all2 (\<lambda>sub ms. ms = [] \<or> ms = plan d r ls t now (lite_view (w_store w1)) sub) ?subs mss"
      using chain_sent [OF loop subs_distinct [OF wf]] by auto
    then show ?thesis
      using at at_view_sent [OF at]
      by (auto simp: at_view_def plan_after_core tick_plan_def out list_all2_map1)
  qed
qed

text \<open>
  C4: Whatever calls of the database and whatever sends fail, each subscription gets all the
  messages the decision table plans for it, in order, or none; nothing else is sent.
\<close>

theorem tick_sends_within_plan:
  assumes "reachable lib d dbs faults s" and "d_store d = sqlite_store lib" and "good_ids d" and "r_id r \<noteq> ''''"
  shows "\<exists>mss. sent_messages (snd (tick d r triggered val now (sy_world s))) =
      sent_messages (sy_world s) @ concat mss \<and>
    list_all2 (\<lambda>(sub, ms) ms'. ms' = [] \<or> ms' = ms)
      (tick_plan d r triggered val now (sy_world s) (lite_view (sys_db s))) mss"
proof -
  have so: "ordered d (sy_world s)" "db_wf (w_store (sy_world s))"
    using reachable_ordered [OF assms(1-3)] by (auto simp: sound_def sys_db_def)
  have "live_keyed (lite_view (w_store (sy_world s)))"
    using so(1) by (simp add: ordered_def fault_inv_def Let_def)
  from tick_within [OF assms(2-4) this so(2) surjective_pairing] show ?thesis
    unfolding sys_db_def .
qed

section \<open>Reasons for a message\<close>






section \<open>Incidents\<close>

text \<open>
  With a working database, a tick leaves its rule with one open incident when it fired,
  the one it had or else a new one, and with none when it did not; the open incidents of the
  other rules are as before.
\<close>

theorem tick_open_incidents:
  assumes "reachable lib d dbs [] s" and "d_store d = sqlite_store lib" and "good_ids d" and "r_id r \<noteq> ''''"
    and "0 \<le> now"
  shows "open_incidents (lite_view (w_store (snd (tick d r triggered val now (sy_world s))))) rid =
    (if rid \<noteq> r_id r then open_incidents (lite_view (sys_db s)) rid
     else if \<not> triggered then {}
     else if open_incidents (lite_view (sys_db s)) rid \<noteq> {} then open_incidents (lite_view (sys_db s)) rid
     else {d_id d (w_ids (sy_world s))})"
proof -
  let ?w = "sy_world s" and ?v = "lite_view (sys_db s)"
  obtain res w' where run: "tick d r triggered val now ?w = (res, w')" by fastforce
  have ag: "agreed d ?w" by (rule reachable_agreed [OF assms(1-3)])
  then have inv: "sys_inv ?v" and lk: "live_keyed ?v" and h: "healthy lite_ok lite_view d ?w"
    by (auto simp: agreed_def sys_inv_def sys_db_def)
  obtain ls t where out: "tick_outcome d r triggered val now ?w ?v = (ls, t)"
    by (cases "tick_outcome d r triggered val now ?w ?v")
  have known: "closes_known ls t" and wf: "ls_rule_id ls = r_id r"
    using tick_outcome_wf [OF lk assms(3) out] by auto
  from op_wpD [OF lite.tick_ok [OF assms(2-4) out [unfolded sys_db_def] known h] run]
  obtain w2 where at: "at_view lite_view ?w (ids_drawn r triggered ?v) (core_effect r ls t val now ?v) w2"
    and loop: "chain (step_full lite_view d r ls t now) (subs_for_rule (r_id r) (r_labels r) (v_subs ?v)) w2 w'"
    unfolding sys_db_def by auto
  have "same_core (lite_view (w_store w2)) (lite_view (w_store w'))"
    using chain_same_core [OF chain_mono [OF loop step_full_any]] by blast
  then have live: "live_of (lite_view (w_store w')) rid = (if rid = r_id r then norm_live ls else live_of ?v rid)"
    using at by (simp add: same_core_def at_view_def live_of_def wf)
  have inv': "sys_inv (lite_view (w_store w'))"
    using op_wpD [OF lite.tick_sys_inv [OF assms(2-5) h] run] inv by (simp add: sys_db_def)
  show ?thesis
    using lk assms(3) out unfolding run snd_conv
    by (cases rule: tick_outcome_cases) (use inv inv' live in \<open>auto simp: sys_inv_def\<close>)
qed

text \<open>
  An evaluation error is recorded and nothing else: it sends nothing, and opens and
  resolves no incident, whatever fails.
\<close>

theorem eval_error_records_only:
  assumes "reachable lib d dbs faults s" and "d_store d = sqlite_store lib" and "good_ids d"
  shows "w_sent (snd (record_eval_error d r e now (sy_world s))) = w_sent (sy_world s) \<and>
    t_incidents (w_store (snd (record_eval_error d r e now (sy_world s)))) = t_incidents (sys_db s) \<and>
    t_notifications (w_store (snd (record_eval_error d r e now (sy_world s)))) = t_notifications (sys_db s)"
proof -
  have "ordered d (sy_world s)"
    using reachable_ordered [OF assms(1-3)] by (simp add: sound_def)
  then have sent: "w_sent (snd (record_eval_error d r e now (sy_world s))) = w_sent (sy_world s)"
    using lite.record_error_fault_inv [OF assms(2,3)] by (simp add: ordered_def)
  have keep: "op_keeps (\<lambda>d. t_incidents d = I \<and> t_notifications d = N) (lite_live_get i)"
    "op_keeps (\<lambda>d. t_incidents d = I \<and> t_notifications d = N) (lite_live_upsert x)" for I N i x
    by (auto simp: lite_live_get_def lite_live_upsert_def faultless_def same_tablesD
        intro!: query_keeps exec_keeps)
  show ?thesis
    using sent keep [of "t_incidents (sys_db s)" "t_notifications (sys_db s)"]
    by (auto simp: record_eval_error_def assms(2) on_store_def op_logged_def Let_def op_keeps_def sys_db_def
        split: prod.splits sum.splits) (metis snd_conv)+
qed

section \<open>An example\<close>

text \<open>One subscriber with one binding, subscribed to rule \<open>r\<close>, which fires.\<close>

definition sample_dispatcher :: "db dispatcher" where
  "sample_dispatcher = \<lparr>d_store = sqlite_store plain_lib,
     d_channels = (\<lambda>c. if c = ''hook'' then Some (\<lambda>_ _. None) else None),
     d_id = (\<lambda>n. replicate (Suc n) CHR ''i'')\<rparr>"

definition sample_subscriber :: subscriber where
  "sample_subscriber = \<lparr>sb_id = ''b'', sb_name = ''ann'',
     sb_channels = [\<lparr>cb_channel = ''hook'', cb_address = ''url''\<rparr>], sb_created_at = 0, sb_updated_at = 0\<rparr>"

definition sample_subscription :: subscription where
  "sample_subscription = \<lparr>su_id = ''u'', su_subscriber_id = ''b'', su_rule_id = ''r'', su_label_selector = [],
     su_dwell = 0, su_repeat_interval = 0, su_notify_on_resolve = False, su_one_shot = False,
     su_channel_filter = [], su_created_at = 0, su_updated_at = 0\<rparr>"

definition sample_rule :: rule where
  "sample_rule = \<lparr>r_id = ''r'', r_name = ''n'', r_description = [], r_enabled = True, r_severity = ''info'',
     r_labels = [], r_input_ref = ''in'',
     r_condition = Some (CThreshold \<lparr>th_field = ''x'', th_op = ''>'', th_value = Fin 3\<rparr>), r_schedule = 0,
     r_created_at = 0, r_updated_at = 0\<rparr>"

definition sample_state :: sys where
  "sample_state =
     (let s0 = sys_init [] 100;
          s1 = with_db (snd (lite_subscriber_create plain_lib 0 sample_subscriber (sys_db s0))) s0
      in with_db (snd (lite_subscription_create plain_lib 0 sample_subscription (sys_db s1))) s1)"

lemma sample_good [simp]:
  "good_ids sample_dispatcher" "d_store sample_dispatcher = sqlite_store plain_lib" "r_id sample_rule \<noteq> []"
  by (auto simp: good_ids_def inj_def sample_dispatcher_def sample_rule_def dest: arg_cong [where f = length])

lemma reachable_admin:
  "reachable lib d dbs faults s \<Longrightarrow> admin_call lib f \<Longrightarrow> reachable lib d dbs faults (with_db (f (sys_db s)) s)"
  by (blast intro: reachable.step sys_step.admin)

lemma sample_reachable: "reachable plain_lib sample_dispatcher (\<lambda>_. None) [] sample_state"
  unfolding sample_state_def Let_def
  by (rule reachable_admin [OF reachable_admin [OF reachable.start admin_call.subscriber_create]
        admin_call.subscription_create])

lemma sample_json:
  "labels_of_json (json_of_labels plain_lib []) = []" "strings_of_json (json_of_strings plain_lib []) = []"
  "bindings_of_json (json_of_bindings plain_lib [\<lparr>cb_channel = ''hook'', cb_address = ''url''\<rparr>]) =
     [\<lparr>cb_channel = ''hook'', cb_address = ''url''\<rparr>]"
  "bool_int False = 0" "of_unix_milli (unix_milli 0) = 0"
  by (simp_all add: json_of_labels_def labels_of_json_def json_of_strings_def strings_of_json_def
      json_of_bindings_def bindings_of_json_def json_of_binding_def binding_of_json_def plain_lib_def
      json_of_string_def bool_int_def of_unix_milli_def unix_milli_def binding_member_def json_struct_def
      to_lower_def)

lemma sample_tables:
  "t_live (sys_db sample_state) = []" "t_incidents (sys_db sample_state) = []"
  "t_notifications (sys_db sample_state) = []" "t_sub_states (sys_db sample_state) = []"
  "sent_messages (sy_world sample_state) = []" "w_ids (sy_world sample_state) = 0"
  "v_subs (lite_view (sys_db sample_state)) = [sample_subscription]"
  "v_subscriber (lite_view (sys_db sample_state)) ''b'' = Some sample_subscriber"
  by (simp_all add: sample_state_def Let_def sys_init_def sys_db_def with_db_def lite_subscriber_create_def
      lite_subscription_create_def op_bind_def db_exec_no_fault empty_db_def sql_insert_def sent_messages_def
      lite_view_def sample_subscriber_def sample_subscription_def subscription_to_row_def scan_subscription_def
      scan_subscriber_def zero_time_def nullable_def from_null_def sample_json)

lemma sample_view:
  "v_live (lite_view (sys_db sample_state)) = (\<lambda>_. None)"
  "v_sub_state (lite_view (sys_db sample_state)) = (\<lambda>_ _. None)"
  "v_notifs (lite_view (sys_db sample_state)) = []"
  "open_incidents (lite_view (sys_db sample_state)) rid = {}"
  by (simp_all add: lite_view_def sample_tables scan_opt_def open_incidents_def fun_eq_iff)

definition sample_message :: "string \<times> channel_notification" where
  "sample_message = (''hook'', \<lparr>cn_incident_id = ''i'', cn_rule_id = ''r'', cn_rule_name = ''n'',
     cn_severity = ''info'', cn_description = [], cn_value = ''5'', cn_kind = kind_firing,
     cn_address = ''url'', cn_now = 7, cn_triggered_at = 7\<rparr>)"

lemma sample_plan:
  "tick_plan sample_dispatcher sample_rule True ''5'' 7 (sy_world sample_state) (lite_view (sys_db sample_state)) =
     [(sample_subscription, [sample_message])]"
proof -
  have out: "tick_outcome sample_dispatcher sample_rule True ''5'' 7 (sy_world sample_state) (lite_view (sys_db sample_state)) =
      apply_outcome (fresh_live_state ''r'') True ''5'' 7 ''i''"
    by (simp add: tick_outcome_def new_incident_id_def live_before_def sample_view sample_tables
        sample_rule_def sample_dispatcher_def)
  have subs: "subs_for_rule (r_id sample_rule) (r_labels sample_rule) [sample_subscription] = [sample_subscription]"
    by (simp add: subs_for_rule_def sample_rule_def sample_subscription_def)
  show ?thesis
    by (simp add: tick_plan_def out subs sample_tables apply_outcome_open plan_def decision_for_def decide_def
        tr_closed_def subject_incident_def notified_before_def sample_view)
      (simp add: sample_subscription_def messages_def one_shot_spent_def sample_tables eligible_def
        sample_subscriber_def sample_dispatcher_def payload_def sample_rule_def sample_message_def time_sub_def
        min_int64_def max_int64_def)
qed

lemma tick_sends_plan_witness:
  "sent_messages (snd (tick sample_dispatcher sample_rule True ''5'' 7 (sy_world sample_state))) = [sample_message]"
  using tick_sends_plan [OF sample_reachable sample_good(2,1,3), of True "''5''" 7]
  by (simp add: sample_plan sample_tables)

lemma tick_sends_within_plan_witness:
  "\<exists>ms. sent_messages (snd (tick sample_dispatcher sample_rule True ''5'' 7 (sy_world sample_state))) = ms \<and>
     (ms = [] \<or> ms = [sample_message])"
  using tick_sends_within_plan [OF sample_reachable sample_good(2,1,3), of True "''5''" 7]
  by (auto simp: sample_plan sample_tables list_all2_Cons1)


lemma tick_open_incidents_witness:
  "open_incidents (lite_view (w_store (snd (tick sample_dispatcher sample_rule True ''5'' 7 (sy_world sample_state))))) ''r'' =
     {''i''}"
  using tick_open_incidents [OF sample_reachable sample_good(2,1,3), of 7 True "''5''" "''r''"]
  by (simp add: sample_view sample_tables) (simp add: sample_rule_def sample_dispatcher_def)

lemma eval_error_records_only_witness:
  "t_incidents (w_store (snd (record_eval_error sample_dispatcher sample_rule IoEOF 7 (sy_world sample_state)))) = []"
  using eval_error_records_only [OF sample_reachable sample_good(2,1)] by (simp add: sample_tables)

end
