(* ===== verification/Eval_Props.thy ===== *)
theory Eval_Props
  imports Rule_Props
begin

text \<open>The properties of windows and of the two evaluators.\<close>

section \<open>Windows\<close>

text \<open>The helpers that read the whole history instead of the pruned buffers.\<close>

definition history_helpers :: "string \<Rightarrow> time \<Rightarrow> (string \<Rightarrow> sample list) \<Rightarrow> helper_fns" where
  "history_helpers input_ref now h =
     (let get = (\<lambda>fld win. window_of (h (sample_key input_ref fld)) now win)
      in \<lparr>h_avg_over = (\<lambda>f d. avg_over (get f d)), h_count_over = (\<lambda>f d. count_over (get f d)),
          h_min_over = (\<lambda>f d. min_over (get f d)), h_max_over = (\<lambda>f d. max_over (get f d)),
          h_sum_over = (\<lambda>f d. sum_over (get f d)), h_regex = record_regex_match\<rparr>)"

text \<open>
  C9: A window rule sees everything that was observed: after any observations and reads whose
  clock does not go back, a rule whose window is shorter than the retained span has the outcome
  it would have on the complete history, although old samples were dropped.
\<close>

theorem window_rule_sees_history:
  assumes "clocks_from t es" and "last_clock t es \<le> now" and "wa_window w < max_span"
    and "cr_compiled c = Some (KWindow w)"
  shows "scheduled_outcome lib dbs (run_events es (new_window_buffers max_span)) now c =
    eval_window lib w \<lparr>cx_now = now,
      cx_helpers = Some (history_helpers (r_input_ref (cr_rule c)) now (history es))\<rparr>"
proof -
  let ?wb = "run_events es (new_window_buffers max_span)"
  have read: "fst (samples i f (wa_window w) now now ?wb) = window_of (history es (sample_key i f)) now (wa_window w)"
    for i f
    using samples_eq_window [OF buffer_inv_run [OF assms(1)] assms(2) order_refl] assms(3)
    by (simp add: new_window_buffers_def)
  show ?thesis
    by (simp add: scheduled_outcome_def assms(4) eval_window_def window_value_def bound_helpers_def
        history_helpers_def Let_def read)
qed

definition sample_window_rule :: compiled_rule where
  "sample_window_rule =
     \<lparr>cr_rule = \<lparr>r_id = ''r'', r_name = ''r'', r_description = [], r_enabled = True, r_severity = [],
         r_labels = [], r_input_ref = ''in'', r_condition = None, r_schedule = 1, r_created_at = 0,
         r_updated_at = 0\<rparr>,
      cr_compiled = Some (KWindow \<lparr>wa_field = ''x'', wa_agg = ''min'', wa_window = 20, wa_op = ''>'', wa_value = Fin 3\<rparr>)\<rparr>"

definition sample_events :: "window_event list" where
  "sample_events = [WObserve ''in'' [(''x'', GFloat64 (Fin 1))] 5 5, WObserve ''in'' [(''x'', GFloat64 (Fin 7))] 90 90]"

lemma window_rule_sees_history_witness:
  "scheduled_outcome plain_lib (\<lambda>_. None) (run_events sample_events (new_window_buffers 50)) 100
     sample_window_rule = Inr (True, ''min(x,d)=v > v'')"
proof -
  have h: "history sample_events ''in/x'' = [\<lparr>sm_at = 5, sm_v = Fin 1\<rparr>, \<lparr>sm_at = 90, sm_v = Fin 7\<rparr>]"
    by (simp add: history_def sample_events_def sample_key_def)
  show ?thesis
    using window_rule_sees_history [of 0 sample_events 100
        "\<lparr>wa_field = ''x'', wa_agg = ''min'', wa_window = 20, wa_op = ''>'', wa_value = Fin 3\<rparr>" 50
        sample_window_rule plain_lib "\<lambda>_. None"]
    by (simp add: sample_window_rule_def sample_events_def [THEN arg_cong [where f = "clocks_from 0"]]
        sample_events_def [THEN arg_cong [where f = "last_clock 0"]] eval_window_def window_value_def
        history_helpers_def h window_of_def sample_key_def min_over_def op_compare_def plain_lib_def)
qed

text \<open>
  The minimum and the maximum of a window without NaN are values of samples in it, and no
  sample is below or above them.
\<close>

theorem window_extremes:
  assumes "\<forall>s \<in> set ss. sm_v s \<noteq> NaN" and "min_over ss = (lo, True)" and "max_over ss = (hi, True)"
  shows "lo \<in> sm_v ` set ss \<and> hi \<in> sm_v ` set ss \<and>
    (\<forall>s \<in> set ss. \<not> f_less (sm_v s) lo \<and> \<not> f_less hi (sm_v s))"
  using min_over_least [OF assms(1,2)] max_over_greatest [OF assms(1,3)] by blast

lemma window_extremes_witness:
  "Fin 2 \<in> sm_v ` set [\<lparr>sm_at = 1, sm_v = Fin 4\<rparr>, \<lparr>sm_at = 2, sm_v = Fin 2\<rparr>]"
  using window_extremes [of "[\<lparr>sm_at = 1, sm_v = Fin 4\<rparr>, \<lparr>sm_at = 2, sm_v = Fin 2\<rparr>]" "Fin 2" "Fin 4"]
  by (simp add: min_over_def max_over_def)

section \<open>Schedules\<close>









end
