(* ===== verification/Api_Codec.thy ===== *)
theory Api_Codec
  imports Engine Auth_Token
begin

text \<open>
  The wire forms of internal/api: decoding of request bodies (decodeJSON refuses unknown
  fields), the payload structs with their conversions to and from the stored types, and the
  query parameters. A body is the outcome of reading one JSON value from it. Field names are
  compared up to the case of ASCII letters.
\<close>

section \<open>Decoding\<close>

definition unknown_field :: "string \<Rightarrow> go_error" where
  "unknown_field k = ErrNew (''json: unknown field '' @ [CHR 34] @ k @ [CHR 34])"

definition decode_json ::
  "('a \<Rightarrow> string \<Rightarrow> json \<Rightarrow> 'a result) \<Rightarrow> 'a \<Rightarrow> json result \<Rightarrow> 'a result" where
  "decode_json f z body = res_bind body (json_struct f z)"

fun json_get_bool :: "bool \<Rightarrow> json \<Rightarrow> bool result" where
  "json_get_bool cur JNull = Inr cur"
| "json_get_bool cur (JBool b) = Inr b"
| "json_get_bool cur _ = Inl json_type_error"

text \<open>A member of an object adds to the map the target holds; null makes it nil.\<close>

fun json_get_labels :: "(string \<times> string) list \<Rightarrow> json \<Rightarrow> (string \<times> string) list result" where
  "json_get_labels cur JNull = Inr []"
| "json_get_labels cur (JObj ms) =
     json_members (\<lambda>m k v. res_map (\<lambda>s. tbl_upsert fst (k, s) m) (json_get_string '''' v)) cur ms"
| "json_get_labels cur _ = Inl json_type_error"

text \<open>A value of type any: numbers are float64, of equal keys the last one wins.\<close>

fun gval_of_json :: "json \<Rightarrow> gval result"
  and gval_list_of_json :: "json list \<Rightarrow> gval list result"
  and gval_members_of_json :: "(string \<times> gval) list \<Rightarrow> (string \<times> json) list \<Rightarrow> (string \<times> gval) list result" where
  "gval_of_json JNull = Inr GNil"
| "gval_of_json (JBool b) = Inr (GBool b)"
| "gval_of_json (JNum q) = res_map GFloat64 (json_get_float (Fin 0) (JNum q))"
| "gval_of_json (JStr s) = Inr (GStr s)"
| "gval_of_json (JArr js) = res_map GList (gval_list_of_json js)"
| "gval_of_json (JObj ms) = res_map GMap (gval_members_of_json [] ms)"
| "gval_list_of_json [] = Inr []"
| "gval_list_of_json (j # js) =
     res_bind (gval_of_json j) (\<lambda>v. res_map (\<lambda>vs. v # vs) (gval_list_of_json js))"
| "gval_members_of_json m [] = Inr m"
| "gval_members_of_json m ((k, j) # ms) =
     res_bind (gval_of_json j) (\<lambda>v. gval_members_of_json (tbl_upsert fst (k, v) m) ms)"

fun json_get_record :: "grecord option \<Rightarrow> json \<Rightarrow> grecord option result" where
  "json_get_record cur JNull = Inr None"
| "json_get_record cur (JObj ms) =
     res_map Some (gval_members_of_json (case cur of None \<Rightarrow> [] | Some m \<Rightarrow> m) ms)"
| "json_get_record cur _ = Inl json_type_error"

section \<open>Durations\<close>

text \<open>Duration.Seconds divides towards zero; a payload's seconds are scaled and truncated.\<close>

definition go_quot :: "int \<Rightarrow> int \<Rightarrow> int" where
  "go_quot a b = sgn a * (\<bar>a\<bar> div b)"

definition go_rem :: "int \<Rightarrow> int \<Rightarrow> int" where
  "go_rem a b = sgn a * (\<bar>a\<bar> mod b)"

definition dur_seconds :: "duration \<Rightarrow> f64" where
  "dur_seconds d =
     f_add (f64_of_int (go_quot d second)) (f_div_pos (f64_of_int (go_rem d second)) (Fin 1000000000))"

definition seconds_dur :: "golib \<Rightarrow> f64 \<Rightarrow> duration" where
  "seconds_dur lib x = f64_to_int64 (lib_f2i lib) (f_scale x 1000000000)"

section \<open>Events\<close>

record event_payload =
  ep_input_ref :: string
  ep_record :: "grecord option"

definition event_member :: "event_payload \<Rightarrow> string \<Rightarrow> json \<Rightarrow> event_payload result" where
  "event_member p k v = (let n = to_lower k in
     if n = ''input_ref'' then res_map (\<lambda>s. p\<lparr>ep_input_ref := s\<rparr>) (json_get_string (ep_input_ref p) v)
     else if n = ''record'' then res_map (\<lambda>m. p\<lparr>ep_record := m\<rparr>) (json_get_record (ep_record p) v)
     else Inl (unknown_field k))"

section \<open>Rules\<close>

record rule_payload =
  rp_id :: string
  rp_name :: string
  rp_description :: string
  rp_enabled :: bool
  rp_severity :: string
  rp_labels :: "(string \<times> string) list"
  rp_input_ref :: string
  rp_condition :: "json option"
  rp_schedule_sec :: f64

definition empty_rule_payload :: rule_payload where
  "empty_rule_payload = \<lparr>rp_id = '''', rp_name = '''', rp_description = '''', rp_enabled = False,
     rp_severity = '''', rp_labels = [], rp_input_ref = '''', rp_condition = None,
     rp_schedule_sec = Fin 0\<rparr>"

definition rule_member :: "rule_payload \<Rightarrow> string \<Rightarrow> json \<Rightarrow> rule_payload result" where
  "rule_member p k v = (let n = to_lower k in
     if n = ''id'' then res_map (\<lambda>s. p\<lparr>rp_id := s\<rparr>) (json_get_string (rp_id p) v)
     else if n = ''name'' then res_map (\<lambda>s. p\<lparr>rp_name := s\<rparr>) (json_get_string (rp_name p) v)
     else if n = ''description''
       then res_map (\<lambda>s. p\<lparr>rp_description := s\<rparr>) (json_get_string (rp_description p) v)
     else if n = ''enabled'' then res_map (\<lambda>b. p\<lparr>rp_enabled := b\<rparr>) (json_get_bool (rp_enabled p) v)
     else if n = ''severity'' then res_map (\<lambda>s. p\<lparr>rp_severity := s\<rparr>) (json_get_string (rp_severity p) v)
     else if n = ''labels'' then res_map (\<lambda>m. p\<lparr>rp_labels := m\<rparr>) (json_get_labels (rp_labels p) v)
     else if n = ''input_ref''
       then res_map (\<lambda>s. p\<lparr>rp_input_ref := s\<rparr>) (json_get_string (rp_input_ref p) v)
     else if n = ''condition'' then Inr (p\<lparr>rp_condition := Some v\<rparr>)
     else if n = ''schedule_seconds''
       then res_map (\<lambda>x. p\<lparr>rp_schedule_sec := x\<rparr>) (json_get_float (rp_schedule_sec p) v)
     else Inl (unknown_field k))"

text \<open>\<open>uuid\<close> is the value uuid.NewString gives when the payload has no id.\<close>

definition to_rule :: "golib \<Rightarrow> string \<Rightarrow> rule_payload \<Rightarrow> rule result" where
  "to_rule lib uuid p =
     res_bind (res_wrap ''condition'' (unmarshal_condition lib (rp_condition p))) (\<lambda>cond.
       let r = \<lparr>r_id = rp_id p, r_name = rp_name p, r_description = rp_description p,
                r_enabled = rp_enabled p, r_severity = rp_severity p, r_labels = rp_labels p,
                r_input_ref = rp_input_ref p, r_condition = Some cond,
                r_schedule = seconds_dur lib (rp_schedule_sec p),
                r_created_at = zero_time, r_updated_at = zero_time\<rparr>;
           r1 = (if r_id r = '''' then r\<lparr>r_id := uuid\<rparr> else r);
           r2 = (if r_severity r1 = '''' then r1\<lparr>r_severity := ''info''\<rparr> else r1)
       in Inr r2)"

text \<open>
  The error of MarshalCondition is dropped, which leaves the raw condition empty; the rules
  that reach it come with a condition.
\<close>

definition rule_to_payload :: "golib \<Rightarrow> rule \<Rightarrow> rule_payload" where
  "rule_to_payload lib r =
     \<lparr>rp_id = r_id r, rp_name = r_name r, rp_description = r_description r,
      rp_enabled = r_enabled r, rp_severity = r_severity r, rp_labels = r_labels r,
      rp_input_ref = r_input_ref r,
      rp_condition = (case r_condition r of
          None \<Rightarrow> None
        | Some c \<Rightarrow> (case marshal_condition lib c of Inl _ \<Rightarrow> None | Inr j \<Rightarrow> Some j)),
      rp_schedule_sec = dur_seconds (r_schedule r)\<rparr>"

section \<open>Subscribers\<close>

text \<open>The stored type is the wire type; \<open>parse_time\<close> is time.Time.UnmarshalJSON on a string.\<close>

definition json_get_time :: "(string \<Rightarrow> time result) \<Rightarrow> time \<Rightarrow> json \<Rightarrow> time result" where
  "json_get_time parse_time cur j =
     (case j of JNull \<Rightarrow> Inr cur | JStr s \<Rightarrow> parse_time s
      | _ \<Rightarrow> Inl (ErrNew ''Time.UnmarshalJSON: input is not a JSON string''))"

definition binding_field :: "channel_binding \<Rightarrow> string \<Rightarrow> json \<Rightarrow> channel_binding result" where
  "binding_field b k v = (let n = to_lower k in
     if n = ''channel'' then res_map (\<lambda>s. b\<lparr>cb_channel := s\<rparr>) (json_get_string (cb_channel b) v)
     else if n = ''address'' then res_map (\<lambda>s. b\<lparr>cb_address := s\<rparr>) (json_get_string (cb_address b) v)
     else Inl (unknown_field k))"

definition json_get_bindings :: "json \<Rightarrow> channel_binding list result" where
  "json_get_bindings j =
     (case j of
        JNull \<Rightarrow> Inr []
      | JArr js \<Rightarrow> res_list (map (json_struct binding_field \<lparr>cb_channel = '''', cb_address = ''''\<rparr>) js)
      | _ \<Rightarrow> Inl json_type_error)"

definition empty_subscriber :: subscriber where
  "empty_subscriber = \<lparr>sb_id = '''', sb_name = '''', sb_channels = [],
     sb_created_at = zero_time, sb_updated_at = zero_time\<rparr>"

definition subscriber_member ::
  "(string \<Rightarrow> time result) \<Rightarrow> subscriber \<Rightarrow> string \<Rightarrow> json \<Rightarrow> subscriber result" where
  "subscriber_member parse_time s k v = (let n = to_lower k in
     if n = ''id'' then res_map (\<lambda>x. s\<lparr>sb_id := x\<rparr>) (json_get_string (sb_id s) v)
     else if n = ''name'' then res_map (\<lambda>x. s\<lparr>sb_name := x\<rparr>) (json_get_string (sb_name s) v)
     else if n = ''channels'' then res_map (\<lambda>x. s\<lparr>sb_channels := x\<rparr>) (json_get_bindings v)
     else if n = ''created_at''
       then res_map (\<lambda>x. s\<lparr>sb_created_at := x\<rparr>) (json_get_time parse_time (sb_created_at s) v)
     else if n = ''updated_at''
       then res_map (\<lambda>x. s\<lparr>sb_updated_at := x\<rparr>) (json_get_time parse_time (sb_updated_at s) v)
     else Inl (unknown_field k))"


section \<open>Subscriptions\<close>

record subscription_payload =
  sp_id :: string
  sp_subscriber_id :: string
  sp_rule_id :: string
  sp_label_selector :: "(string \<times> string) list"
  sp_dwell_sec :: f64
  sp_repeat_sec :: f64
  sp_notify_on_resolve :: bool
  sp_one_shot :: bool
  sp_channel_filter :: "string list"

definition empty_subscription_payload :: subscription_payload where
  "empty_subscription_payload = \<lparr>sp_id = '''', sp_subscriber_id = '''', sp_rule_id = '''',
     sp_label_selector = [], sp_dwell_sec = Fin 0, sp_repeat_sec = Fin 0,
     sp_notify_on_resolve = False, sp_one_shot = False, sp_channel_filter = []\<rparr>"

definition subscription_member ::
  "subscription_payload \<Rightarrow> string \<Rightarrow> json \<Rightarrow> subscription_payload result" where
  "subscription_member p k v = (let n = to_lower k in
     if n = ''id'' then res_map (\<lambda>s. p\<lparr>sp_id := s\<rparr>) (json_get_string (sp_id p) v)
     else if n = ''subscriber_id''
       then res_map (\<lambda>s. p\<lparr>sp_subscriber_id := s\<rparr>) (json_get_string (sp_subscriber_id p) v)
     else if n = ''rule_id'' then res_map (\<lambda>s. p\<lparr>sp_rule_id := s\<rparr>) (json_get_string (sp_rule_id p) v)
     else if n = ''label_selector''
       then res_map (\<lambda>m. p\<lparr>sp_label_selector := m\<rparr>) (json_get_labels (sp_label_selector p) v)
     else if n = ''dwell_seconds''
       then res_map (\<lambda>x. p\<lparr>sp_dwell_sec := x\<rparr>) (json_get_float (sp_dwell_sec p) v)
     else if n = ''repeat_interval_seconds''
       then res_map (\<lambda>x. p\<lparr>sp_repeat_sec := x\<rparr>) (json_get_float (sp_repeat_sec p) v)
     else if n = ''notify_on_resolve''
       then res_map (\<lambda>b. p\<lparr>sp_notify_on_resolve := b\<rparr>) (json_get_bool (sp_notify_on_resolve p) v)
     else if n = ''one_shot''
       then res_map (\<lambda>b. p\<lparr>sp_one_shot := b\<rparr>) (json_get_bool (sp_one_shot p) v)
     else if n = ''channel_filter''
       then res_map (\<lambda>xs. p\<lparr>sp_channel_filter := xs\<rparr>) (json_get_strings v)
     else Inl (unknown_field k))"

definition to_subscription :: "golib \<Rightarrow> string \<Rightarrow> subscription_payload \<Rightarrow> subscription" where
  "to_subscription lib uuid p =
     (let s = \<lparr>su_id = sp_id p, su_subscriber_id = sp_subscriber_id p, su_rule_id = sp_rule_id p,
               su_label_selector = sp_label_selector p, su_dwell = seconds_dur lib (sp_dwell_sec p),
               su_repeat_interval = seconds_dur lib (sp_repeat_sec p),
               su_notify_on_resolve = sp_notify_on_resolve p, su_one_shot = sp_one_shot p,
               su_channel_filter = sp_channel_filter p,
               su_created_at = zero_time, su_updated_at = zero_time\<rparr>
      in if su_id s = '''' then s\<lparr>su_id := uuid\<rparr> else s)"

definition subscription_to_payload :: "subscription \<Rightarrow> subscription_payload" where
  "subscription_to_payload s =
     \<lparr>sp_id = su_id s, sp_subscriber_id = su_subscriber_id s, sp_rule_id = su_rule_id s,
      sp_label_selector = su_label_selector s, sp_dwell_sec = dur_seconds (su_dwell s),
      sp_repeat_sec = dur_seconds (su_repeat_interval s),
      sp_notify_on_resolve = su_notify_on_resolve s, sp_one_shot = su_one_shot s,
      sp_channel_filter = su_channel_filter s\<rparr>"

section \<open>Query parameters\<close>

text \<open>strconv.Atoi: an optional sign and decimal digits, in the range of an int64.\<close>

definition is_digit :: "char \<Rightarrow> bool" where
  "is_digit c \<longleftrightarrow> CHR ''0'' \<le> c \<and> c \<le> CHR ''9''"

definition digits_val :: "string \<Rightarrow> nat" where
  "digits_val s = fold (\<lambda>c n. 10 * n + (of_char c - 48)) s 0"

definition atoi :: "string \<Rightarrow> int option" where
  "atoi s =
     (let neg = (s \<noteq> [] \<and> hd s = CHR ''-'');
          ds = (if s \<noteq> [] \<and> hd s \<in> {CHR ''-'', CHR ''+''} then tl s else s);
          n = (if neg then - int (digits_val ds) else int (digits_val ds))
      in if ds \<noteq> [] \<and> list_all is_digit ds \<and> min_int64 \<le> n \<and> n \<le> max_int64
         then Some n else None)"

definition parse_limit :: "string \<Rightarrow> int" where
  "parse_limit q =
     (if q = '''' then 100
      else case atoi q of
             None \<Rightarrow> 100
           | Some n \<Rightarrow> if n \<le> 0 then 100 else if n > 1000 then 1000 else n)"

text \<open>\<open>parse_rfc3339\<close> is time.Parse with the layout RFC3339, None for an error.\<close>

definition parse_since :: "golib \<Rightarrow> (string \<Rightarrow> time option) \<Rightarrow> string \<Rightarrow> time \<Rightarrow> time result" where
  "parse_since lib parse_rfc3339 raw now =
     (let s = trim_space raw
      in if s = '''' then Inr zero_time
         else case parse_rfc3339 s of
                Some t \<Rightarrow> Inr t
              | None \<Rightarrow>
                  (case lib_parse_duration lib s of
                     Inr d \<Rightarrow> if d < 0 then Inl (ErrNew ''since: duration must be non-negative'')
                             else Inr (now - d)
                   | Inl _ \<Rightarrow> Inl (ErrNew ''since: expected RFC3339 or Go duration (e.g. 168h)'')))"

section \<open>Tokens\<close>

record token_view =
  tv_id :: string
  tv_name :: string
  tv_scopes :: "string list"
  tv_created_at :: time
  tv_expires_at :: "time option"
  tv_last_used_at :: "time option"
  tv_revoked :: bool

definition to_token_view :: "token \<Rightarrow> token_view" where
  "to_token_view t =
     \<lparr>tv_id = tk_id t, tv_name = tk_name t, tv_scopes = tk_scopes t,
      tv_created_at = tk_created_at t, tv_expires_at = tk_expires_at t,
      tv_last_used_at = tk_last_used_at t, tv_revoked = tk_revoked t\<rparr>"

record issue_request =
  iq_name :: string
  iq_scopes :: "string list"
  iq_expires_in :: string

definition issue_member :: "issue_request \<Rightarrow> string \<Rightarrow> json \<Rightarrow> issue_request result" where
  "issue_member q k v = (let n = to_lower k in
     if n = ''name'' then res_map (\<lambda>s. q\<lparr>iq_name := s\<rparr>) (json_get_string (iq_name q) v)
     else if n = ''scopes'' then res_map (\<lambda>xs. q\<lparr>iq_scopes := xs\<rparr>) (json_get_strings v)
     else if n = ''expires_in''
       then res_map (\<lambda>s. q\<lparr>iq_expires_in := s\<rparr>) (json_get_string (iq_expires_in q) v)
     else Inl (unknown_field k))"

end
