(* ===== verification/Api_Auth.thy ===== *)
theory Api_Auth
  imports Api_Codec
begin

text \<open>
  internal/api/auth.go and tokens.go: the settings of a mount, requests and responses, the
  middleware that authenticates a request and checks its scope, and the token endpoints. A
  handler maps the environment of a request, the request and the server to a response and the
  server it leaves. The environment fixes what the request reads of the outside: the clock
  (one reading), a fresh identifier, random bytes, the hash and the parsers of time formats.
  The goroutine that records the last use of a token is pending work of the server.
\<close>

section \<open>Requests, responses, servers\<close>

record api_env =
  ae_lib :: golib
  ae_now :: time
  ae_uuid :: string
  ae_random :: "nat list result"
  ae_hash :: "string \<Rightarrow> string"
  ae_parse_time :: "string \<Rightarrow> time result"
  ae_rfc3339 :: "string \<Rightarrow> time option"
  ae_format_time :: "time \<Rightarrow> string"
  ae_prefer_send :: bool

text \<open>
  \<open>rq_path\<close> holds the decoded segments of the cleaned path, \<open>rq_path_id\<close> is what the mux
  bound to \<open>{id}\<close>, \<open>rq_auth\<close> the Authorization header (empty when absent), \<open>rq_body\<close> the
  first JSON value of the body or the error of reading it, \<open>rq_done\<close> the error of a context
  that is done, \<open>rq_token\<close> the caller the middleware put into the context.
\<close>

record request =
  rq_method :: string
  rq_path :: "string list"
  rq_path_id :: string
  rq_query :: "(string \<times> string) list"
  rq_auth :: string
  rq_body :: "json result"
  rq_done :: "go_error option"
  rq_token :: "token option"

definition query_get :: "request \<Rightarrow> string \<Rightarrow> string" where
  "query_get r k = (case map_of (rq_query r) k of None \<Rightarrow> '''' | Some v \<Rightarrow> v)"

text \<open>The value a handler passes to the JSON encoder, or what it writes otherwise.\<close>

datatype reply_body =
    VNone
  | VText string
  | VError go_error
  | VAuthStatus bool
  | VOk
  | VRule rule_payload
  | VRules "rule_payload list"
  | VSubscriber subscriber
  | VSubscribers "subscriber list"
  | VSubscription subscription_payload
  | VSubscriptions "subscription_payload list"
  | VIncident incident "notification list"
  | VIncidents "incident list"
  | VCsv "string list list"
  | VNotifications "notification list"
  | VStates "live_state list"
  | VTokens "token_view list"
  | VIssued token_view string
  | VDoc string
  | VUi

text \<open>A handler may wait for room in the event queue for as long as its request lives.\<close>

datatype response = Blocked | Panicked string | Reply nat reply_body

record 's server =
  sv_store :: 's
  sv_cache :: rule_cache
  sv_input :: "event_input option"
  sv_touches :: "(string \<times> int) list"

type_synonym 's handler = "api_env \<Rightarrow> request \<Rightarrow> 's server \<Rightarrow> response \<times> 's server"

definition write_error :: "nat \<Rightarrow> go_error \<Rightarrow> response" where
  "write_error code e = Reply code (VError e)"

text \<open>Calls of a handler: on the store, on the engine's rule API, and of pure functions.\<close>

definition with_store :: "('s, 'a) op \<Rightarrow> ('s server, 'a) op" where
  "with_store m sv = (case m (sv_store sv) of (r, s') \<Rightarrow> (r, sv\<lparr>sv_store := s'\<rparr>))"

definition with_engine :: "('s \<times> rule_cache, 'a) op \<Rightarrow> ('s server, 'a) op" where
  "with_engine m sv =
     (case m (sv_store sv, sv_cache sv) of (r, (s', c')) \<Rightarrow> (r, sv\<lparr>sv_store := s', sv_cache := c'\<rparr>))"

definition on_call ::
  "nat \<Rightarrow> ('s server, 'a) op \<Rightarrow> ('a \<Rightarrow> 's server \<Rightarrow> response \<times> 's server)
   \<Rightarrow> 's server \<Rightarrow> response \<times> 's server" where
  "on_call code m k sv =
     (case m sv of (Inl e, sv') \<Rightarrow> (write_error code e, sv') | (Inr x, sv') \<Rightarrow> k x sv')"

definition on_value ::
  "nat \<Rightarrow> 'a result \<Rightarrow> ('a \<Rightarrow> 's server \<Rightarrow> response \<times> 's server)
   \<Rightarrow> 's server \<Rightarrow> response \<times> 's server" where
  "on_value code r k sv = (case r of Inl e \<Rightarrow> (write_error code e, sv) | Inr x \<Rightarrow> k x sv)"

section \<open>Authentication\<close>

record 's mount_settings =
  ms_api_token :: string
  ms_tokens :: "'s token_repo option"

definition default_settings :: "'s mount_settings" where
  "default_settings = \<lparr>ms_api_token = '''', ms_tokens = None\<rparr>"

definition with_api_token :: "string \<Rightarrow> 's mount_settings \<Rightarrow> 's mount_settings" where
  "with_api_token tok s = s\<lparr>ms_api_token := tok\<rparr>"

definition with_token_store :: "'s token_repo \<Rightarrow> 's mount_settings \<Rightarrow> 's mount_settings" where
  "with_token_store repo s = s\<lparr>ms_tokens := Some repo\<rparr>"

definition auth_required :: "'s mount_settings \<Rightarrow> bool" where
  "auth_required s \<longleftrightarrow> ms_api_token s \<noteq> '''' \<or> ms_tokens s \<noteq> None"

definition bearer_token :: "request \<Rightarrow> string result" where
  "bearer_token r =
     (let raw = rq_auth r
      in if raw = '''' then Inl (ErrNew ''missing Authorization header'')
         else if \<not> has_prefix raw ''Bearer '' then Inl (ErrNew ''authorization scheme must be Bearer'')
         else let tok = trim_space (drop (length ''Bearer '') raw)
           in if tok = '''' then Inl (ErrNew ''empty bearer token'') else Inr tok)"

definition shared_token :: token where
  "shared_token = \<lparr>tk_id = ''shared'', tk_name = ''shared-token (legacy)'', tk_hash = '''',
     tk_scopes = [scope_admin], tk_created_at = zero_time, tk_expires_at = None,
     tk_last_used_at = None, tk_revoked = False\<rparr>"

definition invalid_token :: "'s server \<Rightarrow> response \<times> 's server" where
  "invalid_token sv = (write_error 401 (ErrNew ''invalid token''), sv)"

definition token_login :: "'s token_repo \<Rightarrow> string \<Rightarrow> 's handler \<Rightarrow> 's handler" where
  "token_login repo provided h env r sv =
     (case with_store (tr_get_by_hash repo (ae_hash env provided)) sv of
        (Inl e, sv') \<Rightarrow> (write_error 500 (ErrNew ''auth lookup failed''), sv')
      | (Inr None, sv') \<Rightarrow> invalid_token sv'
      | (Inr (Some tok), sv') \<Rightarrow>
          if \<not> tk_revoked tok \<and> \<not> is_expired tok (ae_now env)
          then h env (r\<lparr>rq_token := Some tok\<rparr>)
                 (sv'\<lparr>sv_touches := sv_touches sv' @ [(tk_id tok, unix_milli (ae_now env))]\<rparr>)
          else invalid_token sv')"

definition require_auth :: "'s mount_settings \<Rightarrow> 's handler \<Rightarrow> 's handler" where
  "require_auth s h env r sv =
     (if \<not> auth_required s then h env r sv
      else on_value 401 (bearer_token r) (\<lambda>provided sv.
        if ms_api_token s \<noteq> '''' \<and> provided = ms_api_token s
          then h env (r\<lparr>rq_token := Some shared_token\<rparr>) sv
        else case ms_tokens s of
               None \<Rightarrow> invalid_token sv
             | Some repo \<Rightarrow> token_login repo provided h env r sv) sv)"

definition require_scope :: "string \<Rightarrow> 's handler \<Rightarrow> 's handler" where
  "require_scope scope h env r sv =
     (case rq_token r of
        None \<Rightarrow> h env r sv
      | Some tok \<Rightarrow>
          if \<not> has_scope tok scope then (write_error 403 (ErrNew ''insufficient scope''), sv)
          else h env r sv)"

text \<open>One pending touch runs: its error is logged.\<close>

definition touch_step :: "'s mount_settings \<Rightarrow> 's server \<Rightarrow> 's server" where
  "touch_step s sv =
     (case (ms_tokens s, sv_touches sv) of
        (Some repo, (i, ts) # rest) \<Rightarrow>
          snd (op_logged (with_store (tr_touch_last_used repo i ts)) (sv\<lparr>sv_touches := rest\<rparr>))
      | _ \<Rightarrow> sv)"

section \<open>Token endpoints\<close>

definition on_tokens :: "'s mount_settings \<Rightarrow> ('s token_repo \<Rightarrow> 's handler) \<Rightarrow> 's handler" where
  "on_tokens s h env r sv =
     (case ms_tokens s of None \<Rightarrow> (Panicked ''nil pointer dereference'', sv) | Some repo \<Rightarrow> h repo env r sv)"

definition list_tokens :: "'s token_repo \<Rightarrow> 's handler" where
  "list_tokens repo env r = on_call 500 (with_store (tr_list repo)) (\<lambda>rows sv.
     (Reply 200 (VTokens (map to_token_view rows)), sv))"

definition issue_expiry :: "api_env \<Rightarrow> string \<Rightarrow> time option result" where
  "issue_expiry env d =
     (if d = '''' then Inr None
      else case lib_parse_duration (ae_lib env) d of
             Inl e \<Rightarrow> Inl (ErrNew (''expires_in: '' @ err_text e))
           | Inr n \<Rightarrow> if n \<le> 0 then Inl (ErrNew ''expires_in must be positive'')
                     else Inr (Some (ae_now env + n)))"

definition check_issue :: "issue_request \<Rightarrow> unit result" where
  "check_issue q =
     (if iq_name q = '''' then Inl (ErrNew ''name required'')
      else if iq_scopes q = [] then Inl (ErrNew ''at least one scope required'')
      else res_map (\<lambda>_. ()) (res_list (map validate_scope (iq_scopes q))))"

definition issue_token :: "'s token_repo \<Rightarrow> 's handler" where
  "issue_token repo env r =
     on_value 400 (decode_json issue_member \<lparr>iq_name = '''', iq_scopes = [], iq_expires_in = ''''\<rparr> (rq_body r))
       (\<lambda>q. on_value 400 (check_issue q)
       (\<lambda>_. on_value 400 (issue_expiry env (iq_expires_in q))
       (\<lambda>expires. on_value 500 (generate_token (ae_hash env) (ae_random env))
       (\<lambda>(raw, h). on_call 500 (with_store (tr_create repo (ae_now env)
            \<lparr>tk_id = ae_uuid env, tk_name = iq_name q, tk_hash = h, tk_scopes = iq_scopes q,
             tk_created_at = ae_now env, tk_expires_at = expires, tk_last_used_at = None,
             tk_revoked = False\<rparr>))
       (\<lambda>tok sv. (Reply 201 (VIssued (to_token_view tok) raw), sv))))))"

definition revoke_token :: "'s token_repo \<Rightarrow> 's handler" where
  "revoke_token repo env r =
     (let i = rq_path_id r
      in if i = '''' then (\<lambda>sv. (write_error 400 (ErrNew ''id required''), sv))
         else on_call 500 (with_store (tr_get repo i)) (\<lambda>existing.
           case existing of
             None \<Rightarrow> (\<lambda>sv. (write_error 404 (ErrNew ''token not found''), sv))
           | Some _ \<Rightarrow> on_call 500 (with_store (tr_revoke repo i)) (\<lambda>_ sv. (Reply 204 VNone, sv))))"

end
