(* ===== verification/Api.thy ===== *)
theory Api
  imports Api_Auth
begin

text \<open>
  internal/api/api.go: the handlers of the HTTP API over the engine, the route tables and the
  mount, which wraps every gated route in the authentication and scope middleware. The
  handlers take the store as an argument; the engine's rule API keeps the cache.
\<close>

section \<open>Events\<close>

definition submit_event ::
  "api_env \<Rightarrow> request \<Rightarrow> event_payload \<Rightarrow> 's server \<Rightarrow> response \<times> 's server" where
  "submit_event env r p sv =
     (case engine_submit (ae_now env) (rq_done r) (ae_prefer_send env) (ep_input_ref p) (ep_record p)
             (sv_input sv) of
        None \<Rightarrow> (Blocked, sv)
      | Some (Inl e, i) \<Rightarrow> (write_error 500 e, sv\<lparr>sv_input := i\<rparr>)
      | Some (Inr _, i) \<Rightarrow> (Reply 202 VNone, sv\<lparr>sv_input := i\<rparr>))"

definition post_event :: "'s handler" where
  "post_event env r =
     on_value 400 (decode_json event_member \<lparr>ep_input_ref = '''', ep_record = None\<rparr> (rq_body r)) (\<lambda>p.
       if ep_record p = None then (\<lambda>sv. (write_error 400 (ErrNew ''record is required''), sv))
       else submit_event env r p)"

section \<open>Rules\<close>

definition list_rules :: "'s store \<Rightarrow> 's handler" where
  "list_rules st env r = on_call 500 (with_engine (api_rule_list st)) (\<lambda>rules sv.
     (Reply 200 (VRules (map (rule_to_payload (ae_lib env)) rules)), sv))"

definition decode_rule :: "request \<Rightarrow> rule_payload result" where
  "decode_rule r = decode_json rule_member empty_rule_payload (rq_body r)"

definition create_rule :: "'s store \<Rightarrow> 's handler" where
  "create_rule st env r =
     on_value 400 (decode_rule r)
       (\<lambda>p. on_value 400 (to_rule (ae_lib env) (ae_uuid env) p)
       (\<lambda>x. on_call 400 (with_engine (api_rule_create (ae_lib env) st (ae_now env) x))
       (\<lambda>x' sv. (Reply 201 (VRule (rule_to_payload (ae_lib env) x')), sv))))"

definition get_rule :: "'s store \<Rightarrow> 's handler" where
  "get_rule st env r = on_call 500 (with_engine (api_rule_get st (rq_path_id r))) (\<lambda>x sv.
     case x of
       None \<Rightarrow> (write_error 404 (ErrNew ''rule not found''), sv)
     | Some rl \<Rightarrow> (Reply 200 (VRule (rule_to_payload (ae_lib env) rl)), sv))"

definition update_rule :: "'s store \<Rightarrow> 's handler" where
  "update_rule st env r =
     on_value 400 (decode_rule r)
       (\<lambda>p. on_value 400 (to_rule (ae_lib env) (ae_uuid env) (p\<lparr>rp_id := rq_path_id r\<rparr>))
       (\<lambda>x. on_call 400 (with_engine (api_rule_update (ae_lib env) st (ae_now env) x))
       (\<lambda>x' sv. (Reply 200 (VRule (rule_to_payload (ae_lib env) x')), sv))))"

definition delete_rule :: "'s store \<Rightarrow> 's handler" where
  "delete_rule st env r = on_call 500 (with_engine (api_rule_delete st (rq_path_id r)))
     (\<lambda>_ sv. (Reply 204 VNone, sv))"

definition check_rule :: "golib \<Rightarrow> rule \<Rightarrow> unit result" where
  "check_rule lib x =
     res_bind (rule_validate x) (\<lambda>_.
       case r_condition x of
         None \<Rightarrow> Inl (ErrPanic ''nil pointer dereference'')
       | Some c \<Rightarrow> res_map (\<lambda>_. ()) (compile_condition lib c))"

definition validate_rule :: "'s handler" where
  "validate_rule env r =
     on_value 400 (decode_rule r)
       (\<lambda>p. on_value 400 (to_rule (ae_lib env) (ae_uuid env) p)
       (\<lambda>x. on_value 400 (check_rule (ae_lib env) x) (\<lambda>_ sv. (Reply 200 VOk, sv))))"

section \<open>Subscribers\<close>

definition list_subscribers :: "'s store \<Rightarrow> 's handler" where
  "list_subscribers st env r = on_call 500 (with_store (sbr_list (st_subscribers st)))
     (\<lambda>rows sv. (Reply 200 (VSubscribers rows), sv))"

definition decode_subscriber :: "api_env \<Rightarrow> request \<Rightarrow> subscriber result" where
  "decode_subscriber env r =
     decode_json (subscriber_member (ae_parse_time env)) empty_subscriber (rq_body r)"

definition create_subscriber :: "'s store \<Rightarrow> 's handler" where
  "create_subscriber st env r =
     on_value 400 (decode_subscriber env r)
       (\<lambda>s. on_call 400 (with_store (sbr_create (st_subscribers st) (ae_now env)
              (if sb_id s = '''' then s\<lparr>sb_id := ae_uuid env\<rparr> else s)))
       (\<lambda>s' sv. (Reply 201 (VSubscriber s'), sv)))"

definition get_subscriber :: "'s store \<Rightarrow> 's handler" where
  "get_subscriber st env r = on_call 500 (with_store (sbr_get (st_subscribers st) (rq_path_id r)))
     (\<lambda>x sv. case x of
        None \<Rightarrow> (write_error 404 (ErrNew ''subscriber not found''), sv)
      | Some s \<Rightarrow> (Reply 200 (VSubscriber s), sv))"

definition update_subscriber :: "'s store \<Rightarrow> 's handler" where
  "update_subscriber st env r =
     on_value 400 (decode_subscriber env r)
       (\<lambda>s. on_call 400 (with_store (sbr_update (st_subscribers st) (ae_now env) (s\<lparr>sb_id := rq_path_id r\<rparr>)))
       (\<lambda>s' sv. (Reply 200 (VSubscriber s'), sv)))"

definition delete_subscriber :: "'s store \<Rightarrow> 's handler" where
  "delete_subscriber st env r = on_call 500 (with_store (sbr_delete (st_subscribers st) (rq_path_id r)))
     (\<lambda>_ sv. (Reply 204 VNone, sv))"

section \<open>Subscriptions\<close>

definition list_subscriptions :: "'s store \<Rightarrow> 's handler" where
  "list_subscriptions st env r = on_call 500 (with_store (sur_list (st_subscriptions st)))
     (\<lambda>rows sv. (Reply 200 (VSubscriptions (map subscription_to_payload rows)), sv))"

definition decode_subscription :: "request \<Rightarrow> subscription_payload result" where
  "decode_subscription r = decode_json subscription_member empty_subscription_payload (rq_body r)"

definition create_subscription :: "'s store \<Rightarrow> 's handler" where
  "create_subscription st env r =
     on_value 400 (decode_subscription r) (\<lambda>p.
       let s = to_subscription (ae_lib env) (ae_uuid env) p
       in on_value 400 (subscription_validate s)
       (\<lambda>_. on_call 400 (with_store (sur_create (st_subscriptions st) (ae_now env) s))
       (\<lambda>s' sv. (Reply 201 (VSubscription (subscription_to_payload s')), sv))))"

definition get_subscription :: "'s store \<Rightarrow> 's handler" where
  "get_subscription st env r = on_call 500 (with_store (sur_get (st_subscriptions st) (rq_path_id r)))
     (\<lambda>x sv. case x of
        None \<Rightarrow> (write_error 404 (ErrNew ''subscription not found''), sv)
      | Some s \<Rightarrow> (Reply 200 (VSubscription (subscription_to_payload s)), sv))"

definition update_subscription :: "'s store \<Rightarrow> 's handler" where
  "update_subscription st env r =
     on_value 400 (decode_subscription r) (\<lambda>p.
       let s = to_subscription (ae_lib env) (ae_uuid env) (p\<lparr>sp_id := rq_path_id r\<rparr>)
       in on_value 400 (subscription_validate s)
       (\<lambda>_. on_call 400 (with_store (sur_update (st_subscriptions st) (ae_now env) s))
       (\<lambda>s' sv. (Reply 200 (VSubscription (subscription_to_payload s')), sv))))"

definition delete_subscription :: "'s store \<Rightarrow> 's handler" where
  "delete_subscription st env r =
     on_call 500 (with_store (sur_delete (st_subscriptions st) (rq_path_id r)))
     (\<lambda>_ sv. (Reply 204 VNone, sv))"

section \<open>Read-only endpoints\<close>

definition list_incidents :: "'s store \<Rightarrow> 's handler" where
  "list_incidents st env r =
     (let rid = trim_space (query_get r ''rule_id'');
          limit = parse_limit (query_get r ''limit'')
      in on_call 500 (with_store (if rid \<noteq> '''' then inr_list_for_rule (st_incidents st) rid limit
                                  else inr_list (st_incidents st) limit))
         (\<lambda>rows sv. (Reply 200 (VIncidents rows), sv)))"

definition csv_rows :: "api_env \<Rightarrow> incident list \<Rightarrow> string list list" where
  "csv_rows env rows =
     [''id'', ''rule_id'', ''triggered_at'', ''resolved_at'', ''last_value''] #
     map (\<lambda>i. [in_id i, in_rule_id i, ae_format_time env (in_triggered_at i),
               if in_resolved_at i = zero_time then '''' else ae_format_time env (in_resolved_at i),
               in_last_value i]) rows"

definition export_incidents :: "'s store \<Rightarrow> 's handler" where
  "export_incidents st env r =
     (let f = to_lower (trim_space (query_get r ''format''));
          format = (if f = '''' then ''json'' else f);
          rid = trim_space (query_get r ''rule_id'')
      in if format \<noteq> ''json'' \<and> format \<noteq> ''csv''
         then (\<lambda>sv. (write_error 400 (ErrNew ''format must be json or csv''), sv))
         else on_value 400 (parse_since (ae_lib env) (ae_rfc3339 env) (query_get r ''since'') (ae_now env))
           (\<lambda>since. on_call 500 (with_store (if rid \<noteq> '''' then inr_list_for_rule (st_incidents st) rid 0
                                            else inr_list (st_incidents st) 0))
           (\<lambda>rows sv.
              let kept = (if since = zero_time then rows
                          else filter (\<lambda>i. \<not> in_triggered_at i < since) rows)
              in (Reply 200 (if format = ''json'' then VIncidents kept else VCsv (csv_rows env kept)), sv))))"

definition get_incident :: "'s store \<Rightarrow> 's handler" where
  "get_incident st env r = on_call 500 (with_store (inr_get (st_incidents st) (rq_path_id r)))
     (\<lambda>x sv. case x of
        None \<Rightarrow> (write_error 404 (ErrNew ''incident not found''), sv)
      | Some inc \<Rightarrow>
          (case with_store (nr_list_for_incident (st_notifications st) (rq_path_id r)) sv of
             (notes, sv') \<Rightarrow>
               (Reply 200 (VIncident inc (case notes of Inl _ \<Rightarrow> [] | Inr ns \<Rightarrow> ns)), sv')))"

definition list_notifications :: "'s store \<Rightarrow> 's handler" where
  "list_notifications st env r =
     on_call 500 (with_store (nr_list (st_notifications st) (parse_limit (query_get r ''limit''))))
     (\<lambda>rows sv. (Reply 200 (VNotifications rows), sv))"

definition list_states :: "'s store \<Rightarrow> 's handler" where
  "list_states st env r = on_call 500 (with_store (lr_list (st_live_states st)))
     (\<lambda>rows sv. (Reply 200 (VStates rows), sv))"


section \<open>Routes\<close>

record route =
  rt_method :: string
  rt_path :: string
  rt_scope :: string
  rt_handler :: string

definition mk_route :: "string \<Rightarrow> string \<Rightarrow> string \<Rightarrow> string \<Rightarrow> route" where
  "mk_route m p s i = \<lparr>rt_method = m, rt_path = p, rt_scope = s, rt_handler = i\<rparr>"

definition gated_routes :: "route list" where
  "gated_routes =
     [mk_route ''POST'' ''/v1/events'' scope_admin ''postEvent'',
      mk_route ''GET'' ''/v1/rules'' scope_read ''listRules'',
      mk_route ''POST'' ''/v1/rules'' scope_admin ''createRule'',
      mk_route ''POST'' ''/v1/rules/validate'' scope_admin ''validateRule'',
      mk_route ''GET'' ''/v1/rules/{id}'' scope_read ''getRule'',
      mk_route ''PUT'' ''/v1/rules/{id}'' scope_admin ''updateRule'',
      mk_route ''DELETE'' ''/v1/rules/{id}'' scope_admin ''deleteRule'',
      mk_route ''GET'' ''/v1/subscribers'' scope_read ''listSubscribers'',
      mk_route ''POST'' ''/v1/subscribers'' scope_admin ''createSubscriber'',
      mk_route ''GET'' ''/v1/subscribers/{id}'' scope_read ''getSubscriber'',
      mk_route ''PUT'' ''/v1/subscribers/{id}'' scope_admin ''updateSubscriber'',
      mk_route ''DELETE'' ''/v1/subscribers/{id}'' scope_admin ''deleteSubscriber'',
      mk_route ''GET'' ''/v1/subscriptions'' scope_read ''listSubscriptions'',
      mk_route ''POST'' ''/v1/subscriptions'' scope_admin ''createSubscription'',
      mk_route ''GET'' ''/v1/subscriptions/{id}'' scope_read ''getSubscription'',
      mk_route ''PUT'' ''/v1/subscriptions/{id}'' scope_admin ''updateSubscription'',
      mk_route ''DELETE'' ''/v1/subscriptions/{id}'' scope_admin ''deleteSubscription'',
      mk_route ''GET'' ''/v1/incidents'' scope_read ''listIncidents'',
      mk_route ''GET'' ''/v1/incidents/export'' scope_read ''exportIncidents'',
      mk_route ''GET'' ''/v1/incidents/{id}'' scope_read ''getIncident'',
      mk_route ''GET'' ''/v1/notifications'' scope_read ''listNotifications'',
      mk_route ''GET'' ''/v1/states'' scope_read ''listStates'']"

definition auth_routes :: "route list" where
  "auth_routes =
     [mk_route ''GET'' ''/v1/auth/tokens'' scope_admin ''listTokens'',
      mk_route ''POST'' ''/v1/auth/tokens'' scope_admin ''issueToken'',
      mk_route ''DELETE'' ''/v1/auth/tokens/{id}'' scope_admin ''revokeToken'']"

text \<open>None is the panic on an identifier without a method.\<close>

definition handler_for :: "'s store \<Rightarrow> 's mount_settings \<Rightarrow> string \<Rightarrow> 's handler option" where
  "handler_for st s i =
     (if i = ''postEvent'' then Some post_event
      else if i = ''listRules'' then Some (list_rules st)
      else if i = ''createRule'' then Some (create_rule st)
      else if i = ''validateRule'' then Some validate_rule
      else if i = ''getRule'' then Some (get_rule st)
      else if i = ''updateRule'' then Some (update_rule st)
      else if i = ''deleteRule'' then Some (delete_rule st)
      else if i = ''listSubscribers'' then Some (list_subscribers st)
      else if i = ''createSubscriber'' then Some (create_subscriber st)
      else if i = ''getSubscriber'' then Some (get_subscriber st)
      else if i = ''updateSubscriber'' then Some (update_subscriber st)
      else if i = ''deleteSubscriber'' then Some (delete_subscriber st)
      else if i = ''listSubscriptions'' then Some (list_subscriptions st)
      else if i = ''createSubscription'' then Some (create_subscription st)
      else if i = ''getSubscription'' then Some (get_subscription st)
      else if i = ''updateSubscription'' then Some (update_subscription st)
      else if i = ''deleteSubscription'' then Some (delete_subscription st)
      else if i = ''listIncidents'' then Some (list_incidents st)
      else if i = ''exportIncidents'' then Some (export_incidents st)
      else if i = ''getIncident'' then Some (get_incident st)
      else if i = ''listNotifications'' then Some (list_notifications st)
      else if i = ''listStates'' then Some (list_states st)
      else if i = ''listTokens'' then Some (on_tokens s list_tokens)
      else if i = ''issueToken'' then Some (on_tokens s issue_token)
      else if i = ''revokeToken'' then Some (on_tokens s revoke_token)
      else None)"

definition read_gate :: "'s mount_settings \<Rightarrow> 's handler \<Rightarrow> 's handler" where
  "read_gate s h = require_auth s (require_scope scope_read h)"

definition write_gate :: "'s mount_settings \<Rightarrow> 's handler \<Rightarrow> 's handler" where
  "write_gate s h = require_auth s (require_scope scope_admin h)"

definition gate :: "'s mount_settings \<Rightarrow> route \<Rightarrow> 's handler \<Rightarrow> 's handler" where
  "gate s rt = (if rt_scope rt = scope_admin then write_gate s else read_gate s)"

definition auth_status :: "'s mount_settings \<Rightarrow> 's handler" where
  "auth_status s env r sv = (Reply 200 (VAuthStatus (auth_required s)), sv)"

text \<open>The documents behind the open routes are embedded files.\<close>

definition serve_doc :: "string \<Rightarrow> 's handler" where
  "serve_doc name env r sv = (Reply 200 (VDoc name), sv)"

definition open_routes :: "'s mount_settings \<Rightarrow> (string \<times> string \<times> 's handler) list" where
  "open_routes s =
     [(''GET'', ''/healthz'', (\<lambda>env r sv. (Reply 200 (VText ''ok''), sv))),
      (''GET'', ''/openapi.yaml'', serve_doc ''openapi.yaml''),
      (''GET'', ''/openapi.json'', serve_doc ''openapi.json''),
      (''GET'', ''/swagger.json'', serve_doc ''openapi.json''),
      (''GET'', ''/docs'', serve_doc ''swagger_ui.html''),
      (''GET'', ''/swagger'', serve_doc ''swagger_ui.html''),
      (''GET'', ''/v1/auth-status'', auth_status s)]"

section \<open>The mount\<close>

definition mount_route ::
  "'s store \<Rightarrow> 's mount_settings \<Rightarrow> ('s handler \<Rightarrow> 's handler) \<Rightarrow> route
   \<Rightarrow> (string \<times> string \<times> 's handler) option" where
  "mount_route st s g rt =
     map_option (\<lambda>h. (rt_method rt, rt_path rt, g h)) (handler_for st s (rt_handler rt))"

definition mount :: "'s store \<Rightarrow> 's mount_settings \<Rightarrow> (string \<times> string \<times> 's handler) list option" where
  "mount st s =
     map_option (\<lambda>ps. open_routes s @ ps)
       (those (map (\<lambda>rt. mount_route st s (gate s rt) rt) gated_routes @
               (if ms_tokens s \<noteq> None then map (mount_route st s (write_gate s)) auth_routes else [])))"

text \<open>
  http.ServeMux: a pattern is a method and a path, whose segment \<open>{id}\<close> stands for one
  non-empty segment; GET also serves HEAD. Of the matching patterns one without a wildcard
  wins. With no match a path known under another method is refused with 405.
\<close>

fun split_path :: "string \<Rightarrow> string \<Rightarrow> string list" where
  "split_path w [] = [w]"
| "split_path w (c # s) = (if c = CHR ''/'' then w # split_path [] s else split_path (w @ [c]) s)"

definition segments :: "string \<Rightarrow> string list" where
  "segments p = tl (split_path [] p)"

definition id_segment :: string where
  "id_segment = ''{id}''"

definition seg_match :: "string \<Rightarrow> string \<Rightarrow> bool" where
  "seg_match p x \<longleftrightarrow> (if p = id_segment then x \<noteq> '''' else p = x)"

definition path_match :: "string \<Rightarrow> string list \<Rightarrow> bool" where
  "path_match p path \<longleftrightarrow> list_all2 seg_match (segments p) path"

definition method_match :: "string \<Rightarrow> string \<Rightarrow> bool" where
  "method_match m x \<longleftrightarrow> x = m \<or> m = ''GET'' \<and> x = ''HEAD''"

definition path_id :: "string \<Rightarrow> string list \<Rightarrow> string" where
  "path_id p path = (case map_of (zip (segments p) path) id_segment of None \<Rightarrow> '''' | Some x \<Rightarrow> x)"

definition find_pattern :: "(string \<times> string \<times> 'h) list \<Rightarrow> request \<Rightarrow> (string \<times> string \<times> 'h) option" where
  "find_pattern ps r =
     (let ms = filter (\<lambda>(m, p, _). method_match m (rq_method r) \<and> path_match p (rq_path r)) ps
      in case List.find (\<lambda>(_, p, _). id_segment \<notin> set (segments p)) ms of
           Some x \<Rightarrow> Some x
         | None \<Rightarrow> (case ms of [] \<Rightarrow> None | x # _ \<Rightarrow> Some x))"

definition mux :: "bool \<Rightarrow> (string \<times> string \<times> 's handler) list \<Rightarrow> 's handler" where
  "mux ui ps env r sv =
     (case find_pattern ps r of
        Some (m, p, h) \<Rightarrow> h env (r\<lparr>rq_path_id := path_id p (rq_path r)\<rparr>) sv
      | None \<Rightarrow>
          if ui then (Reply 200 VUi, sv)
          else if list_ex (\<lambda>(_, p, _). path_match p (rq_path r)) ps
            then (Reply 405 (VText ''Method Not Allowed''), sv)
          else (Reply 404 (VText ''404 page not found''), sv))"

definition serve :: "'s store \<Rightarrow> 's mount_settings \<Rightarrow> bool \<Rightarrow> 's handler" where
  "serve st s ui env r sv =
     (case mount st s of
        None \<Rightarrow> (Panicked ''api: no handler registered'', sv)
      | Some ps \<Rightarrow> mux ui ps env (r\<lparr>rq_token := None\<rparr>) sv)"

end
