(* ===== verification/Api_Rel.thy ===== *)
theory Api_Rel
  imports Api System
begin

text \<open>
  Relations between the server before and after a request. A relation that is reflexive and
  transitive and does not see the pending touches carries over from the calls of a handler to
  the handler, through the middleware, and to whatever the mount serves.
\<close>

section \<open>The mount\<close>

lemma those_map: "(\<And>x. x \<in> set xs \<Longrightarrow> f x = Some (g x)) \<Longrightarrow> those (map f xs) = Some (map g xs)"
  by (induction xs) auto

definition all_routes :: "'s mount_settings \<Rightarrow> route list" where
  "all_routes s = gated_routes @ (if ms_tokens s \<noteq> None then auth_routes else [])"

lemma auth_routes_admin: "rt \<in> set auth_routes \<Longrightarrow> rt_scope rt = scope_admin"
  by (auto simp: auth_routes_def mk_route_def)

lemma gate_auth_route: "rt \<in> set auth_routes \<Longrightarrow> gate s rt = write_gate s"
  by (simp add: gate_def auth_routes_admin)

lemma routes_handled: "\<forall>rt \<in> set (gated_routes @ auth_routes). handler_for st s (rt_handler rt) \<noteq> None"
  unfolding gated_routes_def auth_routes_def mk_route_def handler_for_def by simp

definition mounted :: "'s store \<Rightarrow> 's mount_settings \<Rightarrow> route \<Rightarrow> string \<times> string \<times> 's handler" where
  "mounted st s rt = (rt_method rt, rt_path rt, gate s rt (the (handler_for st s (rt_handler rt))))"

lemma mount_eq: "mount st s = Some (open_routes s @ map (mounted st s) (all_routes s))"
proof -
  have *: "mount_route st s (gate s rt) rt = Some (mounted st s rt)" if "rt \<in> set (gated_routes @ auth_routes)" for rt
    using bspec [OF routes_handled that, of st s] by (auto simp: mount_route_def mounted_def)
  have "those (map (\<lambda>rt. mount_route st s (gate s rt) rt) gated_routes @
               (if ms_tokens s \<noteq> None then map (mount_route st s (write_gate s)) auth_routes else [])) =
        those (map (\<lambda>rt. mount_route st s (gate s rt) rt) (all_routes s))"
    by (simp add: all_routes_def gate_auth_route cong: map_cong)
  also have "\<dots> = Some (map (mounted st s) (all_routes s))"
    by (rule those_map, rule *) (auto simp: all_routes_def split: if_splits)
  finally show ?thesis by (simp add: mount_def)
qed

text \<open>A request ends at an open route, at no route, or at the gate of a route of the table.\<close>

lemma find_pattern_mem:
  "find_pattern ps r = Some (m, p, h) \<Longrightarrow>
   (m, p, h) \<in> set ps \<and> method_match m (rq_method r) \<and> path_match p (rq_path r)"
  unfolding find_pattern_def Let_def
  by (force simp: find_Some_iff filter_eq_Cons_iff split: option.splits list.splits dest!: nth_mem)

definition at_route :: "request \<Rightarrow> route \<Rightarrow> request" where
  "at_route r rt = r\<lparr>rq_token := None, rq_path_id := path_id (rt_path rt) (rq_path r)\<rparr>"

text \<open>No path belongs both to an open route and to a gated one.\<close>

lemma open_segments:
  "segments ''/healthz'' = [''healthz'']" "segments ''/openapi.yaml'' = [''openapi.yaml'']"
  "segments ''/openapi.json'' = [''openapi.json'']" "segments ''/swagger.json'' = [''swagger.json'']"
  "segments ''/docs'' = [''docs'']" "segments ''/swagger'' = [''swagger'']"
  "segments ''/v1/auth-status'' = [''v1'', ''auth-status'']"
  by (simp_all add: segments_def)

lemma gated_segments:
  "segments ''/v1/events'' = [''v1'', ''events'']" "segments ''/v1/rules'' = [''v1'', ''rules'']"
  "segments ''/v1/rules/validate'' = [''v1'', ''rules'', ''validate'']"
  "segments ''/v1/rules/{id}'' = [''v1'', ''rules'', ''{id}'']"
  "segments ''/v1/subscribers'' = [''v1'', ''subscribers'']"
  "segments ''/v1/subscribers/{id}'' = [''v1'', ''subscribers'', ''{id}'']"
  "segments ''/v1/subscriptions'' = [''v1'', ''subscriptions'']"
  "segments ''/v1/subscriptions/{id}'' = [''v1'', ''subscriptions'', ''{id}'']"
  "segments ''/v1/incidents'' = [''v1'', ''incidents'']"
  "segments ''/v1/incidents/export'' = [''v1'', ''incidents'', ''export'']"
  "segments ''/v1/incidents/{id}'' = [''v1'', ''incidents'', ''{id}'']"
  "segments ''/v1/notifications'' = [''v1'', ''notifications'']" "segments ''/v1/states'' = [''v1'', ''states'']"
  "segments ''/v1/auth/tokens'' = [''v1'', ''auth'', ''tokens'']"
  "segments ''/v1/auth/tokens/{id}'' = [''v1'', ''auth'', ''tokens'', ''{id}'']"
  by (simp_all add: segments_def)

definition gated_paths :: "string list set" where
  "gated_paths = {''v1'' # xs |xs. xs \<noteq> [''auth-status'']}"

lemma no_wildcard: "list_all2 seg_match ps path \<Longrightarrow> id_segment \<notin> set ps \<Longrightarrow> path = ps"
  by (induction rule: list_all2_induct) (auto simp: seg_match_def)

lemma path_matches_segments: "path_match p path \<Longrightarrow> id_segment \<notin> set (segments p) \<Longrightarrow> path = segments p"
  unfolding path_match_def by (rule no_wildcard)

lemma open_path: "(m, p, h) \<in> set (open_routes s) \<Longrightarrow> path_match p path \<Longrightarrow> path \<notin> gated_paths"
  unfolding open_routes_def
  by (auto simp: open_segments id_segment_def gated_paths_def dest!: path_matches_segments)

lemma gated_path: "rt \<in> set (all_routes s) \<Longrightarrow> path_match (rt_path rt) path \<Longrightarrow> path \<in> gated_paths"
  by (auto simp: all_routes_def gated_routes_def auth_routes_def mk_route_def path_match_def gated_segments
      list_all2_Cons1 seg_match_def id_segment_def gated_paths_def split: if_splits)

lemma find_pattern_None:
  "find_pattern ps r = None \<Longrightarrow> (m, p, h) \<in> set ps \<Longrightarrow> method_match m (rq_method r) \<Longrightarrow>
   \<not> path_match p (rq_path r)"
  by (force simp: find_pattern_def Let_def filter_empty_conv split: option.splits list.splits)

lemma serve_cases:
  assumes "serve st s ui env r sv = (resp, sv')"
  obtains (outside) "sv' = sv" "\<forall>rt \<in> set (all_routes s). method_match (rt_method rt) (rq_method r) \<longrightarrow>
      \<not> path_match (rt_path rt) (rq_path r)"
  | (route) rt h where "rt \<in> set (all_routes s)" "handler_for st s (rt_handler rt) = Some h"
      "method_match (rt_method rt) (rq_method r)" "path_match (rt_path rt) (rq_path r)"
      "gate s rt h env (at_route r rt) sv = (resp, sv')"
proof -
  let ?ps = "open_routes s @ map (mounted st s) (all_routes s)" and ?r = "r\<lparr>rq_token := None\<rparr>"
  have run: "mux ui ?ps env ?r sv = (resp, sv')"
    using assms by (simp add: serve_def mount_eq)
  show ?thesis
  proof (cases "find_pattern ?ps ?r")
    case None
    then have "\<not> path_match (rt_path rt) (rq_path r)"
      if "rt \<in> set (all_routes s)" "method_match (rt_method rt) (rq_method r)" for rt
      using find_pattern_None [OF None, of "rt_method rt" "rt_path rt"] that by (auto simp: mounted_def)
    then show ?thesis using None run that(1) by (auto simp: mux_def split: if_splits)
  next
    case (Some x)
    obtain m p h where x: "x = (m, p, h)" by (cases x)
    then have found: "(m, p, h) \<in> set ?ps" "method_match m (rq_method r)" "path_match p (rq_path r)"
      using find_pattern_mem Some by fastforce+
    have run': "h env (?r\<lparr>rq_path_id := path_id p (rq_path r)\<rparr>) sv = (resp, sv')"
      using run Some x by (simp add: mux_def)
    from found(1) consider "(m, p, h) \<in> set (open_routes s)" | "(m, p, h) \<in> mounted st s ` set (all_routes s)"
      by auto
    then show ?thesis
    proof cases
      case 1
      then have "sv' = sv"
        using run' by (auto simp: open_routes_def serve_doc_def auth_status_def)
      moreover have "rq_path r \<notin> gated_paths" using open_path [OF 1 found(3)] .
      ultimately show ?thesis using that(1) gated_path by blast
    next
      case 2
      then obtain rt where rt: "rt \<in> set (all_routes s)" "(m, p, h) = mounted st s rt" by auto
      have "handler_for st s (rt_handler rt) \<noteq> None"
        using rt(1) routes_handled by (fastforce simp: all_routes_def split: if_splits)
      then show ?thesis using that(2) [OF rt(1)] rt(2) found run'
        by (auto simp: mounted_def at_route_def)
    qed
  qed
qed

section \<open>Relations carried through the handlers\<close>

definition moves_by :: "('s server \<Rightarrow> 's server \<Rightarrow> bool) \<Rightarrow> ('s server \<Rightarrow> 'x \<times> 's server) \<Rightarrow> bool" where
  "moves_by R f \<longleftrightarrow> (\<forall>sv. R sv (snd (f sv)))"

lemma moves_byD: "moves_by R f \<Longrightarrow> f sv = (x, sv') \<Longrightarrow> R sv sv'"
  by (metis moves_by_def snd_conv)

locale server_rel =
  fixes R :: "'s server \<Rightarrow> 's server \<Rightarrow> bool"
  assumes rel_refl: "R sv sv"
    and rel_trans: "R a b \<Longrightarrow> R b c \<Longrightarrow> R a c"
    and rel_touches: "R sv (sv\<lparr>sv_touches := ts\<rparr>)"
begin

lemma stays [simp]: "moves_by R (Pair x)" "moves_by R (\<lambda>sv. (x, sv))"
  by (simp_all add: moves_by_def rel_refl)

lemma on_call_by: "moves_by R m \<Longrightarrow> (\<And>x. moves_by R (k x)) \<Longrightarrow> moves_by R (on_call code m k)"
  unfolding moves_by_def
proof (intro allI)
  fix sv assume m: "\<forall>sv. R sv (snd (m sv))" and k: "\<And>x. \<forall>sv. R sv (snd (k x sv))"
  obtain r sv1 where run: "m sv = (r, sv1)" by (cases "m sv")
  then have "R sv sv1" using m by (metis snd_conv)
  then show "R sv (snd (on_call code m k sv))"
    using k rel_trans by (cases r) (auto simp: on_call_def run)
qed

lemma on_value_by: "(\<And>x. v = Inr x \<Longrightarrow> moves_by R (k x)) \<Longrightarrow> moves_by R (on_value code v k)"
  by (cases v) (auto simp: moves_by_def on_value_def rel_refl)

lemma option_by:
  "moves_by R f \<Longrightarrow> (\<And>y. moves_by R (g y)) \<Longrightarrow>
   moves_by R (\<lambda>sv. case x of None \<Rightarrow> f sv | Some y \<Rightarrow> g y sv)"
  by (cases x) simp_all

lemma ignored_by: "moves_by R m \<Longrightarrow> moves_by R (\<lambda>sv. case m sv of (x, sv') \<Rightarrow> (h x, sv'))"
  by (auto simp: moves_by_def split: prod.splits) (metis snd_conv)

lemma require_scope_by: "moves_by R (h env r) \<Longrightarrow> moves_by R (require_scope scope h env r)"
  by (auto simp: moves_by_def require_scope_def rel_refl split: option.splits)

lemma token_login_by:
  assumes "\<And>x. moves_by R (with_store (tr_get_by_hash repo x))"
    and "\<And>t. moves_by R (h env (r\<lparr>rq_token := t\<rparr>))"
  shows "moves_by R (token_login repo provided h env r)"
  unfolding moves_by_def
proof (intro allI)
  fix sv
  obtain res sv1 where run: "with_store (tr_get_by_hash repo (ae_hash env provided)) sv = (res, sv1)"
    by (cases "with_store (tr_get_by_hash repo (ae_hash env provided)) sv")
  then have 1: "R sv sv1" using assms(1) moves_byD by metis
  have 2: "R sv1 (snd (h env (r\<lparr>rq_token := t\<rparr>) (sv1\<lparr>sv_touches := ts\<rparr>)))" for t ts
    using assms(2) rel_touches rel_trans unfolding moves_by_def by metis
  show "R sv (snd (token_login repo provided h env r sv))"
    using 1 2 rel_trans by (auto simp: token_login_def run invalid_token_def split: sum.splits option.splits)
qed

lemma require_auth_by:
  assumes "\<And>repo x. ms_tokens s = Some repo \<Longrightarrow> moves_by R (with_store (tr_get_by_hash repo x))"
    and "\<And>t. moves_by R (h env (r\<lparr>rq_token := t\<rparr>))"
    and "rq_token r = None"
  shows "moves_by R (require_auth s h env r)"
proof -
  have "r\<lparr>rq_token := None\<rparr> = r" using assms(3) by (cases r) simp
  then have "moves_by R (h env r)" using assms(2) by metis
  moreover have "moves_by R (on_value 401 (bearer_token r) (\<lambda>provided sv.
        if ms_api_token s \<noteq> '''' \<and> provided = ms_api_token s
          then h env (r\<lparr>rq_token := Some shared_token\<rparr>) sv
        else case ms_tokens s of
               None \<Rightarrow> invalid_token sv
             | Some repo \<Rightarrow> token_login repo provided h env r sv))"
    using assms(1,2) token_login_by
    by (intro on_value_by) (auto simp: moves_by_def invalid_token_def rel_refl split: option.splits)
  ultimately show ?thesis by (simp add: moves_by_def require_auth_def)
qed

lemma gate_by:
  assumes "\<And>repo x. ms_tokens s = Some repo \<Longrightarrow> moves_by R (with_store (tr_get_by_hash repo x))"
    and "\<And>t. moves_by R (h env (r\<lparr>rq_token := t\<rparr>))"
    and "rq_token r = None"
  shows "moves_by R (gate s rt h env r)"
  using assms by (auto simp: gate_def read_gate_def write_gate_def intro!: require_auth_by require_scope_by)

lemma serve_by:
  assumes "\<And>repo x. ms_tokens s = Some repo \<Longrightarrow> moves_by R (with_store (tr_get_by_hash repo x))"
    and "\<And>rt h t. rt \<in> set (all_routes s) \<Longrightarrow> handler_for st s (rt_handler rt) = Some h \<Longrightarrow>
           method_match (rt_method rt) (rq_method r) \<Longrightarrow> path_match (rt_path rt) (rq_path r) \<Longrightarrow>
           moves_by R (h env ((at_route r rt)\<lparr>rq_token := t\<rparr>))"
    and "serve st s ui env r sv = (resp, sv')"
  shows "R sv sv'"
  using assms(3)
proof (cases rule: serve_cases)
  case outside
  then show ?thesis by (simp add: rel_refl)
next
  case (route rt h)
  have "moves_by R (gate s rt h env (at_route r rt))"
    using assms(1,2) route(1-4) by (intro gate_by) (auto simp: at_route_def)
  then show ?thesis using route(5) by (rule moves_byD)
qed

end

end
