(* ===== verification/Api_Quiet.thy ===== *)
theory Api_Quiet
  imports Api_Rel
begin

text \<open>
  Handlers that only query. \<open>lite_reads\<close> is a relation on servers over the SQLite store that
  every query keeps; all GET handlers keep it. Its first instance is \<open>quiet\<close>: every table, the
  cache of compiled rules and the event queue stay as they are; the pending failures of the
  database and the pending touches are not part of that.
\<close>

section \<open>The repositories of the store\<close>

lemma lite_repo_sel:
  "rr_list (st_rules (sqlite_store lib)) = lite_rule_list lib"
  "rr_get (st_rules (sqlite_store lib)) = lite_rule_get lib"
  "rr_create (st_rules (sqlite_store lib)) = lite_rule_create lib"
  "rr_update (st_rules (sqlite_store lib)) = lite_rule_update lib"
  "rr_delete (st_rules (sqlite_store lib)) = lite_rule_delete"
  "sbr_list (st_subscribers (sqlite_store lib)) = lite_subscriber_list"
  "sbr_get (st_subscribers (sqlite_store lib)) = lite_subscriber_get"
  "sbr_create (st_subscribers (sqlite_store lib)) = lite_subscriber_create lib"
  "sbr_update (st_subscribers (sqlite_store lib)) = lite_subscriber_update lib"
  "sbr_delete (st_subscribers (sqlite_store lib)) = lite_subscriber_delete"
  "sur_list (st_subscriptions (sqlite_store lib)) = lite_subscription_list"
  "sur_get (st_subscriptions (sqlite_store lib)) = lite_subscription_get"
  "sur_create (st_subscriptions (sqlite_store lib)) = lite_subscription_create lib"
  "sur_update (st_subscriptions (sqlite_store lib)) = lite_subscription_update lib"
  "sur_delete (st_subscriptions (sqlite_store lib)) = lite_subscription_delete"
  "inr_list (st_incidents (sqlite_store lib)) = lite_incident_list"
  "inr_list_for_rule (st_incidents (sqlite_store lib)) = lite_incident_list_for_rule"
  "inr_get (st_incidents (sqlite_store lib)) = lite_incident_get"
  "nr_list (st_notifications (sqlite_store lib)) = lite_notification_list"
  "nr_list_for_incident (st_notifications (sqlite_store lib)) = lite_notification_list_for_incident"
  "lr_list (st_live_states (sqlite_store lib)) = lite_live_list"
  "tr_create (st_api_tokens (sqlite_store lib)) = lite_token_create lib"
  "tr_get_by_hash (st_api_tokens (sqlite_store lib)) = lite_token_get_by_hash"
  "tr_get (st_api_tokens (sqlite_store lib)) = lite_token_get"
  "tr_list (st_api_tokens (sqlite_store lib)) = lite_token_list"
  "tr_revoke (st_api_tokens (sqlite_store lib)) = lite_token_revoke"
  "tr_touch_last_used (st_api_tokens (sqlite_store lib)) = lite_token_touch_last_used"
  by (simp_all add: sqlite_store_def)

text \<open>The mounts of the shipped server: tokens live in the same database, or are off.\<close>

definition lite_settings :: "golib \<Rightarrow> db mount_settings \<Rightarrow> bool" where
  "lite_settings lib s \<longleftrightarrow> ms_tokens s \<in> {None, Some (st_api_tokens (sqlite_store lib))}"

lemma with_engine_on_rules [simp]: "with_engine (on_rules m) = with_store m"
  by (auto simp: with_engine_def on_rules_def with_store_def fun_eq_iff split: prod.splits)

section \<open>Which routes write\<close>

lemma handler_for_table:
  "handler_for st s ''postEvent'' = Some post_event" "handler_for st s ''listRules'' = Some (list_rules st)"
  "handler_for st s ''createRule'' = Some (create_rule st)" "handler_for st s ''validateRule'' = Some validate_rule"
  "handler_for st s ''getRule'' = Some (get_rule st)" "handler_for st s ''updateRule'' = Some (update_rule st)"
  "handler_for st s ''deleteRule'' = Some (delete_rule st)"
  "handler_for st s ''listSubscribers'' = Some (list_subscribers st)"
  "handler_for st s ''createSubscriber'' = Some (create_subscriber st)"
  "handler_for st s ''getSubscriber'' = Some (get_subscriber st)"
  "handler_for st s ''updateSubscriber'' = Some (update_subscriber st)"
  "handler_for st s ''deleteSubscriber'' = Some (delete_subscriber st)"
  "handler_for st s ''listSubscriptions'' = Some (list_subscriptions st)"
  "handler_for st s ''createSubscription'' = Some (create_subscription st)"
  "handler_for st s ''getSubscription'' = Some (get_subscription st)"
  "handler_for st s ''updateSubscription'' = Some (update_subscription st)"
  "handler_for st s ''deleteSubscription'' = Some (delete_subscription st)"
  "handler_for st s ''listIncidents'' = Some (list_incidents st)"
  "handler_for st s ''exportIncidents'' = Some (export_incidents st)"
  "handler_for st s ''getIncident'' = Some (get_incident st)"
  "handler_for st s ''listNotifications'' = Some (list_notifications st)"
  "handler_for st s ''listStates'' = Some (list_states st)"
  "handler_for st s ''listTokens'' = Some (on_tokens s list_tokens)"
  "handler_for st s ''issueToken'' = Some (on_tokens s issue_token)"
  "handler_for st s ''revokeToken'' = Some (on_tokens s revoke_token)"
  by (simp_all add: handler_for_def)

lemma get_routes:
  assumes "rt \<in> set (all_routes s)" and "method_match (rt_method rt) x" and "x \<in> {''GET'', ''HEAD''}"
    and "handler_for st s (rt_handler rt) = Some h"
  shows "h \<in> {list_rules st, get_rule st, list_subscribers st, get_subscriber st, list_subscriptions st,
    get_subscription st, list_incidents st, export_incidents st, get_incident st, list_notifications st,
    list_states st, on_tokens s list_tokens}"
  using assms
  by (auto simp: all_routes_def gated_routes_def auth_routes_def mk_route_def handler_for_table
      method_match_def split: if_splits)

lemma read_scope_routes:
  assumes "rt \<in> set (all_routes s)" and "rt_scope rt \<noteq> scope_admin"
  shows "rt_method rt = ''GET'' \<and> rt_scope rt = scope_read"
  using assms by (auto simp: all_routes_def gated_routes_def auth_routes_def mk_route_def split: if_splits)

section \<open>Relations every query keeps\<close>

text \<open>A query does to the database what any other query does: it uses up a pending outcome.\<close>

lemma query_effect: "snd (db_query f d) = snd (db_query (\<lambda>_. Inr () :: unit result) d)"
  by (auto simp: db_query_def db_call_def split: list.splits option.splits)

locale lite_reads = server_rel R for R :: "db server \<Rightarrow> db server \<Rightarrow> bool" +
  assumes rel_query: "R sv (sv\<lparr>sv_store := snd (db_query (\<lambda>_. Inr () :: unit result) (sv_store sv))\<rparr>)"
begin

lemma query: "moves_by R (with_store (db_query f))"
  using rel_query
  by (auto simp: moves_by_def with_store_def query_effect [of f, symmetric] split: prod.splits) (metis snd_conv)

lemma lookup_by: "lite_settings lib s \<Longrightarrow> ms_tokens s = Some repo \<Longrightarrow>
    moves_by R (with_store (tr_get_by_hash repo x))"
  by (auto simp: lite_settings_def lite_repo_sel lite_token_get_by_hash_def query)

lemma lite_reads_by:
  "moves_by R (with_engine (api_rule_list (sqlite_store lib)))"
  "moves_by R (with_engine (api_rule_get (sqlite_store lib) i))"
  "moves_by R (with_store lite_subscriber_list)" "moves_by R (with_store (lite_subscriber_get i))"
  "moves_by R (with_store lite_subscription_list)" "moves_by R (with_store (lite_subscription_get i))"
  "moves_by R (with_store (lite_incident_list n))"
  "moves_by R (with_store (lite_incident_list_for_rule i n))"
  "moves_by R (with_store (lite_incident_get i))"
  "moves_by R (with_store (lite_notification_list n))"
  "moves_by R (with_store (lite_notification_list_for_incident i))"
  "moves_by R (with_store lite_live_list)" "moves_by R (with_store lite_token_list)"
  "moves_by R (with_store (lite_token_get i))"
  unfolding api_rule_list_def api_rule_get_def lite_repo_sel
    lite_rule_list_def lite_rule_get_def lite_subscriber_list_def lite_subscriber_get_def
    lite_subscription_list_def lite_subscription_get_def lite_incident_list_def lite_incident_get_def
    lite_incident_list_for_rule_def lite_notification_list_def lite_notification_list_for_incident_def
    lite_live_list_def lite_token_list_def lite_token_get_def
  by (simp_all add: query)

lemmas read_intros = on_call_by on_value_by option_by ignored_by lite_reads_by stays

lemma list_handlers_by:
  "moves_by R (list_rules (sqlite_store lib) env r)"
  "moves_by R (list_subscribers (sqlite_store lib) env r)"
  "moves_by R (list_subscriptions (sqlite_store lib) env r)"
  "moves_by R (list_notifications (sqlite_store lib) env r)"
  "moves_by R (list_states (sqlite_store lib) env r)"
  "moves_by R (list_tokens (st_api_tokens (sqlite_store lib)) env r)"
  "moves_by R (validate_rule env r)"
  unfolding list_rules_def list_subscribers_def list_subscriptions_def list_notifications_def list_states_def
    list_tokens_def validate_rule_def lite_repo_sel
  by (intro read_intros)+

lemma get_handlers_by:
  "moves_by R (get_rule (sqlite_store lib) env r)"
  "moves_by R (get_subscriber (sqlite_store lib) env r)"
  "moves_by R (get_subscription (sqlite_store lib) env r)"
  "moves_by R (get_incident (sqlite_store lib) env r)"
  unfolding get_rule_def get_subscriber_def get_subscription_def get_incident_def lite_repo_sel
  by (intro read_intros)+

lemma incident_handlers_by:
  "moves_by R (list_incidents (sqlite_store lib) env r)"
  "moves_by R (export_incidents (sqlite_store lib) env r)"
  unfolding list_incidents_def export_incidents_def lite_repo_sel Let_def
  by (auto intro!: on_call_by on_value_by lite_reads_by)

lemma on_tokens_by:
  assumes "lite_settings lib s" and "moves_by R (h (st_api_tokens (sqlite_store lib)) env r)"
  shows "moves_by R (on_tokens s h env r)"
  using assms by (auto simp: moves_by_def on_tokens_def lite_settings_def rel_refl split: option.splits)

lemmas read_handlers_by = list_handlers_by get_handlers_by incident_handlers_by

lemma get_by:
  assumes "lite_settings lib s" and "rt \<in> set (all_routes s)" and "method_match (rt_method rt) x"
    and "x \<in> {''GET'', ''HEAD''}" and "handler_for (sqlite_store lib) s (rt_handler rt) = Some h"
  shows "moves_by R (h env r)"
  using get_routes [OF assms(2-5)]
  by (auto intro: read_handlers_by on_tokens_by [OF assms(1)])

lemma serve_get_by:
  assumes "lite_settings lib s" and "rq_method r \<in> {''GET'', ''HEAD''}"
    and "serve (sqlite_store lib) s ui env r sv = (resp, sv')"
  shows "R sv sv'"
proof (rule serve_by [OF _ _ assms(3)])
  show "moves_by R (with_store (tr_get_by_hash repo x))" if "ms_tokens s = Some repo" for repo x
    using lookup_by [OF assms(1) that] .
qed (use get_by [OF assms(1) _ _ assms(2)] in blast)

end

section \<open>Quiet requests\<close>

definition quiet :: "db server \<Rightarrow> db server \<Rightarrow> bool" where
  "quiet sv sv' \<longleftrightarrow> same_tables (sv_store sv) (sv_store sv') \<and> sv_cache sv' = sv_cache sv \<and>
     sv_input sv' = sv_input sv"

interpretation quiet: lite_reads quiet
  by unfold_locales
    (auto simp: quiet_def intro: same_tables_trans, metis db_query_tables prod.collapse)

end
