(* ===== verification/Api_Access.thy ===== *)
theory Api_Access
  imports Api_Quiet
begin

text \<open>
  Who may do what: the scopes the credentials of a request carry, and what the middleware
  makes of them.
\<close>

section \<open>Credentials\<close>

definition live_row :: "api_env \<Rightarrow> token_row \<Rightarrow> bool" where
  "live_row env row \<longleftrightarrow> kw_revoked row = 0 \<and>
     (case kw_expires_at row of None \<Rightarrow> True | Some ms \<Rightarrow> ae_now env < of_unix_milli ms)"

definition row_scopes :: "token_row \<Rightarrow> string list" where
  "row_scopes row = (case json_get_strings (kw_scopes row) of Inl _ \<Rightarrow> [] | Inr xs \<Rightarrow> xs)"

text \<open>The specification: the shared token grants admin, a live row its own scopes.\<close>

definition granted :: "db mount_settings \<Rightarrow> api_env \<Rightarrow> request \<Rightarrow> db \<Rightarrow> string set" where
  "granted s env r d = {scope. \<exists>p. bearer_token r = Inr p \<and>
     (ms_api_token s \<noteq> '''' \<and> p = ms_api_token s \<and> scope = scope_admin \<or>
      ms_tokens s \<noteq> None \<and> (\<exists>row \<in> set (t_tokens d). kw_token_hash row = ae_hash env p \<and>
        live_row env row \<and> scope \<in> set (row_scopes row)))}"

lemma scan_token_sel:
  assumes "scan_token row = Inr tok"
  shows "tk_scopes tok = row_scopes row"
    and "\<not> tk_revoked tok \<and> \<not> is_expired tok now \<longleftrightarrow>
      kw_revoked row = 0 \<and> (case kw_expires_at row of None \<Rightarrow> True | Some ms \<Rightarrow> now < of_unix_milli ms)"
    and "tk_id tok = kw_id row" and "tk_hash tok = kw_token_hash row"
  using assms
  by (auto simp: scan_token_def res_bind_Inr_iff row_scopes_def is_expired_def split: option.splits)

lemma get_by_hash_cases:
  assumes "lite_token_get_by_hash h d = (res, d')"
  obtains e where "res = Inl e" "same_tables d d'"
  | "res = Inr None" "same_tables d d'" "\<forall>row \<in> set (t_tokens d). kw_token_hash row \<noteq> h"
  | row tok where "res = Inr (Some tok)" "same_tables d d'" "row \<in> set (t_tokens d)"
      "kw_token_hash row = h" "scan_token row = Inr tok"
proof -
  have same: "same_tables d d'"
    using assms by (simp add: lite_token_get_by_hash_def db_query_tables)
  consider e where "res = Inl e" | "res = scan_one scan_token (tbl_find kw_token_hash h (t_tokens d))"
    using assms unfolding lite_token_get_by_hash_def
    by (rule db_query_cases) (auto simp: is_ok_iff)
  then show ?thesis
  proof cases
    case (1 e)
    then show ?thesis using same that(1) by blast
  next
    case 2
    show ?thesis
    proof (cases "tbl_find kw_token_hash h (t_tokens d)")
      case None
      then have "\<forall>row \<in> set (t_tokens d). kw_token_hash row \<noteq> h"
        by (auto simp: tbl_find_def find_None_iff)
      then show ?thesis using 2 None same that(2) by (simp add: scan_one_def)
    next
      case (Some row)
      then have row: "row \<in> set (t_tokens d)" "kw_token_hash row = h"
        by (auto dest: tbl_find_SomeD)
      show ?thesis
      proof (cases "scan_token row")
        case (Inl e)
        then show ?thesis using 2 Some same that(1) by (simp add: scan_one_def)
      next
        case (Inr tok)
        then show ?thesis using 2 Some same row that(3) by (simp add: scan_one_def)
      qed
    qed
  qed
qed

text \<open>What lets a handler run behind the middleware.\<close>

lemma require_auth_cases:
  assumes "lite_settings lib s" and "auth_required s"
    and "require_auth s h env r sv = (resp, sv')"
  obtains (refused) "quiet sv sv'"
      "resp = write_error 500 (ErrNew ''auth lookup failed'') \<or> (\<exists>e. resp = write_error 401 e)"
  | (passed) tok sv1 where "quiet sv sv1" "set (tk_scopes tok) \<subseteq> granted s env r (sv_store sv)"
      "h env (r\<lparr>rq_token := Some tok\<rparr>) sv1 = (resp, sv')"
proof (cases "bearer_token r")
  case (Inl e)
  then show ?thesis using assms refused by (auto simp: require_auth_def on_value_def quiet.rel_refl)
next
  case (Inr p)
  show ?thesis
  proof (cases "ms_api_token s \<noteq> '''' \<and> p = ms_api_token s")
    case True
    then have "set (tk_scopes shared_token) \<subseteq> granted s env r (sv_store sv)"
      using Inr by (auto simp: shared_token_def granted_def)
    then show ?thesis using assms(2,3) Inr True passed [OF quiet.rel_refl]
      by (auto simp: require_auth_def on_value_def)
  next
    case False
    show ?thesis
    proof (cases "ms_tokens s")
      case None
      then show ?thesis using assms(2,3) Inr False refused
        by (auto simp: require_auth_def on_value_def invalid_token_def quiet.rel_refl)
    next
      case (Some repo)
      then have repo: "repo = st_api_tokens (sqlite_store lib)" using assms(1) by (simp add: lite_settings_def)
      have run: "token_login repo p h env r sv = (resp, sv')"
        using assms(2,3) Inr False Some by (auto simp: require_auth_def on_value_def)
      obtain res d1 where get: "lite_token_get_by_hash (ae_hash env p) (sv_store sv) = (res, d1)"
        by (cases "lite_token_get_by_hash (ae_hash env p) (sv_store sv)")
      have quiet1: "quiet sv (sv\<lparr>sv_store := d1, sv_touches := ts\<rparr>)" for ts
        using get by (auto simp: quiet_def lite_token_get_by_hash_def dest: db_query_tables)
      have quiet2: "quiet sv (sv\<lparr>sv_store := d1\<rparr>)"
        using get by (auto simp: quiet_def lite_token_get_by_hash_def dest: db_query_tables)
      note run' = run [unfolded token_login_def with_store_def repo lite_repo_sel get, simplified]
      from get show ?thesis
      proof (cases rule: get_by_hash_cases)
        case (1 e)
        with run' have "resp = write_error 500 (ErrNew ''auth lookup failed'')" "sv' = sv\<lparr>sv_store := d1\<rparr>"
          by simp_all
        then show ?thesis using quiet2 refused by blast
      next
        case 2
        with run' have "resp = write_error 401 (ErrNew ''invalid token'')" "sv' = sv\<lparr>sv_store := d1\<rparr>"
          by (simp_all add: invalid_token_def)
        then show ?thesis using quiet2 refused by blast
      next
        case (3 row tok)
        show ?thesis
        proof (cases "\<not> tk_revoked tok \<and> \<not> is_expired tok (ae_now env)")
          case True
          then have "live_row env row" using scan_token_sel(2) [OF 3(5)] by (simp add: live_row_def)
          then have "set (tk_scopes tok) \<subseteq> granted s env r (sv_store sv)"
            using Inr Some 3(3,4) scan_token_sel(1) [OF 3(5)] by (auto simp: granted_def)
          then show ?thesis using run' True 3(1) passed [OF quiet1] by simp
        next
          case False
          with run' 3(1) have "resp = write_error 401 (ErrNew ''invalid token'')" "sv' = sv\<lparr>sv_store := d1\<rparr>"
            by (auto simp: invalid_token_def split: if_splits)
          then show ?thesis using quiet2 refused by blast
        qed
      qed
    qed
  qed
qed

lemma gate_admin_quiet:
  assumes "lite_settings lib s" and "auth_required s" and "rt_scope rt = scope_admin"
    and "scope_admin \<notin> granted s env r (sv_store sv)" and "gate s rt h env r sv = (resp, sv')"
  shows "quiet sv sv'"
proof -
  have "require_auth s (require_scope scope_admin h) env r sv = (resp, sv')"
    using assms(3,5) by (simp add: gate_def write_gate_def)
  with assms(1,2) show ?thesis
  proof (cases rule: require_auth_cases)
    case refused
    then show ?thesis by simp
  next
    case (passed tok sv1)
    then have "\<not> has_scope tok scope_admin" using assms(4) by (auto simp: has_scope_def)
    then show ?thesis using passed by (simp add: require_scope_def)
  qed
qed

text \<open>Nothing changes without the admin scope.\<close>

lemma no_admin_quiet:
  assumes "lite_settings lib s" and "auth_required s"
    and "scope_admin \<notin> granted s env r (sv_store sv)"
    and "serve (sqlite_store lib) s ui env r sv = (resp, sv')"
  shows "quiet sv sv'"
  using assms(4)
proof (cases rule: serve_cases)
  case outside
  then show ?thesis by (simp add: quiet.rel_refl)
next
  case (route rt h)
  show ?thesis
  proof (cases "rt_scope rt = scope_admin")
    case True
    have "granted s env (at_route r rt) (sv_store sv) = granted s env r (sv_store sv)"
      by (simp add: granted_def bearer_token_def at_route_def)
    then show ?thesis using gate_admin_quiet [OF assms(1,2) True _ route(5)] assms(3) by simp
  next
    case False
    then have "rq_method r \<in> {''GET'', ''HEAD''}"
      using read_scope_routes [OF route(1)] route(3) by (auto simp: method_match_def)
    then show ?thesis using quiet.serve_get_by [OF assms(1) _ assms(4)] by simp
  qed
qed

end
