(* ===== verification/Api_Writes.thy ===== *)
theory Api_Writes
  imports Api_Access
begin

text \<open>
  Relations every call of the API keeps, and their first instance: serving a request takes the
  system from a state to one it can reach by system steps.
\<close>

section \<open>All handlers\<close>

lemma to_rule_id: "to_rule lib uuid p = Inr x \<Longrightarrow> uuid \<noteq> '''' \<Longrightarrow> r_id x \<noteq> []"
  by (auto simp: to_rule_def res_bind_Inr_iff Let_def split: if_splits)

locale lite_writes = lite_reads +
  fixes lib :: golib
  assumes rule_create: "r_id x \<noteq> [] \<Longrightarrow> moves_by R (with_engine (api_rule_create lib (sqlite_store lib) now x))"
    and rule_update: "r_id x \<noteq> [] \<Longrightarrow> moves_by R (with_engine (api_rule_update lib (sqlite_store lib) now x))"
    and rule_delete: "moves_by R (with_engine (api_rule_delete (sqlite_store lib) i))"
    and subscriber_create: "moves_by R (with_store (lite_subscriber_create lib now sb))"
    and subscriber_update: "moves_by R (with_store (lite_subscriber_update lib now sb))"
    and subscriber_delete: "moves_by R (with_store (lite_subscriber_delete i))"
    and subscription_create: "moves_by R (with_store (lite_subscription_create lib now su))"
    and subscription_update: "moves_by R (with_store (lite_subscription_update lib now su))"
    and subscription_delete: "moves_by R (with_store (lite_subscription_delete i))"
    and token_create: "moves_by R (with_store (lite_token_create lib now tk))"
    and token_revoke: "moves_by R (with_store (lite_token_revoke i))"
    and submit: "moves_by R (submit_event env r p)"
begin

lemmas write_intros =
  read_intros rule_create rule_update rule_delete subscriber_create subscriber_update subscriber_delete
  subscription_create subscription_update subscription_delete token_create token_revoke submit

lemma write_handlers_by:
  "moves_by R (delete_rule (sqlite_store lib) env r)"
  "moves_by R (create_subscriber (sqlite_store lib) env r)"
  "moves_by R (update_subscriber (sqlite_store lib) env r)"
  "moves_by R (delete_subscriber (sqlite_store lib) env r)"
  "moves_by R (create_subscription (sqlite_store lib) env r)"
  "moves_by R (update_subscription (sqlite_store lib) env r)"
  "moves_by R (delete_subscription (sqlite_store lib) env r)"
  unfolding delete_rule_def create_subscriber_def update_subscriber_def delete_subscriber_def
    create_subscription_def update_subscription_def delete_subscription_def lite_repo_sel Let_def
  by (intro write_intros)+

lemma rule_writers_by:
  assumes "ae_lib env = lib" and "ae_uuid env \<noteq> ''''"
  shows "moves_by R (create_rule (sqlite_store lib) env r)" "moves_by R (update_rule (sqlite_store lib) env r)"
  unfolding create_rule_def update_rule_def assms(1)
  by (auto intro!: on_value_by on_call_by rule_create rule_update dest: to_rule_id [OF _ assms(2)])

lemma token_writers_by:
  "moves_by R (issue_token (st_api_tokens (sqlite_store lib)) env r)"
  "moves_by R (revoke_token (st_api_tokens (sqlite_store lib)) env r)"
proof -
  show "moves_by R (issue_token (st_api_tokens (sqlite_store lib)) env r)"
    unfolding issue_token_def lite_repo_sel
    by (auto intro!: on_value_by on_call_by token_create split: prod.splits)
  have "moves_by R (on_call 500 (with_store (lite_token_get i)) (\<lambda>existing.
           case existing of
             None \<Rightarrow> (\<lambda>sv. (write_error 404 (ErrNew ''token not found''), sv))
           | Some _ \<Rightarrow> on_call 500 (with_store (lite_token_revoke i)) (\<lambda>_ sv. (Reply 204 VNone, sv))))" for i
    by (auto intro!: on_call_by lite_reads_by token_revoke split: option.splits)
  then show "moves_by R (revoke_token (st_api_tokens (sqlite_store lib)) env r)"
    by (auto simp: revoke_token_def lite_repo_sel Let_def)
qed

lemma post_event_by: "moves_by R (post_event env r)"
  unfolding post_event_def by (auto intro!: on_value_by submit)

lemma handler_by:
  assumes "lite_settings lib s" and "ae_lib env = lib" and "ae_uuid env \<noteq> ''''"
    and "rt \<in> set (all_routes s)" and "handler_for (sqlite_store lib) s (rt_handler rt) = Some h"
  shows "moves_by R (h env r)"
proof -
  have tokens: "moves_by R (on_tokens s list_tokens env r)" "moves_by R (on_tokens s issue_token env r)"
    "moves_by R (on_tokens s revoke_token env r)"
    by (rule on_tokens_by [OF assms(1)], rule list_handlers_by token_writers_by)+
  show ?thesis
    using assms(4,5)
    by (auto simp: all_routes_def gated_routes_def auth_routes_def mk_route_def handler_for_table
      intro: read_handlers_by write_handlers_by rule_writers_by [OF assms(2,3)] post_event_by tokens
      split: if_splits)
qed

lemma serve_write_by:
  assumes "lite_settings lib s" and "ae_lib env = lib" and "ae_uuid env \<noteq> ''''"
    and "serve (sqlite_store lib) s ui env r sv = (resp, sv')"
  shows "R sv sv'"
proof (rule serve_by [OF _ _ assms(4)])
  show "moves_by R (with_store (tr_get_by_hash repo x))" if "ms_tokens s = Some repo" for repo x
    using lookup_by [OF assms(1) that] .
qed (use handler_by [OF assms(1-3)] in blast)

end

section \<open>Requests are steps of the system\<close>

definition sys_at :: "db server \<Rightarrow> sys \<Rightarrow> sys" where
  "sys_at sv s = (with_db (sv_store sv) s)\<lparr>sy_cache := sv_cache sv\<rparr>"

definition steps_between ::
  "golib \<Rightarrow> db dispatcher \<Rightarrow> datasources \<Rightarrow> db server \<Rightarrow> db server \<Rightarrow> bool" where
  "steps_between lib d dbs sv sv' \<longleftrightarrow> (\<forall>s. (sys_step lib d dbs)\<^sup>*\<^sup>* (sys_at sv s) (sys_at sv' s))"

lemma sys_at_sel [simp]:
  "sys_db (sys_at sv s) = sv_store sv" "sy_cache (sys_at sv s) = sv_cache sv"
  "(with_db x (sys_at sv s))\<lparr>sy_cache := m\<rparr> = (with_db x s)\<lparr>sy_cache := m\<rparr>"
  by (simp_all add: sys_at_def sys_db_def with_db_def)

lemma admin_between:
  assumes "admin_call lib f"
  shows "steps_between lib d dbs sv (sv\<lparr>sv_store := f (sv_store sv)\<rparr>)"
  unfolding steps_between_def
proof
  fix s
  have "sys_step lib d dbs (sys_at sv s) (with_db (f (sv_store sv)) (sys_at sv s))"
    using sys_step.admin [OF assms, of d dbs "sys_at sv s"] by simp
  moreover have "with_db (f (sv_store sv)) (sys_at sv s) = sys_at (sv\<lparr>sv_store := f (sv_store sv)\<rparr>) s"
    by (simp add: sys_at_def with_db_def)
  ultimately show "(sys_step lib d dbs)\<^sup>*\<^sup>* (sys_at sv s) (sys_at (sv\<lparr>sv_store := f (sv_store sv)\<rparr>) s)"
    by simp
qed

lemma admin_op_between:
  assumes "admin_call lib (\<lambda>d. snd (m d))"
  shows "moves_by (steps_between lib d dbs) (with_store m)"
  unfolding moves_by_def
proof
  fix sv :: "db server"
  have "snd (with_store m sv) = sv\<lparr>sv_store := snd (m (sv_store sv))\<rparr>"
    by (simp add: with_store_def split: prod.splits)
  then show "steps_between lib d dbs sv (snd (with_store m sv))"
    using admin_between [OF assms, where sv = sv] by simp
qed

lemma engine_op_between:
  assumes "\<And>s db' m res. f (sys_db s, sy_cache s) = (res, db', m) \<Longrightarrow>
      sys_step lib d dbs s ((with_db db' s)\<lparr>sy_cache := m\<rparr>)"
  shows "moves_by (steps_between lib d dbs) (with_engine f)"
  unfolding moves_by_def steps_between_def
proof (intro allI)
  fix sv :: "db server" and s
  obtain res db' m where run: "f (sv_store sv, sv_cache sv) = (res, db', m)"
    by (cases "f (sv_store sv, sv_cache sv)") auto
  have "sys_step lib d dbs (sys_at sv s) ((with_db db' s)\<lparr>sy_cache := m\<rparr>)"
    using assms [of "sys_at sv s" res db' m] run by simp
  then show "(sys_step lib d dbs)\<^sup>*\<^sup>* (sys_at sv s) (sys_at (snd (with_engine f sv)) s)"
    by (simp add: with_engine_def run sys_at_def r_into_rtranclp)
qed

interpretation between: lite_writes "steps_between lib d dbs" lib
proof unfold_locales
  show "steps_between lib d dbs sv sv" for sv
    by (simp add: steps_between_def)
  show "steps_between lib d dbs a b \<Longrightarrow> steps_between lib d dbs b c \<Longrightarrow> steps_between lib d dbs a c" for a b c
    unfolding steps_between_def by (meson rtranclp_trans)
  show "steps_between lib d dbs sv (sv\<lparr>sv_touches := ts\<rparr>)" for sv ts
    by (simp add: steps_between_def sys_at_def)
  show "steps_between lib d dbs sv (sv\<lparr>sv_store := snd (db_query (\<lambda>_. Inr () :: unit result) (sv_store sv))\<rparr>)" for sv
    using admin_between [OF admin_call.any_read, where sv = sv] .
  show "moves_by (steps_between lib d dbs) (submit_event env r p)" for env r p
    by (auto simp: moves_by_def submit_event_def steps_between_def sys_at_def split: option.splits sum.splits)
  show "moves_by (steps_between lib d dbs) (with_engine (api_rule_create lib (sqlite_store lib) now x))"
    if "r_id x \<noteq> []" for now x by (rule engine_op_between, rule sys_step.rule_create [OF that])
  show "moves_by (steps_between lib d dbs) (with_engine (api_rule_update lib (sqlite_store lib) now x))"
    if "r_id x \<noteq> []" for now x by (rule engine_op_between, rule sys_step.rule_update [OF that])
  show "moves_by (steps_between lib d dbs) (with_engine (api_rule_delete (sqlite_store lib) i))" for i
    by (rule engine_op_between, rule sys_step.rule_delete)
qed (rule admin_op_between, rule admin_call.intros)+

end
