(* ===== verification/Store_Props.thy ===== *)
theory Store_Props
  imports Rule_Props System_Inv
begin

text \<open>
  The SQLite driver and the pruner on their own: migrations run exactly once, a prune pass
  deletes what it archives or nothing, and what is stored is what is read back.
\<close>

section \<open>Migrations\<close>

text \<open>A script ran when and only when it is recorded, and none ran twice.\<close>

definition migrations_ok :: "db \<Rightarrow> bool" where
  "migrations_ok d \<longleftrightarrow> t_scripts d = map fst (t_migrations d) \<and> distinct (t_scripts d)"

definition sql_scripts :: "string list \<Rightarrow> string list" where
  "sql_scripts names = sort (filter (\<lambda>n. has_suffix n ''.sql'') names)"

lemma migrations_ok_same: "same_tables d d' \<Longrightarrow> migrations_ok d' = migrations_ok d"
  by (simp add: migrations_ok_def same_tablesD)

lemma migrate_one_effect:
  assumes "lite_migrate_one now name d = (res, d')" and "migrations_ok d"
  shows "migrations_ok d' \<and>
    (t_scripts d' = t_scripts d \<and> (is_ok res \<longrightarrow> name \<in> set (t_scripts d)) \<or>
     name \<notin> set (t_scripts d) \<and> is_ok res \<and> t_scripts d' = t_scripts d @ [name])"
proof -
  let ?count = "\<lambda>d. length (filter (\<lambda>(v, _). v = name) (t_migrations d))"
  let ?body = "op_bind (op_wrap (''migrate '' @ name) (db_exec (\<lambda>d. Inr (d\<lparr>t_scripts := t_scripts d @ [name]\<rparr>))))
         (\<lambda>_. db_exec (\<lambda>d. res_map (\<lambda>rows. d\<lparr>t_migrations := rows\<rparr>)
            (sql_insert ''schema_migrations.version'' fst (name, now name div second) (t_migrations d))))"
  have body: "t_scripts d2 = t_scripts d1 @ [name] \<and> t_migrations d2 = t_migrations d1 @ [(name, now name div second)]"
    if run: "?body d1 = (Inr u, d2)" for d1 d2 u
  proof -
    obtain d3 where d3: "db_exec (\<lambda>d. Inr (d\<lparr>t_scripts := t_scripts d @ [name]\<rparr>)) d1 = (Inr (), d3)"
      "db_exec (\<lambda>d. res_map (\<lambda>rows. d\<lparr>t_migrations := rows\<rparr>)
            (sql_insert ''schema_migrations.version'' fst (name, now name div second) (t_migrations d))) d3 = (Inr u, d2)"
      using run by (auto simp: op_bind_def op_wrap_def res_wrap_def split: prod.splits sum.splits)
    show ?thesis using d3(2)
    proof (cases rule: db_exec_cases)
      case (2 fs)
      then show ?thesis using same_tablesD [OF exec_ok_tables [OF d3(1)]]
        by (auto simp: res_map_def res_bind_Inr_iff sql_insert_Inr_iff)
    qed simp
  qed
  obtain q d1 where q: "db_query (\<lambda>d. Inr (?count d) :: nat result) d = (q, d1)"
    by (cases "db_query (\<lambda>d. Inr (?count d) :: nat result) d")
  have t1: "same_tables d d1" by (rule db_query_tables [OF q])
  show ?thesis
  proof (cases q)
    case (Inl e)
    then have "res = Inl e" "d' = d1" using assms(1) q by (auto simp: lite_migrate_one_def op_bind_def)
    then show ?thesis using assms(2) t1 by (simp add: migrations_ok_same same_tablesD)
  next
    case (Inr n)
    then have n: "n = ?count d" using db_query_cases [OF q] by auto
    show ?thesis
    proof (cases "0 < n")
      case True
      then have "res = Inr ()" "d' = d1" using assms(1) q Inr by (auto simp: lite_migrate_one_def op_bind_def)
      moreover have "name \<in> set (t_scripts d)"
        using True n assms(2) by (force simp: migrations_ok_def filter_empty_conv)
      ultimately show ?thesis using assms(2) t1 by (simp add: migrations_ok_same same_tablesD)
    next
      case False
      then have new: "name \<notin> set (t_scripts d)"
        using n assms(2) by (auto simp: migrations_ok_def filter_empty_conv)
      have run: "db_tx ?body d1 = (res, d')"
        using assms(1) q Inr False by (simp add: lite_migrate_one_def op_bind_def)
      from run show ?thesis
      proof (cases rule: db_tx_cases)
        case (1 e)
        then show ?thesis using assms(2) t1 by (simp add: migrations_ok_same same_tablesD)
      next
        case (2 x d2 d3)
        have "t_scripts d' = t_scripts d @ [name]"
          "t_migrations d' = t_migrations d @ [(name, now name div second)]"
          using body [OF 2(3)] same_tablesD [OF 2(2)] same_tablesD [OF 2(4)] same_tablesD [OF t1] by simp_all
        then show ?thesis using new assms(2) 2(1) by (auto simp: migrations_ok_def)
      qed
    qed
  qed
qed

lemma migrate_loop_effect:
  assumes "op_for (lite_migrate_one now) names d = (res, d')" and "migrations_ok d"
  shows "migrations_ok d' \<and> (\<exists>ran. t_scripts d' = t_scripts d @ ran \<and> set ran \<subseteq> set names) \<and>
    (is_ok res \<longrightarrow> set names \<subseteq> set (t_scripts d'))"
  using assms
proof (induction names arbitrary: d)
  case Nil
  then show ?case by simp
next
  case (Cons name names)
  obtain r1 d1 where one: "lite_migrate_one now name d = (r1, d1)" by (cases "lite_migrate_one now name d")
  note eff = migrate_one_effect [OF one Cons.prems(2)]
  show ?case
  proof (cases r1)
    case (Inl e)
    then show ?thesis using Cons.prems(1) one eff by (auto simp: op_bind_def)
  next
    case (Inr u)
    then have rest: "op_for (lite_migrate_one now) names d1 = (res, d')"
      using Cons.prems(1) one by (simp add: op_bind_def)
    obtain ran where ran: "migrations_ok d'" "t_scripts d' = t_scripts d1 @ ran" "set ran \<subseteq> set names"
      "is_ok res \<Longrightarrow> set names \<subseteq> set (t_scripts d')"
      using Cons.IH [OF rest] eff by blast
    have "\<exists>pre. t_scripts d1 = t_scripts d @ pre \<and> set pre \<subseteq> {name} \<and> name \<in> set (t_scripts d1)"
      using eff Inr by auto
    then obtain pre where "t_scripts d1 = t_scripts d @ pre" "set pre \<subseteq> {name}" "name \<in> set (t_scripts d1)"
      by blast
    then show ?thesis using ran by (intro conjI exI [of _ "pre @ ran"]) auto
  qed
qed

text \<open>
  C17: Whatever calls of the database fail, a migration run executes each script that is not
  yet recorded at most once and records exactly the scripts it executed; a run that succeeds
  has executed them all, and a run after it executes none.
\<close>

theorem migrate_exactly_once:
  assumes "lite_migrate names now d = (res, d')" and "migrations_ok d"
  shows "migrations_ok d' \<and>
    (\<exists>ran. t_scripts d' = t_scripts d @ ran \<and> distinct (t_scripts d @ ran) \<and> set ran \<subseteq> set (sql_scripts names)) \<and>
    (is_ok res \<longrightarrow> set (sql_scripts names) \<subseteq> set (t_scripts d')) \<and>
    (set (sql_scripts names) \<subseteq> set (t_scripts d) \<longrightarrow> t_scripts d' = t_scripts d)"
proof -
  obtain r1 d1 where first: "db_exec Inr d = (r1, d1)" by (cases "db_exec Inr d")
  have t1: "same_tables d d1" using first
    by (rule db_exec_cases) (auto intro: same_tables_trans)
  then have ok1: "migrations_ok d1" "t_scripts d1 = t_scripts d"
    using assms(2) by (simp_all add: migrations_ok_same same_tablesD)
  show ?thesis
  proof (cases r1)
    case (Inl e)
    then show ?thesis using assms(1) first ok1 by (auto simp: lite_migrate_def op_bind_def migrations_ok_def)
  next
    case (Inr u)
    then have "op_for (lite_migrate_one now) (sql_scripts names) d1 = (res, d')"
      using assms(1) first by (simp add: lite_migrate_def op_bind_def sql_scripts_def)
    from migrate_loop_effect [OF this ok1(1)] obtain ran where ran: "migrations_ok d'"
      "t_scripts d' = t_scripts d @ ran" "set ran \<subseteq> set (sql_scripts names)"
      "is_ok res \<Longrightarrow> set (sql_scripts names) \<subseteq> set (t_scripts d')"
      using ok1(2) by auto
    have dist: "distinct (t_scripts d @ ran)" using ran(1,2) by (metis migrations_ok_def)
    then have "ran = []" if "set (sql_scripts names) \<subseteq> set (t_scripts d)"
      using that ran(3) by (cases ran) auto
    then show ?thesis using ran dist by auto
  qed
qed

lemma migrate_exactly_once_witness:
  "migrations_ok (snd (lite_migrate lite_migration_names (\<lambda>_. 5) empty_db))"
  by (rule conjunct1 [OF migrate_exactly_once [OF surjective_pairing]])
    (simp add: migrations_ok_def empty_db_def)


section \<open>Retention\<close>

text \<open>What a pass finds: the incidents resolved before the cutoff, oldest resolution first.\<close>

definition prune_candidates :: "int \<Rightarrow> db \<Rightarrow> incident_row list" where
  "prune_candidates t d =
     sort_key (\<lambda>row. case ir_resolved_at row of None \<Rightarrow> 0 | Some ms \<Rightarrow> ms)
       (filter (resolved_before t) (t_incidents d))"

definition read_incident :: "incident_row \<Rightarrow> incident" where
  "read_incident row =
     \<lparr>in_id = ir_id row, in_rule_id = ir_rule_id row, in_triggered_at = of_unix_milli (ir_triggered_at row),
      in_resolved_at = (case ir_resolved_at row of None \<Rightarrow> zero_time | Some ms \<Rightarrow> of_unix_milli ms),
      in_last_value = from_null (ir_last_value row)\<rparr>"

definition notifications_of :: "db \<Rightarrow> string \<Rightarrow> notification list" where
  "notifications_of d i =
     map scan_notification (sort_key nw_sent_at (filter (\<lambda>row. nw_incident_id row = i) (t_notifications d)))"

lemma scan_incident_read: "ir_last_value row \<noteq> None \<Longrightarrow> scan_incident row = Inr (read_incident row)"
  by (auto simp: scan_incident_def scan_text_def read_incident_def from_null_def)

lemma archive_all:
  assumes "db_faults d = []"
  shows "fold (archive_one (sqlite_store lib) arch) incs (d, a) =
    (d, fold (\<lambda>i a. snd (arch i (notifications_of d (in_id i)) a)) incs a)"
proof (induction incs arbitrary: a)
  case (Cons i incs)
  have "archive_one (sqlite_store lib) arch i (d, a) = (d, snd (arch i (notifications_of d (in_id i)) a))"
    using assms
    by (simp add: archive_one_def sqlite_store_def lite_notification_list_for_incident_def
        db_query_no_fault notifications_of_def)
  then show ?case using Cons by simp
qed simp

lemma calm_children:
  "db_faults d = [] \<Longrightarrow> op_for delete_children ids d = (Inr (), drop_children ids d)"
proof (induction ids arbitrary: d)
  case Nil
  then show ?case by (cases d) (simp add: drop_children_def)
next
  case (Cons i ids)
  have "delete_children i d = (Inr (), drop_children [i] d)"
    using Cons.prems by (simp add: delete_children_def op_bind_def db_exec_no_fault drop_children_def)
  moreover have "drop_children ids (drop_children [i] d) = drop_children (i # ids) d"
    by (cases d) (simp add: drop_children_def conj_commute)
  moreover have "db_faults (drop_children [i] d) = []" using Cons.prems by (simp add: drop_children_def)
  ultimately show ?case using Cons.IH by (simp add: op_bind_def)
qed

lemma calm_delete_exact:
  assumes "db_faults d = []"
  shows "snd (lite_incident_delete_resolved_before t d) = pruned t d"
proof -
  obtain r d' where run: "lite_incident_delete_resolved_before t d = (r, d')"
    by (cases "lite_incident_delete_resolved_before t d")
  have "is_ok r"
    using run assms calm_children [OF assms]
    by (auto simp: lite_incident_delete_resolved_before_def db_tx_def op_bind_def db_query_no_fault
        db_exec_no_fault drop_children_def Let_def split: if_splits)
  moreover have "db_faults d' = []" using calm_delete assms run by (metis calm_def op_keepsD)
  moreover have "db_faults (pruned t d) = []" using assms by (simp add: pruned_def)
  ultimately show ?thesis
    using delete_resolved_before_effect [OF run] run
    by (cases r; cases d'; simp add: same_tables_def)
qed


text \<open>An incident that was resolved long ago, one resolved recently, one still open.\<close>

definition aged_db :: db where
  "aged_db = empty_db\<lparr>t_incidents :=
     [\<lparr>ir_id = ''a'', ir_rule_id = ''r'', ir_triggered_at = 1, ir_resolved_at = Some 2, ir_last_value = Some ''v''\<rparr>,
      \<lparr>ir_id = ''b'', ir_rule_id = ''r'', ir_triggered_at = 3, ir_resolved_at = Some 9, ir_last_value = Some ''v''\<rparr>,
      \<lparr>ir_id = ''c'', ir_rule_id = ''r'', ir_triggered_at = 5, ir_resolved_at = None, ir_last_value = Some ''v''\<rparr>]\<rparr>"

definition log_pruner :: "(incident \<times> notification list) list pruner" where
  "log_pruner = \<lparr>pr_window = 3 * millisecond, pr_interval = hour,
     pr_archiver = Some (\<lambda>i ns log. (Inr (), log @ [(i, ns)]))\<rparr>"


text \<open>
  With a working database a prune pass hands the archiver exactly the incidents resolved
  before the cutoff, each with all its notifications, in the order of their resolution, and
  then deletes exactly those.
\<close>

theorem prune_pass_exact:
  assumes "db_faults d = []" and "pr_archiver p = Some arch" and "t = unix_milli (now - pr_window p)"
    and "\<forall>row \<in> set (prune_candidates t d). ir_last_value row \<noteq> None"
  shows "run_once (sqlite_store lib) p now (d, a) =
    (pruned t d, fold (\<lambda>i a. snd (arch i (notifications_of d (in_id i)) a))
                   (map read_incident (prune_candidates t d)) a)"
proof -
  have "scan_all scan_incident (prune_candidates t d) = Inr (map read_incident (prune_candidates t d))"
    unfolding scan_all_def using assms(4) by (intro res_list_all_ok) (simp add: scan_incident_read)
  then have list: "inr_list_resolved_before (st_incidents (sqlite_store lib)) t d =
      (Inr (map read_incident (prune_candidates t d)), d)"
    using assms(1)
    by (simp add: sqlite_store_def lite_incident_list_resolved_before_def db_query_no_fault prune_candidates_def)
  have del: "snd (inr_delete_resolved_before (st_incidents (sqlite_store lib)) t d) = pruned t d"
    using calm_delete_exact [OF assms(1)] by (simp add: sqlite_store_def)
  have none: "prune_candidates t d = [] \<Longrightarrow> pruned t d = d"
    by (rule pruned_none) (auto simp: prune_candidates_def filter_empty_conv dest: arg_cong [of _ _ set])
  show ?thesis
    unfolding run_once_def assms(3) [symmetric] Let_def fst_conv snd_conv list prod.case sum.case assms(2) option.case
      archive_all [OF assms(1)] del
    using none by simp
qed

lemma prune_pass_exact_witness:
  "run_once (sqlite_store plain_lib) log_pruner 10000000 (aged_db, []) =
   (pruned 7 aged_db, [(read_incident (hd (t_incidents aged_db)), [])])"
  by (subst prune_pass_exact [of aged_db log_pruner _ 7])
    (simp_all add: aged_db_def empty_db_def log_pruner_def prune_candidates_def resolved_before_def
      unix_milli_def notifications_of_def, simp)

section \<open>What is stored is what is read\<close>

text \<open>
  The text columns hold JSON, which keeps strings of valid UTF-8; a map is printed with its
  keys in order, and times are kept to the millisecond.
\<close>

definition valid_text :: "golib \<Rightarrow> string \<Rightarrow> bool" where
  "valid_text lib s \<longleftrightarrow> lib_utf8 lib s = s"

definition labels_ok :: "golib \<Rightarrow> (string \<times> string) list \<Rightarrow> bool" where
  "labels_ok lib m \<longleftrightarrow> distinct (map fst m) \<and> (\<forall>(k, v) \<in> set m. valid_text lib k \<and> valid_text lib v)"

lemma fold_upsert_distinct:
  "distinct (map fst (acc @ xs)) \<Longrightarrow> fold (tbl_upsert fst) xs acc = acc @ xs"
proof (induction xs arbitrary: acc)
  case (Cons x xs)
  have "tbl_upsert fst x acc = acc @ [x]"
    using Cons.prems by (auto simp: tbl_upsert_def)
  then show ?case using Cons.IH [of "acc @ [x]"] Cons.prems by simp
qed simp

lemma labels_roundtrip:
  assumes "labels_ok lib m"
  shows "labels_of_json (json_of_labels lib m) = sort_key fst m"
proof -
  have printed: "map (\<lambda>(k, v). (lib_utf8 lib k, json_of_string lib v)) (sort_key fst m) =
      map (\<lambda>(k, v). (k, JStr v)) (sort_key fst m)"
    using assms by (intro map_cong) (auto simp: labels_ok_def valid_text_def json_of_string_def)
  have "fold (\<lambda>(k, v) m. tbl_upsert fst (k, json_text v) m) (map (\<lambda>(k, v). (k, JStr v)) xs) acc =
      fold (tbl_upsert fst) xs acc" for xs acc :: "(string \<times> string) list"
    by (induction xs arbitrary: acc) (auto simp: json_text_def)
  moreover have "distinct (map fst (sort_key fst m))"
    using assms by (simp add: labels_ok_def distinct_map)
  ultimately show ?thesis
    using fold_upsert_distinct [of "[]" "sort_key fst m"]
    by (simp add: labels_of_json_def json_of_labels_def printed)
qed

lemma strings_roundtrip:
  "\<forall>x \<in> set xs. valid_text lib x \<Longrightarrow> strings_of_json (json_of_strings lib xs) = xs"
  by (simp add: strings_of_json_def json_of_strings_def json_of_string_def json_text_def valid_text_def
      map_idI)

lemma get_strings_roundtrip:
  "\<forall>x \<in> set xs. valid_text lib x \<Longrightarrow> json_get_strings (json_of_strings lib xs) = Inr xs"
proof -
  assume valid: "\<forall>x \<in> set xs. valid_text lib x"
  have "res_list (map (\<lambda>x. json_get_string '''' (json_of_string lib x)) xs) = Inr (map id xs)"
    using valid by (intro res_list_all_ok) (simp add: json_of_string_def valid_text_def)
  then show ?thesis by (simp add: json_get_strings_def json_of_strings_def comp_def)
qed

definition rule_storable :: "golib \<Rightarrow> rule \<Rightarrow> bool" where
  "rule_storable lib x \<longleftrightarrow> labels_ok lib (r_labels x) \<and>
     (\<forall>c. r_condition x = Some c \<longrightarrow>
        (\<forall>s \<in> set (condition_strings c). valid_text lib s) \<and> condition_numbers_ok c)"

definition stored_rule :: "rule \<Rightarrow> rule" where
  "stored_rule x = x\<lparr>r_labels := sort_key fst (r_labels x), r_created_at := trunc_ms (r_created_at x),
     r_updated_at := trunc_ms (r_updated_at x)\<rparr>"

lemma scan_rule_row:
  assumes "rule_cond_json lib x = Inr cond" and "rule_storable lib x"
  shows "scan_rule lib (rule_to_row lib x cond) = Inr (stored_rule x)"
proof -
  obtain c where c: "r_condition x = Some c" "marshal_condition lib c = Inr cond"
    using assms(1) by (auto simp: rule_cond_json_def split: option.splits)
  have "unmarshal_condition lib (Some cond) = Inr c"
    using assms(2) c by (intro condition_decodes) (auto simp: rule_storable_def valid_text_def)
  moreover have "labels_of_json (json_of_labels lib (r_labels x)) = sort_key fst (r_labels x)"
    using assms(2) by (intro labels_roundtrip) (simp add: rule_storable_def)
  ultimately show ?thesis
    using c(1) by (cases x)
      (simp add: scan_rule_def rule_to_row_def scan_text_def bool_int_def stored_rule_def trunc_ms_def)
qed

lemma rule_create_rows:
  assumes "lite_rule_create lib now x d = (Inr x', d')"
  obtains cond fs where "rule_cond_json lib x' = Inr cond" "r_id x \<notin> rw_id ` set (t_rules d)"
    "d' = d\<lparr>t_rules := t_rules d @ [rule_to_row lib x' cond], db_faults := fs\<rparr>"
    "x' = x\<lparr>r_created_at := if r_created_at x = zero_time then now else r_created_at x, r_updated_at := now\<rparr>"
proof -
  obtain cond where cond: "rule_cond_json lib x = Inr cond"
    using assms by (auto simp: lite_rule_create_def split: sum.splits)
  let ?x = "(if r_created_at x = zero_time then x\<lparr>r_created_at := now\<rparr> else x)\<lparr>r_updated_at := now\<rparr>"
  have x': "x' = ?x" and run: "db_exec (\<lambda>d. res_map (\<lambda>rows. d\<lparr>t_rules := rows\<rparr>)
                (sql_insert ''rules.id'' rw_id (rule_to_row lib ?x cond) (t_rules d))) d = (Inr (), d')"
    using assms cond by (auto simp: lite_rule_create_def Let_def op_bind_def split: prod.splits sum.splits)
  have same: "rule_cond_json lib x' = Inr cond" using cond by (simp add: x' rule_cond_json_def)
  from run show ?thesis
  proof (cases rule: db_exec_cases)
    case (2 fs)
    then have "r_id x \<notin> rw_id ` set (t_rules d)"
      "d' = d\<lparr>t_rules := t_rules d @ [rule_to_row lib x' cond], db_faults := fs\<rparr>"
      by (auto simp: res_map_def res_bind_Inr_iff sql_insert_Inr_iff rule_to_row_def x')
    then show ?thesis using that same x' by auto
  qed simp
qed

lemma rule_create_found:
  assumes "lite_rule_create lib now x d = (Inr x', d')" and "rule_storable lib x"
  obtains row where "tbl_find rw_id (r_id x) (t_rules d') = Some row" "scan_rule lib row = Inr (stored_rule x')"
  using assms(1)
proof (rule rule_create_rows)
  fix cond fs' assume row: "rule_cond_json lib x' = Inr cond" "r_id x \<notin> rw_id ` set (t_rules d)"
    "d' = d\<lparr>t_rules := t_rules d @ [rule_to_row lib x' cond], db_faults := fs'\<rparr>"
    "x' = x\<lparr>r_created_at := if r_created_at x = zero_time then now else r_created_at x, r_updated_at := now\<rparr>"
  have "rule_storable lib x'" using assms(2) row(4) by (simp add: rule_storable_def)
  then have scan: "scan_rule lib (rule_to_row lib x' cond) = Inr (stored_rule x')"
    using row(1) scan_rule_row by blast
  have "tbl_find rw_id (r_id x) (t_rules d) = None" using row(2) by (simp add: tbl_find_None_iff)
  then have "tbl_find rw_id (r_id x) (t_rules d') = Some (rule_to_row lib x' cond)"
    by (simp add: row(3,4) rule_to_row_def)
  then show ?thesis using scan that by blast
qed

text \<open>
  A rule that was created reads back as created, with its labels in order and its times
  to the millisecond, by every read that does not fail.
\<close>

theorem rule_create_get:
  assumes "lite_rule_create lib now x d = (Inr x', d')" and "rule_storable lib x"
    and "lite_rule_get lib (r_id x) d' = (Inr res, d'')"
  shows "res = Some (stored_rule x')"
  using assms(1,2)
proof (rule rule_create_found)
  fix row assume row: "tbl_find rw_id (r_id x) (t_rules d') = Some row" "scan_rule lib row = Inr (stored_rule x')"
  show ?thesis using assms(3) unfolding lite_rule_get_def
    by (cases rule: db_query_cases) (auto simp: row scan_one_def)
qed

definition small_rule :: rule where
  "small_rule = \<lparr>r_id = ''r'', r_name = ''n'', r_description = ''d'', r_enabled = True,
     r_severity = ''info'', r_labels = [(''b'', ''2''), (''a'', ''1'')], r_input_ref = ''in'',
     r_condition = Some (CPattern \<lparr>pm_field = ''f'', pm_kind = ''contains'', pm_pattern = ''p''\<rparr>),
     r_schedule = 0, r_created_at = zero_time, r_updated_at = zero_time\<rparr>"

lemma rule_create_get_witness:
  "fst (lite_rule_get plain_lib ''r'' (snd (lite_rule_create plain_lib 1234567 small_rule empty_db))) =
   Inr (Some (small_rule\<lparr>r_labels := [(''a'', ''1''), (''b'', ''2'')], r_created_at := 1000000,
     r_updated_at := 1000000\<rparr>))"
proof -
  let ?x = "small_rule\<lparr>r_created_at := 1234567, r_updated_at := 1234567\<rparr>"
  let ?d = "snd (lite_rule_create plain_lib 1234567 small_rule empty_db)"
  have make: "lite_rule_create plain_lib 1234567 small_rule empty_db = (Inr ?x, ?d)"
    by (simp add: lite_rule_create_def rule_cond_json_def small_rule_def op_bind_def db_exec_no_fault
        empty_db_def sql_insert_def Let_def)
  have store: "rule_storable plain_lib small_rule"
    by (simp add: rule_storable_def labels_ok_def small_rule_def valid_text_def plain_lib_def)
  have calm: "db_faults ?d = []"
    by (simp add: lite_rule_create_def rule_cond_json_def small_rule_def op_bind_def db_exec_no_fault
        empty_db_def sql_insert_def Let_def)
  obtain res d'' where get: "lite_rule_get plain_lib (r_id small_rule) ?d = (res, d'')"
    by (cases "lite_rule_get plain_lib (r_id small_rule) ?d")
  have "is_ok res"
    by (rule rule_create_found [OF make store])
      (use get calm in \<open>auto simp: lite_rule_get_def db_query_no_fault scan_one_def\<close>)
  then obtain x where "res = Inr x" by (auto simp: is_ok_iff)
  with rule_create_get [OF make store] get have "res = Inr (Some (stored_rule ?x))" by simp
  then show ?thesis
    using get by (simp add: stored_rule_def small_rule_def trunc_ms_def of_unix_milli_def unix_milli_def)
qed

text \<open>Subscribers and subscriptions.\<close>

definition bindings_ok :: "golib \<Rightarrow> channel_binding list \<Rightarrow> bool" where
  "bindings_ok lib bs \<longleftrightarrow> (\<forall>b \<in> set bs. valid_text lib (cb_channel b) \<and> valid_text lib (cb_address b))"

lemma to_lower_channel [simp]: "to_lower ''channel'' = ''channel''" "to_lower ''address'' = ''address''"
  by (simp_all add: to_lower_def)

lemma bindings_roundtrip: "bindings_ok lib bs \<Longrightarrow> bindings_of_json (json_of_bindings lib bs) = bs"
  by (auto simp: bindings_of_json_def json_of_bindings_def bindings_ok_def valid_text_def
      binding_of_json_def json_of_binding_def json_of_string_def binding_member_def intro!: map_idI)

definition subscription_storable :: "golib \<Rightarrow> subscription \<Rightarrow> bool" where
  "subscription_storable lib s \<longleftrightarrow> labels_ok lib (su_label_selector s) \<and>
     (\<forall>x \<in> set (su_channel_filter s). valid_text lib x)"

definition stored_subscription :: "subscription \<Rightarrow> subscription" where
  "stored_subscription s = s\<lparr>su_label_selector := sort_key fst (su_label_selector s),
     su_created_at := trunc_ms (su_created_at s), su_updated_at := trunc_ms (su_updated_at s)\<rparr>"

lemma scan_subscription_row:
  "subscription_storable lib s \<Longrightarrow> scan_subscription (subscription_to_row lib s) = stored_subscription s"
  by (cases s) (simp add: scan_subscription_def subscription_to_row_def stored_subscription_def
      subscription_storable_def labels_roundtrip strings_roundtrip bool_int_def nullable_def from_null_def
      trunc_ms_def)

text \<open>
  A subscription that was created, whose subscriber must exist, reads back as created by
  every read that does not fail, and the listing for a rule contains it exactly when it names
  the rule or its label selector matches the labels of the rule.
\<close>

theorem subscription_create_get:
  assumes "lite_subscription_create lib now s d = (Inr s', d')" and "subscription_storable lib s"
    and "lite_subscription_get (su_id s) d' = (Inr res, d'')"
    and "lite_subscription_list_for_rule rid labels d' = (Inr subs, d3)" and "rid \<noteq> []"
  shows "su_subscriber_id s \<in> br_id ` set (t_subscribers d) \<and> res = Some (stored_subscription s') \<and>
    (stored_subscription s' \<in> set subs \<longleftrightarrow>
       (if su_rule_id s \<noteq> [] then su_rule_id s = rid
        else selector_matches (sort_key fst (su_label_selector s)) labels))"
proof -
  let ?s = "(if su_created_at s = zero_time then s\<lparr>su_created_at := now\<rparr> else s)\<lparr>su_updated_at := now\<rparr>"
  have s': "s' = ?s" and run: "db_exec (\<lambda>d.
           res_bind (sql_insert ''subscriptions.id'' ur_id (subscription_to_row lib ?s) (t_subscriptions d))
             (\<lambda>rows. if su_subscriber_id ?s \<in> br_id ` set (t_subscribers d)
                then Inr (d\<lparr>t_subscriptions := rows\<rparr>) else Inl fk_error)) d = (Inr (), d')"
    using assms(1) by (auto simp: lite_subscription_create_def Let_def op_bind_def split: prod.splits sum.splits)
  have scan: "scan_subscription (subscription_to_row lib ?s) = stored_subscription s'"
    unfolding s' using assms(2) by (intro scan_subscription_row) (auto simp: subscription_storable_def)
  have rows: "su_subscriber_id s \<in> br_id ` set (t_subscribers d)" "su_id s \<notin> ur_id ` set (t_subscriptions d)"
    "t_subscriptions d' = t_subscriptions d @ [subscription_to_row lib ?s]"
    using run by (cases rule: db_exec_cases; auto simp: res_bind_Inr_iff sql_insert_Inr_iff subscription_to_row_def
        split: if_splits)+
  then have "tbl_find ur_id (su_id s) (t_subscriptions d) = None" by (simp add: tbl_find_None_iff)
  then have found: "tbl_find ur_id (su_id s) (t_subscriptions d') = Some (subscription_to_row lib ?s)"
    by (simp add: rows(3) subscription_to_row_def)
  have "res = Some (stored_subscription s')"
    using assms(3) unfolding lite_subscription_get_def
    by (cases rule: db_query_cases) (auto simp: found scan)
  moreover have "subs = subs_for_rule rid labels
      (map scan_subscription (filter (\<lambda>row. ur_rule_id row \<noteq> Some []) (t_subscriptions d')))"
    using op_readsD(2) [OF lite.list_for_rule [OF assms(5)]] assms(4)
    by (simp add: lite_view_def sqlite_store_def)
  moreover have "stored_subscription s' \<in> set (map scan_subscription
      (filter (\<lambda>row. ur_rule_id row \<noteq> Some []) (t_subscriptions d')))"
    using rows(3) scan by (auto simp: subscription_to_row_def nullable_def)
  moreover have "su_rule_id (stored_subscription s') = su_rule_id s"
    "su_label_selector (stored_subscription s') = sort_key fst (su_label_selector s)"
    by (simp_all add: stored_subscription_def s')
  ultimately show ?thesis using rows(1) by (auto simp: subs_for_rule_def)
qed

definition small_db :: db where
  "small_db = empty_db\<lparr>t_subscribers := [\<lparr>br_id = ''u'', br_name = ''n'', br_channels = JArr [],
     br_created_at = 1, br_updated_at = 1\<rparr>]\<rparr>"

definition small_subscription :: subscription where
  "small_subscription = \<lparr>su_id = ''s'', su_subscriber_id = ''u'', su_rule_id = '''',
     su_label_selector = [(''team'', ''ops'')], su_dwell = 0, su_repeat_interval = 5, su_notify_on_resolve = True,
     su_one_shot = False, su_channel_filter = [''mail''], su_created_at = zero_time, su_updated_at = zero_time\<rparr>"

lemma subscription_create_get_witness:
  "stored_subscription (small_subscription\<lparr>su_created_at := 5, su_updated_at := 5\<rparr>) \<in>
   set (case fst (lite_subscription_list_for_rule ''r'' [(''team'', ''ops''), (''x'', ''y'')]
     (snd (lite_subscription_create plain_lib 5 small_subscription small_db))) of Inl e \<Rightarrow> [] | Inr xs \<Rightarrow> xs)"
proof -
  let ?d = "snd (lite_subscription_create plain_lib 5 small_subscription small_db)"
  let ?s = "small_subscription\<lparr>su_created_at := 5, su_updated_at := 5\<rparr>"
  have make: "lite_subscription_create plain_lib 5 small_subscription small_db = (Inr ?s, ?d)"
    by (simp add: lite_subscription_create_def op_bind_def db_exec_no_fault sql_insert_def Let_def
        small_subscription_def small_db_def empty_db_def)
  have calm: "db_faults ?d = []"
    by (simp add: lite_subscription_create_def op_bind_def db_exec_no_fault sql_insert_def Let_def
        small_subscription_def small_db_def empty_db_def)
  have store: "subscription_storable plain_lib small_subscription"
    by (simp add: subscription_storable_def labels_ok_def valid_text_def plain_lib_def small_subscription_def)
  obtain subs where list: "lite_subscription_list_for_rule ''r'' [(''team'', ''ops''), (''x'', ''y'')] ?d = (Inr subs, ?d)"
    using calm by (auto simp: lite_subscription_list_for_rule_def op_bind_def db_query_no_fault)
  obtain res where get: "lite_subscription_get (su_id small_subscription) ?d = (Inr res, ?d)"
    using calm by (auto simp: lite_subscription_get_def db_query_no_fault)
  have "stored_subscription ?s \<in> set subs"
    using subscription_create_get [OF make store get list]
    by (simp add: small_subscription_def selector_matches_def label_at_def)
  then show ?thesis using list by simp
qed

end
