(* ===== verification/Api_Tokens.thy ===== *)
theory Api_Tokens
  imports Api_Writes Store_Props
begin

text \<open>
  The life of an API token: it authenticates from the moment it is issued until it expires or
  is revoked, and once revoked it never does again.
\<close>

section \<open>Tokens have no white space\<close>

definition plain_char :: "char \<Rightarrow> bool" where
  "plain_char c \<longleftrightarrow> 33 \<le> (of_char c :: nat) \<and> (of_char c :: nat) < 127"

lemma lead_space_None:
  assumes "\<forall>p \<in> set seqs. p \<noteq> [] \<longrightarrow> \<not> plain_char (hd p)" and "plain_char c"
  shows "lead_space seqs (c # s) = None"
  unfolding lead_space_def find_None_iff
proof
  assume "\<exists>p. p \<in> set seqs \<and> p \<noteq> [] \<and> has_prefix (c # s) p"
  then obtain p where p: "p \<in> set seqs" "p \<noteq> []" "has_prefix (c # s) p" by blast
  have "hd p = c" using p(2,3) by (cases p) auto
  with p assms show False by blast
qed

lemma trim_space_plain:
  assumes "s \<noteq> []" and "plain_char (hd s)" and "plain_char (List.last s)"
  shows "trim_space s = s"
proof -
  have lead: "\<forall>p \<in> set space_seqs. p \<noteq> [] \<longrightarrow> \<not> plain_char (hd p)"
    and trail: "\<forall>p \<in> set (map rev space_seqs). p \<noteq> [] \<longrightarrow> \<not> plain_char (hd p)"
    by (simp_all add: space_seqs_def plain_char_def)
  have *: "trim_left_seqs seqs x = x"
    if "\<forall>p \<in> set seqs. p \<noteq> [] \<longrightarrow> \<not> plain_char (hd p)" "x \<noteq> []" "plain_char (hd x)" for seqs x
    using that by (subst trim_left_seqs.simps, cases x) (simp_all add: lead_space_None)
  have "trim_left_seqs space_seqs s = s" by (rule * [OF lead assms(1,2)])
  moreover have "trim_left_seqs (map rev space_seqs) (rev s) = rev s"
    using assms by (intro * [OF trail]) (simp_all add: hd_rev)
  ultimately show ?thesis by (simp add: trim_space_def)
qed




lemma bearer_of_raw:
  "rq_auth r = ''Bearer '' @ raw \<Longrightarrow> raw \<noteq> [] \<Longrightarrow> trim_space raw = raw \<Longrightarrow> bearer_token r = Inr raw"
  by (auto simp: bearer_token_def has_prefix_iff Let_def)

section \<open>Issuing\<close>








text \<open>An example: issuing a read token on an empty server.\<close>

definition sample_env :: api_env where
  "sample_env = \<lparr>ae_lib = plain_lib, ae_now = 1500000, ae_uuid = ''id'', ae_random = Inr [4, 5, 6],
     ae_hash = (#) (CHR ''h''), ae_parse_time = (\<lambda>_. Inr 0), ae_rfc3339 = (\<lambda>_. None),
     ae_format_time = (\<lambda>_. ''t''), ae_prefer_send = True\<rparr>"

definition sample_server :: "db server" where
  "sample_server = \<lparr>sv_store = empty_db, sv_cache = [], sv_input = None, sv_touches = []\<rparr>"

definition sample_request :: "string \<Rightarrow> string list \<Rightarrow> string \<Rightarrow> json result \<Rightarrow> request" where
  "sample_request m path auth body = \<lparr>rq_method = m, rq_path = path, rq_path_id = '''', rq_query = [],
     rq_auth = auth, rq_body = body, rq_done = None, rq_token = None\<rparr>"

definition token_settings :: "db mount_settings" where
  "token_settings = with_token_store (st_api_tokens (sqlite_store plain_lib)) default_settings"


lemma to_lower_issue [simp]:
  "to_lower ''name'' = ''name''" "to_lower ''scopes'' = ''scopes''"
  by (simp_all add: to_lower_def)








section \<open>Revocation is final\<close>

definition has_revoked :: "string \<Rightarrow> db \<Rightarrow> bool" where
  "has_revoked h d \<longleftrightarrow> (\<exists>row \<in> set (t_tokens d). kw_token_hash row = h \<and> kw_revoked row \<noteq> 0)"

definition token_gone :: "string \<Rightarrow> db \<Rightarrow> bool" where
  "token_gone h d \<longleftrightarrow> db_wf d \<and> has_revoked h d"

lemma has_revoked_faultless [simp]: "faultless (has_revoked h)"
  by (simp add: faultless_def has_revoked_def same_tablesD)

lemma token_gone_faultless [simp]: "faultless (token_gone h)"
  by (simp add: faultless_def token_gone_def db_wf_same has_revoked_def same_tablesD)

lemma has_revoked_other [simp]:
  "has_revoked h (d\<lparr>t_rules := a\<rparr>) = has_revoked h d" "has_revoked h (d\<lparr>t_subscribers := b\<rparr>) = has_revoked h d"
  "has_revoked h (d\<lparr>t_subscriptions := c\<rparr>) = has_revoked h d"
  by (simp_all add: has_revoked_def)

lemma has_revoked_update:
  assumes "has_revoked h d" and "\<And>row. kw_token_hash (f row) = kw_token_hash row"
    and "\<And>row. kw_revoked row \<noteq> 0 \<Longrightarrow> kw_revoked (f row) \<noteq> 0"
  shows "has_revoked h (d\<lparr>t_tokens := tbl_update p f (t_tokens d)\<rparr>)"
proof -
  obtain row where "row \<in> set (t_tokens d)" "kw_token_hash row = h" "kw_revoked row \<noteq> 0"
    using assms(1) by (auto simp: has_revoked_def)
  then have "(if p row then f row else row) \<in> set (tbl_update p f (t_tokens d))"
    "kw_token_hash (if p row then f row else row) = h" "kw_revoked (if p row then f row else row) \<noteq> 0"
    using assms(2,3) unfolding set_tbl_update by auto
  then show ?thesis unfolding has_revoked_def by auto
qed

lemma gone_keepsI: "op_keeps db_wf m \<Longrightarrow> op_keeps (has_revoked h) m \<Longrightarrow> op_keeps (token_gone h) m"
  by (simp add: op_keeps_def token_gone_def)

lemma lite_calls_revoked:
  "op_keeps (has_revoked h) (lite_rule_create lib now x)" "op_keeps (has_revoked h) (lite_rule_update lib now x)"
  "op_keeps (has_revoked h) (lite_rule_delete i)"
  "op_keeps (has_revoked h) (lite_subscriber_create lib now sb)"
  "op_keeps (has_revoked h) (lite_subscriber_update lib now sb)"
  "op_keeps (has_revoked h) (lite_subscriber_delete i)"
  "op_keeps (has_revoked h) (lite_subscription_create lib now su)"
  "op_keeps (has_revoked h) (lite_subscription_update lib now su)"
  "op_keeps (has_revoked h) (lite_subscription_delete i)"
  by (auto simp: lite_rule_create_def lite_rule_update_def lite_rule_delete_def lite_subscriber_create_def
      lite_subscriber_update_def lite_subscriber_delete_def lite_subscription_create_def
      lite_subscription_update_def lite_subscription_delete_def Let_def res_map_def res_bind_Inr_iff
      split: sum.splits if_splits intro!: op_keeps_intros exec_keeps)

lemma lite_tokens_revoked:
  "op_keeps (has_revoked h) (lite_token_create lib now t)" "op_keeps (has_revoked h) (lite_token_revoke i)"
  "op_keeps (has_revoked h) (lite_token_touch_last_used i ms)"
  by (auto simp: lite_token_create_def lite_token_revoke_def lite_token_touch_last_used_def Let_def
      res_bind_Inr_iff sql_insert_Inr_iff intro!: op_keeps_intros exec_keeps has_revoked_update)
    (auto simp: has_revoked_def)

lemmas lite_calls_gone =
  gone_keepsI [OF lite_rule_keeps(1) lite_calls_revoked(1)] gone_keepsI [OF lite_rule_keeps(2) lite_calls_revoked(2)]
  gone_keepsI [OF lite_rule_keeps(3) lite_calls_revoked(3)]
  gone_keepsI [OF lite_subscriber_keeps(1) lite_calls_revoked(4)]
  gone_keepsI [OF lite_subscriber_update_keeps lite_calls_revoked(5)]
  gone_keepsI [OF lite_subscriber_delete_keeps lite_calls_revoked(6)]
  gone_keepsI [OF lite_subscription_create_keeps lite_calls_revoked(7)]
  gone_keepsI [OF lite_subscription_update_keeps lite_calls_revoked(8)]
  gone_keepsI [OF lite_subscription_keeps(1) lite_calls_revoked(9)]
  gone_keepsI [OF lite_token_keeps(1) lite_tokens_revoked(1)] gone_keepsI [OF lite_token_keeps(5) lite_tokens_revoked(2)]
  gone_keepsI [OF lite_token_keeps(6) lite_tokens_revoked(3)]

definition gone_by :: "string \<Rightarrow> db server \<Rightarrow> db server \<Rightarrow> bool" where
  "gone_by h sv sv' \<longleftrightarrow> (token_gone h (sv_store sv) \<longrightarrow> token_gone h (sv_store sv'))"

lemma store_gone_by: "op_keeps (token_gone h) m \<Longrightarrow> moves_by (gone_by h) (with_store m)"
  by (auto simp: moves_by_def gone_by_def with_store_def op_keeps_def split: prod.splits)

lemma engine_gone_by:
  assumes "\<And>d m res d' m'. f (d, m) = (res, d', m') \<Longrightarrow> token_gone h d \<Longrightarrow> token_gone h d'"
  shows "moves_by (gone_by h) (with_engine f)"
  using assms by (auto simp: moves_by_def gone_by_def with_engine_def split: prod.splits)

interpretation gone: lite_writes "gone_by h" lib
proof unfold_locales
  show "gone_by h sv (sv\<lparr>sv_store := snd (db_query (\<lambda>_. Inr () :: unit result) (sv_store sv))\<rparr>)" for sv
    using query_keeps [OF token_gone_faultless, of h "\<lambda>_. Inr () :: unit result"] by (simp add: gone_by_def op_keeps_def)
  show "moves_by (gone_by h) (with_engine (api_rule_create lib (sqlite_store lib) now x))" if "r_id x \<noteq> []" for now x
    using api_create_effect(1) [OF _ that] lite_calls_gone(1) [of h lib now x]
    by (intro engine_gone_by) (metis op_keeps_def)
  show "moves_by (gone_by h) (with_engine (api_rule_update lib (sqlite_store lib) now x))" if "r_id x \<noteq> []" for now x
    using api_update_effect(1) [OF _ that] lite_calls_gone(2) [of h lib now x]
    by (intro engine_gone_by) (metis op_keeps_def)
  show "moves_by (gone_by h) (with_engine (api_rule_delete (sqlite_store lib) i))" for i
    using api_delete_effect(1) [of lib i] lite_calls_gone(3) [of h i]
    by (intro engine_gone_by) (metis op_keeps_def)
qed (auto simp: gone_by_def moves_by_def [of _ "submit_event _ _ _"] submit_event_def
    intro!: store_gone_by lite_calls_gone split: option.splits sum.splits)

text \<open>The life of a server: requests, and touches that run in between.\<close>

datatype api_event = AServe api_env request | ATouch

fun api_step :: "golib \<Rightarrow> db mount_settings \<Rightarrow> bool \<Rightarrow> api_event \<Rightarrow> db server \<Rightarrow> db server" where
  "api_step lib s ui (AServe env r) sv = snd (serve (sqlite_store lib) s ui env r sv)"
| "api_step lib s ui ATouch sv = touch_step s sv"

definition api_run :: "golib \<Rightarrow> db mount_settings \<Rightarrow> bool \<Rightarrow> api_event list \<Rightarrow> db server \<Rightarrow> db server" where
  "api_run lib s ui evs sv = fold (api_step lib s ui) evs sv"

fun event_ok :: "golib \<Rightarrow> api_event \<Rightarrow> bool" where
  "event_ok lib (AServe env r) \<longleftrightarrow> ae_lib env = lib \<and> ae_uuid env \<noteq> ''''"
| "event_ok lib ATouch \<longleftrightarrow> True"

lemma api_step_gone:
  assumes "lite_settings lib s" and "event_ok lib ev" and "token_gone h (sv_store sv)"
  shows "token_gone h (sv_store (api_step lib s ui ev sv))"
proof (cases ev)
  case (AServe env r)
  obtain resp sv' where run: "serve (sqlite_store lib) s ui env r sv = (resp, sv')"
    by (cases "serve (sqlite_store lib) s ui env r sv")
  have "gone_by h sv sv'"
    using gone.serve_write_by [OF assms(1) _ _ run] assms(2) AServe by simp
  then show ?thesis using assms(3) AServe run by (simp add: gone_by_def)
next
  case ATouch
  have "op_keeps (token_gone h) (lite_token_touch_last_used i ts)" for i ts by (rule lite_calls_gone)
  then show ?thesis using assms(1,3) ATouch
    by (auto simp: touch_step_def lite_settings_def lite_repo_sel op_logged_def with_store_def op_keeps_def
        split: list.splits option.splits prod.splits)
      (metis snd_conv)
qed

lemma api_run_gone:
  "lite_settings lib s \<Longrightarrow> \<forall>ev \<in> set evs. event_ok lib ev \<Longrightarrow> token_gone h (sv_store sv) \<Longrightarrow>
   token_gone h (sv_store (api_run lib s ui evs sv))"
  by (induction evs arbitrary: sv) (simp_all add: api_run_def api_step_gone)

lemma gone_login:
  assumes "lite_settings lib s" and "ms_tokens s \<noteq> None" and "ms_api_token s \<noteq> raw"
    and "bearer_token r = Inr raw" and "token_gone (ae_hash env raw) (sv_store sv)"
    and "require_auth s h env r sv = (resp, sv')"
  shows "quiet sv sv' \<and> resp \<in> {write_error 401 (ErrNew ''invalid token''), write_error 500 (ErrNew ''auth lookup failed'')}"
proof -
  have repo: "ms_tokens s = Some (st_api_tokens (sqlite_store lib))" "auth_required s"
    using assms(1,2) by (auto simp: lite_settings_def auth_required_def)
  obtain res d1 where get: "lite_token_get_by_hash (ae_hash env raw) (sv_store sv) = (res, d1)"
    by (cases "lite_token_get_by_hash (ae_hash env raw) (sv_store sv)")
  have run: "token_login (st_api_tokens (sqlite_store lib)) raw h env r sv = (resp, sv')"
    using assms(3,4,6) repo by (auto simp: require_auth_def on_value_def)
  note run' = run [unfolded token_login_def with_store_def lite_repo_sel get, simplified]
  have same: "quiet sv (sv\<lparr>sv_store := d1\<rparr>)" if "same_tables (sv_store sv) d1"
    using that by (simp add: quiet_def)
  obtain row0 where row0: "row0 \<in> set (t_tokens (sv_store sv))" "kw_token_hash row0 = ae_hash env raw"
    "kw_revoked row0 \<noteq> 0" and uniq: "tbl_unique kw_token_hash (t_tokens (sv_store sv))"
    using assms(5) by (auto simp: token_gone_def has_revoked_def db_wf_def)
  from get show ?thesis
  proof (cases rule: get_by_hash_cases)
    case (1 e)
    then show ?thesis using run' same by auto
  next
    case 2
    then show ?thesis using row0 by blast
  next
    case (3 row tok)
    then have "row = row0" using row0(1,2) uniq by (auto simp: tbl_unique_def distinct_map inj_on_def)
    then have "tk_revoked tok" using 3(5) row0(3) by (auto simp: scan_token_def res_bind_Inr_iff)
    then show ?thesis using run' 3(1,2) same by (auto simp: invalid_token_def)
  qed
qed

text \<open>
  C15: Once a token is revoked, then after any sequence of requests and recorded uses, and
  whatever calls of the database fail, every request with it to a gated route is refused and
  changes nothing.
\<close>

theorem revoked_token_refused_forever:
  assumes "lite_settings lib s" and "ms_tokens s \<noteq> None" and "ms_api_token s \<noteq> raw"
    and "token_gone (ae_hash env raw) (sv_store sv)" and "\<forall>ev \<in> set evs. event_ok lib ev"
    and "bearer_token r = Inr raw" and "rt \<in> set (all_routes s)"
    and "method_match (rt_method rt) (rq_method r)" and "path_match (rt_path rt) (rq_path r)"
    and "serve (sqlite_store lib) s ui env r (api_run lib s ui evs sv) = (resp, sv')"
  shows "quiet (api_run lib s ui evs sv) sv' \<and>
    resp \<in> {write_error 401 (ErrNew ''invalid token''), write_error 500 (ErrNew ''auth lookup failed'')}"
  using assms(10)
proof (cases rule: serve_cases)
  case outside
  then show ?thesis using assms(7-9) by blast
next
  case (route rt' h)
  have "token_gone (ae_hash env raw) (sv_store (api_run lib s ui evs sv))"
    using api_run_gone [OF assms(1,5,4)] .
  moreover have "bearer_token (at_route r rt') = Inr raw"
    using assms(6) by (simp add: bearer_token_def at_route_def)
  moreover obtain h' where "require_auth s h' env (at_route r rt') (api_run lib s ui evs sv) = (resp, sv')"
    using route(5) by (auto simp: gate_def read_gate_def write_gate_def split: if_splits)
  ultimately show ?thesis using gone_login [OF assms(1-3)] by blast
qed

definition revoked_server :: "db server" where
  "revoked_server = sample_server\<lparr>sv_store := empty_db\<lparr>t_tokens := [\<lparr>kw_id = ''id'', kw_name = ''ci'',
     kw_token_hash = ''hsw_BAUG'', kw_scopes = JArr [JStr ''admin''], kw_created_at = 1, kw_expires_at = None,
     kw_last_used_at = None, kw_revoked = 1\<rparr>]\<rparr>\<rparr>"

definition sample_get :: request where
  "sample_get = sample_request ''GET'' [''v1'', ''rules''] ''Bearer sw_BAUG'' (Inl IoEOF)"

lemma sample_bearer: "bearer_token sample_get = Inr ''sw_BAUG''"
proof (rule bearer_of_raw)
  show "rq_auth sample_get = ''Bearer '' @ ''sw_BAUG''" by (simp add: sample_get_def sample_request_def)
  show "trim_space ''sw_BAUG'' = ''sw_BAUG''" by (rule trim_space_plain) (simp_all add: plain_char_def)
qed simp

lemma sample_settings:
  "lite_settings plain_lib token_settings" "ms_tokens token_settings \<noteq> None" "ms_api_token token_settings \<noteq> ''sw_BAUG''"
  by (simp_all add: lite_settings_def token_settings_def with_token_store_def default_settings_def)

lemma sample_route:
  "mk_route ''GET'' ''/v1/rules'' scope_read ''listRules'' \<in> set (all_routes token_settings)"
  "method_match (rt_method (mk_route ''GET'' ''/v1/rules'' scope_read ''listRules'')) (rq_method sample_get)"
  "path_match (rt_path (mk_route ''GET'' ''/v1/rules'' scope_read ''listRules'')) (rq_path sample_get)"
  by (simp_all add: all_routes_def gated_routes_def mk_route_def method_match_def path_match_def
      gated_segments sample_get_def sample_request_def seg_match_def id_segment_def)

lemma revoked_token_refused_forever_witness:
  "fst (serve (sqlite_store plain_lib) token_settings False sample_env sample_get
     (api_run plain_lib token_settings False [AServe sample_env sample_get, ATouch] revoked_server)) \<in>
   {write_error 401 (ErrNew ''invalid token''), write_error 500 (ErrNew ''auth lookup failed'')}"
proof -
  have gone: "token_gone (ae_hash sample_env ''sw_BAUG'') (sv_store revoked_server)"
    by (simp add: token_gone_def has_revoked_def db_wf_def tbl_unique_def revoked_server_def empty_db_def
        sample_env_def)
  have ok: "\<forall>ev \<in> set [AServe sample_env sample_get, ATouch]. event_ok plain_lib ev"
    by (simp add: sample_env_def)
  show ?thesis
    by (rule conjunct2 [OF revoked_token_refused_forever
          [OF sample_settings gone ok sample_bearer sample_route surjective_pairing]])
qed

end
