(* ===== verification/Api_Props.thy ===== *)
theory Api_Props
  imports Api_Tokens
begin

text \<open>
  What the HTTP API guarantees: who can change anything, which requests change nothing, what a
  reply says about the tables, and the round trips of the wire forms.
\<close>

section \<open>Who changes what\<close>



text \<open>
  A GET request changes no table, no compiled rule and no queued event, whoever sends it,
  with or without authentication; at most a use of its token is queued to be recorded.
\<close>

theorem get_requests_are_safe:
  assumes "lite_settings lib s" and "rq_method r \<in> {''GET'', ''HEAD''}"
    and "serve (sqlite_store lib) s ui env r sv = (resp, sv')"
  shows "same_tables (sv_store sv) (sv_store sv') \<and> sv_cache sv' = sv_cache sv \<and> sv_input sv' = sv_input sv"
  using quiet.serve_get_by [OF assms] by (simp add: quiet_def)

lemma get_requests_are_safe_witness:
  "same_tables (sv_store issued_server) (sv_store (snd (serve (sqlite_store plain_lib) token_settings True
     sample_env sample_get issued_server)))"
  by (rule conjunct1 [OF get_requests_are_safe [OF sample_settings(1) _ surjective_pairing]])
    (simp add: sample_get_def sample_request_def)

section \<open>Error replies\<close>

text \<open>A handler fails cleanly when a reply with an error status comes with unchanged tables.\<close>

definition fails_clean :: "(db server \<Rightarrow> response \<times> db server) \<Rightarrow> bool" where
  "fails_clean f \<longleftrightarrow> (\<forall>sv code b sv'. f sv = (Reply code b, sv') \<longrightarrow> 400 \<le> code \<longrightarrow> quiet sv sv')"

definition clean_op :: "(db, 'a) op \<Rightarrow> bool" where
  "clean_op m \<longleftrightarrow> (\<forall>d e d'. m d = (Inl e, d') \<longrightarrow> same_tables d d')"

definition succeeds :: "(db server \<Rightarrow> response \<times> db server) \<Rightarrow> bool" where
  "succeeds f \<longleftrightarrow> (\<forall>sv code b sv'. f sv = (Reply code b, sv') \<longrightarrow> code < 400)"

lemma fails_clean_quiet: "moves_by quiet f \<Longrightarrow> fails_clean f"
  unfolding fails_clean_def by (meson moves_byD)

lemma fails_clean_value: "(\<And>x. fails_clean (k x)) \<Longrightarrow> fails_clean (on_value code v k)"
  by (cases v) (auto simp: fails_clean_def on_value_def quiet.rel_refl)

lemma fails_clean_read:
  "moves_by quiet m \<Longrightarrow> (\<And>x. fails_clean (k x)) \<Longrightarrow> fails_clean (on_call code m k)"
  unfolding fails_clean_def on_call_def
  by (auto split: prod.splits sum.splits) (metis moves_byD quiet.rel_trans)+

lemma fails_clean_write:
  "clean_op m \<Longrightarrow> (\<And>x. succeeds (k x)) \<Longrightarrow> fails_clean (on_call code (with_store m) k)"
  unfolding fails_clean_def on_call_def succeeds_def clean_op_def with_store_def
  by (fastforce simp: quiet_def split: prod.splits sum.splits)

lemma clean_exec: "clean_op (db_exec f)"
  unfolding clean_op_def by (auto elim!: db_exec_cases)

lemma clean_exec_bind: "clean_op (op_bind (db_exec f) (\<lambda>_. op_return x))"
  unfolding clean_op_def op_bind_def
  by (auto split: prod.splits sum.splits elim!: db_exec_cases)

lemma clean_writes:
  "clean_op (lite_rule_delete i)"
  "clean_op (lite_subscriber_create lib now sb)" "clean_op (lite_subscriber_update lib now sb)"
  "clean_op (lite_subscriber_delete i)" "clean_op (lite_subscription_create lib now su)"
  "clean_op (lite_subscription_update lib now su)" "clean_op (lite_subscription_delete i)"
  "clean_op (lite_token_create lib now t)" "clean_op (lite_token_revoke i)"
  unfolding lite_rule_delete_def lite_subscriber_create_def lite_subscriber_update_def
    lite_subscriber_delete_def lite_subscription_create_def lite_subscription_update_def
    lite_subscription_delete_def lite_token_create_def lite_token_revoke_def Let_def
  by (simp_all add: clean_exec clean_exec_bind) (simp add: clean_op_def)

lemma succeeds_reply: "code < 400 \<Longrightarrow> succeeds (\<lambda>sv. (Reply code b, sv))" "code < 400 \<Longrightarrow> succeeds (Pair (Reply code b))"
  by (simp_all add: succeeds_def)

lemma write_handlers_clean:
  "fails_clean (create_subscriber (sqlite_store lib) env r)" "fails_clean (update_subscriber (sqlite_store lib) env r)"
  "fails_clean (delete_subscriber (sqlite_store lib) env r)" "fails_clean (create_subscription (sqlite_store lib) env r)"
  "fails_clean (update_subscription (sqlite_store lib) env r)"
  "fails_clean (delete_subscription (sqlite_store lib) env r)"
  unfolding create_subscriber_def update_subscriber_def delete_subscriber_def create_subscription_def
    update_subscription_def delete_subscription_def lite_repo_sel Let_def
  by (auto intro!: fails_clean_value fails_clean_write clean_writes succeeds_reply)

lemma token_handlers_clean:
  "fails_clean (issue_token (st_api_tokens (sqlite_store lib)) env r)"
  "fails_clean (revoke_token (st_api_tokens (sqlite_store lib)) env r)"
proof -
  show "fails_clean (issue_token (st_api_tokens (sqlite_store lib)) env r)"
    unfolding issue_token_def lite_repo_sel
    by (auto intro!: fails_clean_value fails_clean_write clean_writes succeeds_reply split: prod.splits)
  have refuse: "fails_clean (\<lambda>sv. (resp, sv))" for resp
    by (rule fails_clean_quiet) simp
  have "fails_clean (on_call 500 (with_store (lite_token_revoke i)) (\<lambda>_ sv. (Reply 204 VNone, sv)))" for i
    by (auto intro!: fails_clean_write clean_writes succeeds_reply)
  then show "fails_clean (revoke_token (st_api_tokens (sqlite_store lib)) env r)"
    unfolding revoke_token_def lite_repo_sel Let_def
    by (auto intro!: refuse fails_clean_read quiet.lite_reads_by split: option.splits)
qed

lemma delete_rule_clean: "fails_clean (delete_rule (sqlite_store lib) env r)"
  unfolding fails_clean_def
proof (intro allI impI)
  fix sv code b sv'
  assume run: "delete_rule (sqlite_store lib) env r sv = (Reply code b, sv')" "400 \<le> code"
  obtain res d' where del: "lite_rule_delete (rq_path_id r) (sv_store sv) = (res, d')"
    by (cases "lite_rule_delete (rq_path_id r) (sv_store sv)")
  show "quiet sv sv'"
  proof (cases res)
    case (Inl e)
    then have "same_tables (sv_store sv) d'" using del clean_writes(1) by (simp add: clean_op_def)
    then show ?thesis
      using run Inl del by (auto simp: delete_rule_def on_call_def with_engine_def api_rule_delete_def on_rules_def
          lite_repo_sel op_bind_def quiet_def write_error_def)
  next
    case (Inr u)
    then show ?thesis
      using run del by (auto simp: delete_rule_def on_call_def with_engine_def api_rule_delete_def on_rules_def
          lite_repo_sel op_bind_def)
  qed
qed

lemma post_event_clean: "fails_clean (post_event env r)"
proof -
  have "fails_clean (submit_event env r p)" for p
    by (auto simp: fails_clean_def submit_event_def engine_submit_def event_submit_def write_error_def Let_def
        quiet_def split: option.splits sum.splits if_splits)
  moreover have "fails_clean (Pair resp)" for resp
    by (rule fails_clean_quiet) simp
  ultimately show ?thesis
    unfolding post_event_def by (auto intro!: fails_clean_value)
qed

lemma handlers_clean:
  assumes "lite_settings lib s" and "rt \<in> set (all_routes s)" and "rt_handler rt \<notin> {''createRule'', ''updateRule''}"
    and "handler_for (sqlite_store lib) s (rt_handler rt) = Some h"
  shows "fails_clean (h env r)"
proof -
  have tokens: "fails_clean (on_tokens s h' env r)" if "fails_clean (h' (st_api_tokens (sqlite_store lib)) env r)" for h'
    using that assms(1) by (auto simp: on_tokens_def fails_clean_def lite_settings_def split: option.splits)
  have listed: "fails_clean (on_tokens s list_tokens env r)"
    by (intro tokens fails_clean_quiet quiet.list_handlers_by)
  have issued: "fails_clean (on_tokens s issue_token env r)" "fails_clean (on_tokens s revoke_token env r)"
    by (intro tokens token_handlers_clean)+
  show ?thesis
    using assms(2-4)
    by (auto simp: all_routes_def gated_routes_def auth_routes_def mk_route_def handler_for_table
        intro: write_handlers_clean delete_rule_clean post_event_clean listed issued
          fails_clean_quiet [OF quiet.list_handlers_by(1)] fails_clean_quiet [OF quiet.list_handlers_by(2)]
          fails_clean_quiet [OF quiet.list_handlers_by(3)] fails_clean_quiet [OF quiet.list_handlers_by(4)]
          fails_clean_quiet [OF quiet.list_handlers_by(5)] fails_clean_quiet [OF quiet.list_handlers_by(7)]
          fails_clean_quiet [OF quiet.get_handlers_by(1)] fails_clean_quiet [OF quiet.get_handlers_by(2)]
          fails_clean_quiet [OF quiet.get_handlers_by(3)] fails_clean_quiet [OF quiet.get_handlers_by(4)]
          fails_clean_quiet [OF quiet.incident_handlers_by(1)] fails_clean_quiet [OF quiet.incident_handlers_by(2)]
        split: if_splits)
qed

lemma gate_clean:
  assumes "lite_settings lib s" and "\<And>r. fails_clean (h env r)"
  shows "fails_clean (gate s rt h env r)"
proof -
  have scope: "fails_clean (require_scope scope h env r)" for scope r
    using assms(2) by (auto simp: fails_clean_def require_scope_def quiet.rel_refl split: option.splits)
  have "fails_clean (require_auth s (require_scope scope h) env r)" for scope
  proof (cases "auth_required s")
    case True
    show ?thesis unfolding fails_clean_def
    proof (intro allI impI)
      fix sv code b sv'
      assume run: "require_auth s (require_scope scope h) env r sv = (Reply code b, sv')" and code: "400 \<le> code"
      from assms(1) True run show "quiet sv sv'"
      proof (cases rule: require_auth_cases)
        case refused
        then show ?thesis by simp
      next
        case (passed tok sv1)
        then have "quiet sv1 sv'" using scope code unfolding fails_clean_def by blast
        with passed(1) show ?thesis by (rule quiet.rel_trans)
      qed
    qed
  next
    case False
    then show ?thesis using scope by (simp add: fails_clean_def require_auth_def)
  qed
  then show ?thesis by (simp add: gate_def read_gate_def write_gate_def)
qed

lemma rule_write_routes:
  assumes "rt \<in> set (all_routes s)" and "rt_handler rt \<in> {''createRule'', ''updateRule''}"
  shows "rt_method rt = ''POST'' \<and> rt_path rt = ''/v1/rules'' \<or>
    rt_method rt = ''PUT'' \<and> rt_path rt = ''/v1/rules/{id}''"
  using assms by (auto simp: all_routes_def gated_routes_def auth_routes_def mk_route_def split: if_splits)

text \<open>
  A reply with an error status, 400 or above, comes with unchanged tables, cache and
  event queue, for every request but the creation and the update of a rule.
\<close>

theorem error_replies_change_nothing:
  assumes "lite_settings lib s" and "serve (sqlite_store lib) s ui env r sv = (Reply code b, sv')"
    and "400 \<le> code"
    and "\<not> (rq_method r = ''POST'' \<and> path_match ''/v1/rules'' (rq_path r))"
    and "\<not> (rq_method r = ''PUT'' \<and> path_match ''/v1/rules/{id}'' (rq_path r))"
  shows "same_tables (sv_store sv) (sv_store sv') \<and> sv_cache sv' = sv_cache sv \<and> sv_input sv' = sv_input sv"
  using assms(2)
proof (cases rule: serve_cases)
  case outside
  then show ?thesis by simp
next
  case (route rt h)
  have "rt_handler rt \<notin> {''createRule'', ''updateRule''}"
  proof
    assume "rt_handler rt \<in> {''createRule'', ''updateRule''}"
    from rule_write_routes [OF route(1) this] route(3,4) assms(4,5) show False
      by (auto simp: method_match_def)
  qed
  then have "fails_clean (gate s rt h env (at_route r rt))"
    using handlers_clean [OF assms(1) route(1) _ route(2)] by (intro gate_clean [OF assms(1)])
  then have "quiet sv sv'" using route(5) assms(3) by (auto simp: fails_clean_def)
  then show ?thesis by (simp add: quiet_def)
qed

lemma sample_patterns:
  "\<not> path_match ''/v1/rules'' [''v1'', ''subscribers'']" "\<not> path_match ''/v1/rules/{id}'' [''v1'', ''subscribers'']"
  by (simp_all add: path_match_def gated_segments seg_match_def id_segment_def)

lemma error_replies_change_nothing_witness:
  "\<exists>code b sv'. serve (sqlite_store plain_lib) default_settings False sample_env
      (sample_request ''POST'' [''v1'', ''subscribers''] '''' (Inl IoEOF)) sample_server = (Reply code b, sv') \<and>
    same_tables (sv_store sample_server) (sv_store sv')"
proof -
  let ?r = "sample_request ''POST'' [''v1'', ''subscribers''] '''' (Inl IoEOF)"
  have run: "serve (sqlite_store plain_lib) default_settings False sample_env ?r sample_server =
      (Reply 400 (VError IoEOF), sample_server)"
    by (simp add: serve_def mount_eq all_routes_def default_settings_def gated_routes_def mk_route_def mounted_def
        handler_for_table open_routes_def mux_def find_pattern_def Let_def sample_request_def method_match_def
        path_match_def gated_segments open_segments seg_match_def id_segment_def path_id_def gate_def write_gate_def
        require_auth_def auth_required_def require_scope_def create_subscriber_def decode_subscriber_def
        decode_json_def on_value_def write_error_def)
  have "lite_settings plain_lib default_settings" by (simp add: lite_settings_def default_settings_def)
  from error_replies_change_nothing [OF this run] run show ?thesis
    by (auto simp: sample_request_def sample_patterns)
qed

end
