(* ===== verification/Api_Rule_Props.thy ===== *)
theory Api_Rule_Props
  imports Api_Props
begin

text \<open>
  The rule endpoints in detail: what creation, validation and update of a rule answer and leave
  behind, and what is read after a creation.
\<close>

section \<open>Creating, validating and updating rules\<close>

definition stamped :: "time \<Rightarrow> rule \<Rightarrow> rule" where
  "stamped now x = x\<lparr>r_created_at := now, r_updated_at := now\<rparr>"

lemma to_rule_created: "to_rule lib uuid p = Inr x \<Longrightarrow> r_created_at x = zero_time \<and> r_condition x \<noteq> None"
  by (auto simp: to_rule_def res_bind_Inr_iff Let_def split: if_splits)

lemma lite_create_calm:
  assumes "db_faults d = []" and "r_id x \<notin> rw_id ` set (t_rules d)" and "rule_cond_json lib x = Inr cond"
    and "r_created_at x = zero_time"
  shows "lite_rule_create lib now x d =
    (Inr (stamped now x), d\<lparr>t_rules := t_rules d @ [rule_to_row lib (stamped now x) cond]\<rparr>)"
  using assms
  by (simp add: lite_rule_create_def stamped_def op_bind_def db_exec_no_fault sql_insert_def rule_to_row_def
      Let_def)

lemma api_create_calm:
  assumes "db_faults d = []" and "r_id x \<notin> rw_id ` set (t_rules d)" and "rule_cond_json lib x = Inr cond"
    and "r_created_at x = zero_time" and "r_condition x = Some c"
  shows "api_rule_create lib (sqlite_store lib) now x (d, m) =
    (let d' = d\<lparr>t_rules := t_rules d @ [rule_to_row lib (stamped now x) cond]\<rparr>
     in case rule_validate x of
          Inl e \<Rightarrow> (Inl e, (d, m))
        | Inr _ \<Rightarrow>
            if \<not> r_enabled x then (Inr (stamped now x), (d', m))
            else case compile_condition lib c of
                   Inl e \<Rightarrow> (Inl e, (d', m))
                 | Inr k \<Rightarrow> (Inr (stamped now x),
                     (d', cache_set \<lparr>cr_rule = stamped now x, cr_compiled = Some k\<rparr> m)))"
proof -
  note create = lite_create_calm [OF assms(1-4), of now]
  have cached: "r_condition (stamped now x) = Some c" "r_enabled (stamped now x) = r_enabled x"
    by (simp_all add: stamped_def assms(5))
  show ?thesis
    by (cases "rule_validate x"; cases "r_enabled x"; cases "compile_condition lib c")
      (simp_all add: api_rule_create_def on_rules_def op_bind_def lite_repo_sel create compile_and_cache_def cached)
qed


text \<open>
  C20: POST /v1/rules/validate answers 200 for a body exactly when creating the rule, enabled
  and with a fresh id on a working database, would be answered with 201, and it changes nothing.
\<close>

theorem validate_predicts_create:
  assumes "db_faults (sv_store sv) = []" and "decode_rule r = Inr p"
    and "to_rule (ae_lib env) (ae_uuid env) p = Inr x" and "r_enabled x"
    and "r_id x \<notin> rw_id ` set (t_rules (sv_store sv))"
    and "is_ok (rule_cond_json lib x)" and "ae_lib env = lib"
  shows "validate_rule env r sv = (Reply 200 VOk, sv) \<longleftrightarrow>
    (\<exists>b sv'. create_rule (sqlite_store lib) env r sv = (Reply 201 b, sv'))"
proof -
  obtain c where c: "r_condition x = Some c" using to_rule_created [OF assms(3)] by blast
  obtain cond where cond: "rule_cond_json lib x = Inr cond" using assms(6) by (auto simp: is_ok_iff)
  have "r_created_at x = zero_time" using to_rule_created [OF assms(3)] by simp
  note create = api_create_calm [OF assms(1,5) cond this c, of "ae_now env" "sv_cache sv"]
  show ?thesis
    unfolding create_rule_def validate_rule_def on_value_def assms(7) assms(2) sum.case assms(3) [unfolded assms(7)] check_rule_def c
      on_call_def with_engine_def create Let_def
    by (cases "rule_validate x"; cases "compile_condition lib c") (simp_all add: assms(4) write_error_def)
qed

text \<open>
  C21: PUT /v1/rules/{id} for a rule that is not in the database is answered with 200 and
  stores no row, but puts an enabled rule into the cache: the evaluators run a rule that the
  database does not have.
\<close>

theorem update_missing_rule_runs:
  assumes "db_faults (sv_store sv) = []" and "decode_rule r = Inr p"
    and "to_rule (ae_lib env) (ae_uuid env) (p\<lparr>rp_id := rq_path_id r\<rparr>) = Inr x" and "r_enabled x"
    and "r_id x \<notin> rw_id ` set (t_rules (sv_store sv))" and "check_rule lib x = Inr ()"
    and "is_ok (rule_cond_json lib x)" and "ae_lib env = lib"
    and "update_rule (sqlite_store lib) env r sv = (resp, sv')"
  shows "resp = Reply 200 (VRule (rule_to_payload lib (x\<lparr>r_updated_at := ae_now env\<rparr>))) \<and>
    t_rules (sv_store sv') = t_rules (sv_store sv) \<and>
    (\<exists>k. cache_get (r_id x) (sv_cache sv') =
       Some \<lparr>cr_rule = x\<lparr>r_updated_at := ae_now env\<rparr>, cr_compiled = Some k\<rparr>)"
proof -
  obtain c where c: "r_condition x = Some c" using to_rule_created [OF assms(3)] by blast
  obtain cond where cond: "rule_cond_json lib x = Inr cond" using assms(7) by (auto simp: is_ok_iff)
  let ?x = "x\<lparr>r_updated_at := ae_now env\<rparr>"
  have keep: "tbl_update (\<lambda>row. rw_id row = r_id x) f rows = rows" if "r_id x \<notin> rw_id ` set rows" for f rows
    using that by (induction rows) (auto simp: tbl_update_def)
  have upd: "lite_rule_update lib (ae_now env) x (sv_store sv) = (Inr ?x, sv_store sv)"
    using assms(1,5) cond by (simp add: lite_rule_update_def op_bind_def db_exec_no_fault keep Let_def)
  obtain k where ok: "rule_validate x = Inr ()" "compile_condition lib c = Inr k"
    using assms(6) by (auto simp: check_rule_def c res_bind_Inr_iff res_map_def)
  have cached: "r_condition ?x = Some c" "r_enabled ?x" using assms(4) by (simp_all add: c)
  have run: "(resp, sv') = (Reply 200 (VRule (rule_to_payload lib ?x)),
      sv\<lparr>sv_store := sv_store sv, sv_cache := cache_set \<lparr>cr_rule = ?x, cr_compiled = Some k\<rparr> (sv_cache sv)\<rparr>)"
    using assms(9) unfolding update_rule_def on_value_def assms(8) assms(2) sum.case assms(3) [unfolded assms(8)]
    by (simp add: on_call_def with_engine_def api_rule_update_def on_rules_def op_bind_def lite_repo_sel upd ok
        compile_and_cache_def c assms(4))
  then show ?thesis by (auto simp: cache_get_set cr_id_def)
qed


text \<open>Examples: a rule that matches a pattern, created and updated on an empty server.\<close>

definition rule_body :: "json result" where
  "rule_body = Inr (JObj [(''id'', JStr ''r''), (''name'', JStr ''n''), (''enabled'', JBool True),
     (''labels'', JObj [(''b'', JStr ''2''), (''a'', JStr ''1'')]), (''input_ref'', JStr ''in''),
     (''condition'', JObj [(''type'', JStr ''pattern_match''),
        (''spec'', JObj [(''field'', JStr ''f''), (''kind'', JStr ''contains''), (''pattern'', JStr ''p'')])])])"

definition sample_payload :: rule_payload where
  "sample_payload = \<lparr>rp_id = ''r'', rp_name = ''n'', rp_description = '''', rp_enabled = True, rp_severity = '''',
     rp_labels = [(''b'', ''2''), (''a'', ''1'')], rp_input_ref = ''in'',
     rp_condition = Some (JObj [(''type'', JStr ''pattern_match''),
        (''spec'', JObj [(''field'', JStr ''f''), (''kind'', JStr ''contains''), (''pattern'', JStr ''p'')])]),
     rp_schedule_sec = Fin 0\<rparr>"

definition decoded_rule :: rule where
  "decoded_rule = small_rule\<lparr>r_description := ''''\<rparr>"

lemma to_lower_rule [simp]:
  "to_lower ''id'' = ''id''" "to_lower ''enabled'' = ''enabled''" "to_lower ''labels'' = ''labels''"
  "to_lower ''input_ref'' = ''input_ref''" "to_lower ''condition'' = ''condition''"
  by (simp_all add: to_lower_def)

lemma sample_rule_decoded: "decode_rule (sample_request m path a rule_body) = Inr sample_payload"
  by (simp add: decode_rule_def decode_json_def sample_request_def rule_body_def json_struct_def
      empty_rule_payload_def rule_member_def tbl_upsert_def sample_payload_def)

lemma seconds_zero: "seconds_dur lib (Fin 0) = 0"
  by (simp add: seconds_dur_def round64_def rat_trunc_def min_int64_def max_int64_def)

lemma sample_rule_converted: "to_rule plain_lib uuid sample_payload = Inr decoded_rule"
  by (simp add: to_rule_def sample_payload_def unmarshal_condition_def unmarshal_spec_def json_struct_def
      wrapper_member_def pattern_member_def Let_def decoded_rule_def small_rule_def seconds_zero)

lemma sample_cond_json: "rule_cond_json plain_lib decoded_rule = Inr (marshal_wrapped ''pattern_match''
    (JObj [(''field'', JStr ''f''), (''kind'', JStr ''contains''), (''pattern'', JStr ''p'')]))"
  by (simp add: rule_cond_json_def decoded_rule_def small_rule_def json_of_string_def plain_lib_def)

lemma decoded_rule_sel [simp]:
  "r_id decoded_rule = ''r''" "r_enabled decoded_rule" "r_condition decoded_rule =
     Some (CPattern \<lparr>pm_field = ''f'', pm_kind = ''contains'', pm_pattern = ''p''\<rparr>)"
  by (simp_all add: decoded_rule_def small_rule_def)

lemma sample_env_sel [simp]: "ae_lib sample_env = plain_lib"
  by (simp add: sample_env_def)

lemma sample_server_rules [simp]: "db_faults (sv_store sample_server) = []" "t_rules (sv_store sample_server) = []"
  by (simp_all add: sample_server_def empty_db_def)

abbreviation create_request :: request where
  "create_request \<equiv> sample_request ''POST'' [''v1'', ''rules''] '''' rule_body"


lemma validate_predicts_create_witness:
  "(validate_rule sample_env create_request sample_server = (Reply 200 VOk, sample_server)) \<longleftrightarrow>
   (\<exists>b sv'. create_rule (sqlite_store plain_lib) sample_env create_request sample_server = (Reply 201 b, sv'))"
proof -
  have "to_rule (ae_lib sample_env) (ae_uuid sample_env) sample_payload = Inr decoded_rule"
    by (simp add: sample_rule_converted)
  from validate_predicts_create [OF sample_server_rules(1) sample_rule_decoded this] show ?thesis
    by (simp add: sample_cond_json)
qed

lemma update_missing_rule_runs_witness:
  "\<exists>k. cache_get ''r'' (sv_cache (snd (update_rule (sqlite_store plain_lib) sample_env
     (create_request\<lparr>rq_path_id := ''r''\<rparr>) sample_server))) =
   Some \<lparr>cr_rule = decoded_rule\<lparr>r_updated_at := 1500000\<rparr>, cr_compiled = Some k\<rparr>"
proof -
  have dec: "decode_rule (create_request\<lparr>rq_path_id := ''r''\<rparr>) = Inr sample_payload"
    using sample_rule_decoded [of "''POST''" "[''v1'', ''rules'']" "''''"] by (simp add: decode_rule_def)
  have "sample_payload\<lparr>rp_id := ''r''\<rparr> = sample_payload" by (simp add: sample_payload_def)
  then have conv: "to_rule (ae_lib sample_env) (ae_uuid sample_env)
      (sample_payload\<lparr>rp_id := rq_path_id (create_request\<lparr>rq_path_id := ''r''\<rparr>)\<rparr>) = Inr decoded_rule"
    by (simp add: sample_rule_converted)
  have "check_rule plain_lib decoded_rule = Inr ()"
    by (simp add: check_rule_def rule_validate_def compile_pattern_def) (simp add: decoded_rule_def small_rule_def)
  then show ?thesis
    using update_missing_rule_runs [OF sample_server_rules(1) dec conv _ _ _ _ _ surjective_pairing]
    by (simp add: sample_cond_json) (simp add: sample_env_def)
qed


section \<open>What was posted is what is read\<close>

lemma create_rule_201:
  assumes "create_rule (sqlite_store lib) env r sv = (Reply 201 (VRule q), sv')"
    and "decode_rule r = Inr p" and "to_rule lib (ae_uuid env) p = Inr x" and "ae_lib env = lib"
  obtains x' where "lite_rule_create lib (ae_now env) x (sv_store sv) = (Inr x', sv_store sv')"
    "q = rule_to_payload lib x'"
proof -
  obtain res d1 where make: "lite_rule_create lib (ae_now env) x (sv_store sv) = (res, d1)"
    by (cases "lite_rule_create lib (ae_now env) x (sv_store sv)")
  have cached: "compile_and_cache lib y (d, m) = (u, (d', m')) \<Longrightarrow> d' = d" for y d m u d' m'
    by (auto simp: compile_and_cache_def split: option.splits sum.splits)
  obtain res' d' m' where run: "api_rule_create lib (sqlite_store lib) (ae_now env) x (sv_store sv, sv_cache sv) = (res', (d', m'))"
    by (cases "api_rule_create lib (sqlite_store lib) (ae_now env) x (sv_store sv, sv_cache sv)") auto
  obtain x' where x': "res' = Inr x'" "sv_store sv' = d'" "q = rule_to_payload lib x'"
    using assms(1) run unfolding create_rule_def on_value_def assms(2) sum.case assms(3,4)
    by (auto simp: on_call_def with_engine_def write_error_def split: sum.splits)
  have "res = Inr x' \<and> d1 = d'"
    using run x'(1) make
    by (auto simp: api_rule_create_def on_rules_def lite_repo_sel op_bind_def split: sum.splits if_splits prod.splits
        dest: cached)
  then show ?thesis using that make x' by blast
qed

text \<open>
  C22: A rule accepted by POST /v1/rules is answered by GET /v1/rules/{id} with the payload the
  creation returned, its labels in order, by every read that does not fail.
\<close>

theorem posted_rule_is_read:
  assumes "create_rule (sqlite_store lib) env r sv = (Reply 201 (VRule q), sv')"
    and "decode_rule r = Inr p" and "to_rule lib (ae_uuid env) p = Inr x" and "ae_lib env = lib"
    and "rule_storable lib x" and "rq_path_id r' = r_id x" and "ae_lib env' = lib"
    and "db_faults (sv_store sv') = []"
  shows "get_rule (sqlite_store lib) env' r' sv' = (Reply 200 (VRule (q\<lparr>rp_labels := sort_key fst (rp_labels q)\<rparr>)), sv')"
proof -
  obtain x' where x': "lite_rule_create lib (ae_now env) x (sv_store sv) = (Inr x', sv_store sv')"
    "q = rule_to_payload lib x'"
    using create_rule_201 [OF assms(1-4)] .
  obtain row where row: "tbl_find rw_id (r_id x) (t_rules (sv_store sv')) = Some row"
    "scan_rule lib row = Inr (stored_rule x')"
    using rule_create_found [OF x'(1) assms(5)] .
  have "lite_rule_get lib (r_id x) (sv_store sv') = (Inr (Some (stored_rule x')), sv_store sv')"
    using assms(8) row by (simp add: lite_rule_get_def db_query_no_fault scan_one_def)
  moreover have "rule_to_payload lib (stored_rule x') = q\<lparr>rp_labels := sort_key fst (rp_labels q)\<rparr>"
    by (simp add: x'(2) rule_to_payload_def stored_rule_def)
  moreover have "sv'\<lparr>sv_store := sv_store sv', sv_cache := sv_cache sv'\<rparr> = sv'" by simp
  ultimately show ?thesis
    by (simp add: get_rule_def on_call_def with_store_def api_rule_get_def lite_repo_sel assms(6,7))
qed

lemma posted_rule_is_read_witness:
  "fst (get_rule (sqlite_store plain_lib) sample_env (create_request\<lparr>rq_path_id := ''r''\<rparr>)
      (snd (create_rule (sqlite_store plain_lib) sample_env create_request sample_server))) =
   Reply 200 (VRule ((rule_to_payload plain_lib (stamped 1500000 decoded_rule))
     \<lparr>rp_labels := [(''a'', ''1''), (''b'', ''2'')]\<rparr>))"
proof -
  let ?sv = "snd (create_rule (sqlite_store plain_lib) sample_env create_request sample_server)"
  have conv: "to_rule plain_lib (ae_uuid sample_env) sample_payload = Inr decoded_rule"
    by (simp add: sample_rule_converted)
  have ok: "rule_validate decoded_rule = Inr ()"
    by (simp add: rule_validate_def) (simp add: decoded_rule_def small_rule_def)
  have made: "create_rule (sqlite_store plain_lib) sample_env create_request sample_server =
      (Reply 201 (VRule (rule_to_payload plain_lib (stamped 1500000 decoded_rule))), ?sv)"
    "db_faults (sv_store ?sv) = []"
    using api_create_calm [OF sample_server_rules(1) _ sample_cond_json _ decoded_rule_sel(3), of 1500000 "[]"]
    by (simp_all add: create_rule_def on_value_def sample_rule_decoded sample_rule_converted on_call_def
        with_engine_def ok compile_pattern_def Let_def)
       (simp_all add: sample_env_def sample_server_def decoded_rule_def small_rule_def empty_db_def)
  have "rule_storable plain_lib decoded_rule"
    by (simp add: rule_storable_def labels_ok_def decoded_rule_def small_rule_def valid_text_def plain_lib_def)
  then show ?thesis
    by (subst posted_rule_is_read [OF made(1) sample_rule_decoded conv _ _ _ _ made(2)])
      (simp_all add: rule_to_payload_def stamped_def, simp add: decoded_rule_def small_rule_def)
qed

end
