(* ===== verification/Api_Wire.thy ===== *)
theory Api_Wire
  imports Api_Rule_Props
begin

text \<open>
  Numbers on the wire: whole seconds survive the conversion to and from a float64, and the
  page sizes of the listings stay in their range.
\<close>

section \<open>Exact integers\<close>

lemma int_bits_bounds: "0 < n \<Longrightarrow> 0 < int_bits n \<and> 2 ^ nat (int_bits n - 1) \<le> n \<and> n < 2 ^ nat (int_bits n)"
proof (induction n rule: int_bits.induct)
  case (1 n)
  show ?case
  proof (cases "n = 1")
    case True
    then show ?thesis by (simp add: int_bits.simps)
  next
    case False
    let ?m = "n div 2"
    have m: "0 < ?m" "2 * ?m \<le> n" "n < 2 * ?m + 2" using 1(2) False by auto
    have ih: "0 < int_bits ?m" "2 ^ nat (int_bits ?m - 1) \<le> ?m" "?m < 2 ^ nat (int_bits ?m)"
      using 1(1) 1(2) m(1) by auto
    have bits: "int_bits n = 1 + int_bits ?m" using 1(2) by (subst int_bits.simps) simp
    have "nat (int_bits n - 1) = Suc (nat (int_bits ?m - 1))" "nat (int_bits n) = Suc (nat (int_bits ?m))"
      using ih(1) by (simp_all add: bits Suc_nat_eq_nat_zadd1)
    moreover have "2 * 2 ^ nat (int_bits ?m - 1) \<le> n" using ih(2) m(2) by linarith
    moreover have "n < 2 * 2 ^ nat (int_bits ?m)" using ih(3) m(3) by linarith
    ultimately show ?thesis using ih(1) by (simp add: bits)
  qed
qed

lemma round_half_even_int: "round_half_even (of_int k) = k"
  by (simp add: round_half_even_def Let_def)

lemma round64_int:
  assumes "0 < n" and "n < 2 ^ 53"
  shows "round64 (of_int n) = Fin (of_int n)"
proof -
  define e where "e = int_bits n - 1"
  have e: "0 \<le> e" "2 ^ nat e \<le> n" "n < 2 ^ nat (e + 1)"
    using int_bits_bounds [OF assms(1)] by (auto simp: e_def)
  have le: "e \<le> 52"
  proof (rule ccontr)
    assume "\<not> e \<le> 52"
    then have "(2::int) ^ 53 \<le> 2 ^ nat e" by (intro power_increasing) auto
    with e(2) assms(2) show False by linarith
  qed
  have "int_bits 1 = 1" by (simp add: int_bits.simps)
  moreover have "pow2 e \<le> (of_int n :: rat)"
    using e(1,2) of_int_le_iff [of "2 ^ nat e" n, where 'a = rat] by (simp add: pow2_def)
  ultimately have log: "flog2 (of_int n) = e"
    by (simp add: flog2_def e_def Let_def)
  define k where "k = nat (52 - e)"
  have unit: "pow2 (max (flog2 (of_int n)) (- 1022) - 52) = 1 / 2 ^ k"
    using e(1) le by (auto simp: log pow2_def k_def max_def)
  have scaled: "of_int n / (1 / 2 ^ k) = (of_int (n * 2 ^ k) :: rat)"
    by simp
  have "(of_int n :: rat) < 2 ^ 53"
    using assms(2) of_int_less_iff [of n "2 ^ 53", where 'a = rat] by simp
  moreover have "(2 :: rat) ^ 53 \<le> 2 ^ nat 1024" by (rule power_increasing) simp_all
  moreover have "pow2 1024 = (2 :: rat) ^ nat 1024"
    unfolding pow2_def by (simp only: zero_le_numeral if_True)
  ultimately have small: "\<not> pow2 1024 \<le> (of_int n :: rat)" by linarith
  have "of_int (round_half_even (of_int n / (1 / 2 ^ k))) * (1 / 2 ^ k) = (of_int n :: rat)"
    unfolding scaled round_half_even_int by simp
  then show ?thesis
    using assms(1) small by (simp add: round64_def Let_def unit del: of_int_mult)
qed

lemma round64_nonneg: "0 \<le> n \<Longrightarrow> n < 2 ^ 53 \<Longrightarrow> round64 (of_int n) = Fin (of_int n)"
  using round64_int [of n] by (cases "n = 0") (auto simp: round64_def)

lemma whole_seconds:
  assumes "0 \<le> n" and "n \<le> 9007199"
  shows "dur_seconds (n * second) = Fin (of_int n)" and "seconds_dur lib (Fin (of_int n)) = n * second"
proof -
  have q: "go_quot (n * second) second = n" "go_rem (n * second) second = 0"
    using assms(1) by (auto simp: go_quot_def go_rem_def sgn_if abs_mult)
  have one: "f64_of_int n = Fin (of_int n)" "f64_of_int 0 = Fin 0"
    using round64_nonneg [OF assms(1)] assms(2) by (simp_all add: f64_of_int_def round64_def)
  show "dur_seconds (n * second) = Fin (of_int n)"
    using one round64_nonneg [OF assms(1)] assms(2)
    by (simp add: dur_seconds_def q f_div_pos.simps round64_def [of 0])
  have "round64 (of_int (n * 1000000000)) = Fin (of_int (n * 1000000000))"
    by (rule round64_nonneg) (use assms in auto)
  then have big: "f_scale (Fin (of_int n)) 1000000000 = Fin (of_int (n * 1000000000))" by simp
  have "rat_trunc (of_int (n * 1000000000)) = n * 1000000000"
    unfolding rat_trunc_def by (simp only: floor_of_int flip: of_int_minus) simp
  then show "seconds_dur lib (Fin (of_int n)) = n * second"
    using assms unfolding seconds_dur_def big
    by (simp add: min_int64_def max_int64_def del: of_int_mult)
qed

text \<open>
  A subscription read through the API and sent back unchanged is the same subscription,
  for a dwell and a repeat interval of whole seconds up to 104 days: the payload's floating
  point seconds lose nothing there.
\<close>

theorem subscription_payload_roundtrip:
  assumes "su_id s \<noteq> ''''" and "su_dwell s = a * second" and "su_repeat_interval s = b * second"
    and "a \<in> {0..9007199}" and "b \<in> {0..9007199}"
  shows "to_subscription lib uuid (subscription_to_payload s) =
    s\<lparr>su_created_at := zero_time, su_updated_at := zero_time\<rparr>"
  using assms whole_seconds(1) [of a] whole_seconds(2) [of a lib] whole_seconds(1) [of b] whole_seconds(2) [of b lib]
  by (cases s) (simp add: to_subscription_def subscription_to_payload_def Let_def)

lemma subscription_payload_roundtrip_witness:
  "to_subscription plain_lib ''x'' (subscription_to_payload (small_subscription\<lparr>su_dwell := 90 * second,
     su_repeat_interval := 3600 * second\<rparr>)) =
   small_subscription\<lparr>su_dwell := 90 * second, su_repeat_interval := 3600 * second\<rparr>"
  by (subst subscription_payload_roundtrip [where a = 90 and b = 3600]) (simp_all add: small_subscription_def)


section \<open>Listings\<close>

lemma parse_limit_range: "1 \<le> parse_limit q \<and> parse_limit q \<le> 1000"
  by (auto simp: parse_limit_def split: option.splits)

lemma scan_all_rows: "scan_all scan rows = Inr xs \<Longrightarrow> list_all2 (\<lambda>row x. scan row = Inr x) rows xs"
  unfolding scan_all_def
  by (induction rows arbitrary: xs) (auto simp: res_bind_Inr_iff)

lemma list_all2_source: "list_all2 P xs ys \<Longrightarrow> y \<in> set ys \<Longrightarrow> \<exists>x \<in> set xs. P x y"
  by (induction rule: list_all2_induct) auto

text \<open>The rows of a listing: the newest first, at most a page, of one rule when one is named.\<close>

definition newest_first :: "incident list \<Rightarrow> bool" where
  "newest_first rows \<longleftrightarrow> sorted_wrt (\<lambda>i j. in_triggered_at j \<le> in_triggered_at i) rows"

lemma scan_incident_sel:
  "scan_incident row = Inr i \<Longrightarrow>
   in_triggered_at i = of_unix_milli (ir_triggered_at row) \<and> in_rule_id i = ir_rule_id row"
  by (auto simp: scan_incident_def res_bind_Inr_iff)

lemma scan_sorted:
  assumes "list_all2 (\<lambda>row x. scan_incident row = Inr x) rows xs"
    and "sorted_wrt (\<lambda>a b. ir_triggered_at b \<le> ir_triggered_at a) rows"
  shows "newest_first xs"
  using assms
proof (induction rule: list_all2_induct)
  case (Cons row rows x xs)
  have "in_triggered_at y \<le> in_triggered_at x" if y: "y \<in> set xs" for y
  proof -
    obtain row' where "row' \<in> set rows" "scan_incident row' = Inr y"
      using list_all2_source [OF Cons(2) y] by blast
    then show ?thesis using Cons(1,4) scan_incident_sel
      by (fastforce simp: of_unix_milli_def)
  qed
  then show ?case using Cons by (simp add: newest_first_def)
qed (simp add: newest_first_def)

lemma page_rows:
  assumes "scan_all scan_incident (sql_limit n (sort_key (\<lambda>row. - ir_triggered_at row) table)) = Inr xs"
  shows "length xs \<le> nat n \<and> newest_first xs \<and> (\<forall>i \<in> set xs. in_rule_id i \<in> ir_rule_id ` set table)"
proof -
  let ?rows = "sql_limit n (sort_key (\<lambda>row. - ir_triggered_at row) table)"
  have scanned: "list_all2 (\<lambda>row x. scan_incident row = Inr x) ?rows xs"
    using assms by (rule scan_all_rows)
  have "sorted_wrt (\<lambda>a b. - ir_triggered_at a \<le> - ir_triggered_at b) (sort_key (\<lambda>row. - ir_triggered_at row) table)"
    using sorted_sort_key [of "\<lambda>row. - ir_triggered_at row" table] by (simp add: sorted_map)
  then have "sorted_wrt (\<lambda>a b. ir_triggered_at b \<le> ir_triggered_at a) ?rows"
    unfolding sql_limit_def by (intro sorted_wrt_take) simp
  then have "newest_first xs" using scan_sorted scanned by blast
  moreover have "length xs \<le> nat n"
    using list_all2_lengthD [OF scanned] by (simp add: sql_limit_def)
  moreover have "in_rule_id i \<in> ir_rule_id ` set table" if i: "i \<in> set xs" for i
  proof -
    obtain row where "row \<in> set ?rows" "scan_incident row = Inr i"
      using list_all2_source [OF scanned i] by blast
    then show ?thesis using scan_incident_sel by (force simp: sql_limit_def dest: in_set_takeD)
  qed
  ultimately show ?thesis by blast
qed

lemma incident_calls:
  assumes "(if rid \<noteq> [] then lite_incident_list_for_rule rid n else lite_incident_list n) d = (Inr xs, d')"
  shows "length xs \<le> nat (default_limit n) \<and> newest_first xs \<and> (rid \<noteq> [] \<longrightarrow> (\<forall>i \<in> set xs. in_rule_id i = rid))"
proof -
  let ?table = "if rid \<noteq> [] then filter (\<lambda>row. ir_rule_id row = rid) (t_incidents d) else t_incidents d"
  have "scan_all scan_incident (sql_limit (default_limit n) (sort_key (\<lambda>row. - ir_triggered_at row) ?table)) = Inr xs"
    using assms
    by (auto simp: lite_incident_list_for_rule_def lite_incident_list_def elim!: db_query_cases split: if_splits)
  from page_rows [OF this] show ?thesis by (auto split: if_splits)
qed

text \<open>
  C24: GET /v1/incidents answers with at most \<open>limit\<close> incidents, between 1 and 1000 whatever
  the parameter says, the newest first, and only those of the rule when one is named.
\<close>

theorem incident_listing:
  assumes "list_incidents (sqlite_store lib) env r sv = (Reply 200 (VIncidents rows), sv')"
  shows "length rows \<le> nat (parse_limit (query_get r ''limit'')) \<and> length rows \<le> 1000 \<and> newest_first rows \<and>
    (trim_space (query_get r ''rule_id'') \<noteq> [] \<longrightarrow>
       (\<forall>i \<in> set rows. in_rule_id i = trim_space (query_get r ''rule_id'')))"
proof -
  let ?n = "parse_limit (query_get r ''limit'')" and ?rid = "trim_space (query_get r ''rule_id'')"
  have "(if ?rid \<noteq> [] then lite_incident_list_for_rule ?rid ?n else lite_incident_list ?n) (sv_store sv) =
      (Inr rows, sv_store sv')"
    using assms by (auto simp: list_incidents_def on_call_def with_store_def lite_repo_sel write_error_def Let_def
        split: prod.splits sum.splits if_splits)
  moreover have "default_limit ?n = ?n" "nat ?n \<le> 1000"
    using parse_limit_range [of "query_get r ''limit''"] by (auto simp: default_limit_def)
  ultimately show ?thesis using incident_calls by fastforce
qed

lemma incident_listing_witness:
  "newest_first (case fst (list_incidents (sqlite_store plain_lib) sample_env sample_get
     (sample_server\<lparr>sv_store := aged_db\<rparr>)) of Reply c (VIncidents rows) \<Rightarrow> rows | _ \<Rightarrow> [])"
proof -
  let ?sv = "sample_server\<lparr>sv_store := aged_db\<rparr>"
  have trim: "trim_space [] = []" by (simp add: trim_space_def trim_left_seqs.simps lead_space_def space_seqs_def)
  obtain rows where run: "list_incidents (sqlite_store plain_lib) sample_env sample_get ?sv = (Reply 200 (VIncidents rows), ?sv)"
    by (simp add: list_incidents_def sample_get_def sample_request_def query_get_def trim on_call_def with_store_def
        lite_repo_sel lite_incident_list_def db_query_no_fault aged_db_def empty_db_def scan_all_def sql_limit_def
        parse_limit_def default_limit_def scan_incident_def scan_text_def)
  from incident_listing [OF run] run show ?thesis by simp
qed

text \<open>
  An export without any parameter is answered with at most one hundred incidents: it does
  not export everything in the store.
\<close>

theorem export_is_truncated:
  assumes "export_incidents (sqlite_store lib) env r sv = (Reply 200 body, sv')"
  shows "\<exists>rows. length rows \<le> 100 \<and> newest_first rows \<and> (body = VIncidents rows \<or> body = VCsv (csv_rows env rows))"
proof -
  let ?rid = "trim_space (query_get r ''rule_id'')"
  let ?call = "if ?rid \<noteq> [] then lite_incident_list_for_rule ?rid 0 else lite_incident_list 0"
  let ?f = "to_lower (trim_space (query_get r ''format''))"
  obtain since where run: "on_call 500 (with_store ?call) (\<lambda>rows sv.
      (Reply 200 (if (if ?f = [] then ''json'' else ?f) = ''json''
         then VIncidents (if since = zero_time then rows else filter (\<lambda>i. \<not> in_triggered_at i < since) rows)
         else VCsv (csv_rows env (if since = zero_time then rows else filter (\<lambda>i. \<not> in_triggered_at i < since) rows))),
       sv)) sv = (Reply 200 body, sv')"
    using assms unfolding export_incidents_def lite_repo_sel Let_def on_value_def
    by (cases "parse_since (ae_lib env) (ae_rfc3339 env) (query_get r ''since'') (ae_now env)")
      (auto simp: write_error_def split: if_splits)
  then obtain xs d' where call: "?call (sv_store sv) = (Inr xs, d')"
    and body: "body \<in> {VIncidents (if since = zero_time then xs else filter (\<lambda>i. \<not> in_triggered_at i < since) xs),
      VCsv (csv_rows env (if since = zero_time then xs else filter (\<lambda>i. \<not> in_triggered_at i < since) xs))}"
    by (cases "?call (sv_store sv)"; cases "fst (?call (sv_store sv))")
      (simp_all add: on_call_def with_store_def write_error_def split: if_splits)
  let ?rows = "if since = zero_time then xs else filter (\<lambda>i. \<not> in_triggered_at i < since) xs"
  have "length xs \<le> 100 \<and> newest_first xs"
    using incident_calls [OF call] by (simp add: default_limit_def)
  then have "length ?rows \<le> 100 \<and> newest_first ?rows"
    by (auto simp: newest_first_def sorted_wrt_filter intro: le_trans [OF length_filter_le])
  then show ?thesis using body by blast
qed


lemma export_is_truncated_witness:
  "\<exists>rows. length rows \<le> 100 \<and> export_incidents (sqlite_store plain_lib) sample_env sample_get
     (sample_server\<lparr>sv_store := aged_db\<rparr>) = (Reply 200 (VIncidents rows), sample_server\<lparr>sv_store := aged_db\<rparr>)"
proof -
  let ?sv = "sample_server\<lparr>sv_store := aged_db\<rparr>"
  have trim: "trim_space [] = []" by (simp add: trim_space_def trim_left_seqs.simps lead_space_def space_seqs_def)
  obtain rows where run: "export_incidents (sqlite_store plain_lib) sample_env sample_get ?sv = (Reply 200 (VIncidents rows), ?sv)"
    by (simp add: export_incidents_def sample_get_def sample_request_def query_get_def trim on_call_def with_store_def
        lite_repo_sel lite_incident_list_def db_query_no_fault aged_db_def empty_db_def scan_all_def sql_limit_def
        default_limit_def scan_incident_def scan_text_def to_lower_def on_value_def parse_since_def)
  from export_is_truncated [OF run] run show ?thesis by auto
qed

end
