(* ===== verification/Engine_Props.thy ===== *)
theory Engine_Props
  imports Store_Props
begin

text \<open>
  The engine: the bounded event queue, and the cache of compiled rules after a start and after
  the calls of the rule API.
\<close>

section \<open>The event queue\<close>

text \<open>
  C23: Submission appends to the queue in order, never beyond its capacity of 256: the call
  succeeds exactly when it appended the record, an error leaves the queue as it was, and it
  waits exactly when the queue is full and the context is alive.
\<close>

theorem submit_bounded_fifo:
  assumes "ev_sink i = Some q" and "length q \<le> sink_capacity"
  shows "(event_submit now done prefer ref r i = None \<longleftrightarrow> done = None \<and> length q = sink_capacity) \<and>
    (\<forall>res i'. event_submit now done prefer ref r i = Some (res, i') \<longrightarrow>
       (\<exists>q'. ev_sink i' = Some q' \<and> length q' \<le> sink_capacity \<and>
          q' = (if is_ok res
                then q @ [\<lparr>er_input_ref = (if ref = [] then ev_name i else ref), er_when = now, er_record = r\<rparr>]
                else q)))"
  using assms by (auto simp: event_submit_def Let_def split: option.splits if_splits)

lemma submit_bounded_fifo_witness:
  "event_submit 5 None True [] None (event_start (replicate 256 undefined) (event_new [])) = None"
  using submit_bounded_fifo [of "event_start (replicate 256 undefined) (event_new [])" "replicate 256 undefined"
      5 None True "[]" None]
  by (simp add: event_start_def sink_capacity_def)

section \<open>The cache after a start\<close>

text \<open>What the cache is to hold for a rule: its compiled form, when it is enabled and compiles.\<close>

definition compiled_of :: "golib \<Rightarrow> rule \<Rightarrow> compiled_rule option" where
  "compiled_of lib x =
     (if \<not> r_enabled x then None
      else case r_condition x of
             None \<Rightarrow> None
           | Some c \<Rightarrow> (case compile_condition lib c of
               Inl _ \<Rightarrow> None | Inr k \<Rightarrow> Some \<lparr>cr_rule = x, cr_compiled = Some k\<rparr>))"

lemma compiled_of_id: "compiled_of lib x = Some c \<Longrightarrow> cr_id c = r_id x \<and> cr_rule c = x"
  by (auto simp: compiled_of_def cr_id_def split: if_splits option.splits sum.splits)

lemma compile_and_cache_run:
  assumes "compile_and_cache lib x (s, m) = (res, (s', m'))" and "r_enabled x"
  shows "s' = s \<and> m' = (case compiled_of lib x of None \<Rightarrow> m | Some c \<Rightarrow> cache_set c m) \<and>
    (is_ok res \<longleftrightarrow> compiled_of lib x \<noteq> None)"
  using assms by (auto simp: compile_and_cache_def compiled_of_def split: option.splits sum.splits)

lemma reload_loop:
  assumes "op_for (\<lambda>x. if \<not> r_enabled x then op_return () else op_logged (compile_and_cache lib x)) rules (s, m) =
      (res, (s', m'))"
    and "distinct (map r_id rules)"
  shows "s' = s \<and> (\<forall>i. cache_get i m' =
    (case tbl_find r_id i rules of
       None \<Rightarrow> cache_get i m
     | Some x \<Rightarrow> (case compiled_of lib x of None \<Rightarrow> cache_get i m | Some c \<Rightarrow> Some c)))"
  using assms
proof (induction rules arbitrary: m)
  case Nil
  then show ?case by simp
next
  case (Cons x rules)
  have later: "tbl_find r_id (r_id x) rules = None"
    using Cons.prems(2) by (simp add: tbl_find_None_iff)
  show ?case
  proof (cases "r_enabled x")
    case False
    then have "op_for (\<lambda>x. if \<not> r_enabled x then op_return () else op_logged (compile_and_cache lib x)) rules (s, m) =
      (res, (s', m'))" using Cons.prems(1) by (simp add: op_bind_def)
    from Cons.IH [OF this] Cons.prems(2) False later show ?thesis
      by (auto simp: compiled_of_def)
  next
    case True
    obtain r1 s1 m1 where one: "compile_and_cache lib x (s, m) = (r1, (s1, m1))"
      by (cases "compile_and_cache lib x (s, m)") auto
    note eff = compile_and_cache_run [OF one True]
    have "op_for (\<lambda>x. if \<not> r_enabled x then op_return () else op_logged (compile_and_cache lib x)) rules (s, m1) =
      (res, (s', m'))" using Cons.prems(1) True one eff by (simp add: op_bind_def op_logged_def)
    with Cons.IH Cons.prems(2) have ih: "s' = s" "\<And>i. cache_get i m' =
      (case tbl_find r_id i rules of
         None \<Rightarrow> cache_get i m1
       | Some y \<Rightarrow> (case compiled_of lib y of None \<Rightarrow> cache_get i m1 | Some c \<Rightarrow> Some c))"
      by auto
    have first: "cache_get i m1 = (if i = r_id x then (case compiled_of lib x of None \<Rightarrow> cache_get i m | Some c \<Rightarrow> Some c)
        else cache_get i m)" for i
      using eff by (cases "compiled_of lib x") (auto simp: cache_get_set compiled_of_id)
    show ?thesis
    proof (intro conjI allI)
      show "s' = s" by (rule ih(1))
      fix i
      show "cache_get i m' = (case tbl_find r_id i (x # rules) of
          None \<Rightarrow> cache_get i m
        | Some y \<Rightarrow> (case compiled_of lib y of None \<Rightarrow> cache_get i m | Some c \<Rightarrow> Some c))"
        by (cases "i = r_id x"; cases "tbl_find r_id i rules")
          (auto simp: ih(2) first later split: option.splits)
    qed
  qed
qed

lemma scanned_ids: "scan_all (scan_rule lib) rows = Inr rs \<Longrightarrow> map r_id rs = map rw_id rows"
proof (induction rows arbitrary: rs)
  case (Cons row rows)
  then show ?case by (auto simp: scan_all_def res_bind_Inr_iff scan_rule_def)
qed (simp add: scan_all_def)

text \<open>
  After a start or a restart the cache of compiled rules holds, for every id, exactly the
  compiled form of the rule the database has under it, when that rule is enabled and its
  condition compiles, and nothing else.
\<close>

theorem start_fills_cache:
  assumes "reload_all lib (sqlite_store lib) (d, []) = (Inr u, (d', m))" and "db_wf d"
  shows "\<exists>rules. scan_all (scan_rule lib) (sort_key rw_name (t_rules d)) = Inr rules \<and> same_tables d d' \<and>
    (\<forall>i. cache_get i m = (case tbl_find r_id i rules of None \<Rightarrow> None | Some x \<Rightarrow> compiled_of lib x))"
proof -
  obtain rules d1 where list: "lite_rule_list lib d = (Inr rules, d1)"
    and loop: "op_for (\<lambda>x. if \<not> r_enabled x then op_return () else op_logged (compile_and_cache lib x)) rules (d1, []) =
      (Inr u, (d', m))"
    using assms(1)
    by (auto simp: reload_all_def op_bind_def on_rules_def sqlite_store_def split: prod.splits sum.splits)
  have rules: "scan_all (scan_rule lib) (sort_key rw_name (t_rules d)) = Inr rules"
    using list unfolding lite_rule_list_def by (cases rule: db_query_cases) auto
  have same: "same_tables d d1" using list unfolding lite_rule_list_def by (rule db_query_tables)
  have "distinct (map rw_id (sort_key rw_name (t_rules d)))"
    using assms(2) by (simp add: db_wf_def tbl_unique_def distinct_map)
  then have "distinct (map r_id rules)" using scanned_ids [OF rules] by simp
  from reload_loop [OF loop this] rules same show ?thesis
    by (intro exI [of _ rules]) (auto simp: cache_get_def split: option.splits)
qed

lemma start_fills_cache_witness:
  "\<exists>u d' m. reload_all plain_lib (sqlite_store plain_lib) (empty_db, []) = (Inr u, (d', m)) \<and> cache_get ''r'' m = None"
proof -
  have run: "reload_all plain_lib (sqlite_store plain_lib) (empty_db, []) = (Inr (), (empty_db, []))"
    by (simp add: reload_all_def op_bind_def on_rules_def sqlite_store_def lite_rule_list_def db_query_no_fault
        empty_db_def scan_all_def)
  have "db_wf empty_db" by (simp add: db_wf_def empty_db_def tbl_unique_def)
  from start_fills_cache [OF run this] run show ?thesis by (auto simp: scan_all_def empty_db_def)
qed

section \<open>The cache and the rule API\<close>

text \<open>
  The cache is in step with the database when it holds for every id what a restart would put
  there, up to the order of the labels and the times that the database cuts.
\<close>

definition stored_compiled :: "compiled_rule \<Rightarrow> compiled_rule" where
  "stored_compiled c = c\<lparr>cr_rule := stored_rule (cr_rule c)\<rparr>"

definition wanted :: "golib \<Rightarrow> db \<Rightarrow> string \<Rightarrow> compiled_rule option" where
  "wanted lib d i = (case tbl_find rw_id i (t_rules d) of
       None \<Rightarrow> None
     | Some row \<Rightarrow> (case scan_rule lib row of Inl _ \<Rightarrow> None | Inr x \<Rightarrow> compiled_of lib x))"

definition in_step :: "golib \<Rightarrow> db \<Rightarrow> rule_cache \<Rightarrow> bool" where
  "in_step lib d m \<longleftrightarrow> (\<forall>i. map_option stored_compiled (cache_get i m) = wanted lib d i)"

lemma compiled_of_stored: "compiled_of lib (stored_rule x) = map_option stored_compiled (compiled_of lib x)"
  by (auto simp: compiled_of_def stored_rule_def stored_compiled_def split: option.splits sum.splits)

lemma wanted_same: "same_tables d d' \<Longrightarrow> wanted lib d' i = wanted lib d i"
  by (simp add: wanted_def same_tablesD)

lemma in_step_point:
  assumes "in_step lib d m" and "\<And>j. j \<noteq> i \<Longrightarrow> wanted lib d' j = wanted lib d j \<and> cache_get j m' = cache_get j m"
    and "map_option stored_compiled (cache_get i m') = wanted lib d' i"
  shows "in_step lib d' m'"
  using assms unfolding in_step_def by metis

end
