(* ===== verification/Channels.thy ===== *)
theory Channels
  imports Dispatcher
begin

text \<open>
  internal/channel: the providers behind Send. A provider first builds its call, which can fail
  before anything is sent, and then makes it; each is a \<open>channel_send\<close>, so a dispatcher can be
  given these channels. The HTTP client is a parameter that answers the call made for the n-th
  message. Kinds and severities are ASCII, so upper and lower case are taken byte by byte.
\<close>

section \<open>HTTP calls\<close>

datatype http_body = JsonBody json | FormBody "(string \<times> string) list"

record http_call =
  hc_url :: string
  hc_headers :: "(string \<times> string) list"
  hc_body :: http_body

record http_reply =
  hr_status :: int
  hr_text :: string

text \<open>\<open>he_new_request\<close> is the check of the URL in http.NewRequestWithContext.\<close>

record http_env =
  he_lib :: golib
  he_new_request :: "string \<Rightarrow> unit result"
  he_do :: "nat \<Rightarrow> http_call \<Rightarrow> http_reply result"
  he_rfc3339 :: "time \<Rightarrow> string"

text \<open>
  Header.Set stores the value under the canonical form of the key: the first letter and every
  letter after a hyphen in upper case, the others in lower case; a key with a byte that no
  header name may have stays as it is.
\<close>

definition header_byte :: "char \<Rightarrow> bool" where
  "header_byte c \<longleftrightarrow>
     list_ex (\<lambda>(first, last). first \<le> c \<and> c \<le> last)
       [(CHR ''0'', CHR ''9''), (CHR ''A'', CHR ''Z''), (CHR ''a'', CHR ''z'')] \<or>
     c \<in> set ''!#$%&*+-.^_|~'' \<or> c = CHR 0x27 \<or> c = CHR 0x60"

fun canonical_from :: "bool \<Rightarrow> string \<Rightarrow> string" where
  "canonical_from up [] = []"
| "canonical_from up (c # s) =
     (if up then to_upper [c] else to_lower [c]) @ canonical_from (c = CHR ''-'') s"

definition canonical_header :: "string \<Rightarrow> string" where
  "canonical_header k = (if list_all header_byte k then canonical_from True k else k)"

definition header_set :: "string \<Rightarrow> string \<Rightarrow> (string \<times> string) list \<Rightarrow> (string \<times> string) list" where
  "header_set k v hs = tbl_upsert fst (canonical_header k, v) hs"

definition json_headers :: "(string \<times> string) list" where
  "json_headers = header_set ''Content-Type'' ''application/json'' []"

text \<open>json.Marshal of a map: sorted keys, invalid UTF-8 replaced.\<close>

definition json_map :: "(string \<times> json) list \<Rightarrow> json" where
  "json_map ms = JObj (sort_key fst ms)"

definition json_str :: "http_env \<Rightarrow> string \<Rightarrow> json" where
  "json_str env s = JStr (lib_utf8 (he_lib env) s)"

definition new_request ::
  "http_env \<Rightarrow> string \<Rightarrow> (string \<times> string) list \<Rightarrow> http_body \<Rightarrow> http_call result" where
  "new_request env url hs body =
     res_map (\<lambda>_. \<lparr>hc_url = url, hc_headers = hs, hc_body = body\<rparr>) (he_new_request env url)"

text \<open>Every provider takes exactly the statuses 200 to 299 for success.\<close>

definition do_post ::
  "http_env \<Rightarrow> (go_error \<Rightarrow> go_error) \<Rightarrow> (http_reply \<Rightarrow> string) \<Rightarrow> nat \<Rightarrow> http_call result
   \<Rightarrow> go_error option" where
  "do_post env wrap describe k call =
     (case call of
        Inl e \<Rightarrow> Some e
      | Inr c \<Rightarrow>
          (case he_do env k c of
             Inl e \<Rightarrow> Some (wrap e)
           | Inr rep \<Rightarrow> if hr_status rep div 100 \<noteq> 2 then Some (ErrNew (describe rep)) else None))"

definition status_text :: "string \<Rightarrow> http_reply \<Rightarrow> string" where
  "status_text p rep = p @ '': unexpected status '' @ show_int (hr_status rep)"

text \<open>PagerDuty and SMS add what the reply says, cut to 1024 bytes.\<close>

definition status_body_text :: "string \<Rightarrow> http_reply \<Rightarrow> string" where
  "status_body_text p rep = status_text p rep @ '': '' @ trim_space (take 1024 (hr_text rep))"

definition fallback :: "string \<Rightarrow> string \<Rightarrow> string" where
  "fallback s fb = (if s = '''' then fb else s)"

section \<open>Webhook\<close>

record webhook_config =
  wc_name :: string
  wc_url :: string
  wc_headers :: "(string \<times> string) list"

definition webhook_new :: "webhook_config \<Rightarrow> webhook_config" where
  "webhook_new cfg = cfg\<lparr>wc_name := fallback (wc_name cfg) ''webhook''\<rparr>"

definition webhook_payload :: "http_env \<Rightarrow> channel_notification \<Rightarrow> json" where
  "webhook_payload env n =
     json_map
       [(''incident_id'', json_str env (cn_incident_id n)), (''rule_id'', json_str env (cn_rule_id n)),
        (''rule_name'', json_str env (cn_rule_name n)), (''severity'', json_str env (cn_severity n)),
        (''description'', json_str env (cn_description n)), (''value'', json_str env (cn_value n)),
        (''kind'', json_str env (cn_kind n)), (''now'', JStr (he_rfc3339 env (cn_now n))),
        (''triggered_at'', JStr (he_rfc3339 env (cn_triggered_at n)))]"

definition webhook_call :: "http_env \<Rightarrow> webhook_config \<Rightarrow> channel_notification \<Rightarrow> http_call result" where
  "webhook_call env cfg n =
     (let url = (if cn_address n \<noteq> '''' then cn_address n else wc_url cfg)
      in if url = '''' then Inl (ErrNew ''webhook: no url configured'')
         else new_request env url (fold (\<lambda>(k, v). header_set k v) (wc_headers cfg) json_headers)
                (JsonBody (webhook_payload env n)))"

definition webhook_send :: "http_env \<Rightarrow> webhook_config \<Rightarrow> channel_send" where
  "webhook_send env cfg k n = do_post env (\<lambda>e. e) (status_text ''webhook'') k (webhook_call env cfg n)"

section \<open>Slack\<close>

record hook_config =
  hk_name :: string
  hk_url :: string

definition slack_new :: "hook_config \<Rightarrow> hook_config" where
  "slack_new cfg = cfg\<lparr>hk_name := fallback (hk_name cfg) ''slack''\<rparr>"

definition emoji_for :: "string \<Rightarrow> string" where
  "emoji_for kind =
     (if kind = ''resolved'' then '':white_check_mark:''
      else if kind = ''repeat'' then '':repeat:''
      else '':rotating_light:'')"

definition slack_color :: "string \<Rightarrow> string \<Rightarrow> string" where
  "slack_color severity kind =
     (if kind = ''resolved'' then ''good''
      else if severity = ''critical'' then ''danger''
      else if severity = ''warning'' then ''warning''
      else ''#439FE0'')"

definition escape_char :: "char \<Rightarrow> string" where
  "escape_char c =
     (if c = CHR ''&'' then ''&amp;'' else if c = CHR ''<'' then ''&lt;''
      else if c = CHR ''>'' then ''&gt;'' else [c])"

definition slack_escape :: "string \<Rightarrow> string" where
  "slack_escape s = concat (map escape_char s)"

definition slack_text :: "channel_notification \<Rightarrow> string" where
  "slack_text n =
     emoji_for (cn_kind n) @ '' *['' @ fallback (to_upper (cn_severity n)) ''INFO'' @ '']* '' @
     [CHR 0x60] @ to_upper (cn_kind n) @ [CHR 0x60] @ '' '' @ em_dash @ '' '' @ cn_rule_name n @
     [CHR 10] @ ''>'' @ slack_escape (cn_description n)"

definition slack_payload :: "http_env \<Rightarrow> channel_notification \<Rightarrow> json" where
  "slack_payload env n =
     json_map
       [(''text'', json_str env (slack_text n)),
        (''attachments'', JArr [json_map
          [(''color'', JStr (slack_color (cn_severity n) (cn_kind n))),
           (''fields'', JArr
              [json_map [(''title'', JStr ''Value''), (''value'', json_str env (cn_value n)), (''short'', JBool True)],
               json_map [(''title'', JStr ''Incident''), (''value'', json_str env (cn_incident_id n)), (''short'', JBool True)]]),
           (''ts'', JNum (of_int (cn_now n div second)))]])]"

definition slack_call :: "http_env \<Rightarrow> hook_config \<Rightarrow> channel_notification \<Rightarrow> http_call result" where
  "slack_call env cfg n =
     (let url = (if cn_address n \<noteq> '''' then cn_address n else hk_url cfg)
      in if url = '''' then Inl (ErrNew ''slack: no webhook url configured'')
         else new_request env url json_headers (JsonBody (slack_payload env n)))"

definition slack_send :: "http_env \<Rightarrow> hook_config \<Rightarrow> channel_send" where
  "slack_send env cfg k n = do_post env (\<lambda>e. e) (status_text ''slack'') k (slack_call env cfg n)"

section \<open>Discord and Teams\<close>

text \<open>Both trim the address before they fall back to the channel's URL.\<close>

definition lower_severity :: "channel_notification \<Rightarrow> string" where
  "lower_severity n = fallback (to_lower (trim_space (cn_severity n))) ''info''"

definition title_for :: "channel_notification \<Rightarrow> string" where
  "title_for n =
     ''['' @ to_upper (fallback (cn_kind n) ''firing'') @ ''] '' @ fallback (cn_rule_name n) (cn_rule_id n)"

definition discord_new :: "hook_config \<Rightarrow> hook_config" where
  "discord_new cfg = cfg\<lparr>hk_name := fallback (hk_name cfg) ''discord''\<rparr>"

definition discord_color :: "string \<Rightarrow> string \<Rightarrow> rat" where
  "discord_color severity kind =
     (if kind = ''resolved'' then 0x2EB67D
      else if severity = ''critical'' then 0xE01E5A
      else if severity = ''warning'' then 0xECB22E
      else 0x439FE0)"

definition discord_field :: "http_env \<Rightarrow> string \<Rightarrow> string \<Rightarrow> json" where
  "discord_field env name v = json_map [(''name'', JStr name), (''value'', json_str env v), (''inline'', JBool True)]"

definition discord_payload :: "http_env \<Rightarrow> channel_notification \<Rightarrow> json" where
  "discord_payload env n =
     (let severity = lower_severity n;
          fields =
            [discord_field env ''Rule'' (fallback (cn_rule_name n) (cn_rule_id n)),
             discord_field env ''Severity'' (to_upper severity)] @
            (if cn_value n \<noteq> '''' then [discord_field env ''Value'' (cn_value n)] else []) @
            (if cn_incident_id n \<noteq> '''' then [discord_field env ''Incident'' (cn_incident_id n)] else []);
          embed =
            [(''title'', json_str env (title_for n)), (''color'', JNum (discord_color severity (cn_kind n)))] @
            (if cn_description n \<noteq> '''' then [(''description'', json_str env (cn_description n))] else []) @
            [(''fields'', JArr fields)] @
            (if cn_triggered_at n \<noteq> zero_time
             then [(''timestamp'', JStr (he_rfc3339 env (cn_triggered_at n)))] else [])
      in json_map [(''username'', JStr ''signalwatch''), (''embeds'', JArr [json_map embed])])"

definition discord_call :: "http_env \<Rightarrow> hook_config \<Rightarrow> channel_notification \<Rightarrow> http_call result" where
  "discord_call env cfg n =
     (let url = fallback (trim_space (cn_address n)) (hk_url cfg)
      in if url = '''' then Inl (ErrNew ''discord: no webhook url configured'')
         else new_request env url json_headers (JsonBody (discord_payload env n)))"

definition discord_send :: "http_env \<Rightarrow> hook_config \<Rightarrow> channel_send" where
  "discord_send env cfg k n =
     do_post env (ErrWrap ''discord'') (status_text ''discord'') k (discord_call env cfg n)"

definition teams_new :: "hook_config \<Rightarrow> hook_config" where
  "teams_new cfg = cfg\<lparr>hk_name := fallback (hk_name cfg) ''teams''\<rparr>"

definition teams_color :: "string \<Rightarrow> string \<Rightarrow> string" where
  "teams_color severity kind =
     (if kind = ''resolved'' then ''2EB67D''
      else if severity = ''critical'' then ''E01E5A''
      else if severity = ''warning'' then ''ECB22E''
      else ''439FE0'')"

definition teams_fact :: "http_env \<Rightarrow> string \<Rightarrow> string \<Rightarrow> json" where
  "teams_fact env name v = json_map [(''name'', JStr name), (''value'', json_str env v)]"

definition teams_card :: "http_env \<Rightarrow> channel_notification \<Rightarrow> json" where
  "teams_card env n =
     (let severity = lower_severity n;
          facts =
            [teams_fact env ''Rule'' (fallback (cn_rule_name n) (cn_rule_id n)),
             teams_fact env ''Kind'' (to_upper (fallback (cn_kind n) ''firing'')),
             teams_fact env ''Severity'' (to_upper severity)] @
            (if cn_value n \<noteq> '''' then [teams_fact env ''Value'' (cn_value n)] else []) @
            (if cn_incident_id n \<noteq> '''' then [teams_fact env ''Incident'' (cn_incident_id n)] else []) @
            (if cn_triggered_at n \<noteq> zero_time
             then [teams_fact env ''Triggered'' (he_rfc3339 env (cn_triggered_at n))] else [])
      in json_map
        [(''@type'', JStr ''MessageCard''), (''@context'', JStr ''https://schema.org/extensions''),
         (''summary'', json_str env (title_for n)), (''themeColor'', JStr (teams_color severity (cn_kind n))),
         (''title'', json_str env (title_for n)), (''text'', json_str env (cn_description n)),
         (''sections'', JArr [json_map [(''facts'', JArr facts)]])])"

definition teams_call :: "http_env \<Rightarrow> hook_config \<Rightarrow> channel_notification \<Rightarrow> http_call result" where
  "teams_call env cfg n =
     (let url = fallback (trim_space (cn_address n)) (hk_url cfg)
      in if url = '''' then Inl (ErrNew ''teams: no webhook url configured'')
         else new_request env url json_headers (JsonBody (teams_card env n)))"

definition teams_send :: "http_env \<Rightarrow> hook_config \<Rightarrow> channel_send" where
  "teams_send env cfg k n =
     do_post env (ErrWrap ''teams'') (status_text ''teams'') k (teams_call env cfg n)"

section \<open>PagerDuty\<close>

record pager_config =
  pg_name :: string
  pg_routing_key :: string
  pg_events_url :: string

definition pager_new :: "pager_config \<Rightarrow> pager_config" where
  "pager_new cfg =
     cfg\<lparr>pg_name := fallback (pg_name cfg) ''pagerduty'',
         pg_events_url := fallback (pg_events_url cfg) ''https://events.pagerduty.com/v2/enqueue''\<rparr>"

definition event_action :: "string \<Rightarrow> string" where
  "event_action kind = (if kind = ''resolved'' then ''resolve'' else ''trigger'')"

definition pager_summary :: "channel_notification \<Rightarrow> string" where
  "pager_summary n =
     ''['' @ fallback (to_upper (cn_kind n)) ''FIRING'' @ ''] '' @ fallback (cn_rule_name n) (cn_rule_id n) @
     (if cn_value n \<noteq> '''' then '' '' @ em_dash @ '' '' @ cn_value n else '''')"

definition dedup_key :: "channel_notification \<Rightarrow> string" where
  "dedup_key n = ''signalwatch:'' @ cn_incident_id n"

definition pager_severity :: "channel_notification \<Rightarrow> string" where
  "pager_severity n =
     (let s = lower_severity n in if s \<in> {''warning'', ''info'', ''critical''} then s else ''info'')"

definition pager_details :: "http_env \<Rightarrow> channel_notification \<Rightarrow> json" where
  "pager_details env n =
     json_map
       [(''summary'', json_str env (pager_summary n)),
        (''source'', json_str env (fallback (cn_rule_id n) ''signalwatch'')),
        (''severity'', JStr (pager_severity n)),
        (''timestamp'', JStr (he_rfc3339 env
           (if cn_triggered_at n = zero_time then cn_now n else cn_triggered_at n))),
        (''component'', JStr ''signalwatch-rule''), (''group'', json_str env (cn_rule_id n)),
        (''class'', json_str env (cn_kind n)),
        (''custom_details'', json_map
          [(''rule_id'', json_str env (cn_rule_id n)), (''rule_name'', json_str env (cn_rule_name n)),
           (''incident_id'', json_str env (cn_incident_id n)), (''value'', json_str env (cn_value n)),
           (''description'', json_str env (cn_description n))])]"

definition pager_event :: "http_env \<Rightarrow> string \<Rightarrow> string \<Rightarrow> channel_notification \<Rightarrow> json" where
  "pager_event env key action n =
     json_map
       ([(''routing_key'', json_str env key), (''event_action'', JStr action),
         (''dedup_key'', json_str env (dedup_key n))] @
        (if action = ''trigger'' then [(''payload'', pager_details env n)] else []))"

definition pager_call :: "http_env \<Rightarrow> pager_config \<Rightarrow> channel_notification \<Rightarrow> http_call result" where
  "pager_call env cfg n =
     (let key = fallback (trim_space (cn_address n)) (pg_routing_key cfg)
      in if key = '''' then Inl (ErrNew ''pagerduty: no routing key configured'')
         else new_request env (pg_events_url cfg) json_headers
                (JsonBody (pager_event env key (event_action (cn_kind n)) n)))"

definition pager_send :: "http_env \<Rightarrow> pager_config \<Rightarrow> channel_send" where
  "pager_send env cfg k n =
     do_post env (ErrWrap ''pagerduty'') (status_body_text ''pagerduty'') k (pager_call env cfg n)"

section \<open>SMS\<close>

record sms_config =
  sm_name :: string
  sm_account :: string
  sm_token :: string
  sm_from :: string
  sm_api_base :: string

definition sms_new :: "(string \<Rightarrow> string) \<Rightarrow> sms_config \<Rightarrow> sms_config" where
  "sms_new getenv cfg =
     cfg\<lparr>sm_name := fallback (sm_name cfg) ''sms'',
         sm_account := fallback (sm_account cfg) (getenv ''SIGNALWATCH_TWILIO_ACCOUNT_SID''),
         sm_token := fallback (sm_token cfg) (getenv ''SIGNALWATCH_TWILIO_AUTH_TOKEN''),
         sm_api_base := fallback (sm_api_base cfg) ''https://api.twilio.com/2010-04-01''\<rparr>"

definition sms_max :: nat where "sms_max = 480"

definition sms_parts :: "channel_notification \<Rightarrow> string list" where
  "sms_parts n =
     [''['' @ fallback (to_upper (trim_space (cn_severity n))) ''INFO'' @ ''/'' @
      fallback (to_upper (trim_space (cn_kind n))) ''FIRING'' @ ''] '' @
      fallback (cn_rule_name n) (cn_rule_id n)] @
     (if cn_value n \<noteq> '''' then [cn_value n] else []) @
     (if cn_description n \<noteq> '''' then [cn_description n] else []) @
     (if cn_incident_id n \<noteq> '''' then [''inc:'' @ cn_incident_id n] else [])"

definition sms_body :: "channel_notification \<Rightarrow> string" where
  "sms_body n =
     (let body = str_join ('' '' @ em_dash @ '' '') (sms_parts n)
      in if sms_max < length body then take (sms_max - 3) body @ ellipsis else body)"

text \<open>base64.StdEncoding: the standard alphabet, padded to a multiple of four.\<close>

definition b64_std :: "nat list \<Rightarrow> string" where
  "b64_std bs =
     map (\<lambda>c. if c = CHR ''-'' then CHR ''+'' else if c = CHR ''_'' then CHR ''/'' else c) (b64_encode bs) @
     replicate ((3 - length bs mod 3) mod 3) (CHR ''='')"

definition basic_auth :: "string \<Rightarrow> string \<Rightarrow> string" where
  "basic_auth user pass = b64_std (map of_char (user @ '':'' @ pass))"

definition trim_slashes :: "string \<Rightarrow> string" where
  "trim_slashes s = rev (dropWhile (\<lambda>c. c = CHR ''/'') (rev s))"

definition sms_call :: "http_env \<Rightarrow> sms_config \<Rightarrow> channel_notification \<Rightarrow> http_call result" where
  "sms_call env cfg n =
     (if sm_account cfg = '''' \<or> sm_token cfg = ''''
      then Inl (ErrNew (''sms: AccountSID + AuthToken required (set SIGNALWATCH_TWILIO_ACCOUNT_SID / '' @
             ''SIGNALWATCH_TWILIO_AUTH_TOKEN)''))
      else if trim_space (sm_from cfg) = '''' then Inl (ErrNew ''sms: FromNumber required'')
      else let to = trim_space (cn_address n)
        in if to = '''' then Inl (ErrNew ''sms: subscriber Address (destination phone number) required'')
           else new_request env
             (trim_slashes (sm_api_base cfg) @ ''/Accounts/'' @ sm_account cfg @ ''/Messages.json'')
             (header_set ''Authorization'' (''Basic '' @ basic_auth (sm_account cfg) (sm_token cfg))
               (header_set ''Content-Type'' ''application/x-www-form-urlencoded'' []))
             (FormBody [(''Body'', sms_body n), (''From'', sm_from cfg), (''To'', to)]))"

definition sms_send :: "http_env \<Rightarrow> sms_config \<Rightarrow> channel_send" where
  "sms_send env cfg k n =
     do_post env (ErrWrap ''sms'') (status_body_text ''sms'') k (sms_call env cfg n)"

section \<open>SMTP\<close>

record smtp_config =
  sc_name :: string
  sc_host :: string
  sc_port :: int
  sc_username :: string
  sc_password :: string
  sc_from :: string
  sc_use_tls :: bool

definition smtp_new :: "smtp_config \<Rightarrow> smtp_config" where
  "smtp_new cfg = cfg\<lparr>sc_name := fallback (sc_name cfg) ''smtp''\<rparr>"

definition crlf :: string where "crlf = [CHR 13, CHR 10]"

definition newline :: string where "newline = [CHR 10]"

definition mail_subject :: "channel_notification \<Rightarrow> string" where
  "mail_subject n =
     ''['' @ to_upper (cn_kind n) @ ''] '' @ to_upper (cn_severity n) @ '': '' @ cn_rule_name n"

definition mail_text :: "(time \<Rightarrow> string) \<Rightarrow> channel_notification \<Rightarrow> string" where
  "mail_text fmt n =
     ''Rule:        '' @ cn_rule_name n @ newline @ ''Severity:    '' @ cn_severity n @ newline @
     ''State:       '' @ cn_kind n @ newline @ ''Value:       '' @ cn_value n @ newline @
     ''Incident:    '' @ cn_incident_id n @ newline @ ''Triggered:   '' @ fmt (cn_triggered_at n) @ newline @
     newline @ cn_description n @ newline"

definition mail_message :: "(time \<Rightarrow> string) \<Rightarrow> smtp_config \<Rightarrow> channel_notification \<Rightarrow> string" where
  "mail_message fmt cfg n =
     ''From: '' @ sc_from cfg @ crlf @ ''To: '' @ cn_address n @ crlf @
     ''Subject: '' @ mail_subject n @ crlf @ ''MIME-Version: 1.0'' @ crlf @
     ''Content-Type: text/plain; charset=utf-8'' @ crlf @ crlf @ mail_text fmt n"

text \<open>net.JoinHostPort puts a host with a colon or a percent sign into brackets.\<close>

definition join_host_port :: "string \<Rightarrow> string \<Rightarrow> string" where
  "join_host_port host port =
     (if CHR '':'' \<in> set host \<or> CHR ''%'' \<in> set host then ''['' @ host @ '']:'' @ port
      else host @ '':'' @ port)"

text \<open>
  The calls of sendTLS on the connection, in order; the server answers each of them. Quit comes
  last on every path after the greeting, and its error is dropped.
\<close>

datatype smtp_cmd =
    TlsDial string
  | Greet string
  | AuthPlain string string
  | MailFrom string
  | RcptTo string
  | DataOpen
  | DataWrite string
  | DataClose
  | Quit

definition smtp_do ::
  "(smtp_cmd list \<Rightarrow> smtp_cmd \<Rightarrow> unit result) \<Rightarrow> smtp_cmd \<Rightarrow> (smtp_cmd list, unit) op" where
  "smtp_do server c sent = (server sent c, sent @ [c])"

definition smtp_session ::
  "(smtp_cmd list \<Rightarrow> smtp_cmd \<Rightarrow> unit result) \<Rightarrow> (string \<times> string) option \<Rightarrow> string \<Rightarrow> string list \<Rightarrow> string
   \<Rightarrow> (smtp_cmd list, unit) op" where
  "smtp_session server auth sender rcpts msg =
     op_bind (case auth of None \<Rightarrow> op_return () | Some (u, p) \<Rightarrow> smtp_do server (AuthPlain u p)) (\<lambda>_.
     op_bind (smtp_do server (MailFrom sender)) (\<lambda>_.
     op_bind (op_for (\<lambda>a. smtp_do server (RcptTo a)) rcpts) (\<lambda>_.
     op_bind (smtp_do server DataOpen) (\<lambda>_.
     op_bind (smtp_do server (DataWrite msg)) (\<lambda>_. smtp_do server DataClose)))))"

definition send_tls ::
  "(smtp_cmd list \<Rightarrow> smtp_cmd \<Rightarrow> unit result) \<Rightarrow> string \<Rightarrow> string \<Rightarrow> (string \<times> string) option \<Rightarrow> string
   \<Rightarrow> string list \<Rightarrow> string \<Rightarrow> (smtp_cmd list, unit) op" where
  "send_tls server addr host auth sender rcpts msg =
     op_bind (smtp_do server (TlsDial addr)) (\<lambda>_.
     op_bind (smtp_do server (Greet host)) (\<lambda>_ sent.
       case smtp_session server auth sender rcpts msg sent of (r, sent') \<Rightarrow> (r, sent' @ [Quit])))"

text \<open>
  \<open>send_mail\<close> is net/smtp.SendMail on address, credentials, sender, recipients and message;
  \<open>server\<close> answers the TLS session for the n-th message.
\<close>

definition smtp_send ::
  "(time \<Rightarrow> string) \<Rightarrow> (nat \<Rightarrow> string \<Rightarrow> (string \<times> string) option \<Rightarrow> string \<Rightarrow> string list \<Rightarrow> string \<Rightarrow> unit result)
   \<Rightarrow> (nat \<Rightarrow> smtp_cmd list \<Rightarrow> smtp_cmd \<Rightarrow> unit result) \<Rightarrow> smtp_config \<Rightarrow> channel_send" where
  "smtp_send fmt send_mail server cfg k n =
     (if cn_address n = '''' then Some (ErrNew ''smtp: empty address'')
      else let msg = mail_message fmt cfg n;
               addr = join_host_port (sc_host cfg) (show_int (sc_port cfg));
               auth = (if sc_username cfg \<noteq> '''' then Some (sc_username cfg, sc_password cfg) else None);
               r = (if sc_use_tls cfg
                    then fst (send_tls (server k) addr (sc_host cfg) auth (sc_from cfg) [cn_address n] msg [])
                    else send_mail k addr auth (sc_from cfg) [cn_address n] msg)
        in case r of Inl e \<Rightarrow> Some e | Inr _ \<Rightarrow> None)"

end
