(* ===== verification/Channel_Props.thy ===== *)
theory Channel_Props
  imports Channels Incident_Inv
begin

text \<open>
  What the channel providers promise: when a send counts as successful and where it goes, what
  PagerDuty sees of an incident, and that the texts of Slack, SMS and mail keep their shape.
\<close>

section \<open>Success and destination\<close>

lemma div_hundred: "(s::int) div 100 = 2 \<longleftrightarrow> 200 \<le> s \<and> s \<le> 299"
  by presburger

lemma do_post_None:
  "do_post env wrap describe k call = None \<longleftrightarrow>
   (\<exists>c rep. call = Inr c \<and> he_do env k c = Inr rep \<and> 200 \<le> hr_status rep \<and> hr_status rep \<le> 299)"
  by (auto simp: do_post_def div_hundred split: sum.splits)

definition accepted :: "http_env \<Rightarrow> nat \<Rightarrow> http_call result \<Rightarrow> bool" where
  "accepted env k call \<longleftrightarrow>
     (\<exists>c rep. call = Inr c \<and> he_do env k c = Inr rep \<and> 200 \<le> hr_status rep \<and> hr_status rep \<le> 299)"

text \<open>
  A send over any of the six HTTP channels succeeds exactly when its call could be built
  and was answered with a status from 200 to 299; a transport error, a refused address or any
  other status is an error of the channel.
\<close>

theorem channel_success:
  "(webhook_send env wcfg k n = None \<longleftrightarrow> accepted env k (webhook_call env wcfg n)) \<and>
   (slack_send env hcfg k n = None \<longleftrightarrow> accepted env k (slack_call env hcfg n)) \<and>
   (discord_send env hcfg k n = None \<longleftrightarrow> accepted env k (discord_call env hcfg n)) \<and>
   (teams_send env hcfg k n = None \<longleftrightarrow> accepted env k (teams_call env hcfg n)) \<and>
   (pager_send env pcfg k n = None \<longleftrightarrow> accepted env k (pager_call env pcfg n)) \<and>
   (sms_send env scfg k n = None \<longleftrightarrow> accepted env k (sms_call env scfg n))"
  by (simp add: webhook_send_def slack_send_def discord_send_def teams_send_def pager_send_def
      sms_send_def do_post_None accepted_def)

lemma new_request_Inr:
  "new_request env url hs body = Inr c \<longleftrightarrow>
   is_ok (he_new_request env url) \<and> c = \<lparr>hc_url = url, hc_headers = hs, hc_body = body\<rparr>"
  by (cases "he_new_request env url") (auto simp: new_request_def)

section \<open>PagerDuty\<close>

definition json_field :: "string \<Rightarrow> json \<Rightarrow> json option" where
  "json_field k j = (case j of JObj ms \<Rightarrow> map_of ms k | _ \<Rightarrow> None)"

lemma map_of_sort_key: "distinct (map fst ms) \<Longrightarrow> map_of (sort_key fst ms) = map_of ms"
  by (rule map_of_eqI) (auto simp: distinct_map dest: map_of_SomeD)

lemma json_field_map: "distinct (map fst ms) \<Longrightarrow> json_field k (json_map ms) = map_of ms k"
  by (simp add: json_field_def json_map_def map_of_sort_key)

lemma pager_event_fields:
  "json_field ''dedup_key'' (pager_event env key act n) = Some (json_str env (dedup_key n))"
  "json_field ''event_action'' (pager_event env key act n) = Some (JStr act)"
  by (simp_all add: pager_event_def json_field_map)

text \<open>The events PagerDuty is sent for the messages of a channel, in their order.\<close>

definition pager_json ::
  "http_env \<Rightarrow> pager_config \<Rightarrow> string \<Rightarrow> string \<times> channel_notification \<Rightarrow> json option" where
  "pager_json env cfg ch m =
     (if fst m \<noteq> ch then None
      else case pager_call env cfg (snd m) of
             Inl _ \<Rightarrow> None
           | Inr call \<Rightarrow> (case hc_body call of JsonBody j \<Rightarrow> Some j | FormBody _ \<Rightarrow> None))"

definition pager_events :: "http_env \<Rightarrow> pager_config \<Rightarrow> string \<Rightarrow> 's world \<Rightarrow> json list" where
  "pager_events env cfg ch w = List.map_filter (pager_json env cfg ch) (sent_messages w)"

text \<open>The events with one key: once one of them resolves, all later ones do.\<close>

fun stays_resolved :: "json list \<Rightarrow> bool" where
  "stays_resolved [] \<longleftrightarrow> True"
| "stays_resolved (j # js) \<longleftrightarrow>
     (json_field ''event_action'' j = Some (JStr ''resolve'') \<longrightarrow>
        (\<forall>j' \<in> set js. json_field ''dedup_key'' j' = json_field ''dedup_key'' j \<longrightarrow>
           json_field ''event_action'' j' = Some (JStr ''resolve''))) \<and>
     stays_resolved js"

lemma pager_call_event:
  assumes "pager_call env cfg n = Inr call"
  shows "\<exists>key. hc_body call = JsonBody (pager_event env key (event_action (cn_kind n)) n)"
  using assms by (auto simp: pager_call_def Let_def new_request_Inr split: if_splits)

lemma pager_json_event:
  assumes "pager_json env cfg ch m = Some j"
  shows "\<exists>key. j = pager_event env key (event_action (cn_kind (snd m))) (snd m)"
  using assms pager_call_event [of env cfg "snd m"]
  by (fastforce simp: pager_json_def split: if_splits sum.splits http_body.splits)

lemma event_action_resolve: "event_action kind = ''resolve'' \<longleftrightarrow> kind = kind_resolved"
  by (simp add: event_action_def)

lemma stays_resolved_filter:
  assumes "resolve_final ms" and "\<forall>m \<in> set ms. lib_utf8 (he_lib env) (dedup_key (snd m)) = dedup_key (snd m)"
  shows "stays_resolved (List.map_filter (pager_json env cfg ch) ms)"
  using assms
proof (induction ms)
  case Nil
  then show ?case by (simp add: map_filter_def)
next
  case (Cons m ms)
  have rest: "stays_resolved (List.map_filter (pager_json env cfg ch) ms)" using Cons by simp
  show ?case
  proof (cases "pager_json env cfg ch m")
    case None
    then show ?thesis using rest by (simp add: map_filter_simps)
  next
    case (Some j)
    then obtain key where j: "j = pager_event env key (event_action (cn_kind (snd m))) (snd m)"
      using pager_json_event by blast
    have "json_field ''event_action'' j' = Some (JStr ''resolve'')"
      if res: "json_field ''event_action'' j = Some (JStr ''resolve'')"
        and j': "j' \<in> set (List.map_filter (pager_json env cfg ch) ms)"
        and key: "json_field ''dedup_key'' j' = json_field ''dedup_key'' j" for j'
    proof -
      obtain m' where m': "m' \<in> set ms" "pager_json env cfg ch m' = Some j'"
        using j' by (auto simp: map_filter_def)
      then obtain key' where e': "j' = pager_event env key' (event_action (cn_kind (snd m'))) (snd m')"
        using pager_json_event by blast
      have "dedup_key (snd m') = dedup_key (snd m)"
        using key m'(1) Cons.prems(2) by (simp add: j e' pager_event_fields json_str_def)
      moreover have "cn_kind (snd m) = kind_resolved"
        using res by (simp add: j pager_event_fields event_action_resolve)
      ultimately have "cn_kind (snd m') = kind_resolved"
        using Cons.prems(1) m'(1) by (simp add: dedup_key_def)
      then show ?thesis by (simp add: e' pager_event_fields event_action_resolve)
    qed
    then show ?thesis using rest Some by (simp add: map_filter_simps)
  qed
qed

section \<open>Slack and SMS\<close>

text \<open>The client's reading of an escaped text.\<close>

fun slack_unescape :: "string \<Rightarrow> string" where
  "slack_unescape [] = []"
| "slack_unescape (c # s) =
     (if has_prefix (c # s) ''&amp;'' then CHR ''&'' # slack_unescape (drop 4 s)
      else if has_prefix (c # s) ''&lt;'' then CHR ''<'' # slack_unescape (drop 3 s)
      else if has_prefix (c # s) ''&gt;'' then CHR ''>'' # slack_unescape (drop 3 s)
      else c # slack_unescape s)"

lemma slack_unescape_char: "slack_unescape (escape_char c @ s) = c # slack_unescape s"
  by (auto simp: escape_char_def)

lemma slack_unescape_escape: "slack_unescape (slack_escape s) = s"
  by (induction s) (simp_all add: slack_escape_def slack_unescape_char)

lemma slack_escape_clean: "CHR ''<'' \<notin> set (slack_escape s)" "CHR ''>'' \<notin> set (slack_escape s)"
  by (auto simp: slack_escape_def escape_char_def split: if_splits)

text \<open>Characters below the letters are not touched by ToUpper, and do not come from it.\<close>

lemma to_upper_mem:
  assumes "(of_char d :: nat) < 65"
  shows "d \<in> set (to_upper s) \<longleftrightarrow> d \<in> set s"
proof -
  have "char_of (of_char c - 32 :: nat) \<noteq> d \<and> c \<noteq> d" if "CHR ''a'' \<le> c" "c \<le> CHR ''z''" for c
  proof -
    have range: "(97::nat) \<le> of_char c" "of_char c \<le> (122::nat)"
      using that by (simp_all add: less_eq_char_def)
    then have "(of_char (char_of (of_char c - 32 :: nat) :: char) :: nat) = of_char c - 32" by simp
    moreover have "(of_char d :: nat) < of_char c - 32" using range(1) assms by arith
    ultimately show ?thesis using range(1) assms by auto
  qed
  then show ?thesis by (force simp: to_upper_def)
qed

lemma to_upper_lt: "CHR ''<'' \<in> set (to_upper s) \<longleftrightarrow> CHR ''<'' \<in> set s"
  by (rule to_upper_mem) simp

text \<open>
  The description in a Slack message reads back as it was and holds no markup: a control
  sequence, which starts with an opening angle bracket, can only come from the rule's name,
  and does come from there, since the name is not escaped.
\<close>

theorem slack_markup:
  assumes "CHR ''<'' \<notin> set (cn_severity n)" and "CHR ''<'' \<notin> set (cn_kind n)"
  shows "slack_unescape (slack_escape (cn_description n)) = cn_description n \<and>
    (CHR ''<'' \<in> set (slack_text n) \<longleftrightarrow> CHR ''<'' \<in> set (cn_rule_name n))"
  using assms slack_escape_clean
  by (auto simp: slack_text_def slack_unescape_escape emoji_for_def fallback_def em_dash_def to_upper_lt)

definition sample_note :: channel_notification where
  "sample_note = \<lparr>cn_incident_id = ''i'', cn_rule_id = ''r'', cn_rule_name = ''<!channel>'', cn_severity = ''info'',
     cn_description = ''a < b'', cn_value = ''7'', cn_kind = ''firing'', cn_address = ''x'', cn_now = 0,
     cn_triggered_at = 0\<rparr>"

lemma slack_markup_witness: "CHR ''<'' \<in> set (slack_text sample_note)"
  using slack_markup [of sample_note] by (simp add: sample_note_def)

definition sms_text :: "channel_notification \<Rightarrow> string" where
  "sms_text n = str_join ('' '' @ em_dash @ '' '') (sms_parts n)"

text \<open>
  The text of an SMS never exceeds 480 bytes: it is the joined parts when they fit, and
  otherwise their first 477 bytes and an ellipsis.
\<close>

theorem sms_fits:
  "length (sms_body n) \<le> 480 \<and>
   sms_body n = (if length (sms_text n) \<le> 480 then sms_text n else take 477 (sms_text n) @ ellipsis)"
  by (simp add: sms_body_def sms_text_def Let_def sms_max_def ellipsis_def)

section \<open>Mail\<close>

text \<open>
  The lines of a message as they go over the wire, where a lone line feed ends a line like CR LF
  does (net/textproto adds the CR); the lines up to the first empty one are the headers.
\<close>

fun mail_lines :: "string \<Rightarrow> string \<Rightarrow> string list" where
  "mail_lines w [] = [w]"
| "mail_lines w (c # s) =
     (if c = CHR 10 then w # mail_lines [] s
      else if c = CHR 13 \<and> has_prefix s newline then w # mail_lines [] (drop 1 s)
      else mail_lines (w @ [c]) s)"

definition mail_headers :: "string \<Rightarrow> string list" where
  "mail_headers msg = takeWhile (\<lambda>l. l \<noteq> []) (mail_lines [] msg)"

definition line_safe :: "string \<Rightarrow> bool" where
  "line_safe s \<longleftrightarrow> CHR 10 \<notin> set s \<and> CHR 13 \<notin> set s"

lemma mail_lines_safe: "line_safe s \<Longrightarrow> mail_lines w (s @ t) = mail_lines (w @ s) t"
  by (induction s arbitrary: w) (auto simp: line_safe_def)

lemma mail_lines_end: "mail_lines w (crlf @ t) = w # mail_lines [] t" "mail_lines w (newline @ t) = w # mail_lines [] t"
  by (simp_all add: crlf_def newline_def)

lemma line_safe_Cons [simp]:
  "line_safe []" "line_safe (c # s) \<longleftrightarrow> c \<noteq> CHR 10 \<and> c \<noteq> CHR 13 \<and> line_safe s"
  by (auto simp: line_safe_def)

lemma line_safe_append [simp]: "line_safe (s @ t) \<longleftrightarrow> line_safe s \<and> line_safe t"
  by (auto simp: line_safe_def)

lemma line_safe_upper [simp]: "line_safe (to_upper s) \<longleftrightarrow> line_safe s"
  by (simp add: line_safe_def to_upper_mem)

text \<open>What stands before and after the rule's name in the header block.\<close>

definition subject_start :: "channel_notification \<Rightarrow> string" where
  "subject_start n = ''Subject: ['' @ to_upper (cn_kind n) @ ''] '' @ to_upper (cn_severity n) @ '': ''"

definition mail_tail :: "string list" where
  "mail_tail = [''MIME-Version: 1.0'', ''Content-Type: text/plain; charset=utf-8'']"

lemma mail_message_lines:
  assumes "line_safe (sc_from cfg)" "line_safe (cn_address n)" "line_safe (cn_kind n)" "line_safe (cn_severity n)"
  shows "mail_lines [] (mail_message fmt cfg n) =
    (''From: '' @ sc_from cfg) # (''To: '' @ cn_address n) #
    mail_lines (subject_start n) (cn_rule_name n @ crlf @ ''MIME-Version: 1.0'' @ crlf @
       ''Content-Type: text/plain; charset=utf-8'' @ crlf @ crlf @ mail_text fmt n)"
proof -
  let ?rest = "cn_rule_name n @ crlf @ ''MIME-Version: 1.0'' @ crlf @
       ''Content-Type: text/plain; charset=utf-8'' @ crlf @ crlf @ mail_text fmt n"
  have msg: "mail_message fmt cfg n =
      (''From: '' @ sc_from cfg) @ crlf @ (''To: '' @ cn_address n) @ crlf @ subject_start n @ ?rest"
    by (simp add: mail_message_def mail_subject_def subject_start_def)
  have safe: "line_safe (''From: '' @ sc_from cfg)" "line_safe (''To: '' @ cn_address n)" "line_safe (subject_start n)"
    using assms by (simp_all add: subject_start_def)
  show ?thesis
    unfolding msg by (simp only: mail_lines_safe [OF safe(1)] mail_lines_safe [OF safe(2)]
      mail_lines_safe [OF safe(3)] mail_lines_end append_Nil)
qed

lemma mail_tail_lines:
  "takeWhile (\<lambda>l. l \<noteq> []) (mail_lines [] (''MIME-Version: 1.0'' @ crlf @
     ''Content-Type: text/plain; charset=utf-8'' @ crlf @ crlf @ t)) = mail_tail"
proof -
  have safe: "line_safe ''MIME-Version: 1.0''" "line_safe ''Content-Type: text/plain; charset=utf-8''" by simp_all
  show ?thesis
    by (simp only: mail_lines_safe [OF safe(1)] mail_lines_safe [OF safe(2)] mail_lines_end append_Nil)
      (simp add: mail_tail_def)
qed

text \<open>
  C40: A mail has exactly its five headers when the rule's name is one line. The name goes
  into the subject as it is, so a name with a line feed starts a header of its own choosing
  (here \<open>h\<close>, for instance a Bcc line), which the mail server takes for one of the sender's.
\<close>

theorem mail_header_lines:
  assumes "line_safe (sc_from cfg)" and "line_safe (cn_address n)" and "line_safe (cn_kind n)"
    and "line_safe (cn_severity n)"
  shows "(line_safe (cn_rule_name n) \<longrightarrow>
      mail_headers (mail_message fmt cfg n) =
        [''From: '' @ sc_from cfg, ''To: '' @ cn_address n, subject_start n @ cn_rule_name n] @ mail_tail) \<and>
    (\<forall>a h. cn_rule_name n = a @ newline @ h \<longrightarrow> line_safe a \<longrightarrow> line_safe h \<longrightarrow> h \<noteq> [] \<longrightarrow>
      mail_headers (mail_message fmt cfg n) =
        [''From: '' @ sc_from cfg, ''To: '' @ cn_address n, subject_start n @ a, h] @ mail_tail)"
proof (intro conjI allI impI)
  have ne: "subject_start n \<noteq> []" by (simp add: subject_start_def)
  note start = mail_message_lines [OF assms]
  show "mail_headers (mail_message fmt cfg n) =
        [''From: '' @ sc_from cfg, ''To: '' @ cn_address n, subject_start n @ cn_rule_name n] @ mail_tail"
    if "line_safe (cn_rule_name n)"
    unfolding mail_headers_def start mail_lines_safe [OF that] mail_lines_end
    using ne mail_tail_lines by simp
  show "mail_headers (mail_message fmt cfg n) =
        [''From: '' @ sc_from cfg, ''To: '' @ cn_address n, subject_start n @ a, h] @ mail_tail"
    if "cn_rule_name n = a @ newline @ h" "line_safe a" "line_safe h" "h \<noteq> []" for a h
    unfolding mail_headers_def start that(1) append_assoc mail_lines_safe [OF that(2)] mail_lines_end
      mail_lines_safe [OF that(3)]
    using ne that(4) mail_tail_lines by simp
qed

definition sample_mailer :: smtp_config where
  "sample_mailer = \<lparr>sc_name = ''mail'', sc_host = ''h'', sc_port = 25, sc_username = [], sc_password = [],
     sc_from = ''s'', sc_use_tls = False\<rparr>"

lemma mail_header_lines_witness:
  "''Bcc: x'' \<in> set (mail_headers (mail_message (\<lambda>_. ''t'') sample_mailer
     (sample_note\<lparr>cn_rule_name := ''n'' @ newline @ ''Bcc: x''\<rparr>)))"
proof -
  let ?n = "sample_note\<lparr>cn_rule_name := ''n'' @ newline @ ''Bcc: x''\<rparr>"
  have safe: "line_safe (sc_from sample_mailer)" "line_safe (cn_address ?n)" "line_safe (cn_kind ?n)"
    "line_safe (cn_severity ?n)" "line_safe ''n''" "line_safe ''Bcc: x''"
    by (simp_all add: sample_mailer_def sample_note_def)
  have "cn_rule_name ?n = ''n'' @ newline @ ''Bcc: x''" by simp
  with mail_header_lines [OF safe(1-4)] safe(5,6)
  have "mail_headers (mail_message (\<lambda>_. ''t'') sample_mailer ?n) =
      [''From: '' @ sc_from sample_mailer, ''To: '' @ cn_address ?n, subject_start ?n @ ''n'', ''Bcc: x''] @ mail_tail"
    by blast
  then show ?thesis by simp
qed

end
