(* ===== verification/Streams.thy ===== *)
theory Streams
  imports Api_Codec
begin

text \<open>
  internal/input/stream and internal/input/scrape: the consumers of Kafka, RabbitMQ, Pub/Sub and
  SQS and the HTTP scraper. Each turns a message into a record for the engine's channel. The
  brokers' client libraries are parameters: what a read, an acknowledgement or a deletion
  answers comes with the event. A select between the channel and the context is an \<open>offer\<close>:
  the record went into the channel, or the context was done and won.
\<close>

section \<open>Message bodies\<close>

text \<open>\<open>unmarshal\<close> is json.Unmarshal of the bytes, all of them one JSON value.\<close>

definition parse_message :: "(string \<Rightarrow> json result) \<Rightarrow> string \<Rightarrow> grecord option" where
  "parse_message unmarshal body =
     (if body = [] then None
      else case unmarshal body of
             Inl _ \<Rightarrow> None
           | Inr j \<Rightarrow> (case gval_of_json j of Inr (GMap m) \<Rightarrow> Some m | _ \<Rightarrow> None))"

text \<open>Each of the other inputs has a copy of the function.\<close>

definition rabbit_parse :: "(string \<Rightarrow> json result) \<Rightarrow> string \<Rightarrow> grecord option" where
  "rabbit_parse unmarshal body =
     (if body = [] then None
      else case unmarshal body of
             Inl _ \<Rightarrow> None
           | Inr j \<Rightarrow> (case gval_of_json j of Inr (GMap m) \<Rightarrow> Some m | _ \<Rightarrow> None))"

definition pubsub_parse :: "(string \<Rightarrow> json result) \<Rightarrow> string \<Rightarrow> grecord option" where
  "pubsub_parse unmarshal body =
     (if body = [] then None
      else case unmarshal body of
             Inl _ \<Rightarrow> None
           | Inr j \<Rightarrow> (case gval_of_json j of Inr (GMap m) \<Rightarrow> Some m | _ \<Rightarrow> None))"

definition sqs_parse :: "(string \<Rightarrow> json result) \<Rightarrow> string \<Rightarrow> grecord option" where
  "sqs_parse unmarshal body =
     (if body = [] then None
      else case unmarshal body of
             Inl _ \<Rightarrow> None
           | Inr j \<Rightarrow> (case gval_of_json j of Inr (GMap m) \<Rightarrow> Some m | _ \<Rightarrow> None))"

lemma parse_copies [simp]:
  "rabbit_parse = parse_message" "pubsub_parse = parse_message" "sqs_parse = parse_message"
  by (simp_all add: fun_eq_iff rabbit_parse_def pubsub_parse_def sqs_parse_def parse_message_def)

datatype offer = Taken | Cancelled

text \<open>
  The environment of a consumer: the parser, the clock reading where a message has no time, and
  the records that went into the channel so far are the state \<open>eval_record list\<close>.
\<close>

definition stream_record :: "string \<Rightarrow> time \<Rightarrow> grecord \<Rightarrow> eval_record" where
  "stream_record name t m = \<lparr>er_input_ref = name, er_when = t, er_record = Some m\<rparr>"

definition or_now :: "time \<Rightarrow> time \<Rightarrow> time" where
  "or_now t now = (if t = zero_time then now else t)"

section \<open>Kafka\<close>

record kafka_topic =
  kt_name :: string
  kt_group :: string
  kt_min_bytes :: int
  kt_max_bytes :: int

record kafka_config =
  kc_brokers :: "string list"
  kc_topics :: "kafka_topic list"
  kc_sasl :: "(string \<times> string) option"
  kc_dial_timeout :: duration

definition msk_iam :: string where "msk_iam = ''AWS_MSK_IAM''"

definition kafka_topic_check :: "kafka_topic \<Rightarrow> kafka_topic result" where
  "kafka_topic_check t =
     (if trim_space (kt_name t) = [] then Inl (ErrNew ''kafka input: topic name required'')
      else if trim_space (kt_group t) = []
        then Inl (ErrNew (''kafka input: topic '' @ kt_name t @ '' requires GroupID''))
      else Inr (t\<lparr>kt_min_bytes := (if kt_min_bytes t = 0 then 1 else kt_min_bytes t),
                  kt_max_bytes := (if kt_max_bytes t = 0 then 10 * 2 ^ 20 else kt_max_bytes t)\<rparr>))"

definition kafka_sasl_check :: "(string \<times> string) option \<Rightarrow> unit result" where
  "kafka_sasl_check sasl =
     (case sasl of
        None \<Rightarrow> Inr ()
      | Some (mechanism, region) \<Rightarrow>
          if mechanism \<noteq> msk_iam
          then Inl (ErrNew (''kafka input: unsupported SASL mechanism '' @ mechanism @
                 '' (only AWS_MSK_IAM is supported today)''))
          else if trim_space region = []
          then Inl (ErrNew (''kafka input: SASL mechanism '' @ mechanism @ '' requires Region''))
          else Inr ())"

definition kafka_new :: "kafka_config \<Rightarrow> kafka_config result" where
  "kafka_new cfg =
     (if kc_brokers cfg = [] then Inl (ErrNew ''kafka input: brokers required'')
      else if kc_topics cfg = [] then Inl (ErrNew ''kafka input: at least one topic required'')
      else res_bind (res_list (map kafka_topic_check (kc_topics cfg))) (\<lambda>ts.
           res_map (\<lambda>_. cfg\<lparr>kc_topics := ts,
               kc_dial_timeout := (if kc_dial_timeout cfg \<le> 0 then 10 * second else kc_dial_timeout cfg)\<rparr>)
             (kafka_sasl_check (kc_sasl cfg))))"

record kafka_message =
  km_value :: string
  km_time :: time

text \<open>
  One pass of the loop of runTopic: what ReadMessage answered, the clock and the offer. A reader
  with a group commits the offset of a message before ReadMessage returns it. True means that
  the loop goes on.
\<close>

definition kafka_ends :: "go_error \<Rightarrow> bool" where
  "kafka_ends e \<longleftrightarrow> err_is e CtxCanceled \<or> err_is e CtxDeadlineExceeded \<or> err_is e IoEOF"

definition kafka_step ::
  "(string \<Rightarrow> json result) \<Rightarrow> string \<Rightarrow> kafka_message result \<times> time \<times> offer \<Rightarrow> eval_record list
   \<Rightarrow> bool \<times> eval_record list" where
  "kafka_step unmarshal name ev sink =
     (case ev of (read, now, off) \<Rightarrow>
        (case read of
           Inl e \<Rightarrow> (\<not> kafka_ends e, sink)
         | Inr msg \<Rightarrow>
             (case parse_message unmarshal (km_value msg) of
                None \<Rightarrow> (True, sink)
              | Some m \<Rightarrow>
                  (case off of
                     Taken \<Rightarrow> (True, sink @ [stream_record name (or_now (km_time msg) now) m])
                   | Cancelled \<Rightarrow> (False, sink)))))"

fun kafka_run ::
  "(string \<Rightarrow> json result) \<Rightarrow> string \<Rightarrow> (kafka_message result \<times> time \<times> offer) list \<Rightarrow> eval_record list
   \<Rightarrow> eval_record list" where
  "kafka_run unmarshal name [] sink = sink"
| "kafka_run unmarshal name (ev # evs) sink =
     (case kafka_step unmarshal name ev sink of
        (go, sink') \<Rightarrow> if go then kafka_run unmarshal name evs sink' else sink')"

section \<open>RabbitMQ\<close>

record amqp_queue =
  aq_name :: string
  aq_queue :: string
  aq_consumer :: string
  aq_prefetch :: int

record amqp_config =
  ac_url :: string
  ac_queues :: "amqp_queue list"
  ac_dial_timeout :: duration

definition amqp_queue_check :: "amqp_queue \<Rightarrow> amqp_queue result" where
  "amqp_queue_check q =
     (if trim_space (aq_name q) = [] then Inl (ErrNew ''rabbitmq input: queue name required'')
      else Inr (q\<lparr>aq_queue := (if aq_queue q = [] then aq_name q else aq_queue q),
                  aq_consumer := (if aq_consumer q = [] then ''signalwatch-'' @ aq_name q else aq_consumer q),
                  aq_prefetch := (if aq_prefetch q = 0 then 32 else aq_prefetch q)\<rparr>))"

definition rabbit_new :: "amqp_config \<Rightarrow> amqp_config result" where
  "rabbit_new cfg =
     (if trim_space (ac_url cfg) = [] then Inl (ErrNew ''rabbitmq input: URL required'')
      else if ac_queues cfg = [] then Inl (ErrNew ''rabbitmq input: at least one queue required'')
      else res_map (\<lambda>qs. cfg\<lparr>ac_queues := qs,
               ac_dial_timeout := (if ac_dial_timeout cfg \<le> 0 then 30 * second else ac_dial_timeout cfg)\<rparr>)
             (res_list (map amqp_queue_check (ac_queues cfg))))"

text \<open>What the consumer tells the broker about a message; None is saying nothing.\<close>

datatype settlement = Ack | Reject | Nack | Delete

record stream_message =
  ms_body :: string
  ms_time :: time

definition rabbit_handle ::
  "(string \<Rightarrow> json result) \<Rightarrow> string \<Rightarrow> time \<Rightarrow> offer \<Rightarrow> stream_message \<Rightarrow> eval_record list
   \<Rightarrow> settlement option \<times> eval_record list" where
  "rabbit_handle unmarshal name now off d sink =
     (case rabbit_parse unmarshal (ms_body d) of
        None \<Rightarrow> (Some Reject, sink)
      | Some m \<Rightarrow>
          (case off of
             Taken \<Rightarrow> (Some Ack, sink @ [stream_record name (or_now (ms_time d) now) m])
           | Cancelled \<Rightarrow> (None, sink)))"

section \<open>Pub/Sub\<close>

record pubsub_subscription =
  ps_name :: string
  ps_id :: string

record pubsub_config =
  pc_project :: string
  pc_subscriptions :: "pubsub_subscription list"

definition pubsub_subscription_check :: "pubsub_subscription \<Rightarrow> pubsub_subscription result" where
  "pubsub_subscription_check s =
     (if trim_space (ps_name s) = [] then Inl (ErrNew ''pubsub input: subscription Name required'')
      else Inr (s\<lparr>ps_id := (if ps_id s = [] then ps_name s else ps_id s)\<rparr>))"

definition pubsub_new :: "pubsub_config \<Rightarrow> pubsub_config result" where
  "pubsub_new cfg =
     (if trim_space (pc_project cfg) = [] then Inl (ErrNew ''pubsub input: ProjectID required'')
      else if pc_subscriptions cfg = [] then Inl (ErrNew ''pubsub input: at least one subscription required'')
      else res_map (\<lambda>ss. cfg\<lparr>pc_subscriptions := ss\<rparr>)
             (res_list (map pubsub_subscription_check (pc_subscriptions cfg))))"

definition pubsub_handle ::
  "(string \<Rightarrow> json result) \<Rightarrow> string \<Rightarrow> time \<Rightarrow> offer \<Rightarrow> stream_message \<Rightarrow> eval_record list
   \<Rightarrow> settlement option \<times> eval_record list" where
  "pubsub_handle unmarshal name now off d sink =
     (case pubsub_parse unmarshal (ms_body d) of
        None \<Rightarrow> (Some Nack, sink)
      | Some m \<Rightarrow>
          (case off of
             Taken \<Rightarrow> (Some Ack, sink @ [stream_record name (or_now (ms_time d) now) m])
           | Cancelled \<Rightarrow> (Some Nack, sink)))"

section \<open>SQS\<close>

record sqs_queue =
  sq_name :: string
  sq_url :: string
  sq_wait :: int
  sq_max :: int

definition sqs_queue_check :: "sqs_queue \<Rightarrow> sqs_queue result" where
  "sqs_queue_check q =
     (if trim_space (sq_name q) = [] then Inl (ErrNew ''sqs input: queue name required'')
      else if trim_space (sq_url q) = []
        then Inl (ErrNew (''sqs input: queue '' @ sq_name q @ '' requires URL''))
      else Inr (q\<lparr>sq_wait := (if sq_wait q = 0 then 20 else sq_wait q),
                  sq_max := (if sq_max q = 0 then 10 else sq_max q)\<rparr>))"

text \<open>\<open>client\<close> tells whether a client was given.\<close>

definition sqs_new :: "bool \<Rightarrow> sqs_queue list \<Rightarrow> sqs_queue list result" where
  "sqs_new client queues =
     (if \<not> client then Inl (ErrNew ''sqs input: client required'')
      else if queues = [] then Inl (ErrNew ''sqs input: at least one queue required'')
      else res_list (map sqs_queue_check queues))"

text \<open>
  A message without a body counts as an empty one. SQS stamps the record with the clock. A
  message that cannot be read is left to its visibility timeout.
\<close>

definition sqs_handle ::
  "(string \<Rightarrow> json result) \<Rightarrow> string \<Rightarrow> time \<Rightarrow> offer \<Rightarrow> stream_message \<Rightarrow> eval_record list
   \<Rightarrow> settlement option \<times> eval_record list" where
  "sqs_handle unmarshal name now off d sink =
     (case sqs_parse unmarshal (ms_body d) of
        None \<Rightarrow> (None, sink)
      | Some m \<Rightarrow>
          (case off of
             Taken \<Rightarrow> (Some Delete, sink @ [stream_record name now m])
           | Cancelled \<Rightarrow> (None, sink)))"

text \<open>
  runQueue for SQS: receive a batch, handle its messages in order until the context wins. An
  event is what ReceiveMessage answered with, for each message, its clock reading and offer, or
  the context being done before the call or during the pause after an error.
\<close>

datatype sqs_event =
    SqsDone
  | SqsError go_error bool
  | SqsBatch "(stream_message \<times> time \<times> offer) list"

fun sqs_batch ::
  "(string \<Rightarrow> json result) \<Rightarrow> string \<Rightarrow> (stream_message \<times> time \<times> offer) list \<Rightarrow> eval_record list
   \<Rightarrow> bool \<times> (settlement option) list \<times> eval_record list" where
  "sqs_batch unmarshal name [] sink = (True, [], sink)"
| "sqs_batch unmarshal name ((d, now, off) # ms) sink =
     (case sqs_handle unmarshal name now off d sink of
        (st, sink') \<Rightarrow>
          if sqs_parse unmarshal (ms_body d) \<noteq> None \<and> off = Cancelled then (False, [st], sink')
          else (case sqs_batch unmarshal name ms sink' of (go, sts, sink'') \<Rightarrow> (go, st # sts, sink'')))"

definition sqs_step ::
  "(string \<Rightarrow> json result) \<Rightarrow> string \<Rightarrow> sqs_event \<Rightarrow> eval_record list
   \<Rightarrow> bool \<times> (settlement option) list \<times> eval_record list" where
  "sqs_step unmarshal name ev sink =
     (case ev of
        SqsDone \<Rightarrow> (False, [], sink)
      | SqsError e done \<Rightarrow>
          (\<not> (err_is e CtxCanceled \<or> err_is e CtxDeadlineExceeded) \<and> \<not> done, [], sink)
      | SqsBatch ms \<Rightarrow> sqs_batch unmarshal name ms sink)"

section \<open>Scraping\<close>

record scrape_target =
  sg_name :: string
  sg_url :: string
  sg_interval :: duration
  sg_field :: string

definition scrape_interval :: "scrape_target \<Rightarrow> scrape_target" where
  "scrape_interval t = (if sg_interval t \<le> 0 then t\<lparr>sg_interval := 30 * second\<rparr> else t)"

text \<open>
  \<open>get\<close> is the whole GET: the error of building or making the request, or the status and the
  outcome of reading the body. A JSON null leaves the map empty.
\<close>

definition scrape ::
  "(string \<Rightarrow> json result) \<Rightarrow> golib \<Rightarrow> (string \<Rightarrow> (int \<times> string result) result) \<Rightarrow> scrape_target
   \<Rightarrow> grecord result" where
  "scrape unmarshal lib get t =
     res_bind (get (sg_url t)) (\<lambda>(status, read).
       if status div 100 \<noteq> 2 then Inl (ErrNew (''scrape: status '' @ show_int status))
       else res_bind read (\<lambda>body.
         res_bind (unmarshal body) (\<lambda>j.
           res_bind (json_get_record None j) (\<lambda>raw.
             let field = (if sg_field t = [] then ''value'' else sg_field t)
             in case map_of (case raw of None \<Rightarrow> [] | Some m \<Rightarrow> m) field of
                  None \<Rightarrow> Inl (ErrNew (''scrape: field '' @ lib_quote lib field @ '' missing''))
                | Some v \<Rightarrow> Inr [(''value'', v), (''source'', GStr (sg_name t))]))))"

text \<open>One tick of a target; True means that the loop goes on.\<close>

definition scrape_tick ::
  "(string \<Rightarrow> json result) \<Rightarrow> golib \<Rightarrow> (string \<Rightarrow> (int \<times> string result) result) \<Rightarrow> scrape_target
   \<Rightarrow> time \<Rightarrow> offer \<Rightarrow> eval_record list \<Rightarrow> bool \<times> eval_record list" where
  "scrape_tick unmarshal lib get t now off sink =
     (case scrape unmarshal lib get t of
        Inl _ \<Rightarrow> (True, sink)
      | Inr m \<Rightarrow>
          (case off of
             Taken \<Rightarrow> (True, sink @ [stream_record (sg_name t) now m])
           | Cancelled \<Rightarrow> (False, sink)))"

end
