(* ===== verification/Stream_Props.thy ===== *)
theory Stream_Props
  imports Streams Rule_Props "HOL-Library.Multiset"
begin

text \<open>
  What the consumers promise about the messages of a broker. The broker keeps a message until
  it is told to let go of it, and may deliver any message it has, at any time and repeatedly;
  what it is told may get lost.
\<close>

section \<open>A broker that redelivers\<close>

fun releases :: "settlement \<Rightarrow> bool" where
  "releases Ack = True"
| "releases Reject = True"
| "releases Delete = True"
| "releases Nack = False"

text \<open>
  \<open>Deliver i now off heard\<close>: the message at position i is delivered, the consumer's clock and
  the offer, and whether the broker hears the settlement.
\<close>

datatype broker_event = Publish stream_message | Deliver nat time offer bool

type_synonym handler_fn =
  "(string \<Rightarrow> json result) \<Rightarrow> string \<Rightarrow> time \<Rightarrow> offer \<Rightarrow> stream_message \<Rightarrow> eval_record list
   \<Rightarrow> settlement option \<times> eval_record list"

definition drop_nth :: "nat \<Rightarrow> 'a list \<Rightarrow> 'a list" where
  "drop_nth i xs = take i xs @ drop (Suc i) xs"

fun broker_step ::
  "handler_fn \<Rightarrow> (string \<Rightarrow> json result) \<Rightarrow> string \<Rightarrow> broker_event \<Rightarrow> stream_message list \<times> eval_record list
   \<Rightarrow> stream_message list \<times> eval_record list" where
  "broker_step h u name (Publish d) (queue, sink) = (queue @ [d], sink)"
| "broker_step h u name (Deliver i now off heard) (queue, sink) =
     (if i < length queue
      then (case h u name now off (queue ! i) sink of
              (st, sink') \<Rightarrow>
                ((case st of None \<Rightarrow> queue
                  | Some x \<Rightarrow> if heard \<and> releases x then drop_nth i queue else queue), sink'))
      else (queue, sink))"

definition broker_run ::
  "handler_fn \<Rightarrow> (string \<Rightarrow> json result) \<Rightarrow> string \<Rightarrow> broker_event list \<Rightarrow> stream_message list \<times> eval_record list" where
  "broker_run h u name evs = fold (broker_step h u name) evs ([], [])"

definition published :: "broker_event list \<Rightarrow> stream_message list" where
  "published evs = List.map_filter (\<lambda>ev. case ev of Publish d \<Rightarrow> Some d | _ \<Rightarrow> None) evs"

text \<open>The records the messages hold, with their multiplicities.\<close>

definition records :: "(string \<Rightarrow> json result) \<Rightarrow> stream_message list \<Rightarrow> grecord multiset" where
  "records u ds = mset (List.map_filter (\<lambda>d. parse_message u (ms_body d)) ds)"

definition handed_over :: "eval_record list \<Rightarrow> grecord multiset" where
  "handed_over sink = mset (List.map_filter er_record sink)"

lemma map_filter_append: "List.map_filter f (xs @ ys) = List.map_filter f xs @ List.map_filter f ys"
  by (simp add: map_filter_def)

lemma records_simps [simp]:
  "records u [] = {#}"
  "records u (d # ds) = (case parse_message u (ms_body d) of None \<Rightarrow> records u ds | Some m \<Rightarrow> add_mset m (records u ds))"
  "records u (ds @ es) = records u ds + records u es"
  by (simp_all add: records_def map_filter_simps map_filter_append split: option.split)

lemma records_drop_nth:
  assumes "i < length ds"
  shows "records u ds = records u (drop_nth i ds) + records u [ds ! i]"
proof -
  have "records u ds = records u (take i ds @ ds ! i # drop (Suc i) ds)"
    by (simp only: id_take_nth_drop [OF assms, symmetric])
  also have "\<dots> = records u (drop_nth i ds) + records u [ds ! i]"
    by (simp add: drop_nth_def split: option.split)
  finally show ?thesis .
qed

lemma handed_over_snoc [simp]:
  "handed_over [] = {#}"
  "handed_over (sink @ [stream_record name t m]) = add_mset m (handed_over sink)"
  by (simp_all add: handed_over_def map_filter_append map_filter_simps stream_record_def)

section \<open>Consumers that settle after handing over\<close>

locale settling =
  fixes h :: handler_fn
  assumes outcome: "h u name now off d sink = (st, sink') \<Longrightarrow>
      (\<exists>t m. parse_message u (ms_body d) = Some m \<and> off = Taken \<and> sink' = sink @ [stream_record name t m]) \<or>
      sink' = sink \<and> (off = Cancelled \<or> parse_message u (ms_body d) = None) \<and>
        (\<forall>x. st = Some x \<longrightarrow> releases x \<longrightarrow> parse_message u (ms_body d) = None)"
begin

lemma keeps_records:
  assumes "broker_step h u name ev (queue, sink) = (queue', sink')"
    and "records u ds \<subseteq># records u queue + handed_over sink"
  shows "records u (ds @ published [ev]) \<subseteq># records u queue' + handed_over sink'"
proof (cases ev)
  case (Publish d)
  then show ?thesis using assms by (auto simp: published_def map_filter_def split: option.splits)
next
  case (Deliver i now off heard)
  have none: "published [ev] = []" by (simp add: Deliver published_def map_filter_def)
  show ?thesis
  proof (cases "i < length queue")
    case False
    then show ?thesis using assms Deliver none by simp
  next
    case True
    obtain st where call: "h u name now off (queue ! i) sink = (st, sink')"
      using assms(1) True Deliver by (cases "h u name now off (queue ! i) sink") auto
    have queue': "queue' = queue \<or> queue' = drop_nth i queue \<and> (\<exists>x. st = Some x \<and> releases x)"
      using assms(1) True Deliver call by (auto split: option.splits if_splits)
    show ?thesis
    proof (cases "queue' = queue")
      case True
      then show ?thesis
        using outcome [OF call] assms(2) none by (auto intro: subset_mset.order_trans)
    next
      case False
      then have dropped: "queue' = drop_nth i queue" "\<exists>x. st = Some x \<and> releases x" using queue' by auto
      have "records u queue + handed_over sink \<subseteq># records u queue' + handed_over sink'"
        using outcome [OF call] dropped by (auto simp: records_drop_nth [OF \<open>i < length queue\<close>, of u])
      then show ?thesis using assms(2) none subset_mset.order_trans by auto
    qed
  qed
qed

lemma broker_run_snoc: "broker_run h u name (evs @ [ev]) = broker_step h u name ev (broker_run h u name evs)"
  by (simp add: broker_run_def)

lemma published_append: "published (evs @ evs') = published evs @ published evs'"
  by (simp add: published_def map_filter_append)

lemma loses_nothing:
  "broker_run h u name evs = (queue, sink) \<Longrightarrow> records u (published evs) \<subseteq># records u queue + handed_over sink"
proof (induction evs arbitrary: queue sink rule: rev_induct)
  case Nil
  then show ?case by (simp add: published_def map_filter_simps)
next
  case (snoc ev evs)
  obtain q s where before: "broker_run h u name evs = (q, s)" by (cases "broker_run h u name evs")
  have step: "broker_step h u name ev (q, s) = (queue, sink)"
    using snoc.prems before by (simp add: broker_run_snoc)
  show ?case using keeps_records [OF step snoc.IH [OF before]] by (simp add: published_append)
qed

lemma queue_published:
  "broker_run h u name evs = (queue, sink) \<Longrightarrow> set queue \<subseteq> set (published evs)"
proof (induction evs arbitrary: queue sink rule: rev_induct)
  case Nil
  then show ?case by (simp add: broker_run_def)
next
  case (snoc ev evs)
  obtain q s where before: "broker_run h u name evs = (q, s)" by (cases "broker_run h u name evs")
  have step: "broker_step h u name ev (q, s) = (queue, sink)"
    using snoc.prems before by (simp add: broker_run_snoc)
  have "set queue \<subseteq> set q \<union> set (published [ev])"
    using step by (cases ev) (auto simp: published_def map_filter_simps drop_nth_def
        split: if_splits prod.splits option.splits dest: in_set_takeD in_set_dropD)
  then show ?case using snoc.IH [OF before] by (auto simp: published_append)
qed

lemma invents_nothing:
  "broker_run h u name evs = (queue, sink) \<Longrightarrow> r \<in> set sink \<Longrightarrow>
   er_input_ref r = name \<and> (\<exists>d \<in> set (published evs). er_record r = parse_message u (ms_body d))"
proof (induction evs arbitrary: queue sink rule: rev_induct)
  case Nil
  then show ?case by (simp add: broker_run_def)
next
  case (snoc ev evs)
  obtain q s where before: "broker_run h u name evs = (q, s)" by (cases "broker_run h u name evs")
  have step: "broker_step h u name ev (q, s) = (queue, sink)"
    using snoc.prems before by (simp add: broker_run_snoc)
  show ?case
  proof (cases "r \<in> set s")
    case True
    then show ?thesis using snoc.IH [OF before] by (auto simp: published_append)
  next
    case False
    then obtain i now off heard where ev: "ev = Deliver i now off heard" "i < length q"
      using step snoc.prems(2) by (cases ev) (auto split: if_splits)
    obtain st where call: "h u name now off (q ! i) s = (st, sink)"
      using step ev by (cases "h u name now off (q ! i) s") auto
    obtain t m where new: "parse_message u (ms_body (q ! i)) = Some m" "r = stream_record name t m"
      using outcome [OF call] False snoc.prems(2) by auto
    have "q ! i \<in> set (published evs)" using queue_published [OF before] ev(2) by auto
    then have "\<exists>d \<in> set (published (evs @ [ev])). Some m = parse_message u (ms_body d)"
      using new(1) by (metis UnI1 published_append set_append)
    then show ?thesis by (simp add: new(2) stream_record_def)
  qed
qed

lemma consumed:
  "broker_run h u name evs = (queue, sink) \<Longrightarrow>
   records u (published evs) \<subseteq># records u queue + handed_over sink \<and>
   (\<forall>r \<in> set sink. er_input_ref r = name \<and> (\<exists>d \<in> set (published evs). er_record r = parse_message u (ms_body d)))"
  using loses_nothing invents_nothing by simp

end

text \<open>The three consumers that acknowledge, with the laws discharged by their code.\<close>

interpretation rabbit: settling rabbit_handle
  by unfold_locales (auto simp: rabbit_handle_def split: option.splits offer.splits)

interpretation pubsub: settling pubsub_handle
  by unfold_locales (auto simp: pubsub_handle_def split: option.splits offer.splits)

interpretation sqs: settling sqs_handle
  by unfold_locales (auto simp: sqs_handle_def split: option.splits offer.splits)

text \<open>
  C27: RabbitMQ, Pub/Sub and SQS are consumed at least once. Whatever the broker delivers, in
  whatever order and how often, whichever settlements get lost and whenever the consumer is
  stopped: every published message that holds a record is still with the broker or its record
  was handed to the engine, counted with multiplicity; and every record handed over is the one
  of a published message, under the name of the input.
\<close>

theorem at_least_once:
  assumes "h \<in> {rabbit_handle, pubsub_handle, sqs_handle}"
    and "broker_run h unmarshal name evs = (queue, sink)"
  shows "records unmarshal (published evs) \<subseteq># records unmarshal queue + handed_over sink \<and>
    (\<forall>r \<in> set sink. er_input_ref r = name \<and>
       (\<exists>d \<in> set (published evs). er_record r = parse_message unmarshal (ms_body d)))"
  using assms(1)
proof (elim insertE emptyE)
  show ?thesis if "h = rabbit_handle" using rabbit.consumed assms(2) unfolding that by blast
  show ?thesis if "h = pubsub_handle" using pubsub.consumed assms(2) unfolding that by blast
  show ?thesis if "h = sqs_handle" using sqs.consumed assms(2) unfolding that by blast
qed

definition plain_unmarshal :: "string \<Rightarrow> json result" where
  "plain_unmarshal body =
     (if body = ''{}'' then Inr (JObj [])
      else if body = ''{x}'' then Inr (JObj [(''x'', JBool True)])
      else Inl (ErrNew ''invalid character''))"

definition sample_messages :: "broker_event list" where
  "sample_messages =
     [Publish \<lparr>ms_body = ''{x}'', ms_time = 3\<rparr>, Publish \<lparr>ms_body = ''none'', ms_time = 4\<rparr>,
      Deliver 0 9 Taken False, Deliver 0 9 Cancelled True, Deliver 1 9 Taken True, Deliver 0 9 Taken True]"

lemma sample_run:
  "broker_run rabbit_handle plain_unmarshal ''q'' sample_messages =
   ([], [stream_record ''q'' 3 [(''x'', GBool True)], stream_record ''q'' 3 [(''x'', GBool True)]])"
  by (simp add: broker_run_def sample_messages_def rabbit_handle_def parse_message_def plain_unmarshal_def
      drop_nth_def or_now_def zero_time_def tbl_upsert_def)

lemma at_least_once_witness:
  "records plain_unmarshal (published sample_messages) \<subseteq>#
   handed_over (snd (broker_run rabbit_handle plain_unmarshal ''q'' sample_messages))"
  using at_least_once [of rabbit_handle, OF _ sample_run] by (simp add: sample_run)

text \<open>
  A message that holds no record never reaches the engine. RabbitMQ is told to drop it;
  Pub/Sub and SQS keep it, and deliver it again, for as long as the queue keeps it.
\<close>

theorem unreadable_messages:
  assumes "i < length queue" and "parse_message unmarshal (ms_body (queue ! i)) = None"
  shows "broker_step rabbit_handle unmarshal name (Deliver i now off heard) (queue, sink) =
      (if heard then drop_nth i queue else queue, sink) \<and>
    broker_step pubsub_handle unmarshal name (Deliver i now off heard) (queue, sink) = (queue, sink) \<and>
    broker_step sqs_handle unmarshal name (Deliver i now off heard) (queue, sink) = (queue, sink)"
  using assms by (simp add: rabbit_handle_def pubsub_handle_def sqs_handle_def)

lemma unreadable_messages_witness:
  "broker_step sqs_handle plain_unmarshal ''q'' (Deliver 0 9 Taken True) ([\<lparr>ms_body = ''no'', ms_time = 4\<rparr>], []) =
   ([\<lparr>ms_body = ''no'', ms_time = 4\<rparr>], [])"
  using unreadable_messages [of 0 "[\<lparr>ms_body = ''no'', ms_time = 4\<rparr>]" plain_unmarshal "''q''" 9 Taken True "[]"]
  by (simp add: parse_message_def plain_unmarshal_def)

section \<open>Kafka\<close>

text \<open>The record an event of the Kafka loop holds, and whether the loop ends with it.\<close>

fun kafka_record ::
  "(string \<Rightarrow> json result) \<Rightarrow> string \<Rightarrow> kafka_message result \<times> time \<times> offer \<Rightarrow> eval_record option" where
  "kafka_record u name (Inl e, now, off) = None"
| "kafka_record u name (Inr msg, now, off) =
     map_option (stream_record name (or_now (km_time msg) now)) (parse_message u (km_value msg))"

definition kafka_last ::
  "(string \<Rightarrow> json result) \<Rightarrow> string \<Rightarrow> kafka_message result \<times> time \<times> offer \<Rightarrow> bool" where
  "kafka_last u name ev \<longleftrightarrow>
     (case fst ev of
        Inl e \<Rightarrow> kafka_ends e
      | Inr _ \<Rightarrow> kafka_record u name ev \<noteq> None \<and> snd (snd ev) = Cancelled)"

lemma kafka_step_eq:
  "kafka_step u name ev sink =
   (\<not> kafka_last u name ev,
    sink @ (if kafka_last u name ev then [] else case kafka_record u name ev of None \<Rightarrow> [] | Some r \<Rightarrow> [r]))"
proof -
  obtain read now off where ev: "ev = (read, now, off)" by (cases ev) auto
  show ?thesis
    by (cases read; cases off) (auto simp: ev kafka_step_def kafka_last_def split: option.splits)
qed

lemma kafka_run_eq:
  "kafka_run u name evs sink =
   sink @ List.map_filter (kafka_record u name) (takeWhile (\<lambda>ev. \<not> kafka_last u name ev) evs)"
  by (induction evs arbitrary: sink)
    (auto simp: kafka_step_eq map_filter_simps split: option.splits)

text \<open>
  C28: Kafka is consumed at most once. The engine gets exactly the records of the messages read
  before the loop ended, in their order and each once; the message that was read when the
  context ended is committed but not handed over, and that is the only one that can be lost.
\<close>

theorem kafka_at_most_once:
  "\<exists>k \<le> length evs.
     kafka_run unmarshal name evs [] = List.map_filter (kafka_record unmarshal name) (take k evs) \<and>
     (\<forall>ev \<in> set (take k evs). \<not> kafka_last unmarshal name ev) \<and>
     (k < length evs \<longrightarrow> kafka_last unmarshal name (evs ! k) \<and>
        (\<forall>msg. fst (evs ! k) = Inr msg \<longrightarrow> snd (snd (evs ! k)) = Cancelled))"
proof -
  let ?P = "\<lambda>ev. \<not> kafka_last unmarshal name ev"
  define k where "k = length (takeWhile ?P evs)"
  have take: "takeWhile ?P evs = take k evs" unfolding k_def by (rule takeWhile_eq_take)
  have last: "kafka_last unmarshal name (evs ! k)" if "k < length evs"
    using nth_length_takeWhile [of ?P evs] that by (simp add: k_def)
  have "snd (snd (evs ! k)) = Cancelled" if "k < length evs" "fst (evs ! k) = Inr msg" for msg
    using last [OF that(1)] that(2) by (simp add: kafka_last_def)
  moreover have "\<forall>ev \<in> set (take k evs). ?P ev"
    unfolding take [symmetric] by (blast dest: set_takeWhileD)
  moreover have "k \<le> length evs" by (simp add: k_def length_takeWhile_le)
  moreover have "kafka_run unmarshal name evs [] = List.map_filter (kafka_record unmarshal name) (take k evs)"
    by (simp add: kafka_run_eq take)
  ultimately show ?thesis using last by blast
qed

definition sample_reads :: "(kafka_message result \<times> time \<times> offer) list" where
  "sample_reads = [(Inr \<lparr>km_value = ''{x}'', km_time = 3\<rparr>, 9, Cancelled)]"

lemma kafka_at_most_once_witness:
  "kafka_run plain_unmarshal ''q'' sample_reads [] = [] \<and>
   (\<exists>k \<le> length sample_reads.
     kafka_run plain_unmarshal ''q'' sample_reads [] =
       List.map_filter (kafka_record plain_unmarshal ''q'') (take k sample_reads) \<and>
     (\<forall>ev \<in> set (take k sample_reads). \<not> kafka_last plain_unmarshal ''q'' ev) \<and>
     (k < length sample_reads \<longrightarrow> kafka_last plain_unmarshal ''q'' (sample_reads ! k) \<and>
        (\<forall>msg. fst (sample_reads ! k) = Inr msg \<longrightarrow> snd (snd (sample_reads ! k)) = Cancelled)))"
  by (intro conjI kafka_at_most_once)
    (simp add: sample_reads_def kafka_step_def parse_message_def plain_unmarshal_def tbl_upsert_def)

section \<open>One meaning of a record\<close>

lemma json_get_record_object:
  "json_get_record None j = Inr (Some m) \<longleftrightarrow> gval_of_json j = Inr (GMap m)"
proof (cases j)
  case (JObj ms)
  then show ?thesis by (cases "gval_members_of_json [] ms") auto
next
  case (JNum q)
  then show ?thesis by (cases "json_get_float (Fin 0) (JNum q)") auto
next
  case (JArr js)
  then show ?thesis by (cases "gval_list_of_json js") auto
qed auto

text \<open>
  The same JSON object is the same record whichever way it comes: in the body of
  POST /v1/events or in a message of any stream; and what is no object is a record in neither.
\<close>

theorem one_record_meaning:
  assumes "unmarshal body = Inr j" and "body \<noteq> []"
  shows "parse_message unmarshal body = Some m \<longleftrightarrow>
    decode_json event_member \<lparr>ep_input_ref = [], ep_record = None\<rparr>
      (Inr (JObj [(''input_ref'', JStr ref), (''record'', j)])) =
    Inr \<lparr>ep_input_ref = ref, ep_record = Some m\<rparr>"
proof -
  have "parse_message unmarshal body = Some m \<longleftrightarrow> json_get_record None j = Inr (Some m)"
    using assms json_get_record_object [of j m]
    by (auto simp: parse_message_def split: sum.splits gval.splits)
  also have "\<dots> \<longleftrightarrow> decode_json event_member \<lparr>ep_input_ref = [], ep_record = None\<rparr>
      (Inr (JObj [(''input_ref'', JStr ref), (''record'', j)])) =
    Inr \<lparr>ep_input_ref = ref, ep_record = Some m\<rparr>"
    by (cases "json_get_record None j")
      (auto simp: decode_json_def json_struct_def event_member_def to_lower_def)
  finally show ?thesis .
qed

section \<open>Scraping\<close>

lemma scrape_Inr:
  "scrape unmarshal lib get t = Inr rec \<longleftrightarrow>
   (\<exists>status body j raw v. get (sg_url t) = Inr (status, Inr body) \<and> 200 \<le> status \<and> status \<le> 299 \<and>
      unmarshal body = Inr j \<and> json_get_record None j = Inr (Some raw) \<and>
      map_of raw (if sg_field t = [] then ''value'' else sg_field t) = Some v \<and>
      rec = [(''value'', v), (''source'', GStr (sg_name t))])"
proof -
  have hundred: "(status::int) div 100 = 2 \<longleftrightarrow> 200 \<le> status \<and> status \<le> 299" for status by presburger
  show ?thesis
  proof
    assume "scrape unmarshal lib get t = Inr rec"
    then show "\<exists>status body j raw v. get (sg_url t) = Inr (status, Inr body) \<and> 200 \<le> status \<and> status \<le> 299 \<and>
      unmarshal body = Inr j \<and> json_get_record None j = Inr (Some raw) \<and>
      map_of raw (if sg_field t = [] then ''value'' else sg_field t) = Some v \<and>
      rec = [(''value'', v), (''source'', GStr (sg_name t))]"
      by (auto simp: scrape_def res_bind_Inr_iff Let_def hundred split: if_splits option.splits)
  next
    assume "\<exists>status body j raw v. get (sg_url t) = Inr (status, Inr body) \<and> 200 \<le> status \<and> status \<le> 299 \<and>
      unmarshal body = Inr j \<and> json_get_record None j = Inr (Some raw) \<and>
      map_of raw (if sg_field t = [] then ''value'' else sg_field t) = Some v \<and>
      rec = [(''value'', v), (''source'', GStr (sg_name t))]"
    then show "scrape unmarshal lib get t = Inr rec"
      by (elim exE conjE) (simp add: scrape_def hundred)
  qed
qed

text \<open>
  A tick of a scrape target hands over a record exactly when the answer has a status from
  200 to 299 and is a JSON object with the field (\<open>value\<close> when none is configured), and the record
  is that value, whatever its type, with the target's name; every failure skips the tick.
\<close>

theorem scrape_hands_over:
  "(\<exists>go r. scrape_tick unmarshal lib get t now Taken sink = (go, sink @ [r]) \<and> er_record r = Some rec) \<longleftrightarrow>
   (\<exists>status body j raw v. get (sg_url t) = Inr (status, Inr body) \<and> 200 \<le> status \<and> status \<le> 299 \<and>
      unmarshal body = Inr j \<and> json_get_record None j = Inr (Some raw) \<and>
      map_of raw (if sg_field t = [] then ''value'' else sg_field t) = Some v \<and>
      rec = [(''value'', v), (''source'', GStr (sg_name t))])"
proof (cases "scrape unmarshal lib get t")
  case (Inl e)
  then show ?thesis using scrape_Inr [of unmarshal lib get t rec] by (auto simp: scrape_tick_def)
next
  case (Inr m)
  then show ?thesis
    using scrape_Inr [of unmarshal lib get t rec] by (auto simp: scrape_tick_def stream_record_def)
qed

end
