(* ===== verification/Stream_Runs.thy ===== *)
theory Stream_Runs
  imports Stream_Props
begin

text \<open>
  Start of the stream inputs: one loop per topic, queue or subscription, on one channel, until
  all of them have ended. What the loops meet is a schedule: a list of events, each for one of
  the loops, in the order in which they happen. An event for a loop that has ended does nothing.
\<close>

section \<open>Fan-out\<close>

text \<open>A pass of loop \<open>j\<close>: whether it goes on, what it told the broker, and the channel.\<close>

type_synonym 'ev pass = "nat \<Rightarrow> 'ev \<Rightarrow> eval_record list \<Rightarrow> bool \<times> settlement option list \<times> eval_record list"

fun fan_out ::
  "'ev pass \<Rightarrow> (nat \<times> 'ev) list \<Rightarrow> bool list \<times> (nat \<times> settlement option) list \<times> eval_record list
   \<Rightarrow> bool list \<times> (nat \<times> settlement option) list \<times> eval_record list" where
  "fan_out pass [] st = st"
| "fan_out pass ((j, ev) # evs) (alive, told, sink) =
     (if j < length alive \<and> alive ! j
      then (case pass j ev sink of
              (go, sts, sink') \<Rightarrow> fan_out pass evs (alive[j := go], told @ map (Pair j) sts, sink'))
      else fan_out pass evs (alive, told, sink))"

text \<open>WaitGroup.Wait and the return of ctx.Err(): None while a loop runs.\<close>

definition wait_all :: "go_error option \<Rightarrow> bool list \<Rightarrow> go_error option option" where
  "wait_all ctx alive = (if True \<in> set alive then None else Some ctx)"

definition start_loops ::
  "'ev pass \<Rightarrow> bool list \<Rightarrow> (nat \<times> 'ev) list \<Rightarrow> go_error option
   \<Rightarrow> go_error option option \<times> (nat \<times> settlement option) list \<times> eval_record list" where
  "start_loops pass opened evs ctx =
     (case fan_out pass evs (opened, [], []) of (alive, told, sink) \<Rightarrow> (wait_all ctx alive, told, sink))"

section \<open>The inputs\<close>

definition kafka_pass ::
  "(string \<Rightarrow> json result) \<Rightarrow> kafka_config \<Rightarrow> (kafka_message result \<times> time \<times> offer) pass" where
  "kafka_pass unmarshal cfg j ev sink =
     (case kafka_step unmarshal (kt_name (kc_topics cfg ! j)) ev sink of (go, sink') \<Rightarrow> (go, [], sink'))"

definition kafka_start ::
  "(string \<Rightarrow> json result) \<Rightarrow> kafka_config \<Rightarrow> (nat \<times> kafka_message result \<times> time \<times> offer) list
   \<Rightarrow> go_error option \<Rightarrow> go_error option option \<times> (nat \<times> settlement option) list \<times> eval_record list" where
  "kafka_start unmarshal cfg evs ctx =
     start_loops (kafka_pass unmarshal cfg) (map (\<lambda>_. True) (kc_topics cfg)) evs ctx"

text \<open>
  RabbitMQ: what Channel, Qos and Consume answered decides whether a loop gets going. Its select
  sees the context done, the deliveries closed, or a delivery.
\<close>

datatype rabbit_event = RabbitDone | RabbitClosed | RabbitDelivery stream_message time offer

definition rabbit_opened :: "unit result \<Rightarrow> unit result \<Rightarrow> unit result \<Rightarrow> bool" where
  "rabbit_opened chan qos consume =
     (case chan of Inl _ \<Rightarrow> False | Inr _ \<Rightarrow> (case qos of Inl _ \<Rightarrow> False | Inr _ \<Rightarrow> is_ok consume))"

definition rabbit_pass :: "(string \<Rightarrow> json result) \<Rightarrow> amqp_config \<Rightarrow> rabbit_event pass" where
  "rabbit_pass unmarshal cfg j ev sink =
     (case ev of
        RabbitDone \<Rightarrow> (False, [], sink)
      | RabbitClosed \<Rightarrow> (False, [], sink)
      | RabbitDelivery d now off \<Rightarrow>
          (case rabbit_handle unmarshal (aq_name (ac_queues cfg ! j)) now off d sink of
             (st, sink') \<Rightarrow> (True, [st], sink')))"

definition rabbit_start ::
  "(string \<Rightarrow> json result) \<Rightarrow> amqp_config \<Rightarrow> unit result \<Rightarrow> (unit result \<times> unit result \<times> unit result) list
   \<Rightarrow> (nat \<times> rabbit_event) list \<Rightarrow> go_error option
   \<Rightarrow> go_error option option \<times> (nat \<times> settlement option) list \<times> eval_record list" where
  "rabbit_start unmarshal cfg dial opens evs ctx =
     (case dial of
        Inl e \<Rightarrow> (Some (Some (ErrWrap ''rabbitmq input: dial'' e)), [], [])
      | Inr _ \<Rightarrow> start_loops (rabbit_pass unmarshal cfg) (map (\<lambda>(c, q, s). rabbit_opened c q s) opens) evs ctx)"

text \<open>Pub/Sub: the library calls back with messages until Receive returns.\<close>

datatype pubsub_event = PubsubMessage stream_message time offer | PubsubReturned "go_error option"

definition pubsub_pass :: "(string \<Rightarrow> json result) \<Rightarrow> pubsub_config \<Rightarrow> pubsub_event pass" where
  "pubsub_pass unmarshal cfg j ev sink =
     (case ev of
        PubsubReturned _ \<Rightarrow> (False, [], sink)
      | PubsubMessage d now off \<Rightarrow>
          (case pubsub_handle unmarshal (ps_name (pc_subscriptions cfg ! j)) now off d sink of
             (st, sink') \<Rightarrow> (True, [st], sink')))"

definition pubsub_start ::
  "(string \<Rightarrow> json result) \<Rightarrow> pubsub_config \<Rightarrow> unit result list \<Rightarrow> (nat \<times> pubsub_event) list \<Rightarrow> go_error option
   \<Rightarrow> go_error option option \<times> (nat \<times> settlement option) list \<times> eval_record list" where
  "pubsub_start unmarshal cfg factory evs ctx =
     start_loops (pubsub_pass unmarshal cfg) (map is_ok factory) evs ctx"

definition sqs_pass :: "(string \<Rightarrow> json result) \<Rightarrow> sqs_queue list \<Rightarrow> sqs_event pass" where
  "sqs_pass unmarshal queues j ev sink = sqs_step unmarshal (sq_name (queues ! j)) ev sink"

definition sqs_start ::
  "(string \<Rightarrow> json result) \<Rightarrow> sqs_queue list \<Rightarrow> (nat \<times> sqs_event) list \<Rightarrow> go_error option
   \<Rightarrow> go_error option option \<times> (nat \<times> settlement option) list \<times> eval_record list" where
  "sqs_start unmarshal queues evs ctx =
     start_loops (sqs_pass unmarshal queues) (map (\<lambda>_. True) queues) evs ctx"

text \<open>The scraper does not wait for its loops, only for the context.\<close>

datatype scrape_event = ScrapeDone | ScrapeTick "string \<Rightarrow> (int \<times> string result) result" time offer

definition scrape_pass ::
  "(string \<Rightarrow> json result) \<Rightarrow> golib \<Rightarrow> scrape_target list \<Rightarrow> scrape_event pass" where
  "scrape_pass unmarshal lib targets j ev sink =
     (case ev of
        ScrapeDone \<Rightarrow> (False, [], sink)
      | ScrapeTick get now off \<Rightarrow>
          (case scrape_tick unmarshal lib get (scrape_interval (targets ! j)) now off sink of
             (go, sink') \<Rightarrow> (go, [], sink')))"

definition scrape_start ::
  "(string \<Rightarrow> json result) \<Rightarrow> golib \<Rightarrow> scrape_target list \<Rightarrow> (nat \<times> scrape_event) list \<Rightarrow> go_error option
   \<Rightarrow> go_error option option \<times> eval_record list" where
  "scrape_start unmarshal lib targets evs ctx =
     (case start_loops (scrape_pass unmarshal lib targets) (map (\<lambda>_. True) targets) evs ctx of
        (_, _, sink) \<Rightarrow> (map_option Some ctx, sink))"

section \<open>When Start returns\<close>

lemma fan_out_alive:
  assumes "\<And>j ev sink. fst (pass j ev sink) \<longleftrightarrow> \<not> over j ev"
    and "fan_out pass evs (alive, told, sink) = (alive', told', sink')"
  shows "length alive' = length alive \<and>
    (\<forall>j < length alive. alive' ! j \<longleftrightarrow> alive ! j \<and> (\<forall>ev. (j, ev) \<in> set evs \<longrightarrow> \<not> over j ev))"
  using assms(2)
proof (induction evs arbitrary: alive told sink)
  case Nil
  then show ?case by simp
next
  case (Cons e evs)
  obtain i ev where e: "e = (i, ev)" by (cases e)
  show ?case
  proof (cases "i < length alive \<and> alive ! i")
    case True
    obtain go sts sink1 where p: "pass i ev sink = (go, sts, sink1)" by (cases "pass i ev sink")
    have go: "go \<longleftrightarrow> \<not> over i ev" using assms(1) [of i ev sink] p by simp
    have "fan_out pass evs (alive[i := go], told @ map (Pair i) sts, sink1) = (alive', told', sink')"
      using Cons.prems True p e by simp
    from Cons.IH [OF this] show ?thesis
      using True go e by (auto simp: nth_list_update)
  next
    case False
    then have "fan_out pass evs (alive, told, sink) = (alive', told', sink')" using Cons.prems e by auto
    from Cons.IH [OF this] show ?thesis using False e by auto
  qed
qed

lemma start_loops_returns:
  assumes "\<And>j ev sink. fst (pass j ev sink) \<longleftrightarrow> \<not> over j ev"
  shows "fst (start_loops pass opened evs ctx) =
    (if \<forall>j < length opened. opened ! j \<longrightarrow> (\<exists>ev. (j, ev) \<in> set evs \<and> over j ev) then Some ctx else None)"
proof -
  obtain alive told sink where run: "fan_out pass evs (opened, [], []) = (alive, told, sink)"
    by (cases "fan_out pass evs (opened, [], [])")
  from fan_out_alive [OF assms run]
  have "True \<in> set alive \<longleftrightarrow> (\<exists>j < length opened. opened ! j \<and> (\<forall>ev. (j, ev) \<in> set evs \<longrightarrow> \<not> over j ev))"
    by (auto simp: in_set_conv_nth)
  then show ?thesis using run by (auto simp: start_loops_def wait_all_def)
qed

definition kafka_over ::
  "(string \<Rightarrow> json result) \<Rightarrow> kafka_message result \<times> time \<times> offer \<Rightarrow> bool" where
  "kafka_over unmarshal ev \<longleftrightarrow>
     (case ev of (Inl e, _, _) \<Rightarrow> kafka_ends e
      | (Inr msg, _, off) \<Rightarrow> parse_message unmarshal (km_value msg) \<noteq> None \<and> off = Cancelled)"

definition sqs_stuck :: "(string \<Rightarrow> json result) \<Rightarrow> stream_message \<times> time \<times> offer \<Rightarrow> bool" where
  "sqs_stuck unmarshal m \<longleftrightarrow>
     parse_message unmarshal (ms_body (fst m)) \<noteq> None \<and> snd (snd m) = Cancelled"

definition sqs_over :: "(string \<Rightarrow> json result) \<Rightarrow> sqs_event \<Rightarrow> bool" where
  "sqs_over unmarshal ev \<longleftrightarrow>
     (case ev of SqsDone \<Rightarrow> True
      | SqsError e done \<Rightarrow> err_is e CtxCanceled \<or> err_is e CtxDeadlineExceeded \<or> done
      | SqsBatch ms \<Rightarrow> list_ex (sqs_stuck unmarshal) ms)"

lemma kafka_pass_over: "fst (kafka_pass unmarshal cfg j ev sink) \<longleftrightarrow> \<not> kafka_over unmarshal ev"
  by (auto simp: kafka_pass_def kafka_step_def kafka_over_def split: prod.splits sum.splits option.splits offer.splits)

lemma sqs_batch_over: "fst (sqs_batch unmarshal name ms sink) \<longleftrightarrow> \<not> list_ex (sqs_stuck unmarshal) ms"
proof (induction ms arbitrary: sink)
  case Nil
  then show ?case by simp
next
  case (Cons m ms)
  obtain d now off where m: "m = (d, now, off)" by (cases m)
  show ?case using Cons.IH by (auto simp: m sqs_stuck_def case_prod_beta)
qed

lemma sqs_pass_over: "fst (sqs_pass unmarshal queues j ev sink) \<longleftrightarrow> \<not> sqs_over unmarshal ev"
  using sqs_batch_over by (auto simp: sqs_pass_def sqs_step_def sqs_over_def split: sqs_event.splits)

lemma rabbit_pass_over: "fst (rabbit_pass unmarshal cfg j ev sink) \<longleftrightarrow> \<not> (ev = RabbitDone \<or> ev = RabbitClosed)"
  by (auto simp: rabbit_pass_def split: rabbit_event.splits prod.splits)

lemma pubsub_pass_over: "fst (pubsub_pass unmarshal cfg j ev sink) \<longleftrightarrow> \<not> (\<exists>e. ev = PubsubReturned e)"
  by (auto simp: pubsub_pass_def split: pubsub_event.splits prod.splits)

lemma passes_return:
  "fst (start_loops (rabbit_pass unmarshal acfg) opened revs ctx) =
     (if \<forall>j < length opened. opened ! j \<longrightarrow> (\<exists>ev. (j, ev) \<in> set revs \<and> (ev = RabbitDone \<or> ev = RabbitClosed))
      then Some ctx else None)"
  "fst (start_loops (pubsub_pass unmarshal pcfg) opened pevs ctx) =
     (if \<forall>j < length opened. opened ! j \<longrightarrow> (\<exists>ev. (j, ev) \<in> set pevs \<and> (\<exists>e. ev = PubsubReturned e))
      then Some ctx else None)"
  "fst (start_loops (kafka_pass unmarshal kcfg) opened kevs ctx) =
     (if \<forall>j < length opened. opened ! j \<longrightarrow> (\<exists>ev. (j, ev) \<in> set kevs \<and> kafka_over unmarshal ev)
      then Some ctx else None)"
  "fst (start_loops (sqs_pass unmarshal queues) opened sevs ctx) =
     (if \<forall>j < length opened. opened ! j \<longrightarrow> (\<exists>ev. (j, ev) \<in> set sevs \<and> sqs_over unmarshal ev)
      then Some ctx else None)"
  by (rule start_loops_returns, rule rabbit_pass_over pubsub_pass_over kafka_pass_over sqs_pass_over)+

text \<open>
  C29: Once connected, Start of the RabbitMQ input returns exactly when every queue's loop could
  not be opened, saw the context done or saw its deliveries closed; Pub/Sub when every
  subscription failed to open or its Receive returned; Kafka and SQS when the context or the end
  of the stream ended every loop. What they return is the error of the context, so nil when the
  broker ended the loops of a running service.
\<close>

theorem inputs_return:
  assumes "length opens = length (ac_queues acfg)"
  shows "fst (rabbit_start unmarshal acfg (Inr ()) opens revs ctx) =
        (if \<forall>j < length (ac_queues acfg). (case opens ! j of (c, q, s) \<Rightarrow> rabbit_opened c q s) \<longrightarrow>
              (j, RabbitDone) \<in> set revs \<or> (j, RabbitClosed) \<in> set revs
         then Some ctx else None) \<and>
    fst (pubsub_start unmarshal pcfg factory pevs ctx) =
        (if \<forall>j < length factory. is_ok (factory ! j) \<longrightarrow> (\<exists>e. (j, PubsubReturned e) \<in> set pevs)
         then Some ctx else None) \<and>
    fst (kafka_start unmarshal kcfg kevs ctx) =
        (if \<forall>j < length (kc_topics kcfg). \<exists>ev. (j, ev) \<in> set kevs \<and> kafka_over unmarshal ev
         then Some ctx else None) \<and>
    fst (sqs_start unmarshal queues sevs ctx) =
        (if \<forall>j < length queues. \<exists>ev. (j, ev) \<in> set sevs \<and> sqs_over unmarshal ev then Some ctx else None)"
proof -
  have "(\<exists>ev. (j, ev) \<in> set revs \<and> (ev = RabbitDone \<or> ev = RabbitClosed)) \<longleftrightarrow>
      (j, RabbitDone) \<in> set revs \<or> (j, RabbitClosed) \<in> set revs" for j
    by blast
  moreover have "(\<exists>ev. (j, ev) \<in> set pevs \<and> (\<exists>e. ev = PubsubReturned e)) \<longleftrightarrow>
      (\<exists>e. (j, PubsubReturned e) \<in> set pevs)" for j
    by blast
  ultimately show ?thesis
    using assms by (simp add: rabbit_start_def pubsub_start_def kafka_start_def sqs_start_def passes_return)
qed

text \<open>One queue, whose channel the broker closes: Start returns nil while the context lives.\<close>

lemma inputs_return_witness:
  "fst (rabbit_start (\<lambda>_. Inr JNull)
      \<lparr>ac_url = ''amqp://b'', ac_queues = [\<lparr>aq_name = ''q'', aq_queue = ''q'', aq_consumer = ''c'', aq_prefetch = 32\<rparr>],
       ac_dial_timeout = second\<rparr>
      (Inr ()) [(Inr (), Inr (), Inr ())] [(0, RabbitClosed)] None) = Some None"
  using inputs_return [of "[(Inr (), Inr (), Inr ())]"
      "\<lparr>ac_url = ''amqp://b'', ac_queues = [\<lparr>aq_name = ''q'', aq_queue = ''q'', aq_consumer = ''c'', aq_prefetch = 32\<rparr>],
        ac_dial_timeout = second\<rparr>" "\<lambda>_. Inr JNull" "[(0, RabbitClosed)]" None undefined "[]" "[]" undefined "[]" "[]" "[]"]
  by simp

end
