(* ===== verification/Commands.thy ===== *)
theory Commands
  imports Channels Streams Retention Api
begin

text \<open>
  cmd/signalwatch and cmd/signalwatchctl: the configuration with the checks run() makes of it
  and the parts it wires up, and the requests of the command line client. Reading the file and
  its YAML, the flags, signals and the listening socket are I/O and not modelled; \<open>getenv\<close> is
  os.Getenv.
\<close>

section \<open>Configuration\<close>

record smtp_section =
  ys_host :: string
  ys_port :: int
  ys_username :: string
  ys_password :: string
  ys_from :: string
  ys_use_tls :: bool

record channel_section =
  yc_name :: string
  yc_type :: string
  yc_smtp :: "smtp_section option"
  yc_slack :: "string option"
  yc_webhook :: "(string \<times> (string \<times> string) list) option"
  yc_pagerduty :: "(string \<times> string) option"
  yc_teams :: "string option"
  yc_discord :: "string option"
  yc_sms :: "(string \<times> string) option"

record archive_section =
  ya_type :: string
  ya_dir :: string
  ya_url :: string

record retention_section =
  yr_window :: string
  yr_interval :: string
  yr_archive :: "archive_section option"

record config =
  yg_addr :: string
  yg_driver :: string
  yg_dsn :: string
  yg_channels :: "channel_section list"
  yg_retention :: "retention_section option"
  yg_event_name :: string
  yg_scrape :: "scrape_target list"

text \<open>A missing file gives the zero configuration.\<close>

definition empty_config :: config where
  "empty_config = \<lparr>yg_addr = [], yg_driver = [], yg_dsn = [], yg_channels = [], yg_retention = None,
     yg_event_name = [], yg_scrape = []\<rparr>"

definition load_config :: "bool \<Rightarrow> string result \<Rightarrow> (string \<Rightarrow> config result) \<Rightarrow> config result" where
  "load_config missing file parse =
     (case file of Inl e \<Rightarrow> if missing then Inr empty_config else Inl e | Inr body \<Rightarrow> parse body)"

section \<open>Channels\<close>

datatype channel_instance =
    ChSmtp smtp_config
  | ChSlack hook_config
  | ChWebhook webhook_config
  | ChPager pager_config
  | ChTeams hook_config
  | ChDiscord hook_config
  | ChSms sms_config

definition section_required :: "channel_section \<Rightarrow> string \<Rightarrow> 'a result" where
  "section_required c s = Inl (ErrNew (''channel '' @ yc_name c @ '': '' @ s @ '' section required''))"

definition build_channel :: "golib \<Rightarrow> (string \<Rightarrow> string) \<Rightarrow> channel_section \<Rightarrow> channel_instance result" where
  "build_channel lib getenv c =
     (if yc_name c = [] then Inl (ErrNew ''channel: name required'')
      else if yc_type c = ''smtp'' then
        (case yc_smtp c of
           None \<Rightarrow> section_required c ''smtp''
         | Some s \<Rightarrow> Inr (ChSmtp (smtp_new \<lparr>sc_name = yc_name c, sc_host = ys_host s, sc_port = ys_port s,
             sc_username = ys_username s, sc_password = ys_password s, sc_from = ys_from s,
             sc_use_tls = ys_use_tls s\<rparr>)))
      else if yc_type c = ''slack'' then
        (case yc_slack c of
           None \<Rightarrow> section_required c ''slack''
         | Some url \<Rightarrow> Inr (ChSlack (slack_new \<lparr>hk_name = yc_name c, hk_url = url\<rparr>)))
      else if yc_type c = ''webhook'' then
        (case yc_webhook c of
           None \<Rightarrow> Inr (ChWebhook (webhook_new \<lparr>wc_name = yc_name c, wc_url = [], wc_headers = []\<rparr>))
         | Some (url, hs) \<Rightarrow>
             Inr (ChWebhook (webhook_new \<lparr>wc_name = yc_name c, wc_url = url, wc_headers = hs\<rparr>)))
      else if yc_type c = ''pagerduty'' then
        (case yc_pagerduty c of
           None \<Rightarrow> section_required c ''pagerduty''
         | Some (key, url) \<Rightarrow>
             Inr (ChPager (pager_new \<lparr>pg_name = yc_name c, pg_routing_key = key, pg_events_url = url\<rparr>)))
      else if yc_type c = ''teams'' then
        (case yc_teams c of
           None \<Rightarrow> section_required c ''teams''
         | Some url \<Rightarrow> Inr (ChTeams (teams_new \<lparr>hk_name = yc_name c, hk_url = url\<rparr>)))
      else if yc_type c = ''discord'' then
        (case yc_discord c of
           None \<Rightarrow> section_required c ''discord''
         | Some url \<Rightarrow> Inr (ChDiscord (discord_new \<lparr>hk_name = yc_name c, hk_url = url\<rparr>)))
      else if yc_type c = ''sms'' then
        (case yc_sms c of
           None \<Rightarrow> section_required c ''sms''
         | Some (from, base) \<Rightarrow>
             Inr (ChSms (sms_new getenv \<lparr>sm_name = yc_name c, sm_account = [], sm_token = [],
               sm_from = from, sm_api_base = base\<rparr>)))
      else Inl (ErrNew (''channel '' @ yc_name c @ '': unknown type '' @ lib_quote lib (yc_type c))))"

text \<open>The map of channels: of two sections with one name the later one wins.\<close>

fun build_channels ::
  "golib \<Rightarrow> (string \<Rightarrow> string) \<Rightarrow> channel_section list \<Rightarrow> (string \<times> channel_instance) list
   \<Rightarrow> (string \<times> channel_instance) list result" where
  "build_channels lib getenv [] m = Inr m"
| "build_channels lib getenv (c # cs) m =
     res_bind (build_channel lib getenv c) (\<lambda>ch.
       build_channels lib getenv cs (tbl_upsert fst (yc_name c, ch) m))"

text \<open>The outside of the channels.\<close>

record channel_env =
  ce_http :: http_env
  ce_mail_time :: "time \<Rightarrow> string"
  ce_send_mail :: "nat \<Rightarrow> string \<Rightarrow> (string \<times> string) option \<Rightarrow> string \<Rightarrow> string list \<Rightarrow> string \<Rightarrow> unit result"
  ce_smtp_server :: "nat \<Rightarrow> smtp_cmd list \<Rightarrow> smtp_cmd \<Rightarrow> unit result"

fun channel_fn :: "channel_env \<Rightarrow> channel_instance \<Rightarrow> channel_send" where
  "channel_fn env (ChSmtp cfg) = smtp_send (ce_mail_time env) (ce_send_mail env) (ce_smtp_server env) cfg"
| "channel_fn env (ChSlack cfg) = slack_send (ce_http env) cfg"
| "channel_fn env (ChWebhook cfg) = webhook_send (ce_http env) cfg"
| "channel_fn env (ChPager cfg) = pager_send (ce_http env) cfg"
| "channel_fn env (ChTeams cfg) = teams_send (ce_http env) cfg"
| "channel_fn env (ChDiscord cfg) = discord_send (ce_http env) cfg"
| "channel_fn env (ChSms cfg) = sms_send (ce_http env) cfg"

section \<open>Retention\<close>

text \<open>The copy of the rule package's parser: an empty text is zero, and errors say why.\<close>

definition config_duration :: "golib \<Rightarrow> string \<Rightarrow> duration result" where
  "config_duration lib s0 =
     (let s = trim_space s0
      in if s = [] then Inr 0
         else if 1 < length s \<and> last s \<in> {CHR ''d'', CHR ''w''}
           then (case lib_parse_float lib (butlast s) of
                   None \<Rightarrow> Inl (ErrNew (''invalid duration '' @ lib_quote lib s))
                 | Some x \<Rightarrow>
                     if f_less x (Fin 0) then Inl (ErrNew (''invalid duration '' @ lib_quote lib s))
                     else Inr (f64_to_int64 (lib_f2i lib)
                            (f_scale x (of_int (if last s = CHR ''w'' then 7 * (24 * hour) else 24 * hour)))))
         else res_bind (res_wrap (''invalid duration '' @ lib_quote lib s) (lib_parse_duration lib s)) (\<lambda>d.
           if d < 0 then Inl (ErrNew (''duration '' @ lib_quote lib s @ '' must be non-negative'')) else Inr d))"

datatype archive_sink = FileSink string | HookSink string

definition archive_sink_of :: "golib \<Rightarrow> archive_section option \<Rightarrow> archive_sink option result" where
  "archive_sink_of lib a =
     (case a of
        None \<Rightarrow> Inr None
      | Some s \<Rightarrow>
          if ya_type s = ''json'' then
            (if ya_dir s = [] then Inl (ErrNew ''archive.dir required for type=json'')
             else Inr (Some (FileSink (ya_dir s))))
          else if ya_type s = ''webhook'' then
            (if ya_url s = [] then Inl (ErrNew ''archive.url required for type=webhook'')
             else Inr (Some (HookSink (ya_url s))))
          else if ya_type s = [] then Inr None
          else Inl (ErrNew (''archive.type '' @ lib_quote lib (ya_type s) @
                 '' not supported (use json, webhook, or omit)'')))"

definition build_pruner ::
  "golib \<Rightarrow> 's store \<Rightarrow> (archive_sink \<Rightarrow> 'a archiver) \<Rightarrow> retention_section \<Rightarrow> 'a pruner option result" where
  "build_pruner lib st arch rc =
     res_bind (res_wrap ''window'' (config_duration lib (yr_window rc))) (\<lambda>window.
       if window \<le> 0 then Inr None
       else res_bind (if yr_interval rc = [] then Inr 0
                      else res_wrap ''interval'' (config_duration lib (yr_interval rc))) (\<lambda>interval.
         res_bind (archive_sink_of lib (yr_archive rc)) (\<lambda>sink.
           res_map Some (new_pruner (Some st) window interval (map_option arch sink)))))"

section \<open>The service\<close>

record 'a installation =
  il_dsn :: string
  il_addr :: string
  il_channels :: "(string \<times> channel_instance) list"
  il_event_name :: string
  il_scrape :: "scrape_target list"
  il_pruner :: "'a pruner option"
  il_settings :: "db mount_settings"

definition store_dsn :: "golib \<Rightarrow> config \<Rightarrow> string result" where
  "store_dsn lib cfg =
     (if yg_driver cfg \<noteq> ''sqlite'' \<and> yg_driver cfg \<noteq> []
      then Inl (ErrNew (''store driver '' @ lib_quote lib (yg_driver cfg) @
             '' not supported in v0.1 (only sqlite)''))
      else Inr (fallback (yg_dsn cfg)
             ''file:signalwatch.db?_pragma=journal_mode(WAL)&_pragma=busy_timeout(5000)''))"

definition mount_options :: "golib \<Rightarrow> (string \<Rightarrow> string) \<Rightarrow> db mount_settings" where
  "mount_options lib getenv =
     with_token_store (st_api_tokens (sqlite_store lib))
       (with_api_token (getenv ''SIGNALWATCH_API_TOKEN'') default_settings)"

text \<open>
  What run() makes of the configuration; the API is mounted with the token store always on.
  The engine is built between the channels and the retention section.
\<close>

definition install ::
  "golib \<Rightarrow> (string \<Rightarrow> string) \<Rightarrow> (archive_sink \<Rightarrow> 'a archiver) \<Rightarrow> config \<Rightarrow> 'a installation result" where
  "install lib getenv arch cfg =
     res_bind (store_dsn lib cfg) (\<lambda>dsn.
       res_bind (build_channels lib getenv (yg_channels cfg) []) (\<lambda>chs.
         res_bind (case yg_retention cfg of
                     None \<Rightarrow> Inr None
                   | Some rc \<Rightarrow> res_wrap ''retention'' (build_pruner lib (sqlite_store lib) arch rc)) (\<lambda>p.
           Inr \<lparr>il_dsn = dsn, il_addr = fallback (yg_addr cfg) ''127.0.0.1:8080'',
                il_channels = chs, il_event_name = yg_event_name cfg, il_scrape = yg_scrape cfg,
                il_pruner = p, il_settings = mount_options lib getenv\<rparr>)))"

definition install_channels :: "channel_env \<Rightarrow> 'a installation \<Rightarrow> string \<Rightarrow> channel_send option" where
  "install_channels env il name = map_option (channel_fn env) (map_of (il_channels il) name)"

section \<open>The command line client\<close>

text \<open>
  A command is refused, does nothing at all, or sends one request without credentials: its
  method, its path and its body. \<open>stdin\<close> is what reading the standard input gives.
\<close>

datatype ctl_action = CtlFail go_error | CtlNothing | CtlSend string string "string option"

definition ctl_crud :: "golib \<Rightarrow> string result \<Rightarrow> string \<Rightarrow> string list \<Rightarrow> ctl_action" where
  "ctl_crud lib stdin base args =
     (case args of
        [] \<Rightarrow> CtlSend ''GET'' base None
      | verb # rest \<Rightarrow>
          if verb = ''list'' then CtlSend ''GET'' base None
          else if verb = ''show'' then
            (case rest of [] \<Rightarrow> CtlFail (ErrNew ''show: missing id'')
             | i # _ \<Rightarrow> CtlSend ''GET'' (base @ ''/'' @ i) None)
          else if verb = ''create'' then
            (case stdin of Inl e \<Rightarrow> CtlFail e | Inr body \<Rightarrow> CtlSend ''POST'' base (Some body))
          else if verb = ''update'' then
            (case rest of [] \<Rightarrow> CtlFail (ErrNew ''update: missing id'')
             | i # _ \<Rightarrow>
                 (case stdin of Inl e \<Rightarrow> CtlFail e | Inr body \<Rightarrow> CtlSend ''PUT'' (base @ ''/'' @ i) (Some body)))
          else if verb = ''delete'' then
            (case rest of [] \<Rightarrow> CtlFail (ErrNew ''delete: missing id'')
             | i # _ \<Rightarrow> CtlSend ''DELETE'' (base @ ''/'' @ i) None)
          else CtlFail (ErrNew (''unknown verb '' @ lib_quote lib verb)))"

definition ctl_dispatch :: "golib \<Rightarrow> string result \<Rightarrow> string \<Rightarrow> string list \<Rightarrow> ctl_action" where
  "ctl_dispatch lib stdin resource args =
     (if resource = ''rules'' then ctl_crud lib stdin ''/v1/rules'' args
      else if resource = ''subscribers'' then ctl_crud lib stdin ''/v1/subscribers'' args
      else if resource = ''subscriptions'' then ctl_crud lib stdin ''/v1/subscriptions'' args
      else if resource = ''incidents'' then
        (case args of
           [] \<Rightarrow> CtlSend ''GET'' ''/v1/incidents'' None
         | verb # rest \<Rightarrow>
             if verb = ''list'' then CtlSend ''GET'' ''/v1/incidents'' None
             else if verb = ''show'' then
               (case rest of [] \<Rightarrow> CtlFail (ErrNew ''incidents show: missing id'')
                | i # _ \<Rightarrow> CtlSend ''GET'' (''/v1/incidents/'' @ i) None)
             else CtlNothing)
      else if resource = ''notifications'' then CtlSend ''GET'' ''/v1/notifications'' None
      else if resource = ''states'' then CtlSend ''GET'' ''/v1/states'' None
      else if resource = ''emit'' then
        (case args of [] \<Rightarrow> CtlFail (ErrNew ''emit: missing JSON payload'')
         | body # _ \<Rightarrow> CtlSend ''POST'' ''/v1/events'' (Some body))
      else CtlFail (ErrNew (''unknown resource '' @ lib_quote lib resource)))"

text \<open>doReq: anything but a status from 200 to 299 is the command's error.\<close>

definition ctl_result :: "string \<Rightarrow> string \<Rightarrow> int \<Rightarrow> string \<Rightarrow> unit result" where
  "ctl_result m url status out =
     (if status div 100 \<noteq> 2
      then Inl (ErrNew (m @ '' '' @ url @ '': '' @ show_int status @ '' '' @ trim_space out))
      else Inr ())"

end
