(* ===== verification/Command_Props.thy ===== *)
theory Command_Props
  imports Commands Api_Wire
begin

text \<open>
  What the two commands amount to: which configurations start, what a fresh installation
  answers, and what the server makes of the requests of the command line client.
\<close>

section \<open>Configurations that start\<close>

definition section_ok :: "channel_section \<Rightarrow> bool" where
  "section_ok c \<longleftrightarrow> yc_name c \<noteq> [] \<and>
     (yc_type c = ''smtp'' \<and> yc_smtp c \<noteq> None \<or> yc_type c = ''slack'' \<and> yc_slack c \<noteq> None \<or>
      yc_type c = ''webhook'' \<or> yc_type c = ''pagerduty'' \<and> yc_pagerduty c \<noteq> None \<or>
      yc_type c = ''teams'' \<and> yc_teams c \<noteq> None \<or> yc_type c = ''discord'' \<and> yc_discord c \<noteq> None \<or>
      yc_type c = ''sms'' \<and> yc_sms c \<noteq> None)"

lemma build_channel_ok: "is_ok (build_channel lib getenv c) \<longleftrightarrow> section_ok c"
  by (auto simp: build_channel_def section_ok_def section_required_def split: option.splits)

lemma build_channels_ok: "is_ok (build_channels lib getenv cs m) \<longleftrightarrow> (\<forall>c \<in> set cs. section_ok c)"
proof (induction cs arbitrary: m)
  case (Cons c cs)
  show ?case
    using build_channel_ok [of lib getenv c] Cons.IH by (cases "build_channel lib getenv c") auto
qed simp

lemma map_of_replace:
  "map_of (map (\<lambda>x. if fst x = k then (k, v) else x) m) n =
   (if n = k \<and> k \<in> fst ` set m then Some v else map_of m n)"
  by (induction m) (auto simp: image_iff, force+)

lemma map_of_upsert: "map_of (tbl_upsert fst (k, v) m) n = (if n = k then Some v else map_of m n)"
proof (cases "k \<in> fst ` set m")
  case True
  then show ?thesis by (simp add: tbl_upsert_def map_of_replace)
next
  case False
  then have "map_of m k = None" by (simp only: map_of_eq_None_iff simp_thms)
  with False show ?thesis by (auto simp: tbl_upsert_def map_add_def split: option.split)
qed

lemma build_channels_lookup:
  assumes "build_channels lib getenv cs m = Inr chs"
  shows "map_of chs name =
    (case List.find (\<lambda>c. yc_name c = name) (rev cs) of
       None \<Rightarrow> map_of m name
     | Some c \<Rightarrow> (case build_channel lib getenv c of Inl _ \<Rightarrow> None | Inr ch \<Rightarrow> Some ch))"
  using assms
proof (induction cs arbitrary: m)
  case Nil
  then show ?case by simp
next
  case (Cons c cs)
  then obtain ch where ch: "build_channel lib getenv c = Inr ch"
    and rest: "build_channels lib getenv cs (tbl_upsert fst (yc_name c, ch) m) = Inr chs"
    by (auto simp: res_bind_Inr_iff)
  have find_app: "List.find P (xs @ ys) = (case List.find P xs of None \<Rightarrow> List.find P ys | Some x \<Rightarrow> Some x)"
    for P and xs ys :: "channel_section list" by (induction xs) auto
  show ?case
    using Cons.IH [OF rest] ch by (auto simp: map_of_upsert find_app split: option.splits)
qed

section \<open>What a configuration starts\<close>

definition retention_ok :: "golib \<Rightarrow> retention_section \<Rightarrow> bool" where
  "retention_ok lib rc \<longleftrightarrow>
     (\<exists>w. config_duration lib (yr_window rc) = Inr w \<and>
        (0 < w \<longrightarrow> (yr_interval rc \<noteq> [] \<longrightarrow> is_ok (config_duration lib (yr_interval rc))) \<and>
                   is_ok (archive_sink_of lib (yr_archive rc))))"

lemma build_pruner_ok: "is_ok (build_pruner lib st arch rc) \<longleftrightarrow> retention_ok lib rc"
proof (cases "config_duration lib (yr_window rc)")
  case (Inl e)
  then show ?thesis by (simp add: build_pruner_def retention_ok_def res_wrap_def)
next
  case (Inr w)
  then show ?thesis
    by (cases "config_duration lib (yr_interval rc)"; cases "archive_sink_of lib (yr_archive rc)")
      (auto simp: build_pruner_def retention_ok_def res_wrap_def new_pruner_def)
qed

lemma is_ok_wrap: "is_ok (res_wrap p r) \<longleftrightarrow> is_ok r"
  by (cases r) (simp_all add: res_wrap_def)

lemma is_ok_bind: "is_ok (res_bind r k) \<longleftrightarrow> (\<exists>x. r = Inr x \<and> is_ok (k x))"
  by (cases r) auto

lemma install_Inr:
  assumes "install lib getenv arch cfg = Inr il"
  obtains chs p where "build_channels lib getenv (yg_channels cfg) [] = Inr chs"
    "il_channels il = chs" "il_pruner il = p"
    "il_settings il = mount_options lib getenv"
    "p = None \<or> (\<exists>rc. yg_retention cfg = Some rc \<and> build_pruner lib (sqlite_store lib) arch rc = Inr p)"
  using assms
  by (auto simp: install_def store_dsn_def res_bind_Inr_iff res_wrap_def split: if_splits option.splits sum.splits)

lemma build_pruner_positive:
  assumes "build_pruner lib st arch rc = Inr (Some p)"
  shows "0 < pr_window p \<and> 0 < pr_interval p"
  using assms
  by (auto simp: build_pruner_def res_bind_Inr_iff res_wrap_def new_pruner_def split: if_splits sum.splits)

text \<open>
  The service starts exactly with the configurations whose driver is SQLite or unnamed,
  whose channels have a name, a known type and the section of that type, and whose retention
  section, when there is one, reads. Each channel name then stands for the last section with
  it, the API always demands credentials, and a pruner, when there is one, has a positive window.
\<close>

theorem install_outcome:
  "(is_ok (install lib getenv arch cfg) \<longleftrightarrow>
      yg_driver cfg \<in> {[], ''sqlite''} \<and> (\<forall>c \<in> set (yg_channels cfg). section_ok c) \<and>
      (\<forall>rc. yg_retention cfg = Some rc \<longrightarrow> retention_ok lib rc)) \<and>
   (\<forall>il. install lib getenv arch cfg = Inr il \<longrightarrow>
      auth_required (il_settings il) \<and> lite_settings lib (il_settings il) \<and>
      (\<forall>p. il_pruner il = Some p \<longrightarrow> 0 < pr_window p \<and> 0 < pr_interval p) \<and>
      (\<forall>name. install_channels env il name =
         (case List.find (\<lambda>c. yc_name c = name) (rev (yg_channels cfg)) of
            None \<Rightarrow> None
          | Some c \<Rightarrow> (case build_channel lib getenv c of
                Inl _ \<Rightarrow> None | Inr ch \<Rightarrow> Some (channel_fn env ch)))))"
proof (intro conjI allI impI)
  show "is_ok (install lib getenv arch cfg) \<longleftrightarrow>
      yg_driver cfg \<in> {[], ''sqlite''} \<and> (\<forall>c \<in> set (yg_channels cfg). section_ok c) \<and>
      (\<forall>rc. yg_retention cfg = Some rc \<longrightarrow> retention_ok lib rc)"
  proof (cases "yg_retention cfg")
    case None
    then show ?thesis
      using build_channels_ok [of lib getenv "yg_channels cfg" "[]"]
      by (cases "build_channels lib getenv (yg_channels cfg) []") (auto simp: install_def store_dsn_def)
  next
    case (Some rc)
    then show ?thesis
      using build_channels_ok [of lib getenv "yg_channels cfg" "[]"]
        build_pruner_ok [of lib "sqlite_store lib" arch rc]
      by (cases "build_channels lib getenv (yg_channels cfg) []";
          cases "build_pruner lib (sqlite_store lib) arch rc")
        (auto simp: install_def store_dsn_def res_wrap_def)
  qed
next
  fix il assume il: "install lib getenv arch cfg = Inr il"
  show "auth_required (il_settings il)" "lite_settings lib (il_settings il)"
    using il by (auto elim!: install_Inr simp: mount_options_def auth_required_def lite_settings_def with_token_store_def)
  show "0 < pr_window p" "0 < pr_interval p" if "il_pruner il = Some p" for p
    using il that by (auto elim!: install_Inr dest: build_pruner_positive)
  show "install_channels env il name =
         (case List.find (\<lambda>c. yc_name c = name) (rev (yg_channels cfg)) of
            None \<Rightarrow> None
          | Some c \<Rightarrow> (case build_channel lib getenv c of
                Inl _ \<Rightarrow> None | Inr ch \<Rightarrow> Some (channel_fn env ch)))" for name
    using il
    by (auto elim!: install_Inr simp: install_channels_def build_channels_lookup split: option.split sum.split)
qed

lemma install_outcome_witness:
  "is_ok (install plain_lib (\<lambda>_. []) (\<lambda>_. undefined) empty_config :: nat installation result)"
  by (rule iffD2 [OF install_outcome [THEN conjunct1]]) (simp add: empty_config_def)

section \<open>A fresh installation\<close>

text \<open>
  With neither a shared token nor a stored one nobody can log in: every gated request is
  refused, so no request stores the first token.
\<close>

lemma empty_login:
  assumes "lite_settings lib s" and "ms_tokens s \<noteq> None" and "ms_api_token s = []"
    and "t_tokens (sv_store sv) = []" and "require_auth s h env r sv = (resp, sv')"
  shows "quiet sv sv' \<and> sv_touches sv' = sv_touches sv \<and> (\<exists>e. resp \<in> {write_error 401 e, write_error 500 e})"
proof (cases "bearer_token r")
  case (Inl e)
  then show ?thesis using assms(2,5)
    by (auto simp: require_auth_def auth_required_def on_value_def quiet.rel_refl)
next
  case (Inr raw)
  have repo: "ms_tokens s = Some (st_api_tokens (sqlite_store lib))"
    using assms(1,2) by (auto simp: lite_settings_def)
  obtain res d1 where get: "lite_token_get_by_hash (ae_hash env raw) (sv_store sv) = (res, d1)"
    by (cases "lite_token_get_by_hash (ae_hash env raw) (sv_store sv)")
  have run: "token_login (st_api_tokens (sqlite_store lib)) raw h env r sv = (resp, sv')"
    using assms(3,5) Inr repo by (simp add: require_auth_def auth_required_def on_value_def)
  note run' = run [unfolded token_login_def with_store_def lite_repo_sel get, simplified]
  from get show ?thesis
    by (cases rule: get_by_hash_cases) (use run' assms(4) in \<open>auto simp: quiet_def invalid_token_def\<close>)
qed

lemma quiet_tokens: "quiet sv sv' \<Longrightarrow> t_tokens (sv_store sv') = t_tokens (sv_store sv)"
  by (auto simp: quiet_def dest: same_tablesD(8))

lemma gate_requires_auth: "gate s rt h env r sv = (resp, sv') \<Longrightarrow> \<exists>h'. require_auth s h' env r sv = (resp, sv')"
  by (auto simp: gate_def read_gate_def write_gate_def split: if_splits)

lemma api_step_locked:
  assumes "lite_settings lib s" and "ms_tokens s \<noteq> None" and "ms_api_token s = []"
    and "t_tokens (sv_store sv) = []" and "sv_touches sv = []"
  shows "quiet sv (api_step lib s ui ev sv) \<and> sv_touches (api_step lib s ui ev sv) = []"
proof (cases ev)
  case (AServe env r)
  obtain resp sv' where run: "serve (sqlite_store lib) s ui env r sv = (resp, sv')"
    by (cases "serve (sqlite_store lib) s ui env r sv")
  then have "quiet sv sv' \<and> sv_touches sv' = []"
  proof (cases rule: serve_cases)
    case outside
    then show ?thesis using assms(5) by (simp add: quiet.rel_refl)
  next
    case (route rt h)
    then show ?thesis using empty_login [OF assms(1-4)] gate_requires_auth assms(5) by metis
  qed
  then show ?thesis using run AServe by simp
next
  case ATouch
  then show ?thesis using assms(2,5) by (simp add: touch_step_def quiet.rel_refl split: option.split)
qed

lemma api_run_locked:
  "lite_settings lib s \<Longrightarrow> ms_tokens s \<noteq> None \<Longrightarrow> ms_api_token s = [] \<Longrightarrow>
   t_tokens (sv_store sv) = [] \<Longrightarrow> sv_touches sv = [] \<Longrightarrow>
   quiet sv (api_run lib s ui evs sv) \<and> sv_touches (api_run lib s ui evs sv) = []"
proof (induction evs arbitrary: sv)
  case (Cons ev evs)
  have step: "quiet sv (api_step lib s ui ev sv)" "sv_touches (api_step lib s ui ev sv) = []"
    using api_step_locked [OF Cons.prems] by blast+
  then have "t_tokens (sv_store (api_step lib s ui ev sv)) = []"
    using Cons.prems(4) by (simp add: quiet_tokens)
  then show ?case
    using Cons.IH [OF Cons.prems(1-3) _ step(2)] step(1) quiet.rel_trans by (auto simp: api_run_def)
qed (simp add: api_run_def quiet.rel_refl)

text \<open>
  C25: An installation without SIGNALWATCH_API_TOKEN whose database holds no token is locked
  for good: whatever requests arrive, in any order and with any failures of the database, each
  request to a gated route is refused with 401 or 500 and no request changes a table, the
  cache or the event queue; in particular the first token can never be issued through the API.
\<close>

theorem fresh_install_locked:
  assumes "install lib getenv arch cfg = Inr il" and "getenv ''SIGNALWATCH_API_TOKEN'' = []"
    and "t_tokens (sv_store sv) = []" and "sv_touches sv = []"
    and "serve (sqlite_store lib) (il_settings il) ui env r (api_run lib (il_settings il) ui evs sv) = (resp, sv')"
  shows "quiet sv sv' \<and> (\<forall>rt \<in> set (all_routes (il_settings il)).
     method_match (rt_method rt) (rq_method r) \<and> path_match (rt_path rt) (rq_path r) \<longrightarrow>
     (\<exists>e. resp \<in> {write_error 401 e, write_error 500 e}))"
proof -
  have set: "lite_settings lib (il_settings il)" "ms_tokens (il_settings il) \<noteq> None" "ms_api_token (il_settings il) = []"
    using assms(1,2)
    by (auto elim!: install_Inr simp: mount_options_def lite_settings_def with_token_store_def with_api_token_def default_settings_def)
  define sv1 where "sv1 = api_run lib (il_settings il) ui evs sv"
  have run: "quiet sv sv1" "sv_touches sv1 = []"
    using api_run_locked [OF set assms(3,4)] unfolding sv1_def by blast+
  then have empty: "t_tokens (sv_store sv1) = []" using assms(3) by (simp add: quiet_tokens)
  from assms(5) show ?thesis unfolding sv1_def [symmetric]
  proof (cases rule: serve_cases)
    case outside
    then show ?thesis using run(1) by blast
  next
    case (route rt h)
    then obtain h' where "require_auth (il_settings il) h' env (at_route r rt) sv1 = (resp, sv')"
      using gate_requires_auth by blast
    from empty_login [OF set empty this] show ?thesis using quiet.rel_trans [OF run(1)] by blast
  qed
qed

definition fresh_settings :: "db mount_settings" where
  "fresh_settings = mount_options plain_lib (\<lambda>_. [])"

lemma fresh_install_locked_witness:
  "\<exists>e. fst (serve (sqlite_store plain_lib) fresh_settings False sample_env sample_get
     (api_run plain_lib fresh_settings False [AServe sample_env sample_get] sample_server)) \<in>
   {write_error 401 e, write_error 500 e}"
proof -
  define il :: "nat installation" where "il = \<lparr>il_dsn =
    fallback [] ''file:signalwatch.db?_pragma=journal_mode(WAL)&_pragma=busy_timeout(5000)'',
    il_addr = fallback [] ''127.0.0.1:8080'', il_channels = [], il_event_name = [], il_scrape = [],
    il_pruner = None, il_settings = fresh_settings\<rparr>"
  have inst: "install plain_lib (\<lambda>_. []) (\<lambda>_. undefined) empty_config = Inr il"
    by (simp add: install_def store_dsn_def empty_config_def il_def fresh_settings_def)
  have set: "il_settings il = fresh_settings" by (simp add: il_def)
  have rt: "mk_route ''GET'' ''/v1/rules'' scope_read ''listRules'' \<in> set (all_routes fresh_settings)"
    by (simp add: all_routes_def gated_routes_def mk_route_def)
  show ?thesis
    using conjunct2 [OF fresh_install_locked [OF inst refl _ _ surjective_pairing], of sample_server]
      rt sample_route(2,3) set
    by (force simp: sample_server_def empty_db_def)
qed

section \<open>The command line client\<close>















end
