(* ===== verification/Telemetry.thy ===== *)
theory Telemetry
  imports Channels
begin

text \<open>
  internal/observability: what Setup makes of the environment, and the span around every Send of a
  channel. The OpenTelemetry SDK is the outcome of its constructors; a span is what was recorded
  in it. \<open>getenv\<close> is os.Getenv.
\<close>

section \<open>Setup\<close>

datatype exporter = OtlpHttp | OtlpGrpc | StdoutPretty

text \<open>Without an exporter only the propagation of trace contexts is set up.\<close>

datatype tracing = PropagateOnly | Exporting exporter string string

definition build_exporter ::
  "golib \<Rightarrow> (string \<Rightarrow> string) \<Rightarrow> (exporter \<Rightarrow> unit result) \<Rightarrow> string \<Rightarrow> exporter result" where
  "build_exporter lib getenv create name =
     (if name = ''otlp'' then
        (let p1 = to_lower (trim_space (getenv ''OTEL_EXPORTER_OTLP_PROTOCOL''));
             protocol = (if p1 = '''' then to_lower (trim_space (getenv ''OTEL_EXPORTER_OTLP_TRACES_PROTOCOL''))
                         else p1)
         in if protocol = '''' \<or> protocol = ''http/protobuf'' then res_map (\<lambda>_. OtlpHttp) (create OtlpHttp)
            else if protocol = ''grpc'' then res_map (\<lambda>_. OtlpGrpc) (create OtlpGrpc)
            else Inl (ErrNew (''unsupported OTEL_EXPORTER_OTLP_PROTOCOL '' @ lib_quote lib protocol @
                   '' (want http/protobuf or grpc)'')))
      else if name = ''stdout'' then res_map (\<lambda>_. StdoutPretty) (create StdoutPretty)
      else Inl (ErrNew (''unsupported OTEL_TRACES_EXPORTER '' @ lib_quote lib name @
             '' (want none, otlp, or stdout)'')))"

text \<open>
  The service name and the version of the resource. \<open>detect\<close> is the error of resource.New, with
  whether it is ErrPartialResource, which is not fatal.
\<close>

definition build_resource ::
  "(string \<Rightarrow> string) \<Rightarrow> (string \<Rightarrow> string \<Rightarrow> (go_error \<times> bool) option) \<Rightarrow> string \<Rightarrow> (string \<times> string) result" where
  "build_resource getenv detect version =
     (let n = trim_space (getenv ''OTEL_SERVICE_NAME'');
          service = (if n = '''' then ''signalwatch'' else n);
          v = trim_space version;
          vers = (if v = '''' then ''dev'' else v)
      in case detect service vers of
           None \<Rightarrow> Inr (service, vers)
         | Some (e, partial) \<Rightarrow> if partial then Inr (service, vers) else Inl e)"

definition otel_setup ::
  "golib \<Rightarrow> (string \<Rightarrow> string) \<Rightarrow> (exporter \<Rightarrow> unit result) \<Rightarrow> (string \<Rightarrow> string \<Rightarrow> (go_error \<times> bool) option)
   \<Rightarrow> string \<Rightarrow> tracing result" where
  "otel_setup lib getenv create detect version =
     (let name = to_lower (trim_space (getenv ''OTEL_TRACES_EXPORTER''))
      in if name = '''' \<or> name = ''none'' then Inr PropagateOnly
         else res_bind (res_wrap ''observability: build exporter'' (build_exporter lib getenv create name)) (\<lambda>ex.
           res_bind (res_wrap ''observability: build resource'' (build_resource getenv detect version)) (\<lambda>(s, v).
             Inr (Exporting ex s v))))"

section \<open>Traced channels\<close>

record span =
  sp_name :: string
  sp_attributes :: "(string \<times> string) list"
  sp_error :: "go_error option"

type_synonym traced_send = "nat \<Rightarrow> channel_notification \<Rightarrow> go_error option \<times> span"

definition traced_channel_send :: "string \<Rightarrow> channel_send \<Rightarrow> traced_send" where
  "traced_channel_send name inner k n =
     (let err = inner k n
      in (err, \<lparr>sp_name = ''signalwatch.channel.send'',
            sp_attributes = [(''signalwatch.channel.name'', name),
              (''signalwatch.incident.id'', cn_incident_id n), (''signalwatch.rule.id'', cn_rule_id n),
              (''signalwatch.rule.name'', cn_rule_name n), (''signalwatch.notification.kind'', cn_kind n),
              (''signalwatch.severity'', cn_severity n)],
            sp_error = err\<rparr>))"

text \<open>A channel is its name and its Send; a nil channel stays nil.\<close>

definition traced_channel :: "(string \<times> channel_send) option \<Rightarrow> (string \<times> traced_send) option" where
  "traced_channel inner = map_option (\<lambda>(name, send). (name, traced_channel_send name send)) inner"

definition trace_channels ::
  "(string \<times> (string \<times> channel_send) option) list \<Rightarrow> (string \<times> (string \<times> traced_send) option) list" where
  "trace_channels m = map (\<lambda>(k, v). (k, traced_channel v)) m"

text \<open>What the dispatcher sees of a traced channel.\<close>

definition seen_send :: "traced_send \<Rightarrow> channel_send" where
  "seen_send tc k n = fst (tc k n)"

lemma traced_transparent [simp]: "seen_send (traced_channel_send name inner) = inner"
  by (simp add: fun_eq_iff seen_send_def traced_channel_send_def Let_def)

lemma traced_error: "sp_error (snd (traced_channel_send name inner k n)) = inner k n"
  by (simp add: traced_channel_send_def Let_def)

lemma trace_channels_lookup:
  "map_of (trace_channels m) k = map_option traced_channel (map_of m k)"
  by (induction m) (auto simp: trace_channels_def)

text \<open>The channels of the dispatcher are those of the options, names and nil channels included.\<close>

lemma trace_channels_transparent:
  "map_option (map_option (\<lambda>(name, tc). (name, seen_send tc))) (map_of (trace_channels m) k) = map_of m k"
  by (auto simp: trace_channels_lookup traced_channel_def option.map_comp comp_def case_prod_beta
      intro!: option.map_ident_strong)

lemma otel_setup_ok_iff:
  assumes "\<And>ex. is_ok (create ex)" and "\<And>s v. detect s v = None"
  shows "is_ok (otel_setup lib getenv create detect version) \<longleftrightarrow>
    (let name = to_lower (trim_space (getenv ''OTEL_TRACES_EXPORTER''));
         p1 = to_lower (trim_space (getenv ''OTEL_EXPORTER_OTLP_PROTOCOL''));
         p = (if p1 = '''' then to_lower (trim_space (getenv ''OTEL_EXPORTER_OTLP_TRACES_PROTOCOL'')) else p1)
     in name \<in> {'''', ''none'', ''stdout''} \<or> name = ''otlp'' \<and> p \<in> {'''', ''http/protobuf'', ''grpc''})"
proof -
  have made: "\<exists>u. create ex = Inr u" for ex using assms(1) [of ex] by (simp add: is_ok_iff)
  show ?thesis
    using made [of OtlpHttp] made [of OtlpGrpc] made [of StdoutPretty]
    by (auto simp: otel_setup_def build_exporter_def build_resource_def assms(2) Let_def res_map_def is_ok_iff)
qed

end
