(* ===== verification/Service.thy ===== *)
theory Service
  imports Command_Props Telemetry
begin

text \<open>
  run() of cmd/signalwatch from the configuration to the exit, with what it acquires and what it
  releases on every way out, and main() of both commands. The answers of the database, of the
  OpenTelemetry SDK and of the listening server are arguments; a signal ends the service.
\<close>

section \<open>The server command\<close>

text \<open>What run() does to the outside, in order.\<close>

datatype run_action =
    StoreOpened string | StoreClosed
  | ContextCancelled | TracesFlushed
  | EngineStarted | EngineClosed
  | PrunerStarted
  | Listening string | ServerShutdown

text \<open>The select of run(): a signal, or the end of ListenAndServe; ErrServerClosed counts as nil.\<close>

datatype server_end = Signalled | ServerEnded "go_error option"

record run_env =
  rn_config :: "config result"
  rn_open :: "string \<Rightarrow> unit result"
  rn_exporter :: "exporter \<Rightarrow> unit result"
  rn_detect :: "string \<Rightarrow> string \<Rightarrow> (go_error \<times> bool) option"
  rn_end :: server_end

type_synonym run_result = "unit result \<times> run_action list \<times> db \<times> rule_cache"

text \<open>An action before the rest, and a deferred one after it whatever the rest returns.\<close>

definition doing :: "run_action \<Rightarrow> run_result \<Rightarrow> run_result" where
  "doing a rest = (case rest of (r, acts, dm) \<Rightarrow> (r, a # acts, dm))"

definition deferring :: "run_action \<Rightarrow> run_result \<Rightarrow> run_result" where
  "deferring a rest = (case rest of (r, acts, dm) \<Rightarrow> (r, acts @ [a], dm))"

definition run_failed :: "go_error \<Rightarrow> db \<times> rule_cache \<Rightarrow> run_result" where
  "run_failed e dm = (Inl e, [], dm)"

text \<open>The server runs until it ends or a signal comes; only without an error is the engine closed.\<close>

definition run_server :: "run_env \<Rightarrow> string \<Rightarrow> db \<times> rule_cache \<Rightarrow> run_result" where
  "run_server env addr dm =
     doing (Listening addr)
       (case rn_end env of
          ServerEnded (Some e) \<Rightarrow> run_failed e dm
        | _ \<Rightarrow> doing ServerShutdown (doing EngineClosed (Inr (), [], dm)))"

definition run_retention ::
  "golib \<Rightarrow> (archive_sink \<Rightarrow> 'a archiver) \<Rightarrow> run_env \<Rightarrow> config \<Rightarrow> db \<times> rule_cache \<Rightarrow> run_result" where
  "run_retention lib arch env cfg dm =
     (let serve_on = run_server env (fallback (yg_addr cfg) ''127.0.0.1:8080'') dm
      in case yg_retention cfg of
           None \<Rightarrow> serve_on
         | Some rc \<Rightarrow>
             (case build_pruner lib (sqlite_store lib) arch rc of
                Inl e \<Rightarrow> run_failed (ErrWrap ''retention'' e) dm
              | Inr None \<Rightarrow> serve_on
              | Inr (Some p) \<Rightarrow> doing PrunerStarted serve_on))"

definition run_engine ::
  "golib \<Rightarrow> (string \<Rightarrow> string) \<Rightarrow> (archive_sink \<Rightarrow> 'a archiver) \<Rightarrow> (db, unit) op \<Rightarrow> run_env \<Rightarrow> config
   \<Rightarrow> db \<Rightarrow> run_result" where
  "run_engine lib getenv arch migrate env cfg d =
     (case engine_new \<lparr>eo_has_store = True, eo_max_window_span = 0\<rparr> of
        Inl e \<Rightarrow> run_failed e (d, [])
      | Inr eng \<Rightarrow>
          deferring ContextCancelled
            (case otel_setup lib getenv (rn_exporter env) (rn_detect env) '''' of
               Inl e \<Rightarrow> run_failed (ErrWrap ''observability'' e) (d, [])
             | Inr _ \<Rightarrow>
                 deferring TracesFlushed
                   (case engine_start lib (sqlite_store lib) migrate (eng, (d, [])) of
                      (Inl e, (_, dm)) \<Rightarrow> run_failed (ErrWrap ''engine start'' e) dm
                    | (Inr _, (_, dm)) \<Rightarrow> doing EngineStarted (run_retention lib arch env cfg dm))))"

definition run_service ::
  "golib \<Rightarrow> (string \<Rightarrow> string) \<Rightarrow> (archive_sink \<Rightarrow> 'a archiver) \<Rightarrow> (db, unit) op \<Rightarrow> run_env \<Rightarrow> db \<Rightarrow> run_result" where
  "run_service lib getenv arch migrate env d =
     (case rn_config env of
        Inl e \<Rightarrow> run_failed (ErrWrap ''config'' e) (d, [])
      | Inr cfg \<Rightarrow>
          (case store_dsn lib cfg of
             Inl e \<Rightarrow> run_failed e (d, [])
           | Inr dsn \<Rightarrow>
               (case rn_open env dsn of
                  Inl e \<Rightarrow> run_failed (ErrWrap ''open store'' e) (d, [])
                | Inr _ \<Rightarrow>
                    doing (StoreOpened dsn) (deferring StoreClosed
                      (case build_channels lib getenv (yg_channels cfg) [] of
                         Inl e \<Rightarrow> run_failed e (d, [])
                       | Inr chs \<Rightarrow> run_engine lib getenv arch migrate env cfg d)))))"

text \<open>main(): the exit code and the message on the standard error output.\<close>

definition server_main :: "unit result \<Rightarrow> int \<times> string" where
  "server_main r = (case r of Inl e \<Rightarrow> (1, ''signalwatch: '' @ err_text e) | Inr _ \<Rightarrow> (0, ''''))"

section \<open>The client command\<close>

text \<open>
  \<open>client\<close> is what the server answers to a request: the status and the body. The second component
  of an outcome is what is printed; \<open>indent\<close> is json.Indent.
\<close>

definition do_req ::
  "(string \<Rightarrow> string \<Rightarrow> string option \<Rightarrow> (int \<times> string) result) \<Rightarrow> (string \<Rightarrow> string result)
   \<Rightarrow> string \<Rightarrow> string \<Rightarrow> string option \<Rightarrow> unit result \<times> string" where
  "do_req client indent m url body =
     (case client m url body of
        Inl e \<Rightarrow> (Inl e, '''')
      | Inr (status, out) \<Rightarrow>
          (case ctl_result m url status out of
             Inl e \<Rightarrow> (Inl e, '''')
           | Inr _ \<Rightarrow>
               if out = '''' then (Inr (), '''')
               else (Inr (), (case indent out of Inl _ \<Rightarrow> out | Inr pretty \<Rightarrow> pretty) @ [CHR 0x0A])))"

definition ctl_main ::
  "golib \<Rightarrow> (string \<Rightarrow> string \<Rightarrow> string option \<Rightarrow> (int \<times> string) result) \<Rightarrow> (string \<Rightarrow> string result)
   \<Rightarrow> string result \<Rightarrow> string \<Rightarrow> string list \<Rightarrow> int \<times> string" where
  "ctl_main lib client indent stdin addr args =
     (case args of
        [] \<Rightarrow> (2, '''')
      | resource # rest \<Rightarrow>
          (case (case ctl_dispatch lib stdin resource rest of
                   CtlFail e \<Rightarrow> (Inl e, '''')
                 | CtlNothing \<Rightarrow> (Inr (), '''')
                 | CtlSend m p body \<Rightarrow> do_req client indent m (addr @ p) body) of
             (Inl e, out) \<Rightarrow> (1, out)
           | (Inr _, out) \<Rightarrow> (0, out)))"

section \<open>What is released\<close>

lemmas run_defs =
  run_service_def run_engine_def run_retention_def run_server_def run_failed_def doing_def deferring_def Let_def

lemma run_failed_acts [simp]: "run_failed e dm = (Inl e, [], dm)"
  by (simp add: run_failed_def)

lemma deferring_pair [simp]: "deferring a (r, acts, dm) = (r, acts @ [a], dm)"
  by (simp add: deferring_def)

lemma doing_pair [simp]: "doing a (r, acts, dm) = (r, a # acts, dm)"
  by (simp add: doing_def)

definition started_actions :: "'a installation \<Rightarrow> run_action list" where
  "started_actions il =
     (case il_pruner il of None \<Rightarrow> [] | Some p \<Rightarrow> [PrunerStarted]) @
     [Listening (il_addr il), ServerShutdown, EngineClosed]"

lemma run_server_outcome:
  assumes "run_server env addr dm = (r, acts, dm')"
  shows "dm' = dm \<and> StoreClosed \<notin> set acts \<and> (EngineClosed \<in> set acts \<longleftrightarrow> is_ok r) \<and>
    (is_ok r \<longleftrightarrow> (\<forall>err. rn_end env \<noteq> ServerEnded (Some err))) \<and>
    (is_ok r \<longrightarrow> acts = [Listening addr, ServerShutdown, EngineClosed])"
  using assms by (auto simp: run_server_def split: server_end.splits option.splits)

lemma run_retention_outcome:
  assumes "store_dsn lib cfg = Inr dsn" and "build_channels lib getenv (yg_channels cfg) [] = Inr chs"
    and "run_retention lib arch env cfg dm = (r, acts, dm')"
  shows "dm' = dm \<and> StoreClosed \<notin> set acts \<and> (EngineClosed \<in> set acts \<longleftrightarrow> is_ok r) \<and>
    (is_ok r \<longleftrightarrow> is_ok (install lib getenv arch cfg) \<and> (\<forall>err. rn_end env \<noteq> ServerEnded (Some err))) \<and>
    (\<forall>il. is_ok r \<longrightarrow> install lib getenv arch cfg = Inr il \<longrightarrow> acts = started_actions il \<and> il_dsn il = dsn)"
proof (cases "run_server env (fallback (yg_addr cfg) ''127.0.0.1:8080'') dm")
  case (fields r1 acts1 dm1)
  show ?thesis
  proof (cases "yg_retention cfg")
    case None
    then show ?thesis
      using assms run_server_outcome [OF fields] fields
      by (auto simp: run_retention_def install_def started_actions_def)
  next
    case (Some rc)
    show ?thesis
    proof (cases "build_pruner lib (sqlite_store lib) arch rc")
      case (Inl e)
      then show ?thesis using assms Some by (auto simp: run_retention_def install_def)
    next
      case (Inr p)
      then show ?thesis
        using assms Some run_server_outcome [OF fields] fields
        by (cases p) (auto simp: run_retention_def install_def started_actions_def)
    qed
  qed
qed

text \<open>Whether telemetry and engine start.\<close>

definition start_ok ::
  "golib \<Rightarrow> (string \<Rightarrow> string) \<Rightarrow> (db, unit) op \<Rightarrow> run_env \<Rightarrow> db \<Rightarrow> bool" where
  "start_ok lib getenv migrate env d \<longleftrightarrow>
     is_ok (otel_setup lib getenv (rn_exporter env) (rn_detect env) '''') \<and>
     is_ok (fst (engine_start lib (sqlite_store lib) migrate
       (\<lparr>eg_max_span = 24 * hour, eg_started = False, eg_sink = None\<rparr>, (d, []))))"

lemma run_engine_outcome:
  assumes "store_dsn lib cfg = Inr dsn" and "build_channels lib getenv (yg_channels cfg) [] = Inr chs"
    and "run_engine lib getenv arch migrate env cfg d = (r, acts, dm')"
  shows "StoreClosed \<notin> set acts \<and> (EngineClosed \<in> set acts \<longleftrightarrow> is_ok r) \<and>
    (is_ok r \<longleftrightarrow> start_ok lib getenv migrate env d \<and> is_ok (install lib getenv arch cfg) \<and>
       (\<forall>err. rn_end env \<noteq> ServerEnded (Some err))) \<and>
    (\<forall>il. is_ok r \<longrightarrow> install lib getenv arch cfg = Inr il \<longrightarrow>
       acts = EngineStarted # started_actions il @ [TracesFlushed, ContextCancelled] \<and> il_dsn il = dsn)"
proof (cases "otel_setup lib getenv (rn_exporter env) (rn_detect env) ''''")
  case (Inl e)
  then show ?thesis using assms(3) by (auto simp: run_engine_def engine_new_def start_ok_def)
next
  case (Inr tr)
  obtain r1 e1 dm1 where start: "engine_start lib (sqlite_store lib) migrate
      (\<lparr>eg_max_span = 24 * hour, eg_started = False, eg_sink = None\<rparr>, (d, [])) = (r1, (e1, dm1))"
    by (metis prod.exhaust)
  obtain r2 acts2 dm2 where rest: "run_retention lib arch env cfg dm1 = (r2, acts2, dm2)" by (metis prod.exhaust)
  show ?thesis
  proof (cases r1)
    case (Inl e)
    then show ?thesis
      using assms(3) Inr start by (auto simp: run_engine_def engine_new_def start_ok_def)
  next
    case ok: (Inr u)
    show ?thesis
      using assms(3) Inr start ok rest run_retention_outcome [OF assms(1,2) rest]
      by (auto simp: run_engine_def engine_new_def start_ok_def)
  qed
qed

section \<open>The outcome of a run\<close>

text \<open>
  C31: The server command ends without an error exactly when its configuration can be installed,
  the database opens, telemetry and engine start, and the listening ends without an error; it has
  then done and released everything in order. Once the store was opened it is closed last on
  every way out. The engine is closed exactly when the command succeeds: an error after its start,
  such as a bad retention section or an address in use, leaves it running.
\<close>

theorem run_outcome:
  assumes "run_service lib getenv arch migrate env d = (r, acts, dm)"
  shows "(is_ok r \<longleftrightarrow> (\<exists>cfg il. rn_config env = Inr cfg \<and> install lib getenv arch cfg = Inr il \<and>
        is_ok (rn_open env (il_dsn il)) \<and> start_ok lib getenv migrate env d \<and>
        (\<forall>err. rn_end env \<noteq> ServerEnded (Some err)))) \<and>
    (\<forall>cfg il. is_ok r \<longrightarrow> rn_config env = Inr cfg \<longrightarrow> install lib getenv arch cfg = Inr il \<longrightarrow>
        acts = [StoreOpened (il_dsn il), EngineStarted] @ started_actions il @
          [TracesFlushed, ContextCancelled, StoreClosed]) \<and>
    (acts \<noteq> [] \<longrightarrow> (\<exists>dsn. hd acts = StoreOpened dsn) \<and> last acts = StoreClosed \<and> StoreClosed \<notin> set (butlast acts)) \<and>
    (EngineClosed \<in> set acts \<longleftrightarrow> is_ok r)"
proof (cases "rn_config env")
  case (Inl e)
  then show ?thesis using assms by (auto simp: run_service_def)
next
  case config: (Inr cfg)
  show ?thesis
  proof (cases "store_dsn lib cfg")
    case (Inl e)
    then show ?thesis using assms config by (auto simp: run_service_def install_def)
  next
    case dsn: (Inr dsn)
    have il_dsn: "il_dsn il = dsn" if "install lib getenv arch cfg = Inr il" for il
      using that dsn by (auto simp: install_def res_bind_Inr_iff)
    show ?thesis
    proof (cases "rn_open env dsn")
      case (Inl e)
      then show ?thesis using assms config dsn il_dsn by (auto simp: run_service_def)
    next
      case opened: (Inr u)
      show ?thesis
      proof (cases "build_channels lib getenv (yg_channels cfg) []")
        case (Inl e)
        then show ?thesis using assms config dsn opened by (auto simp: run_service_def install_def)
      next
        case chs: (Inr chs)
        obtain r1 acts1 dm1 where rest: "run_engine lib getenv arch migrate env cfg d = (r1, acts1, dm1)"
          by (metis prod.exhaust)
        have "r = r1" "acts = StoreOpened dsn # acts1 @ [StoreClosed]"
          using assms config dsn opened chs rest by (auto simp: run_service_def)
        then show ?thesis
          using run_engine_outcome [OF dsn chs rest] config opened il_dsn
          by (auto simp: is_ok_iff butlast_append)
      qed
    qed
  qed
qed

text \<open>An empty configuration, no environment variables, a signal after a while.\<close>

definition quiet_run :: run_env where
  "quiet_run = \<lparr>rn_config = Inr empty_config, rn_open = (\<lambda>_. Inr ()), rn_exporter = (\<lambda>_. Inr ()),
     rn_detect = (\<lambda>_ _. None), rn_end = Signalled\<rparr>"

lemma run_outcome_witness:
  "\<exists>dm. run_service plain_lib (\<lambda>_. []) (\<lambda>_. undefined :: nat archiver) (op_return ()) quiet_run empty_db =
     (Inr (), [StoreOpened ''file:signalwatch.db?_pragma=journal_mode(WAL)&_pragma=busy_timeout(5000)'',
        EngineStarted, Listening ''127.0.0.1:8080'', ServerShutdown, EngineClosed,
        TracesFlushed, ContextCancelled, StoreClosed], dm)"
proof -
  define il :: "nat installation" where "il = \<lparr>il_dsn =
    fallback [] ''file:signalwatch.db?_pragma=journal_mode(WAL)&_pragma=busy_timeout(5000)'',
    il_addr = fallback [] ''127.0.0.1:8080'', il_channels = [], il_event_name = [], il_scrape = [],
    il_pruner = None, il_settings = mount_options plain_lib (\<lambda>_. [])\<rparr>"
  have inst: "install plain_lib (\<lambda>_. []) (\<lambda>_. undefined) empty_config = Inr il"
    by (simp add: install_def store_dsn_def empty_config_def il_def)
  have names: "to_lower (trim_space []) = []" by code_simp
  have start: "start_ok plain_lib (\<lambda>_. []) (op_return ()) quiet_run empty_db"
    by (simp add: start_ok_def otel_setup_def names engine_start_def op_bind_def op_wrap_def on_rules_def
        reload_all_def lite_rule_list_def db_query_no_fault empty_db_def scan_all_def)
  obtain r acts dm where run: "run_service plain_lib (\<lambda>_. []) (\<lambda>_. undefined :: nat archiver) (op_return ())
      quiet_run empty_db = (r, acts, dm)"
    by (metis prod.exhaust)
  note outcome = run_outcome [OF run]
  have "is_ok r"
    using outcome inst start by (auto simp: quiet_run_def)
  then show ?thesis
    using outcome inst run by (auto simp: quiet_run_def is_ok_iff started_actions_def il_def fallback_def)
qed

end
