(* ===== verification/Store_Suite.thy ===== *)
theory Store_Suite
  imports Store_Iface
begin

text \<open>
  internal/store/storetest: the conformance suite every driver runs. A test is a program over the
  interface of Store_Iface, for any driver: it ends with a result, an error when the test has
  failed or panicked. \<open>now i\<close> is the clock reading of the \<open>i\<close>-th call of the test that takes one.
\<close>

section \<open>Assertions\<close>

text \<open>
  \<open>must\<close>: a call whose error ends the test (t.Fatalf). \<open>must_fail\<close>: one that has to return an
  error. \<open>ignoring\<close>: a call whose error is dropped; \<open>z\<close> is the value returned with an error.
  \<open>fatal_unless\<close>: t.Fatalf on a condition. \<open>error_unless\<close>: t.Errorf, the rest of the test still
  runs. \<open>deref\<close>: a field of a pointer is read, which panics on nil.
\<close>

definition must :: "string \<Rightarrow> ('s, 'a) op \<Rightarrow> ('s, 'a) op" where
  "must msg m = op_wrap msg m"

definition must_fail :: "string \<Rightarrow> ('s, 'a) op \<Rightarrow> ('s, unit) op" where
  "must_fail msg m s = (case m s of (Inl e, s') \<Rightarrow> (Inr (), s') | (Inr x, s') \<Rightarrow> (Inl (ErrNew msg), s'))"

definition ignoring :: "'a \<Rightarrow> ('s, 'a) op \<Rightarrow> ('s, 'a) op" where
  "ignoring z m s = (case m s of (Inl e, s') \<Rightarrow> (Inr z, s') | (Inr x, s') \<Rightarrow> (Inr x, s'))"

definition fatal_unless :: "string \<Rightarrow> bool \<Rightarrow> ('s, unit) op \<Rightarrow> ('s, unit) op" where
  "fatal_unless msg b rest = (if b then rest else op_fail (ErrNew msg))"

definition error_unless :: "string \<Rightarrow> bool \<Rightarrow> ('s, unit) op \<Rightarrow> ('s, unit) op" where
  "error_unless msg b rest = (if b then rest else op_bind rest (\<lambda>_. op_fail (ErrNew msg)))"

definition deref :: "'a option \<Rightarrow> ('a \<Rightarrow> ('s, unit) op) \<Rightarrow> ('s, unit) op" where
  "deref p k = (case p of None \<Rightarrow> op_fail (ErrPanic ''nil pointer dereference'') | Some x \<Rightarrow> k x)"

definition run_unit :: "('s, 'a) op \<Rightarrow> ('s, unit) op" where
  "run_unit m = op_bind m (\<lambda>_. op_return ())"

section \<open>Fixtures\<close>

definition make_rule :: "string \<Rightarrow> rule" where
  "make_rule i =
     \<lparr>r_id = i, r_name = ''rule-'' @ i, r_description = '''', r_enabled = True, r_severity = ''warning'',
      r_labels = [(''team'', ''ops'')], r_input_ref = ''events'',
      r_condition = Some (CPattern \<lparr>pm_field = ''level'', pm_kind = ''contains'', pm_pattern = ''ERROR''\<rparr>),
      r_schedule = 0, r_created_at = zero_time, r_updated_at = zero_time\<rparr>"

text \<open>Literals of the entities, with the fields that are not named at their zero values.\<close>

definition a_subscriber :: "string \<Rightarrow> string \<Rightarrow> subscriber" where
  "a_subscriber i name =
     \<lparr>sb_id = i, sb_name = name, sb_channels = [], sb_created_at = zero_time, sb_updated_at = zero_time\<rparr>"

definition a_subscription :: "string \<Rightarrow> string \<Rightarrow> string \<Rightarrow> subscription" where
  "a_subscription i sb rid =
     \<lparr>su_id = i, su_subscriber_id = sb, su_rule_id = rid, su_label_selector = [], su_dwell = 0,
      su_repeat_interval = 0, su_notify_on_resolve = False, su_one_shot = False, su_channel_filter = [],
      su_created_at = zero_time, su_updated_at = zero_time\<rparr>"

definition an_incident :: "string \<Rightarrow> string \<Rightarrow> int \<Rightarrow> incident" where
  "an_incident i rid ms =
     \<lparr>in_id = i, in_rule_id = rid, in_triggered_at = of_unix_milli ms, in_resolved_at = zero_time,
      in_last_value = ''''\<rparr>"

definition a_sub_state :: "string \<Rightarrow> string \<Rightarrow> int \<Rightarrow> sub_state" where
  "a_sub_state i sid n =
     \<lparr>ss_incident_id = i, ss_subscription_id = sid, ss_last_notified_at = zero_time,
      ss_notify_count = n, ss_resolution_sent = False\<rparr>"

definition make_token :: "string \<Rightarrow> token" where
  "make_token i =
     \<lparr>tk_id = i, tk_name = ''token-'' @ i, tk_hash = ''hash-'' @ i, tk_scopes = [scope_read, scope_admin],
      tk_created_at = zero_time, tk_expires_at = None, tk_last_used_at = None, tk_revoked = False\<rparr>"

definition explicit_time :: time where
  "explicit_time = of_unix_milli 1700000000000"

text \<open>The rule and the subscriber the rows of the other tables refer to.\<close>

definition seed_rule_sub :: "'s store \<Rightarrow> (nat \<Rightarrow> time) \<Rightarrow> string \<Rightarrow> ('s, unit) op" where
  "seed_rule_sub S now rid =
     op_bind (must ''Rules.Create'' (rr_create (st_rules S) (now 0) (make_rule rid))) (\<lambda>_.
     run_unit (must ''Subscribers.Create'' (sbr_create (st_subscribers S) (now 1)
        (a_subscriber (''sub-'' @ rid) (''Sub for '' @ rid)))))"

type_synonym 's suite_test = "'s store \<Rightarrow> (nat \<Rightarrow> time) \<Rightarrow> ('s, unit) op"

section \<open>Rules\<close>

definition test_rules_crud :: "'s suite_test" where
  "test_rules_crud S now =
     op_bind (must ''Create'' (rr_create (st_rules S) (now 0) (make_rule ''r1''))) (\<lambda>_.
     op_bind (must ''Get'' (rr_get (st_rules S) ''r1'')) (\<lambda>got.
     fatal_unless ''Get round-trip'' (case got of None \<Rightarrow> False
        | Some x \<Rightarrow> r_name x = ''rule-r1'' \<and> r_input_ref x = ''events'')
     (deref got (\<lambda>x.
     error_unless ''Labels lost in round-trip'' (label_at (r_labels x) ''team'' = ''ops'')
     (op_bind (must ''Update'' (rr_update (st_rules S) (now 1)
          (x\<lparr>r_name := ''rule-r1-renamed'', r_enabled := False\<rparr>))) (\<lambda>_.
      op_bind (ignoring None (rr_get (st_rules S) ''r1'')) (\<lambda>got2.
      deref got2 (\<lambda>y.
      fatal_unless ''Update not persisted'' (r_name y = ''rule-r1-renamed'' \<and> \<not> r_enabled y)
      (op_bind (must ''Delete'' (rr_delete (st_rules S) ''r1'')) (\<lambda>_.
       op_bind (must ''Get after delete'' (rr_get (st_rules S) ''r1'')) (\<lambda>miss.
       fatal_unless ''Get after delete: want nil'' (miss = None) (op_return ()))))))))))))"

definition test_rules_get_missing :: "'s suite_test" where
  "test_rules_get_missing S now =
     op_bind (must ''Get missing: want nil err'' (rr_get (st_rules S) ''nope'')) (\<lambda>got.
     fatal_unless ''Get missing: want nil rule'' (got = None) (op_return ()))"

definition test_rules_list :: "'s suite_test" where
  "test_rules_list S now =
     (let a = (make_rule ''a'')\<lparr>r_name := ''a'', r_input_ref := ''events''\<rparr>;
          b = (make_rule ''b'')\<lparr>r_name := ''b'', r_input_ref := ''metrics''\<rparr>;
          c = (make_rule ''c'')\<lparr>r_name := ''c'', r_input_ref := ''events'', r_enabled := False\<rparr>
      in op_bind (op_for (\<lambda>(i, x). run_unit (must (''Create '' @ r_id x) (rr_create (st_rules S) (now i) x)))
           [(0, a), (1, b), (2, c)]) (\<lambda>_.
         op_bind (must ''List'' (rr_list (st_rules S))) (\<lambda>xs.
         fatal_unless ''List: want 3'' (length xs = 3)
         (op_bind (must ''ListByInput'' (rr_list_by_input (st_rules S) ''events'')) (\<lambda>ys.
          fatal_unless ''ListByInput: want [a]'' (length ys = 1 \<and> r_id (hd ys) = ''a'') (op_return ()))))))"

text \<open>Create fills in the times of the rule it is given, which the second call gets.\<close>

definition test_rules_duplicate :: "'s suite_test" where
  "test_rules_duplicate S now =
     op_bind (must ''first Create'' (rr_create (st_rules S) (now 0) (make_rule ''dup''))) (\<lambda>x.
     must_fail ''duplicate Create: want UNIQUE constraint error'' (rr_create (st_rules S) (now 1) x))"

definition test_rules_explicit_created_at :: "'s suite_test" where
  "test_rules_explicit_created_at S now =
     op_bind (must ''Create'' (rr_create (st_rules S) (now 0)
        ((make_rule ''with-ts'')\<lparr>r_created_at := explicit_time\<rparr>))) (\<lambda>_.
     op_bind (ignoring None (rr_get (st_rules S) ''with-ts'')) (\<lambda>got.
     deref got (\<lambda>x. fatal_unless ''CreatedAt'' (r_created_at x = explicit_time) (op_return ()))))"

section \<open>Subscribers\<close>

definition test_subscribers_crud :: "'s suite_test" where
  "test_subscribers_crud S now =
     op_bind (op_for (\<lambda>(i, s). run_unit (must (''Create '' @ sb_id s) (sbr_create (st_subscribers S) (now i) s)))
       [(0, (a_subscriber ''s1'' ''Alpha'')\<lparr>sb_channels := [\<lparr>cb_channel = ''ch'', cb_address = ''a'' @ CHR 0x40 # ''x''\<rparr>]\<rparr>),
        (1, a_subscriber ''s2'' ''Bravo'')]) (\<lambda>_.
     op_bind (must ''Get'' (sbr_get (st_subscribers S) ''s1'')) (\<lambda>got.
     fatal_unless ''Get'' (got \<noteq> None)
     (deref got (\<lambda>x.
     fatal_unless ''Channels lost'' (length (sb_channels x) = 1 \<and> cb_channel (hd (sb_channels x)) = ''ch'')
     (op_bind (must ''Update'' (sbr_update (st_subscribers S) (now 2) (x\<lparr>sb_name := ''Alpha v2''\<rparr>))) (\<lambda>_.
      op_bind (ignoring None (sbr_get (st_subscribers S) ''s1'')) (\<lambda>got2.
      deref got2 (\<lambda>y.
      fatal_unless ''Update not persisted'' (sb_name y = ''Alpha v2'')
      (op_bind (must ''List'' (sbr_list (st_subscribers S))) (\<lambda>xs.
       fatal_unless ''List: want 2'' (length xs = 2)
       (op_bind (must ''Delete'' (sbr_delete (st_subscribers S) ''s1'')) (\<lambda>_.
        op_bind (ignoring None (sbr_get (st_subscribers S) ''s1'')) (\<lambda>gone.
        fatal_unless ''Get after Delete'' (gone = None) (op_return ()))))))))))))))"

definition test_subscribers_get_missing :: "'s suite_test" where
  "test_subscribers_get_missing S now =
     op_bind (must ''Get missing'' (sbr_get (st_subscribers S) ''nope'')) (\<lambda>got.
     fatal_unless ''Get missing'' (got = None) (op_return ()))"

definition test_subscribers_explicit :: "'s suite_test" where
  "test_subscribers_explicit S now =
     op_bind (must ''Create'' (sbr_create (st_subscribers S) (now 0)
        ((a_subscriber ''s1'' ''A'')\<lparr>sb_created_at := explicit_time\<rparr>))) (\<lambda>s.
     op_bind (ignoring None (sbr_get (st_subscribers S) ''s1'')) (\<lambda>got.
     deref got (\<lambda>x.
     fatal_unless ''CreatedAt'' (sb_created_at x = explicit_time)
     (must_fail ''duplicate Subscriber Create: want UNIQUE constraint error''
        (sbr_create (st_subscribers S) (now 1) s)))))"

section \<open>Subscriptions\<close>

definition test_subscriptions_crud :: "'s suite_test" where
  "test_subscriptions_crud S now =
     op_bind (seed_rule_sub S now ''r1'') (\<lambda>_.
     op_bind (must ''Create'' (sur_create (st_subscriptions S) (now 2)
        ((a_subscription ''subscr-1'' ''sub-r1'' ''r1'')\<lparr>su_dwell := 2 * minute, su_repeat_interval := 5 * minute,
           su_notify_on_resolve := True, su_channel_filter := [''ch'']\<rparr>))) (\<lambda>_.
     op_bind (must ''Get'' (sur_get (st_subscriptions S) ''subscr-1'')) (\<lambda>got.
     fatal_unless ''Get'' (got \<noteq> None)
     (deref got (\<lambda>x.
     fatal_unless ''Subscription fields not round-tripped''
       (su_dwell x = 2 * minute \<and> su_repeat_interval x = 5 * minute \<and> su_notify_on_resolve x)
     (fatal_unless ''ChannelFilter lost'' (length (su_channel_filter x) = 1 \<and> hd (su_channel_filter x) = ''ch'')
     (op_bind (must ''Update'' (sur_update (st_subscriptions S) (now 3)
          (x\<lparr>su_repeat_interval := 10 * minute\<rparr>))) (\<lambda>_.
      op_bind (ignoring None (sur_get (st_subscriptions S) ''subscr-1'')) (\<lambda>got2.
      deref got2 (\<lambda>y.
      fatal_unless ''Update not persisted'' (su_repeat_interval y = 10 * minute)
      (op_bind (must ''List'' (sur_list (st_subscriptions S))) (\<lambda>xs.
       fatal_unless ''List'' (length xs = 1)
       (op_bind (must ''Delete'' (sur_delete (st_subscriptions S) ''subscr-1'')) (\<lambda>_.
        op_bind (ignoring None (sur_get (st_subscriptions S) ''subscr-1'')) (\<lambda>gone.
        fatal_unless ''Get after Delete'' (gone = None) (op_return ()))))))))))))))))"

definition test_subscriptions_list_for_rule :: "'s suite_test" where
  "test_subscriptions_list_for_rule S now =
     op_bind (seed_rule_sub S now ''r1'') (\<lambda>_.
     op_bind (must ''Create'' (sur_create (st_subscriptions S) (now 2)
        (a_subscription ''d'' ''sub-r1'' ''r1''))) (\<lambda>_.
     op_bind (must ''Create'' (sur_create (st_subscriptions S) (now 3)
        ((a_subscription ''m'' ''sub-r1'' '''')\<lparr>su_label_selector := [(''team'', ''ops'')]\<rparr>))) (\<lambda>_.
     op_bind (must ''Create'' (sur_create (st_subscriptions S) (now 4)
        ((a_subscription ''x'' ''sub-r1'' '''')\<lparr>su_label_selector := [(''team'', ''billing'')]\<rparr>))) (\<lambda>_.
     op_bind (must ''ListForRule'' (sur_list_for_rule (st_subscriptions S) ''r1'' [(''team'', ''ops'')])) (\<lambda>got.
     (let ids = map su_id got
      in error_unless ''missing matches'' (''d'' \<in> set ids \<and> ''m'' \<in> set ids)
         (error_unless ''non-matching selector included'' (''x'' \<notin> set ids) (op_return ()))))))))"

definition test_subscriptions_empty_selector_ignored :: "'s suite_test" where
  "test_subscriptions_empty_selector_ignored S now =
     op_bind (seed_rule_sub S now ''r1'') (\<lambda>_.
     op_bind (must ''Create'' (sur_create (st_subscriptions S) (now 2)
        ((a_subscription ''no-match'' ''sub-r1'' '''')\<lparr>su_label_selector := [(''will'', ''never-match'')]\<rparr>))) (\<lambda>_.
     op_bind (ignoring [] (sur_list_for_rule (st_subscriptions S) ''r1'' [(''team'', ''ops'')])) (\<lambda>got.
     op_for (\<lambda>s. fatal_unless ''selector with no matching key must not match'' (su_id s \<noteq> ''no-match'')
        (op_return ())) got)))"

definition test_subscriptions_explicit :: "'s suite_test" where
  "test_subscriptions_explicit S now =
     op_bind (seed_rule_sub S now ''r1'') (\<lambda>_.
     op_bind (must ''Create'' (sur_create (st_subscriptions S) (now 2)
        ((a_subscription ''subscr-1'' ''sub-r1'' ''r1'')\<lparr>su_created_at := explicit_time\<rparr>))) (\<lambda>s.
     op_bind (ignoring None (sur_get (st_subscriptions S) ''subscr-1'')) (\<lambda>got.
     deref got (\<lambda>x.
     fatal_unless ''CreatedAt'' (su_created_at x = explicit_time)
     (must_fail ''duplicate Subscription Create: want UNIQUE constraint error''
        (sur_create (st_subscriptions S) (now 3) s))))))"

definition test_subscriptions_one_shot :: "'s suite_test" where
  "test_subscriptions_one_shot S now =
     op_bind (seed_rule_sub S now ''r-os'') (\<lambda>_.
     op_bind (must ''Create'' (sur_create (st_subscriptions S) (now 2)
        ((a_subscription ''subscr-os'' ''sub-r-os'' ''r-os'')\<lparr>su_one_shot := True\<rparr>))) (\<lambda>_.
     op_bind (ignoring None (sur_get (st_subscriptions S) ''subscr-os'')) (\<lambda>got.
     fatal_unless ''OneShot not round-tripped on Create'' (case got of None \<Rightarrow> False | Some x \<Rightarrow> su_one_shot x)
     (deref got (\<lambda>x.
     op_bind (must ''Update'' (sur_update (st_subscriptions S) (now 3) (x\<lparr>su_one_shot := False\<rparr>))) (\<lambda>_.
     op_bind (ignoring None (sur_get (st_subscriptions S) ''subscr-os'')) (\<lambda>got2.
     deref got2 (\<lambda>y.
     fatal_unless ''OneShot=false not persisted on Update'' (\<not> su_one_shot y) (op_return ())))))))))"

section \<open>Incidents\<close>

definition test_incidents_open_resolve :: "'s suite_test" where
  "test_incidents_open_resolve S now =
     op_bind (seed_rule_sub S now ''r1'') (\<lambda>_.
     op_bind (must ''Open'' (inr_open (st_incidents S)
        ((an_incident ''inc-1'' ''r1'' 1700000000000)\<lparr>in_last_value := ''ERROR x3''\<rparr>))) (\<lambda>_.
     op_bind (must ''Get'' (inr_get (st_incidents S) ''inc-1'')) (\<lambda>got.
     fatal_unless ''Get'' (got \<noteq> None)
     (deref got (\<lambda>x.
     fatal_unless ''Get round-trip'' (in_rule_id x = ''r1'' \<and> in_last_value x = ''ERROR x3'')
     (error_unless ''Resolved before resolve'' (in_resolved_at x = zero_time)
     (op_bind (must ''Resolve'' (inr_resolve (st_incidents S) ''inc-1''
          (unix_milli (of_unix_milli 1700000300000)))) (\<lambda>_.
      op_bind (ignoring None (inr_get (st_incidents S) ''inc-1'')) (\<lambda>got2.
      deref got2 (\<lambda>y.
      fatal_unless ''ResolvedAt not persisted'' (in_resolved_at y \<noteq> zero_time) (op_return ())))))))))))"

definition test_incidents_get_missing :: "'s suite_test" where
  "test_incidents_get_missing S now =
     op_bind (must ''Get missing'' (inr_get (st_incidents S) ''nope'')) (\<lambda>got.
     fatal_unless ''Get missing'' (got = None) (op_return ()))"

definition inc_id_for :: "nat \<Rightarrow> string" where
  "inc_id_for i = ''inc-'' @ show_int (int i)"

definition test_incidents_list :: "'s suite_test" where
  "test_incidents_list S now =
     op_bind (seed_rule_sub S now ''r1'') (\<lambda>_.
     op_bind (op_for (\<lambda>i. must ''Open'' (inr_open (st_incidents S)
        (an_incident (inc_id_for i) ''r1'' (1700000000000 + int i * 1000)))) [1, 2, 3]) (\<lambda>_.
     op_bind (must ''List'' (inr_list (st_incidents S) 0)) (\<lambda>xs.
     fatal_unless ''List: want 3'' (length xs = 3)
     (op_bind (must ''ListForRule'' (inr_list_for_rule (st_incidents S) ''r1'' 0)) (\<lambda>ys.
      fatal_unless ''ListForRule: want 3'' (length ys = 3) (op_return ()))))))"

text \<open>The id, the time it was triggered and the time it was resolved, 0 for not yet.\<close>

definition test_incidents_list_resolved_before :: "'s suite_test" where
  "test_incidents_list_resolved_before S now =
     op_bind (seed_rule_sub S now ''r1'') (\<lambda>_.
     op_bind (op_for (\<lambda>(i, triggered, resolved).
          op_bind (must (''Open '' @ i) (inr_open (st_incidents S) (an_incident i ''r1'' triggered))) (\<lambda>_.
          if resolved \<noteq> 0 then must (''Resolve '' @ i) (inr_resolve (st_incidents S) i resolved)
          else op_return ()))
        [(''old-resolved'', 1000000, 1000000 + 1000), (''mid-resolved'', 2000000, 2000000 + 1000),
         (''new-resolved'', 3000000, 3000000 + 1000), (''still-firing'', 1500000, 0)]) (\<lambda>_.
     op_bind (must ''ListResolvedBefore'' (inr_list_resolved_before (st_incidents S) 2500000)) (\<lambda>got.
     (let ids = map in_id got
      in error_unless ''want old-resolved + mid-resolved in result''
           (''old-resolved'' \<in> set ids \<and> ''mid-resolved'' \<in> set ids)
         (error_unless ''new-resolved (after cutoff) should not be in result'' (''new-resolved'' \<notin> set ids)
         (error_unless ''unresolved incident should not be in result'' (''still-firing'' \<notin> set ids)
          (op_return ())))))))"

definition test_incidents_delete_resolved_before :: "'s suite_test" where
  "test_incidents_delete_resolved_before S now =
     op_bind (seed_rule_sub S now ''r1'') (\<lambda>_.
     op_bind (must ''seed subscription'' (sur_create (st_subscriptions S) (now 2)
        (a_subscription ''subscr-1'' ''sub-r1'' ''r1''))) (\<lambda>_.
     op_bind (ignoring () (inr_open (st_incidents S) (an_incident ''old'' ''r1'' 1000000))) (\<lambda>_.
     op_bind (ignoring () (inr_resolve (st_incidents S) ''old'' (1000000 + 1000))) (\<lambda>_.
     op_bind (ignoring () (nr_record (st_notifications S)
        \<lparr>nt_id = ''n-old'', nt_incident_id = ''old'', nt_subscription_id = ''subscr-1'',
         nt_subscriber_id = ''sub-r1'', nt_channel = ''ch'', nt_address = ''a'' @ CHR 0x40 # ''x'',
         nt_kind = kind_firing, nt_sent_at = of_unix_milli 1000000, nt_status = ''ok'', nt_error = ''''\<rparr>)) (\<lambda>_.
     op_bind (ignoring () (ssr_upsert (st_sub_states S) (a_sub_state ''old'' ''subscr-1'' 1))) (\<lambda>_.
     op_bind (ignoring () (inr_open (st_incidents S) (an_incident ''firing'' ''r1'' 1000000))) (\<lambda>_.
     op_bind (ignoring () (inr_open (st_incidents S) (an_incident ''new'' ''r1'' 3000000))) (\<lambda>_.
     op_bind (ignoring () (inr_resolve (st_incidents S) ''new'' 3001000)) (\<lambda>_.
     op_bind (must ''DeleteResolvedBefore'' (inr_delete_resolved_before (st_incidents S) 2500000)) (\<lambda>n.
     error_unless ''rows deleted: want 1'' (n = 1)
     (op_bind (ignoring None (inr_get (st_incidents S) ''old'')) (\<lambda>old.
      error_unless ''old incident should be deleted'' (old = None)
     (op_bind (ignoring [] (nr_list_for_incident (st_notifications S) ''old'')) (\<lambda>notes.
      error_unless ''old incident's notifications should be cascaded'' (notes = [])
     (op_bind (ignoring [] (ssr_list_for_incident (st_sub_states S) ''old'')) (\<lambda>subs.
      error_unless ''old incident's sub-states should be cascaded'' (subs = [])
     (op_bind (ignoring None (inr_get (st_incidents S) ''firing'')) (\<lambda>firing.
      error_unless ''firing incident should remain'' (firing \<noteq> None)
     (op_bind (ignoring None (inr_get (st_incidents S) ''new'')) (\<lambda>new.
      error_unless ''new (post-cutoff) incident should remain'' (new \<noteq> None) (op_return ())))))))))))))))))))))"

section \<open>Notifications\<close>

definition ops_notification :: "string \<Rightarrow> string \<Rightarrow> int \<Rightarrow> notification" where
  "ops_notification i kind ms =
     \<lparr>nt_id = i, nt_incident_id = ''inc-1'', nt_subscription_id = ''subscr-1'', nt_subscriber_id = ''sub-r1'',
      nt_channel = ''ch'', nt_address = ''ops'' @ CHR 0x40 # ''x'', nt_kind = kind,
      nt_sent_at = of_unix_milli ms, nt_status = ''ok'', nt_error = ''''\<rparr>"

definition test_notifications_list :: "'s suite_test" where
  "test_notifications_list S now =
     op_bind (seed_rule_sub S now ''r1'') (\<lambda>_.
     op_bind (must ''seed inc'' (inr_open (st_incidents S) (an_incident ''inc-1'' ''r1'' 1))) (\<lambda>_.
     op_bind (must ''seed subscription'' (sur_create (st_subscriptions S) (now 2)
        (a_subscription ''subscr-1'' ''sub-r1'' ''r1''))) (\<lambda>_.
     op_bind (op_for (\<lambda>(i, kind). must ''Record'' (nr_record (st_notifications S)
          (ops_notification (''n-'' @ show_int i) kind (i + 1))))
        [(0, kind_firing), (1, kind_repeat)]) (\<lambda>_.
     op_bind (must ''ListForIncident'' (nr_list_for_incident (st_notifications S) ''inc-1'')) (\<lambda>got.
     fatal_unless ''ListForIncident'' (length got = 2)
     (op_bind (must ''List'' (nr_list (st_notifications S) 0)) (\<lambda>xs.
      fatal_unless ''List'' (length xs = 2) (op_return ()))))))))"

definition test_notifications_error :: "'s suite_test" where
  "test_notifications_error S now =
     op_bind (seed_rule_sub S now ''r1'') (\<lambda>_.
     op_bind (ignoring () (inr_open (st_incidents S) (an_incident ''inc-1'' ''r1'' 1))) (\<lambda>_.
     op_bind (ignoring () (run_unit (sur_create (st_subscriptions S) (now 2)
        (a_subscription ''subscr-1'' ''sub-r1'' ''r1'')))) (\<lambda>_.
     op_bind (must ''Record'' (nr_record (st_notifications S)
        ((ops_notification ''n-err'' kind_firing 1)\<lparr>nt_status := ''error'', nt_error := ''smtp timeout''\<rparr>))) (\<lambda>_.
     op_bind (must ''ListForIncident'' (nr_list_for_incident (st_notifications S) ''inc-1'')) (\<lambda>got.
     fatal_unless ''ListForIncident'' (length got = 1 \<and> nt_error (hd got) = ''smtp timeout'') (op_return ()))))))"

definition test_notifications_exists_for_subscription :: "'s suite_test" where
  "test_notifications_exists_for_subscription S now =
     op_bind (seed_rule_sub S now ''r-ex'') (\<lambda>_.
     op_bind (must ''seed subscription'' (sur_create (st_subscriptions S) (now 2)
        (a_subscription ''subscr-ex'' ''sub-r-ex'' ''r-ex''))) (\<lambda>_.
     op_bind (must ''seed incident'' (inr_open (st_incidents S) (an_incident ''inc-ex'' ''r-ex'' 1))) (\<lambda>_.
     op_bind (must ''ExistsForSubscription pre-record''
        (nr_exists_for_subscription (st_notifications S) ''subscr-ex'')) (\<lambda>seen.
     fatal_unless ''ExistsForSubscription should be false before any record'' (\<not> seen)
     (op_bind (must ''Record'' (nr_record (st_notifications S)
        \<lparr>nt_id = ''n-ex'', nt_incident_id = ''inc-ex'', nt_subscription_id = ''subscr-ex'',
         nt_subscriber_id = ''sub-r-ex'', nt_channel = ''webhook'', nt_address = ''url'',
         nt_kind = kind_firing, nt_sent_at = of_unix_milli 2, nt_status = ''ok'', nt_error = ''''\<rparr>)) (\<lambda>_.
      op_bind (must ''ExistsForSubscription post-record''
        (nr_exists_for_subscription (st_notifications S) ''subscr-ex'')) (\<lambda>seen2.
      fatal_unless ''ExistsForSubscription should be true after a record'' seen2
      (op_bind (must ''missing subscription'' (nr_exists_for_subscription (st_notifications S) ''subscr-missing''))
        (\<lambda>got. fatal_unless ''missing subscription'' (\<not> got) (op_return ()))))))))))"

section \<open>Live states and delivery states\<close>

definition test_live_states_upsert :: "'s suite_test" where
  "test_live_states_upsert S now =
     (let ls = \<lparr>ls_rule_id = ''r1'', ls_state = state_firing, ls_triggered_at = of_unix_milli 1700000000000,
                ls_last_eval_at = of_unix_milli 1700000010000, ls_last_value = ''v=5'', ls_last_error = '''',
                ls_incident_id = ''inc-1''\<rparr>
      in op_bind (seed_rule_sub S now ''r1'') (\<lambda>_.
         op_bind (must ''Upsert (insert)'' (lr_upsert (st_live_states S) ls)) (\<lambda>_.
         op_bind (must ''Get'' (lr_get (st_live_states S) ''r1'')) (\<lambda>got.
         fatal_unless ''Get'' (got \<noteq> None)
         (deref got (\<lambda>x.
         fatal_unless ''State round-trip'' (ls_state x = state_firing \<and> ls_incident_id x = ''inc-1'')
         (op_bind (must ''Upsert (update)'' (lr_upsert (st_live_states S)
             (ls\<lparr>ls_state := state_ok, ls_triggered_at := zero_time, ls_incident_id := ''''\<rparr>))) (\<lambda>_.
          op_bind (ignoring None (lr_get (st_live_states S) ''r1'')) (\<lambda>got2.
          deref got2 (\<lambda>y.
          fatal_unless ''Upsert-update not persisted'' (ls_state y = state_ok \<and> ls_incident_id y = '''')
          (error_unless ''TriggeredAt should be zero after clear'' (ls_triggered_at y = zero_time)
          (op_bind (must ''List'' (lr_list (st_live_states S))) (\<lambda>xs.
           fatal_unless ''List'' (length xs = 1) (op_return ()))))))))))))))"

definition test_live_states_get_missing :: "'s suite_test" where
  "test_live_states_get_missing S now =
     op_bind (must ''Get missing'' (lr_get (st_live_states S) ''nope'')) (\<lambda>got.
     fatal_unless ''Get missing'' (got = None) (op_return ()))"

definition test_incident_sub_states_upsert :: "'s suite_test" where
  "test_incident_sub_states_upsert S now =
     (let s = (a_sub_state ''inc-1'' ''subscr-1'' 1)\<lparr>ss_last_notified_at := explicit_time\<rparr>
      in op_bind (seed_rule_sub S now ''r1'') (\<lambda>_.
         op_bind (ignoring () (inr_open (st_incidents S) (an_incident ''inc-1'' ''r1'' 1))) (\<lambda>_.
         op_bind (ignoring () (run_unit (sur_create (st_subscriptions S) (now 2)
            (a_subscription ''subscr-1'' ''sub-r1'' ''r1'')))) (\<lambda>_.
         op_bind (must ''Upsert insert'' (ssr_upsert (st_sub_states S) s)) (\<lambda>_.
         op_bind (must ''Get'' (ssr_get (st_sub_states S) ''inc-1'' ''subscr-1'')) (\<lambda>got.
         fatal_unless ''Get'' (case got of None \<Rightarrow> False | Some x \<Rightarrow> ss_notify_count x = 1)
         (op_bind (must ''Upsert update'' (ssr_upsert (st_sub_states S)
             (s\<lparr>ss_notify_count := 2, ss_resolution_sent := True\<rparr>))) (\<lambda>_.
          op_bind (ignoring None (ssr_get (st_sub_states S) ''inc-1'' ''subscr-1'')) (\<lambda>got2.
          deref got2 (\<lambda>y.
          fatal_unless ''Upsert update not persisted'' (ss_notify_count y = 2 \<and> ss_resolution_sent y)
          (op_bind (must ''ListForIncident'' (ssr_list_for_incident (st_sub_states S) ''inc-1'')) (\<lambda>xs.
           fatal_unless ''ListForIncident'' (length xs = 1) (op_return ())))))))))))))"

definition test_incident_sub_states_get_missing :: "'s suite_test" where
  "test_incident_sub_states_get_missing S now =
     op_bind (must ''Get missing'' (ssr_get (st_sub_states S) ''x'' ''y'')) (\<lambda>got.
     fatal_unless ''Get missing'' (got = None) (op_return ()))"

section \<open>API tokens\<close>

definition test_api_tokens_basic :: "'s suite_test" where
  "test_api_tokens_basic S now =
     op_bind (must ''Create'' (tr_create (st_api_tokens S) (now 0) (make_token ''t1''))) (\<lambda>_.
     op_bind (must ''GetByHash'' (tr_get_by_hash (st_api_tokens S) ''hash-t1'')) (\<lambda>got.
     fatal_unless ''GetByHash result'' (case got of None \<Rightarrow> False
        | Some x \<Rightarrow> tk_id x = ''t1'' \<and> tk_name x = ''token-t1'')
     (deref got (\<lambda>x.
     fatal_unless ''Scopes round-trip'' (length (tk_scopes x) = 2)
     (fatal_unless ''CreatedAt should be auto-populated when not set'' (tk_created_at x \<noteq> zero_time)
     (op_bind (must ''Get by id'' (tr_get (st_api_tokens S) ''t1'')) (\<lambda>by_id.
      fatal_unless ''Get by id'' (case by_id of None \<Rightarrow> False | Some y \<Rightarrow> tk_hash y = ''hash-t1'')
      (op_bind (must ''Create t2'' (tr_create (st_api_tokens S) (now 1) (make_token ''t2''))) (\<lambda>_.
       op_bind (must ''List'' (tr_list (st_api_tokens S))) (\<lambda>xs.
       fatal_unless ''List len, want 2'' (length xs = 2) (op_return ())))))))))))"

definition test_api_tokens_missing :: "'s suite_test" where
  "test_api_tokens_missing S now =
     op_bind (must ''GetByHash missing'' (tr_get_by_hash (st_api_tokens S) ''nope'')) (\<lambda>got.
     fatal_unless ''GetByHash missing'' (got = None)
     (op_bind (must ''Get missing'' (tr_get (st_api_tokens S) ''nope'')) (\<lambda>got2.
      fatal_unless ''Get missing'' (got2 = None) (op_return ()))))"

definition test_api_tokens_revoke_delete :: "'s suite_test" where
  "test_api_tokens_revoke_delete S now =
     op_bind (must ''Create'' (tr_create (st_api_tokens S) (now 0) (make_token ''t-rev''))) (\<lambda>_.
     op_bind (must ''Revoke'' (tr_revoke (st_api_tokens S) ''t-rev'')) (\<lambda>_.
     op_bind (ignoring None (tr_get (st_api_tokens S) ''t-rev'')) (\<lambda>got.
     deref got (\<lambda>x.
     fatal_unless ''Revoke did not set revoked flag'' (tk_revoked x)
     (op_bind (must ''Revoke again'' (tr_revoke (st_api_tokens S) ''t-rev'')) (\<lambda>_.
      op_bind (must ''Delete'' (tr_delete (st_api_tokens S) ''t-rev'')) (\<lambda>_.
      op_bind (ignoring None (tr_get (st_api_tokens S) ''t-rev'')) (\<lambda>gone.
      fatal_unless ''Get after Delete'' (gone = None) (op_return ())))))))))"

definition test_api_tokens_touch_last_used :: "'s suite_test" where
  "test_api_tokens_touch_last_used S now =
     (let ts = 1778667072000
      in op_bind (must ''Create'' (tr_create (st_api_tokens S) (now 0) (make_token ''t-touch''))) (\<lambda>_.
         op_bind (must ''TouchLastUsed'' (tr_touch_last_used (st_api_tokens S) ''t-touch'' ts)) (\<lambda>_.
         op_bind (ignoring None (tr_get (st_api_tokens S) ''t-touch'')) (\<lambda>got.
         deref got (\<lambda>x.
         fatal_unless ''LastUsedAt'' (case tk_last_used_at x of None \<Rightarrow> False | Some u \<Rightarrow> unix_milli u = ts)
           (op_return ()))))))"

definition test_api_tokens_duplicate_hash :: "'s suite_test" where
  "test_api_tokens_duplicate_hash S now =
     op_bind (must ''Create A'' (tr_create (st_api_tokens S) (now 0)
        ((make_token ''t-a'')\<lparr>tk_name := ''a'', tk_hash := ''dup'', tk_scopes := [scope_read]\<rparr>))) (\<lambda>_.
     must_fail ''Create with duplicate hash should fail'' (tr_create (st_api_tokens S) (now 1)
        ((make_token ''t-b'')\<lparr>tk_name := ''b'', tk_hash := ''dup'', tk_scopes := [scope_read]\<rparr>)))"

definition test_api_tokens_expires_at_round_trip :: "'s suite_test" where
  "test_api_tokens_expires_at_round_trip S now =
     (let exp = of_unix_milli 1798761600000
      in op_bind (must ''Create'' (tr_create (st_api_tokens S) (now 0)
            ((make_token ''t-exp'')\<lparr>tk_name := ''e'', tk_hash := ''hash-exp'', tk_scopes := [scope_read], tk_expires_at := Some exp\<rparr>))) (\<lambda>_.
         op_bind (ignoring None (tr_get_by_hash (st_api_tokens S) ''hash-exp'')) (\<lambda>got.
         deref got (\<lambda>x.
         fatal_unless ''ExpiresAt'' (case tk_expires_at x of None \<Rightarrow> False | Some u \<Rightarrow> unix_milli u = unix_milli exp)
           (op_return ())))))"

section \<open>The suite\<close>

definition conformance :: "(string \<times> 's suite_test) list" where
  "conformance =
     [(''Rules/CreateGetUpdateDelete'', test_rules_crud),
      (''Rules/GetMissingReturnsNilNil'', test_rules_get_missing),
      (''Rules/ListAndListByInput'', test_rules_list),
      (''Rules/DuplicateIDFails'', test_rules_duplicate),
      (''Rules/CreateWithExplicitCreatedAt'', test_rules_explicit_created_at),
      (''Subscribers/CRUD'', test_subscribers_crud),
      (''Subscribers/GetMissing'', test_subscribers_get_missing),
      (''Subscribers/ExplicitCreatedAtAndDuplicate'', test_subscribers_explicit),
      (''Subscriptions/CRUD'', test_subscriptions_crud),
      (''Subscriptions/ListForRuleDirectAndLabelSelector'', test_subscriptions_list_for_rule),
      (''Subscriptions/EmptySelectorIgnored'', test_subscriptions_empty_selector_ignored),
      (''Subscriptions/ExplicitCreatedAtAndDuplicate'', test_subscriptions_explicit),
      (''Subscriptions/OneShotRoundTrips'', test_subscriptions_one_shot),
      (''Incidents/OpenResolveGet'', test_incidents_open_resolve),
      (''Incidents/GetMissing'', test_incidents_get_missing),
      (''Incidents/ListAndListForRuleDefaultLimit'', test_incidents_list),
      (''Incidents/ListResolvedBefore_FiltersUnresolvedAndNewer'', test_incidents_list_resolved_before),
      (''Incidents/DeleteResolvedBefore_CascadesChildren'', test_incidents_delete_resolved_before),
      (''Notifications/RecordAndList'', test_notifications_list),
      (''Notifications/RecordWithError'', test_notifications_error),
      (''Notifications/ExistsForSubscription'', test_notifications_exists_for_subscription),
      (''LiveStates/UpsertGetList'', test_live_states_upsert),
      (''LiveStates/GetMissing'', test_live_states_get_missing),
      (''IncidentSubStates/UpsertGetList'', test_incident_sub_states_upsert),
      (''IncidentSubStates/GetMissing'', test_incident_sub_states_get_missing),
      (''APITokens/CreateGetByHashList'', test_api_tokens_basic),
      (''APITokens/GetMissingReturnsNilNil'', test_api_tokens_missing),
      (''APITokens/RevokeAndDelete'', test_api_tokens_revoke_delete),
      (''APITokens/TouchLastUsed'', test_api_tokens_touch_last_used),
      (''APITokens/DuplicateHashFails'', test_api_tokens_duplicate_hash),
      (''APITokens/ExpiresAtRoundTrips'', test_api_tokens_expires_at_round_trip)]"

text \<open>Every test runs on a store of its own, freshly migrated and empty.\<close>

definition failing_tests :: "'s store \<Rightarrow> (nat \<Rightarrow> time) \<Rightarrow> 's \<Rightarrow> string list" where
  "failing_tests S now fresh =
     map fst (filter (\<lambda>(name, test). \<not> is_ok (fst (test S now fresh))) conformance)"

end
