(* ===== verification/Postgres_Store.thy ===== *)
theory Postgres_Store
  imports Sqlite_Store
begin

text \<open>
  internal/store/postgres: the PostgreSQL driver, on the tables of Sql_Base. It differs from the
  SQLite driver in three ways: the server refuses a text that is not valid UTF-8 or holds a NUL
  (\<open>pv_text\<close>), ORDER BY on a text follows the collation of the database (\<open>pv_collate\<close> gives the
  sort key of a text), and empty errors and values are stored as NULL and read back as empty. The
  texts among the parameters of a statement are listed with it; a JSON text is always one the
  server takes, and so is NULL, which is listed as the empty text. The texts of the server's own
  errors are its own. The rows of a query without an order come in the order of insertion;
  PostgreSQL promises none.
\<close>

record pg_env =
  pv_text :: "string \<Rightarrow> bool"
  pv_collate :: "string \<Rightarrow> string"

definition pg_bad_text :: go_error where
  "pg_bad_text = ErrNew ''invalid byte sequence for encoding UTF8 (SQLSTATE 22021)''"

definition pg_query :: "pg_env \<Rightarrow> string list \<Rightarrow> (db \<Rightarrow> 'a result) \<Rightarrow> (db, 'a) op" where
  "pg_query env texts f = db_query (\<lambda>d. if list_all (pv_text env) texts then f d else Inl pg_bad_text)"

definition pg_exec :: "pg_env \<Rightarrow> string list \<Rightarrow> (db \<Rightarrow> db result) \<Rightarrow> (db, unit) op" where
  "pg_exec env texts f = db_exec (\<lambda>d. if list_all (pv_text env) texts then f d else Inl pg_bad_text)"

definition pg_insert :: "string \<Rightarrow> ('r \<Rightarrow> 'k) \<Rightarrow> 'r \<Rightarrow> 'r list \<Rightarrow> 'r list result" where
  "pg_insert constraint key r rows =
     (if key r \<in> key ` set rows
      then Inl (ErrNew (''duplicate key value violates unique constraint '' @ constraint @ '' (SQLSTATE 23505)''))
      else Inr (rows @ [r]))"

definition pg_fk_error :: go_error where
  "pg_fk_error = ErrNew ''insert or update violates foreign key constraint (SQLSTATE 23503)''"

section \<open>Reading rows\<close>

text \<open>
  The driver has its own copy of the functions that read a row and of the label match; each is
  equal to the one of the SQLite driver.
\<close>

definition pg_scan_rule :: "golib \<Rightarrow> rule_row \<Rightarrow> rule result" where
  "pg_scan_rule lib row =
     res_bind (scan_text (rw_description row)) (\<lambda>desc.
     res_bind (unmarshal_condition lib (Some (rw_condition row))) (\<lambda>cond.
       Inr \<lparr>r_id = rw_id row, r_name = rw_name row, r_description = desc,
            r_enabled = (rw_enabled row \<noteq> 0), r_severity = rw_severity row,
            r_labels = labels_of_json (rw_labels row), r_input_ref = rw_input_ref row,
            r_condition = Some cond, r_schedule = rw_schedule_ns row,
            r_created_at = of_unix_milli (rw_created_at row),
            r_updated_at = of_unix_milli (rw_updated_at row)\<rparr>))"

definition pg_scan_subscriber :: "subscriber_row \<Rightarrow> subscriber" where
  "pg_scan_subscriber row =
     \<lparr>sb_id = br_id row, sb_name = br_name row, sb_channels = bindings_of_json (br_channels row),
      sb_created_at = of_unix_milli (br_created_at row),
      sb_updated_at = of_unix_milli (br_updated_at row)\<rparr>"

definition pg_match_labels :: "(string \<times> string) list \<Rightarrow> (string \<times> string) list \<Rightarrow> bool" where
  "pg_match_labels selector actual =
     (selector \<noteq> [] \<and> list_all (\<lambda>(k, v). label_at actual k = v) selector)"

definition pg_scan_subscription :: "subscription_row \<Rightarrow> subscription" where
  "pg_scan_subscription row =
     \<lparr>su_id = ur_id row, su_subscriber_id = ur_subscriber_id row,
      su_rule_id = from_null (ur_rule_id row),
      su_label_selector = labels_of_json (ur_label_selector row), su_dwell = ur_dwell_ns row,
      su_repeat_interval = ur_repeat_interval_ns row,
      su_notify_on_resolve = (ur_notify_on_resolve row \<noteq> 0), su_one_shot = (ur_one_shot row \<noteq> 0),
      su_channel_filter = strings_of_json (ur_channel_filter row),
      su_created_at = of_unix_milli (ur_created_at row),
      su_updated_at = of_unix_milli (ur_updated_at row)\<rparr>"

definition pg_scan_notification :: "notification_row \<Rightarrow> notification" where
  "pg_scan_notification row =
     \<lparr>nt_id = nw_id row, nt_incident_id = nw_incident_id row,
      nt_subscription_id = nw_subscription_id row, nt_subscriber_id = nw_subscriber_id row,
      nt_channel = nw_channel row, nt_address = nw_address row, nt_kind = nw_kind row,
      nt_sent_at = of_unix_milli (nw_sent_at row), nt_status = nw_status row,
      nt_error = from_null (nw_error row)\<rparr>"

definition pg_scan_token :: "token_row \<Rightarrow> token result" where
  "pg_scan_token row =
     res_bind (json_get_strings (kw_scopes row)) (\<lambda>scopes.
       Inr \<lparr>tk_id = kw_id row, tk_name = kw_name row, tk_hash = kw_token_hash row,
            tk_scopes = scopes, tk_created_at = of_unix_milli (kw_created_at row),
            tk_expires_at = map_option of_unix_milli (kw_expires_at row),
            tk_last_used_at = map_option of_unix_milli (kw_last_used_at row),
            tk_revoked = (kw_revoked row \<noteq> 0)\<rparr>)"

lemma pg_match_labels_eq [simp]: "pg_match_labels = match_labels"
proof (intro ext)
  fix selector actual
  have "match_all selector actual = list_all (\<lambda>(k, v). label_at actual k = v) selector"
    by (induction selector) (auto split: if_splits)
  then show "pg_match_labels selector actual = match_labels selector actual"
    by (simp add: pg_match_labels_def match_labels_def)
qed

lemma pg_scan_eq [simp]:
  "pg_scan_rule = scan_rule"
  "pg_scan_subscriber = scan_subscriber" "pg_scan_subscription = scan_subscription"
  "pg_scan_notification = scan_notification" "pg_scan_token = scan_token"
  by (simp_all add: fun_eq_iff pg_scan_subscriber_def scan_subscriber_def pg_scan_subscription_def
      scan_subscription_def pg_scan_notification_def scan_notification_def pg_scan_token_def scan_token_def
      pg_scan_rule_def scan_rule_def)

section \<open>Rules\<close>

definition rule_texts :: "rule \<Rightarrow> string list" where
  "rule_texts x = [r_id x, r_name x, r_description x, r_severity x, r_input_ref x]"

definition pg_rule_create :: "pg_env \<Rightarrow> golib \<Rightarrow> time \<Rightarrow> rule \<Rightarrow> (db, rule) op" where
  "pg_rule_create env lib now x =
     (case rule_cond_json lib x of
        Inl e \<Rightarrow> op_fail e
      | Inr cond \<Rightarrow>
          (let x1 = (if r_created_at x = zero_time then x\<lparr>r_created_at := now\<rparr> else x);
               x2 = x1\<lparr>r_updated_at := now\<rparr>
           in op_bind (pg_exec env (rule_texts x2) (\<lambda>d. res_map (\<lambda>rows. d\<lparr>t_rules := rows\<rparr>)
                (pg_insert ''rules_pkey'' rw_id (rule_to_row lib x2 cond) (t_rules d))))
              (\<lambda>_. op_return x2)))"

definition pg_rule_update :: "pg_env \<Rightarrow> golib \<Rightarrow> time \<Rightarrow> rule \<Rightarrow> (db, rule) op" where
  "pg_rule_update env lib now x =
     (case rule_cond_json lib x of
        Inl e \<Rightarrow> op_fail e
      | Inr cond \<Rightarrow>
          (let x1 = x\<lparr>r_updated_at := now\<rparr>
           in op_bind (pg_exec env (rule_texts x1) (\<lambda>d. Inr (d\<lparr>t_rules := tbl_update (\<lambda>row. rw_id row = r_id x)
                (\<lambda>row. (rule_to_row lib x1 cond)\<lparr>rw_id := rw_id row, rw_created_at := rw_created_at row\<rparr>)
                (t_rules d)\<rparr>)))
              (\<lambda>_. op_return x1)))"

definition pg_rule_delete :: "pg_env \<Rightarrow> string \<Rightarrow> (db, unit) op" where
  "pg_rule_delete env i =
     pg_exec env [i] (\<lambda>d. Inr (d\<lparr>t_rules := filter (\<lambda>row. rw_id row \<noteq> i) (t_rules d)\<rparr>))"

definition pg_rule_get :: "pg_env \<Rightarrow> golib \<Rightarrow> string \<Rightarrow> (db, rule option) op" where
  "pg_rule_get env lib i =
     pg_query env [i] (\<lambda>d. scan_one (pg_scan_rule lib) (tbl_find rw_id i (t_rules d)))"

definition pg_rule_list :: "pg_env \<Rightarrow> golib \<Rightarrow> (db, rule list) op" where
  "pg_rule_list env lib =
     pg_query env [] (\<lambda>d. scan_all (pg_scan_rule lib)
       (sort_key (\<lambda>row. pv_collate env (rw_name row)) (t_rules d)))"

definition pg_rule_list_by_input :: "pg_env \<Rightarrow> golib \<Rightarrow> string \<Rightarrow> (db, rule list) op" where
  "pg_rule_list_by_input env lib ref =
     pg_query env [ref] (\<lambda>d. scan_all (pg_scan_rule lib)
       (filter (\<lambda>row. rw_input_ref row = ref \<and> rw_enabled row = 1) (t_rules d)))"

section \<open>Subscribers\<close>

definition pg_subscriber_create :: "pg_env \<Rightarrow> golib \<Rightarrow> time \<Rightarrow> subscriber \<Rightarrow> (db, subscriber) op" where
  "pg_subscriber_create env lib now s =
     (let s1 = (if sb_created_at s = zero_time then s\<lparr>sb_created_at := now\<rparr> else s);
          s2 = s1\<lparr>sb_updated_at := now\<rparr>;
          row = \<lparr>br_id = sb_id s2, br_name = sb_name s2,
                 br_channels = json_of_bindings lib (sb_channels s2),
                 br_created_at = unix_milli (sb_created_at s2),
                 br_updated_at = unix_milli (sb_updated_at s2)\<rparr>
      in op_bind (pg_exec env [sb_id s2, sb_name s2] (\<lambda>d. res_map (\<lambda>rows. d\<lparr>t_subscribers := rows\<rparr>)
           (pg_insert ''subscribers_pkey'' br_id row (t_subscribers d))))
         (\<lambda>_. op_return s2))"

definition pg_subscriber_update :: "pg_env \<Rightarrow> golib \<Rightarrow> time \<Rightarrow> subscriber \<Rightarrow> (db, subscriber) op" where
  "pg_subscriber_update env lib now s =
     (let s1 = s\<lparr>sb_updated_at := now\<rparr>
      in op_bind (pg_exec env [sb_name s1, sb_id s]
           (\<lambda>d. Inr (d\<lparr>t_subscribers := tbl_update (\<lambda>row. br_id row = sb_id s)
             (\<lambda>row. row\<lparr>br_name := sb_name s1, br_channels := json_of_bindings lib (sb_channels s1),
                       br_updated_at := unix_milli (sb_updated_at s1)\<rparr>) (t_subscribers d)\<rparr>)))
         (\<lambda>_. op_return s1))"

definition pg_subscriber_delete :: "pg_env \<Rightarrow> string \<Rightarrow> (db, unit) op" where
  "pg_subscriber_delete env i =
     pg_exec env [i] (\<lambda>d. Inr (d\<lparr>t_subscribers := filter (\<lambda>row. br_id row \<noteq> i) (t_subscribers d),
       t_subscriptions := filter (\<lambda>row. \<not> (ur_subscriber_id row = i \<and> i \<in> br_id ` set (t_subscribers d)))
         (t_subscriptions d)\<rparr>))"

definition pg_subscriber_get :: "pg_env \<Rightarrow> string \<Rightarrow> (db, subscriber option) op" where
  "pg_subscriber_get env i =
     pg_query env [i] (\<lambda>d. Inr (map_option pg_scan_subscriber (tbl_find br_id i (t_subscribers d))))"

definition pg_subscriber_list :: "pg_env \<Rightarrow> (db, subscriber list) op" where
  "pg_subscriber_list env =
     pg_query env [] (\<lambda>d. Inr (map pg_scan_subscriber
       (sort_key (\<lambda>row. pv_collate env (br_name row)) (t_subscribers d))))"

section \<open>Subscriptions\<close>

definition pg_subscription_create ::
  "pg_env \<Rightarrow> golib \<Rightarrow> time \<Rightarrow> subscription \<Rightarrow> (db, subscription) op" where
  "pg_subscription_create env lib now s =
     (let s1 = (if su_created_at s = zero_time then s\<lparr>su_created_at := now\<rparr> else s);
          s2 = s1\<lparr>su_updated_at := now\<rparr>
      in op_bind (pg_exec env [su_id s2, su_subscriber_id s2, su_rule_id s2] (\<lambda>d.
           res_bind (pg_insert ''subscriptions_pkey'' ur_id (subscription_to_row lib s2) (t_subscriptions d))
             (\<lambda>rows. if su_subscriber_id s2 \<in> br_id ` set (t_subscribers d)
                then Inr (d\<lparr>t_subscriptions := rows\<rparr>) else Inl pg_fk_error)))
         (\<lambda>_. op_return s2))"

definition pg_subscription_update ::
  "pg_env \<Rightarrow> golib \<Rightarrow> time \<Rightarrow> subscription \<Rightarrow> (db, subscription) op" where
  "pg_subscription_update env lib now s =
     (let s1 = s\<lparr>su_updated_at := now\<rparr>
      in op_bind (pg_exec env [su_subscriber_id s1, su_rule_id s1, su_id s] (\<lambda>d.
           if su_id s \<in> ur_id ` set (t_subscriptions d) \<and>
              su_subscriber_id s1 \<notin> br_id ` set (t_subscribers d)
           then Inl pg_fk_error
           else Inr (d\<lparr>t_subscriptions := tbl_update (\<lambda>row. ur_id row = su_id s)
             (\<lambda>row. (subscription_to_row lib s1)\<lparr>ur_id := ur_id row, ur_created_at := ur_created_at row\<rparr>)
             (t_subscriptions d)\<rparr>)))
         (\<lambda>_. op_return s1))"

definition pg_subscription_delete :: "pg_env \<Rightarrow> string \<Rightarrow> (db, unit) op" where
  "pg_subscription_delete env i =
     pg_exec env [i] (\<lambda>d. Inr (d\<lparr>t_subscriptions := filter (\<lambda>row. ur_id row \<noteq> i) (t_subscriptions d)\<rparr>))"

definition pg_subscription_get :: "pg_env \<Rightarrow> string \<Rightarrow> (db, subscription option) op" where
  "pg_subscription_get env i =
     pg_query env [i] (\<lambda>d. Inr (map_option pg_scan_subscription (tbl_find ur_id i (t_subscriptions d))))"

definition pg_subscription_list :: "pg_env \<Rightarrow> (db, subscription list) op" where
  "pg_subscription_list env =
     pg_query env [] (\<lambda>d. Inr (map pg_scan_subscription
       (sort_key (\<lambda>row. pv_collate env (ur_id row)) (t_subscriptions d))))"

definition pg_subscription_list_for_rule ::
  "pg_env \<Rightarrow> string \<Rightarrow> (string \<times> string) list \<Rightarrow> (db, subscription list) op" where
  "pg_subscription_list_for_rule env rid labels =
     op_bind (pg_query env [rid] (\<lambda>d. Inr (map pg_scan_subscription
        (filter (\<lambda>row. ur_rule_id row = Some rid) (t_subscriptions d))))) (\<lambda>out.
     op_bind (pg_query env [] (\<lambda>d. Inr (map pg_scan_subscription
        (filter (\<lambda>row. ur_rule_id row = None) (t_subscriptions d))))) (\<lambda>rest.
       op_return (out @ filter (\<lambda>s. pg_match_labels (su_label_selector s) labels) rest)))"

section \<open>Incidents\<close>

text \<open>The last value is read through sql.NullString.\<close>

definition pg_scan_incident :: "incident_row \<Rightarrow> incident" where
  "pg_scan_incident row =
     \<lparr>in_id = ir_id row, in_rule_id = ir_rule_id row,
      in_triggered_at = of_unix_milli (ir_triggered_at row),
      in_resolved_at = (case ir_resolved_at row of None \<Rightarrow> zero_time | Some ms \<Rightarrow> of_unix_milli ms),
      in_last_value = from_null (ir_last_value row)\<rparr>"

definition pg_incident_open :: "pg_env \<Rightarrow> incident \<Rightarrow> (db, unit) op" where
  "pg_incident_open env i =
     pg_exec env [in_id i, in_rule_id i, in_last_value i] (\<lambda>d. res_map (\<lambda>rows. d\<lparr>t_incidents := rows\<rparr>)
       (pg_insert ''incidents_pkey'' ir_id
          \<lparr>ir_id = in_id i, ir_rule_id = in_rule_id i, ir_triggered_at = unix_milli (in_triggered_at i),
           ir_resolved_at = None, ir_last_value = Some (in_last_value i)\<rparr> (t_incidents d)))"

definition pg_incident_resolve :: "pg_env \<Rightarrow> string \<Rightarrow> int \<Rightarrow> (db, unit) op" where
  "pg_incident_resolve env i ms =
     pg_exec env [i] (\<lambda>d. Inr (d\<lparr>t_incidents := tbl_update (\<lambda>row. ir_id row = i)
       (\<lambda>row. row\<lparr>ir_resolved_at := Some ms\<rparr>) (t_incidents d)\<rparr>))"

definition pg_incident_get :: "pg_env \<Rightarrow> string \<Rightarrow> (db, incident option) op" where
  "pg_incident_get env i =
     pg_query env [i] (\<lambda>d. Inr (map_option pg_scan_incident (tbl_find ir_id i (t_incidents d))))"

definition pg_incident_list :: "pg_env \<Rightarrow> int \<Rightarrow> (db, incident list) op" where
  "pg_incident_list env limit =
     pg_query env [] (\<lambda>d. Inr (map pg_scan_incident (sql_limit (default_limit limit)
       (sort_key (\<lambda>row. - ir_triggered_at row) (t_incidents d)))))"

definition pg_incident_list_for_rule :: "pg_env \<Rightarrow> string \<Rightarrow> int \<Rightarrow> (db, incident list) op" where
  "pg_incident_list_for_rule env rid limit =
     pg_query env [rid] (\<lambda>d. Inr (map pg_scan_incident (sql_limit (default_limit limit)
       (sort_key (\<lambda>row. - ir_triggered_at row) (filter (\<lambda>row. ir_rule_id row = rid) (t_incidents d))))))"

definition pg_incident_list_resolved_before :: "pg_env \<Rightarrow> int \<Rightarrow> (db, incident list) op" where
  "pg_incident_list_resolved_before env t =
     pg_query env [] (\<lambda>d. Inr (map pg_scan_incident
       (sort_key (\<lambda>row. case ir_resolved_at row of None \<Rightarrow> 0 | Some ms \<Rightarrow> ms)
          (filter (resolved_before t) (t_incidents d)))))"

text \<open>The ids of the children come from the table, so the server takes them.\<close>

definition pg_delete_children :: "string \<Rightarrow> (db, unit) op" where
  "pg_delete_children i =
     op_bind (db_exec (\<lambda>d. Inr (d\<lparr>t_notifications :=
        filter (\<lambda>n. nw_incident_id n \<noteq> i) (t_notifications d)\<rparr>))) (\<lambda>_.
       db_exec (\<lambda>d. Inr (d\<lparr>t_sub_states :=
        filter (\<lambda>s. sw_incident_id s \<noteq> i) (t_sub_states d)\<rparr>)))"

definition pg_incident_delete_resolved_before :: "pg_env \<Rightarrow> int \<Rightarrow> (db, int) op" where
  "pg_incident_delete_resolved_before env t = db_tx
     (op_bind (pg_query env [] (\<lambda>d. Inr (map ir_id (filter (resolved_before t) (t_incidents d))))) (\<lambda>ids.
        if ids = [] then op_return 0
        else op_bind (op_for pg_delete_children ids) (\<lambda>_ d.
          (let n = int (length (filter (resolved_before t) (t_incidents d)))
           in op_bind (pg_exec env [] (\<lambda>d. Inr (d\<lparr>t_incidents :=
                 filter (\<lambda>row. \<not> resolved_before t row) (t_incidents d)\<rparr>)))
              (\<lambda>_. op_return n) d))))"

section \<open>Notifications\<close>

definition pg_notification_to_row :: "notification \<Rightarrow> notification_row" where
  "pg_notification_to_row n =
     \<lparr>nw_id = nt_id n, nw_incident_id = nt_incident_id n, nw_subscription_id = nt_subscription_id n,
      nw_subscriber_id = nt_subscriber_id n, nw_channel = nt_channel n, nw_address = nt_address n,
      nw_kind = nt_kind n, nw_sent_at = unix_milli (nt_sent_at n), nw_status = nt_status n,
      nw_error = nullable (nt_error n)\<rparr>"

definition notification_texts :: "notification \<Rightarrow> string list" where
  "notification_texts n =
     [nt_id n, nt_incident_id n, nt_subscription_id n, nt_subscriber_id n, nt_channel n, nt_address n,
      nt_kind n, nt_status n, nt_error n]"

definition pg_notification_record :: "pg_env \<Rightarrow> notification \<Rightarrow> (db, unit) op" where
  "pg_notification_record env n =
     pg_exec env (notification_texts n) (\<lambda>d. res_map (\<lambda>rows. d\<lparr>t_notifications := rows\<rparr>)
       (pg_insert ''notifications_pkey'' nw_id (pg_notification_to_row n) (t_notifications d)))"

definition pg_notification_list_for_incident :: "pg_env \<Rightarrow> string \<Rightarrow> (db, notification list) op" where
  "pg_notification_list_for_incident env i =
     pg_query env [i] (\<lambda>d. Inr (map pg_scan_notification (sort_key nw_sent_at
       (filter (\<lambda>row. nw_incident_id row = i) (t_notifications d)))))"

definition pg_notification_list :: "pg_env \<Rightarrow> int \<Rightarrow> (db, notification list) op" where
  "pg_notification_list env limit =
     pg_query env [] (\<lambda>d. Inr (map pg_scan_notification (sql_limit (default_limit limit)
       (sort_key (\<lambda>row. - nw_sent_at row) (t_notifications d)))))"

definition pg_notification_exists_for_subscription :: "pg_env \<Rightarrow> string \<Rightarrow> (db, bool) op" where
  "pg_notification_exists_for_subscription env sid =
     pg_query env [sid] (\<lambda>d. Inr (list_ex (\<lambda>row. nw_subscription_id row = sid) (t_notifications d)))"

section \<open>Live states\<close>

definition pg_live_to_row :: "live_state \<Rightarrow> live_row" where
  "pg_live_to_row s =
     \<lparr>lw_rule_id = ls_rule_id s, lw_state = ls_state s,
      lw_triggered_at = stored_ms (ls_triggered_at s),
      lw_last_eval_at = stored_ms (ls_last_eval_at s), lw_last_value = nullable (ls_last_value s),
      lw_last_error = nullable (ls_last_error s), lw_incident_id = nullable (ls_incident_id s)\<rparr>"

definition pg_scan_live :: "live_row \<Rightarrow> live_state" where
  "pg_scan_live row =
     \<lparr>ls_rule_id = lw_rule_id row, ls_state = lw_state row,
      ls_triggered_at = read_ms (lw_triggered_at row),
      ls_last_eval_at = read_ms (lw_last_eval_at row), ls_last_value = from_null (lw_last_value row),
      ls_last_error = from_null (lw_last_error row), ls_incident_id = from_null (lw_incident_id row)\<rparr>"

definition live_texts :: "live_state \<Rightarrow> string list" where
  "live_texts s = [ls_rule_id s, ls_state s, ls_last_value s, ls_last_error s, ls_incident_id s]"

definition pg_live_get :: "pg_env \<Rightarrow> string \<Rightarrow> (db, live_state option) op" where
  "pg_live_get env rid =
     pg_query env [rid] (\<lambda>d. Inr (map_option pg_scan_live (tbl_find lw_rule_id rid (t_live d))))"

definition pg_live_upsert :: "pg_env \<Rightarrow> live_state \<Rightarrow> (db, unit) op" where
  "pg_live_upsert env s =
     pg_exec env (live_texts s)
       (\<lambda>d. Inr (d\<lparr>t_live := tbl_upsert lw_rule_id (pg_live_to_row s) (t_live d)\<rparr>))"

definition pg_live_list :: "pg_env \<Rightarrow> (db, live_state list) op" where
  "pg_live_list env = pg_query env [] (\<lambda>d. Inr (map pg_scan_live (t_live d)))"

section \<open>Delivery states\<close>

definition pg_sub_state_get :: "pg_env \<Rightarrow> string \<Rightarrow> string \<Rightarrow> (db, sub_state option) op" where
  "pg_sub_state_get env i sid =
     pg_query env [i, sid]
       (\<lambda>d. Inr (map_option scan_sub_state (tbl_find sub_state_key (i, sid) (t_sub_states d))))"

definition pg_sub_state_upsert :: "pg_env \<Rightarrow> sub_state \<Rightarrow> (db, unit) op" where
  "pg_sub_state_upsert env s =
     pg_exec env [ss_incident_id s, ss_subscription_id s]
       (\<lambda>d. Inr (d\<lparr>t_sub_states := tbl_upsert sub_state_key (sub_state_to_row s) (t_sub_states d)\<rparr>))"

definition pg_sub_state_list_for_incident :: "pg_env \<Rightarrow> string \<Rightarrow> (db, sub_state list) op" where
  "pg_sub_state_list_for_incident env i =
     pg_query env [i] (\<lambda>d. Inr (map scan_sub_state (filter (\<lambda>row. sw_incident_id row = i) (t_sub_states d))))"

section \<open>API tokens\<close>

text \<open>The column revoked is a BOOLEAN, kept here as 0 or 1.\<close>

definition pg_token_create :: "pg_env \<Rightarrow> golib \<Rightarrow> time \<Rightarrow> token \<Rightarrow> (db, token) op" where
  "pg_token_create env lib now t =
     (if tk_hash t = '''' then op_fail (ErrNew ''postgres: api_tokens: TokenHash required'')
      else let t1 = (if tk_created_at t = zero_time then t\<lparr>tk_created_at := now\<rparr> else t)
        in op_bind (pg_exec env [tk_id t1, tk_name t1, tk_hash t1] (\<lambda>d.
             res_bind (pg_insert ''api_tokens_pkey'' kw_id (token_to_row lib t1) (t_tokens d)) (\<lambda>rows.
             res_bind (pg_insert ''api_tokens_token_hash_key'' kw_token_hash (token_to_row lib t1) (t_tokens d))
               (\<lambda>_. Inr (d\<lparr>t_tokens := rows\<rparr>)))))
           (\<lambda>_. op_return t1))"

definition pg_token_get_by_hash :: "pg_env \<Rightarrow> string \<Rightarrow> (db, token option) op" where
  "pg_token_get_by_hash env h =
     pg_query env [h] (\<lambda>d. scan_one pg_scan_token (tbl_find kw_token_hash h (t_tokens d)))"

definition pg_token_get :: "pg_env \<Rightarrow> string \<Rightarrow> (db, token option) op" where
  "pg_token_get env i = pg_query env [i] (\<lambda>d. scan_one pg_scan_token (tbl_find kw_id i (t_tokens d)))"

definition pg_token_list :: "pg_env \<Rightarrow> (db, token list) op" where
  "pg_token_list env =
     pg_query env [] (\<lambda>d. scan_all pg_scan_token (sort_key (\<lambda>row. - kw_created_at row) (t_tokens d)))"

definition pg_token_revoke :: "pg_env \<Rightarrow> string \<Rightarrow> (db, unit) op" where
  "pg_token_revoke env i =
     pg_exec env [i] (\<lambda>d. Inr (d\<lparr>t_tokens := tbl_update (\<lambda>row. kw_id row = i)
       (\<lambda>row. row\<lparr>kw_revoked := 1\<rparr>) (t_tokens d)\<rparr>))"

definition pg_token_touch_last_used :: "pg_env \<Rightarrow> string \<Rightarrow> int \<Rightarrow> (db, unit) op" where
  "pg_token_touch_last_used env i ts =
     pg_exec env [i] (\<lambda>d. Inr (d\<lparr>t_tokens := tbl_update (\<lambda>row. kw_id row = i)
       (\<lambda>row. row\<lparr>kw_last_used_at := Some ts\<rparr>) (t_tokens d)\<rparr>))"

definition pg_token_delete :: "pg_env \<Rightarrow> string \<Rightarrow> (db, unit) op" where
  "pg_token_delete env i =
     pg_exec env [i] (\<lambda>d. Inr (d\<lparr>t_tokens := filter (\<lambda>row. kw_id row \<noteq> i) (t_tokens d)\<rparr>))"

section \<open>Migrations\<close>

definition pg_migrate_one :: "(string \<Rightarrow> time) \<Rightarrow> string \<Rightarrow> (db, unit) op" where
  "pg_migrate_one now name =
     op_bind (db_query (\<lambda>d. Inr (length (filter (\<lambda>(v, _). v = name) (t_migrations d))))) (\<lambda>n.
       if 0 < n then op_return ()
       else db_tx (op_bind
         (op_wrap (''migrate '' @ name) (db_exec (\<lambda>d. Inr (d\<lparr>t_scripts := t_scripts d @ [name]\<rparr>))))
         (\<lambda>_. db_exec (\<lambda>d. res_map (\<lambda>rows. d\<lparr>t_migrations := rows\<rparr>)
            (pg_insert ''schema_migrations_pkey'' fst (name, now name div second) (t_migrations d))))))"

definition pg_migrate :: "string list \<Rightarrow> (string \<Rightarrow> time) \<Rightarrow> (db, unit) op" where
  "pg_migrate names now =
     op_bind (db_exec Inr) (\<lambda>_.
       op_for (pg_migrate_one now) (sort (filter (\<lambda>n. has_suffix n ''.sql'') names)))"

section \<open>The store\<close>

definition postgres_store :: "pg_env \<Rightarrow> golib \<Rightarrow> db store" where
  "postgres_store env lib = \<lparr>
     st_rules = \<lparr>rr_create = pg_rule_create env lib, rr_update = pg_rule_update env lib,
       rr_delete = pg_rule_delete env, rr_get = pg_rule_get env lib, rr_list = pg_rule_list env lib,
       rr_list_by_input = pg_rule_list_by_input env lib\<rparr>,
     st_subscribers = \<lparr>sbr_create = pg_subscriber_create env lib, sbr_update = pg_subscriber_update env lib,
       sbr_delete = pg_subscriber_delete env, sbr_get = pg_subscriber_get env,
       sbr_list = pg_subscriber_list env\<rparr>,
     st_subscriptions = \<lparr>sur_create = pg_subscription_create env lib,
       sur_update = pg_subscription_update env lib, sur_delete = pg_subscription_delete env,
       sur_get = pg_subscription_get env, sur_list = pg_subscription_list env,
       sur_list_for_rule = pg_subscription_list_for_rule env\<rparr>,
     st_incidents = \<lparr>inr_open = pg_incident_open env, inr_resolve = pg_incident_resolve env,
       inr_get = pg_incident_get env, inr_list = pg_incident_list env,
       inr_list_for_rule = pg_incident_list_for_rule env,
       inr_list_resolved_before = pg_incident_list_resolved_before env,
       inr_delete_resolved_before = pg_incident_delete_resolved_before env\<rparr>,
     st_notifications = \<lparr>nr_record = pg_notification_record env,
       nr_list_for_incident = pg_notification_list_for_incident env,
       nr_list = pg_notification_list env,
       nr_exists_for_subscription = pg_notification_exists_for_subscription env\<rparr>,
     st_live_states = \<lparr>lr_get = pg_live_get env, lr_upsert = pg_live_upsert env,
       lr_list = pg_live_list env\<rparr>,
     st_sub_states = \<lparr>ssr_get = pg_sub_state_get env, ssr_upsert = pg_sub_state_upsert env,
       ssr_list_for_incident = pg_sub_state_list_for_incident env\<rparr>,
     st_api_tokens = \<lparr>tr_create = pg_token_create env lib, tr_get_by_hash = pg_token_get_by_hash env,
       tr_get = pg_token_get env, tr_list = pg_token_list env, tr_revoke = pg_token_revoke env,
       tr_touch_last_used = pg_token_touch_last_used env, tr_delete = pg_token_delete env\<rparr>\<rparr>"

end
