(* ===== verification/Mysql_Store.thy ===== *)
theory Mysql_Store
  imports Postgres_Store
begin

text \<open>
  internal/store/mysql: the MySQL driver, on the tables of Sql_Base. Texts compare by the
  collation of their column: \<open>mv_key\<close> gives the key under which two texts are the same and by
  which they are ordered, so that a lookup, a unique key, a foreign key and ORDER BY all go by
  it. A column takes a text only when it fits (\<open>mv_text\<close>, \<open>mv_json\<close> for the JSON texts): VARCHAR
  and TEXT are bounded and the server checks the encoding. The scripts of Migrate are split at
  semicolons and run statement by statement; \<open>mv_ddl\<close> is the server's answer to a statement
  after those it has run. Descriptions are read through sql.NullString, and NULLs otherwise go
  as in the PostgreSQL driver, whose functions for rows are the same; NULL counts as an empty
  text where texts are checked. The texts of the server's own errors are its own, and rows
  without an order come in the order of insertion; MySQL promises none.
\<close>

record my_env =
  mv_key :: "string \<Rightarrow> string"
  mv_text :: "string \<Rightarrow> string \<Rightarrow> bool"
  mv_json :: "string \<Rightarrow> json \<Rightarrow> bool"
  mv_ddl :: "string list \<Rightarrow> string \<Rightarrow> unit result"

definition my_same :: "my_env \<Rightarrow> string \<Rightarrow> string \<Rightarrow> bool" where
  "my_same env a b \<longleftrightarrow> mv_key env a = mv_key env b"

definition my_bad_data :: go_error where
  "my_bad_data = ErrNew ''Error 1406 (22001): Data too long or incorrect for column''"

definition my_fits :: "my_env \<Rightarrow> (string \<times> string) list \<Rightarrow> (string \<times> json) list \<Rightarrow> bool" where
  "my_fits env texts jsons \<longleftrightarrow>
     list_all (\<lambda>(c, s). mv_text env c s) texts \<and> list_all (\<lambda>(c, j). mv_json env c j) jsons"

definition my_insert :: "bool \<Rightarrow> ('r \<Rightarrow> 'k) \<Rightarrow> 'r \<Rightarrow> 'r list \<Rightarrow> 'r list result" where
  "my_insert fits key r rows =
     (if \<not> fits then Inl my_bad_data
      else if key r \<in> key ` set rows then Inl (ErrNew ''Error 1062 (23000): Duplicate entry'')
      else Inr (rows @ [r]))"

text \<open>UPDATE looks at the new values only when there is a row to write them to.\<close>

definition my_update :: "bool \<Rightarrow> ('r \<Rightarrow> bool) \<Rightarrow> ('r \<Rightarrow> 'r) \<Rightarrow> 'r list \<Rightarrow> 'r list result" where
  "my_update fits p f rows =
     (if list_ex p rows \<and> \<not> fits then Inl my_bad_data else Inr (tbl_update p f rows))"

text \<open>ON DUPLICATE KEY UPDATE: \<open>f\<close> writes the new values into the row that has the key.\<close>

definition my_upsert :: "bool \<Rightarrow> ('r \<Rightarrow> 'k) \<Rightarrow> ('r \<Rightarrow> 'r) \<Rightarrow> 'r \<Rightarrow> 'r list \<Rightarrow> 'r list result" where
  "my_upsert fits key f r rows =
     (if \<not> fits then Inl my_bad_data
      else if key r \<in> key ` set rows then Inr (tbl_update (\<lambda>x. key x = key r) f rows)
      else Inr (rows @ [r]))"

definition my_fk_error :: go_error where
  "my_fk_error = ErrNew ''Error 1452 (23000): Cannot add or update a child row: a foreign key constraint fails''"

section \<open>Reading rows\<close>

text \<open>
  The driver has its own copy of the functions that read a row and of the label match; each is
  equal to the one of the SQLite driver.
\<close>

definition my_scan_subscriber :: "subscriber_row \<Rightarrow> subscriber" where
  "my_scan_subscriber row =
     \<lparr>sb_id = br_id row, sb_name = br_name row, sb_channels = bindings_of_json (br_channels row),
      sb_created_at = of_unix_milli (br_created_at row),
      sb_updated_at = of_unix_milli (br_updated_at row)\<rparr>"

definition my_match_labels :: "(string \<times> string) list \<Rightarrow> (string \<times> string) list \<Rightarrow> bool" where
  "my_match_labels selector actual =
     (selector \<noteq> [] \<and> list_all (\<lambda>(k, v). label_at actual k = v) selector)"

definition my_scan_subscription :: "subscription_row \<Rightarrow> subscription" where
  "my_scan_subscription row =
     \<lparr>su_id = ur_id row, su_subscriber_id = ur_subscriber_id row,
      su_rule_id = from_null (ur_rule_id row),
      su_label_selector = labels_of_json (ur_label_selector row), su_dwell = ur_dwell_ns row,
      su_repeat_interval = ur_repeat_interval_ns row,
      su_notify_on_resolve = (ur_notify_on_resolve row \<noteq> 0), su_one_shot = (ur_one_shot row \<noteq> 0),
      su_channel_filter = strings_of_json (ur_channel_filter row),
      su_created_at = of_unix_milli (ur_created_at row),
      su_updated_at = of_unix_milli (ur_updated_at row)\<rparr>"

definition my_scan_notification :: "notification_row \<Rightarrow> notification" where
  "my_scan_notification row =
     \<lparr>nt_id = nw_id row, nt_incident_id = nw_incident_id row,
      nt_subscription_id = nw_subscription_id row, nt_subscriber_id = nw_subscriber_id row,
      nt_channel = nw_channel row, nt_address = nw_address row, nt_kind = nw_kind row,
      nt_sent_at = of_unix_milli (nw_sent_at row), nt_status = nw_status row,
      nt_error = from_null (nw_error row)\<rparr>"

definition my_scan_token :: "token_row \<Rightarrow> token result" where
  "my_scan_token row =
     res_bind (json_get_strings (kw_scopes row)) (\<lambda>scopes.
       Inr \<lparr>tk_id = kw_id row, tk_name = kw_name row, tk_hash = kw_token_hash row,
            tk_scopes = scopes, tk_created_at = of_unix_milli (kw_created_at row),
            tk_expires_at = map_option of_unix_milli (kw_expires_at row),
            tk_last_used_at = map_option of_unix_milli (kw_last_used_at row),
            tk_revoked = (kw_revoked row \<noteq> 0)\<rparr>)"

definition my_scan_incident :: "incident_row \<Rightarrow> incident" where
  "my_scan_incident row =
     \<lparr>in_id = ir_id row, in_rule_id = ir_rule_id row,
      in_triggered_at = of_unix_milli (ir_triggered_at row),
      in_resolved_at = (case ir_resolved_at row of None \<Rightarrow> zero_time | Some ms \<Rightarrow> of_unix_milli ms),
      in_last_value = from_null (ir_last_value row)\<rparr>"

lemma my_match_labels_eq [simp]: "my_match_labels = match_labels"
proof (intro ext)
  fix selector actual
  have "match_all selector actual = list_all (\<lambda>(k, v). label_at actual k = v) selector"
    by (induction selector) (auto split: if_splits)
  then show "my_match_labels selector actual = match_labels selector actual"
    by (simp add: my_match_labels_def match_labels_def)
qed

lemma my_scan_eq [simp]:
  "my_scan_incident = pg_scan_incident"
  "my_scan_subscriber = scan_subscriber" "my_scan_subscription = scan_subscription"
  "my_scan_notification = scan_notification" "my_scan_token = scan_token"
  by (simp_all add: fun_eq_iff my_scan_subscriber_def scan_subscriber_def my_scan_subscription_def
      scan_subscription_def my_scan_notification_def scan_notification_def my_scan_token_def scan_token_def
      my_scan_incident_def pg_scan_incident_def)

section \<open>Rules\<close>

definition my_rule_texts :: "rule \<Rightarrow> (string \<times> string) list" where
  "my_rule_texts x =
     [(''rules.id'', r_id x), (''rules.name'', r_name x), (''rules.description'', r_description x),
      (''rules.severity'', r_severity x), (''rules.input_ref'', r_input_ref x)]"

definition my_rule_jsons :: "golib \<Rightarrow> rule \<Rightarrow> json \<Rightarrow> (string \<times> json) list" where
  "my_rule_jsons lib x cond =
     [(''rules.labels'', json_of_labels lib (r_labels x)), (''rules.condition'', cond)]"

text \<open>Unlike in the other drivers a NULL description reads as an empty one.\<close>

definition my_scan_rule :: "golib \<Rightarrow> rule_row \<Rightarrow> rule result" where
  "my_scan_rule lib row =
     res_bind (unmarshal_condition lib (Some (rw_condition row))) (\<lambda>cond.
       Inr \<lparr>r_id = rw_id row, r_name = rw_name row, r_description = from_null (rw_description row),
            r_enabled = (rw_enabled row \<noteq> 0), r_severity = rw_severity row,
            r_labels = labels_of_json (rw_labels row), r_input_ref = rw_input_ref row,
            r_condition = Some cond, r_schedule = rw_schedule_ns row,
            r_created_at = of_unix_milli (rw_created_at row),
            r_updated_at = of_unix_milli (rw_updated_at row)\<rparr>)"

definition my_rule_create :: "my_env \<Rightarrow> golib \<Rightarrow> time \<Rightarrow> rule \<Rightarrow> (db, rule) op" where
  "my_rule_create env lib now x =
     (case rule_cond_json lib x of
        Inl e \<Rightarrow> op_fail e
      | Inr cond \<Rightarrow>
          (let x1 = (if r_created_at x = zero_time then x\<lparr>r_created_at := now\<rparr> else x);
               x2 = x1\<lparr>r_updated_at := now\<rparr>
           in op_bind (db_exec (\<lambda>d. res_map (\<lambda>rows. d\<lparr>t_rules := rows\<rparr>)
                (my_insert (my_fits env (my_rule_texts x2) (my_rule_jsons lib x2 cond))
                   (\<lambda>row. mv_key env (rw_id row)) (rule_to_row lib x2 cond) (t_rules d))))
              (\<lambda>_. op_return x2)))"

definition my_rule_update :: "my_env \<Rightarrow> golib \<Rightarrow> time \<Rightarrow> rule \<Rightarrow> (db, rule) op" where
  "my_rule_update env lib now x =
     (case rule_cond_json lib x of
        Inl e \<Rightarrow> op_fail e
      | Inr cond \<Rightarrow>
          (let x1 = x\<lparr>r_updated_at := now\<rparr>
           in op_bind (db_exec (\<lambda>d. res_map (\<lambda>rows. d\<lparr>t_rules := rows\<rparr>)
                (my_update (my_fits env (tl (my_rule_texts x1)) (my_rule_jsons lib x1 cond))
                   (\<lambda>row. my_same env (rw_id row) (r_id x))
                   (\<lambda>row. (rule_to_row lib x1 cond)\<lparr>rw_id := rw_id row, rw_created_at := rw_created_at row\<rparr>)
                   (t_rules d))))
              (\<lambda>_. op_return x1)))"

definition my_rule_delete :: "my_env \<Rightarrow> string \<Rightarrow> (db, unit) op" where
  "my_rule_delete env i =
     db_exec (\<lambda>d. Inr (d\<lparr>t_rules := filter (\<lambda>row. \<not> my_same env (rw_id row) i) (t_rules d)\<rparr>))"

definition my_rule_get :: "my_env \<Rightarrow> golib \<Rightarrow> string \<Rightarrow> (db, rule option) op" where
  "my_rule_get env lib i =
     db_query (\<lambda>d. scan_one (my_scan_rule lib)
       (tbl_find (\<lambda>row. mv_key env (rw_id row)) (mv_key env i) (t_rules d)))"

definition my_rule_list :: "my_env \<Rightarrow> golib \<Rightarrow> (db, rule list) op" where
  "my_rule_list env lib =
     db_query (\<lambda>d. scan_all (my_scan_rule lib) (sort_key (\<lambda>row. mv_key env (rw_name row)) (t_rules d)))"

definition my_rule_list_by_input :: "my_env \<Rightarrow> golib \<Rightarrow> string \<Rightarrow> (db, rule list) op" where
  "my_rule_list_by_input env lib ref =
     db_query (\<lambda>d. scan_all (my_scan_rule lib)
       (filter (\<lambda>row. my_same env (rw_input_ref row) ref \<and> rw_enabled row = 1) (t_rules d)))"

section \<open>Subscribers\<close>

definition my_subscriber_create :: "my_env \<Rightarrow> golib \<Rightarrow> time \<Rightarrow> subscriber \<Rightarrow> (db, subscriber) op" where
  "my_subscriber_create env lib now s =
     (let s1 = (if sb_created_at s = zero_time then s\<lparr>sb_created_at := now\<rparr> else s);
          s2 = s1\<lparr>sb_updated_at := now\<rparr>;
          row = \<lparr>br_id = sb_id s2, br_name = sb_name s2,
                 br_channels = json_of_bindings lib (sb_channels s2),
                 br_created_at = unix_milli (sb_created_at s2),
                 br_updated_at = unix_milli (sb_updated_at s2)\<rparr>
      in op_bind (db_exec (\<lambda>d. res_map (\<lambda>rows. d\<lparr>t_subscribers := rows\<rparr>)
           (my_insert (my_fits env [(''subscribers.id'', sb_id s2), (''subscribers.name'', sb_name s2)]
                        [(''subscribers.channels'', br_channels row)])
              (\<lambda>row. mv_key env (br_id row)) row (t_subscribers d))))
         (\<lambda>_. op_return s2))"

definition my_subscriber_update :: "my_env \<Rightarrow> golib \<Rightarrow> time \<Rightarrow> subscriber \<Rightarrow> (db, subscriber) op" where
  "my_subscriber_update env lib now s =
     (let s1 = s\<lparr>sb_updated_at := now\<rparr>;
          chs = json_of_bindings lib (sb_channels s1)
      in op_bind (db_exec (\<lambda>d. res_map (\<lambda>rows. d\<lparr>t_subscribers := rows\<rparr>)
           (my_update (my_fits env [(''subscribers.name'', sb_name s1)] [(''subscribers.channels'', chs)])
              (\<lambda>row. my_same env (br_id row) (sb_id s))
              (\<lambda>row. row\<lparr>br_name := sb_name s1, br_channels := chs,
                        br_updated_at := unix_milli (sb_updated_at s1)\<rparr>) (t_subscribers d))))
         (\<lambda>_. op_return s1))"

definition my_subscriber_delete :: "my_env \<Rightarrow> string \<Rightarrow> (db, unit) op" where
  "my_subscriber_delete env i =
     db_exec (\<lambda>d. Inr (d\<lparr>t_subscribers := filter (\<lambda>row. \<not> my_same env (br_id row) i) (t_subscribers d),
       t_subscriptions := filter (\<lambda>row. \<not> (my_same env (ur_subscriber_id row) i \<and>
           list_ex (\<lambda>b. my_same env (br_id b) i) (t_subscribers d))) (t_subscriptions d)\<rparr>))"

definition my_subscriber_get :: "my_env \<Rightarrow> string \<Rightarrow> (db, subscriber option) op" where
  "my_subscriber_get env i =
     db_query (\<lambda>d. Inr (map_option my_scan_subscriber
       (tbl_find (\<lambda>row. mv_key env (br_id row)) (mv_key env i) (t_subscribers d))))"

definition my_subscriber_list :: "my_env \<Rightarrow> (db, subscriber list) op" where
  "my_subscriber_list env =
     db_query (\<lambda>d. Inr (map my_scan_subscriber
       (sort_key (\<lambda>row. mv_key env (br_name row)) (t_subscribers d))))"

section \<open>Subscriptions\<close>

definition my_subscription_texts :: "subscription \<Rightarrow> (string \<times> string) list" where
  "my_subscription_texts s =
     [(''subscriptions.id'', su_id s), (''subscriptions.subscriber_id'', su_subscriber_id s),
      (''subscriptions.rule_id'', su_rule_id s)]"

definition my_subscription_jsons :: "golib \<Rightarrow> subscription \<Rightarrow> (string \<times> json) list" where
  "my_subscription_jsons lib s =
     [(''subscriptions.label_selector'', json_of_labels lib (su_label_selector s)),
      (''subscriptions.channel_filter'', json_of_strings lib (su_channel_filter s))]"

definition my_subscriber_known :: "my_env \<Rightarrow> string \<Rightarrow> db \<Rightarrow> bool" where
  "my_subscriber_known env i d \<longleftrightarrow> list_ex (\<lambda>b. my_same env (br_id b) i) (t_subscribers d)"

definition my_subscription_create ::
  "my_env \<Rightarrow> golib \<Rightarrow> time \<Rightarrow> subscription \<Rightarrow> (db, subscription) op" where
  "my_subscription_create env lib now s =
     (let s1 = (if su_created_at s = zero_time then s\<lparr>su_created_at := now\<rparr> else s);
          s2 = s1\<lparr>su_updated_at := now\<rparr>
      in op_bind (db_exec (\<lambda>d.
           res_bind (my_insert (my_fits env (my_subscription_texts s2) (my_subscription_jsons lib s2))
                       (\<lambda>row. mv_key env (ur_id row)) (subscription_to_row lib s2) (t_subscriptions d))
             (\<lambda>rows. if my_subscriber_known env (su_subscriber_id s2) d
                then Inr (d\<lparr>t_subscriptions := rows\<rparr>) else Inl my_fk_error)))
         (\<lambda>_. op_return s2))"

definition my_subscription_update ::
  "my_env \<Rightarrow> golib \<Rightarrow> time \<Rightarrow> subscription \<Rightarrow> (db, subscription) op" where
  "my_subscription_update env lib now s =
     (let s1 = s\<lparr>su_updated_at := now\<rparr>
      in op_bind (db_exec (\<lambda>d.
           res_bind (my_update (my_fits env (tl (my_subscription_texts s1)) (my_subscription_jsons lib s1))
                (\<lambda>row. my_same env (ur_id row) (su_id s))
                (\<lambda>row. (subscription_to_row lib s1)\<lparr>ur_id := ur_id row, ur_created_at := ur_created_at row\<rparr>)
                (t_subscriptions d))
             (\<lambda>rows. if list_ex (\<lambda>row. my_same env (ur_id row) (su_id s)) (t_subscriptions d) \<and>
                   \<not> my_subscriber_known env (su_subscriber_id s1) d
                then Inl my_fk_error else Inr (d\<lparr>t_subscriptions := rows\<rparr>))))
         (\<lambda>_. op_return s1))"

definition my_subscription_delete :: "my_env \<Rightarrow> string \<Rightarrow> (db, unit) op" where
  "my_subscription_delete env i =
     db_exec (\<lambda>d. Inr (d\<lparr>t_subscriptions := filter (\<lambda>row. \<not> my_same env (ur_id row) i) (t_subscriptions d)\<rparr>))"

definition my_subscription_get :: "my_env \<Rightarrow> string \<Rightarrow> (db, subscription option) op" where
  "my_subscription_get env i =
     db_query (\<lambda>d. Inr (map_option my_scan_subscription
       (tbl_find (\<lambda>row. mv_key env (ur_id row)) (mv_key env i) (t_subscriptions d))))"

definition my_subscription_list :: "my_env \<Rightarrow> (db, subscription list) op" where
  "my_subscription_list env =
     db_query (\<lambda>d. Inr (map my_scan_subscription
       (sort_key (\<lambda>row. mv_key env (ur_id row)) (t_subscriptions d))))"

definition my_rule_id_is :: "my_env \<Rightarrow> string \<Rightarrow> subscription_row \<Rightarrow> bool" where
  "my_rule_id_is env rid row \<longleftrightarrow> (case ur_rule_id row of None \<Rightarrow> False | Some i \<Rightarrow> my_same env i rid)"

definition my_subscription_list_for_rule ::
  "my_env \<Rightarrow> string \<Rightarrow> (string \<times> string) list \<Rightarrow> (db, subscription list) op" where
  "my_subscription_list_for_rule env rid labels =
     op_bind (db_query (\<lambda>d. Inr (map my_scan_subscription
        (filter (my_rule_id_is env rid) (t_subscriptions d))))) (\<lambda>out.
     op_bind (db_query (\<lambda>d. Inr (map my_scan_subscription
        (filter (\<lambda>row. ur_rule_id row = None) (t_subscriptions d))))) (\<lambda>rest.
       op_return (out @ filter (\<lambda>s. my_match_labels (su_label_selector s) labels) rest)))"

section \<open>Incidents\<close>

definition my_incident_texts :: "incident \<Rightarrow> (string \<times> string) list" where
  "my_incident_texts i =
     [(''incidents.id'', in_id i), (''incidents.rule_id'', in_rule_id i),
      (''incidents.last_value'', in_last_value i)]"

definition my_incident_open :: "my_env \<Rightarrow> incident \<Rightarrow> (db, unit) op" where
  "my_incident_open env i =
     db_exec (\<lambda>d. res_map (\<lambda>rows. d\<lparr>t_incidents := rows\<rparr>)
       (my_insert (my_fits env (my_incident_texts i) []) (\<lambda>row. mv_key env (ir_id row))
          \<lparr>ir_id = in_id i, ir_rule_id = in_rule_id i, ir_triggered_at = unix_milli (in_triggered_at i),
           ir_resolved_at = None, ir_last_value = Some (in_last_value i)\<rparr> (t_incidents d)))"

definition my_incident_resolve :: "my_env \<Rightarrow> string \<Rightarrow> int \<Rightarrow> (db, unit) op" where
  "my_incident_resolve env i ms =
     db_exec (\<lambda>d. Inr (d\<lparr>t_incidents := tbl_update (\<lambda>row. my_same env (ir_id row) i)
       (\<lambda>row. row\<lparr>ir_resolved_at := Some ms\<rparr>) (t_incidents d)\<rparr>))"

definition my_incident_get :: "my_env \<Rightarrow> string \<Rightarrow> (db, incident option) op" where
  "my_incident_get env i =
     db_query (\<lambda>d. Inr (map_option my_scan_incident
       (tbl_find (\<lambda>row. mv_key env (ir_id row)) (mv_key env i) (t_incidents d))))"

definition my_incident_list :: "int \<Rightarrow> (db, incident list) op" where
  "my_incident_list limit =
     db_query (\<lambda>d. Inr (map my_scan_incident (sql_limit (default_limit limit)
       (sort_key (\<lambda>row. - ir_triggered_at row) (t_incidents d)))))"

definition my_incident_list_for_rule :: "my_env \<Rightarrow> string \<Rightarrow> int \<Rightarrow> (db, incident list) op" where
  "my_incident_list_for_rule env rid limit =
     db_query (\<lambda>d. Inr (map my_scan_incident (sql_limit (default_limit limit)
       (sort_key (\<lambda>row. - ir_triggered_at row)
         (filter (\<lambda>row. my_same env (ir_rule_id row) rid) (t_incidents d))))))"

definition my_incident_list_resolved_before :: "int \<Rightarrow> (db, incident list) op" where
  "my_incident_list_resolved_before t =
     db_query (\<lambda>d. Inr (map my_scan_incident
       (sort_key (\<lambda>row. case ir_resolved_at row of None \<Rightarrow> 0 | Some ms \<Rightarrow> ms)
          (filter (resolved_before t) (t_incidents d)))))"

definition my_delete_children :: "my_env \<Rightarrow> string \<Rightarrow> (db, unit) op" where
  "my_delete_children env i =
     op_bind (db_exec (\<lambda>d. Inr (d\<lparr>t_notifications :=
        filter (\<lambda>n. \<not> my_same env (nw_incident_id n) i) (t_notifications d)\<rparr>))) (\<lambda>_.
       db_exec (\<lambda>d. Inr (d\<lparr>t_sub_states :=
        filter (\<lambda>s. \<not> my_same env (sw_incident_id s) i) (t_sub_states d)\<rparr>)))"

definition my_incident_delete_resolved_before :: "my_env \<Rightarrow> int \<Rightarrow> (db, int) op" where
  "my_incident_delete_resolved_before env t = db_tx
     (op_bind (db_query (\<lambda>d. Inr (map ir_id (filter (resolved_before t) (t_incidents d))))) (\<lambda>ids.
        if ids = [] then op_return 0
        else op_bind (op_for (my_delete_children env) ids) (\<lambda>_ d.
          (let n = int (length (filter (resolved_before t) (t_incidents d)))
           in op_bind (db_exec (\<lambda>d. Inr (d\<lparr>t_incidents :=
                 filter (\<lambda>row. \<not> resolved_before t row) (t_incidents d)\<rparr>)))
              (\<lambda>_. op_return n) d))))"

section \<open>Notifications\<close>

definition my_notification_texts :: "notification \<Rightarrow> (string \<times> string) list" where
  "my_notification_texts n =
     [(''notifications.id'', nt_id n), (''notifications.incident_id'', nt_incident_id n),
      (''notifications.subscription_id'', nt_subscription_id n),
      (''notifications.subscriber_id'', nt_subscriber_id n), (''notifications.channel'', nt_channel n),
      (''notifications.address'', nt_address n), (''notifications.kind'', nt_kind n),
      (''notifications.status'', nt_status n), (''notifications.error'', nt_error n)]"

definition my_notification_record :: "my_env \<Rightarrow> notification \<Rightarrow> (db, unit) op" where
  "my_notification_record env n =
     db_exec (\<lambda>d. res_map (\<lambda>rows. d\<lparr>t_notifications := rows\<rparr>)
       (my_insert (my_fits env (my_notification_texts n) []) (\<lambda>row. mv_key env (nw_id row))
          (pg_notification_to_row n) (t_notifications d)))"

definition my_notification_list_for_incident :: "my_env \<Rightarrow> string \<Rightarrow> (db, notification list) op" where
  "my_notification_list_for_incident env i =
     db_query (\<lambda>d. Inr (map my_scan_notification (sort_key nw_sent_at
       (filter (\<lambda>row. my_same env (nw_incident_id row) i) (t_notifications d)))))"

definition my_notification_list :: "int \<Rightarrow> (db, notification list) op" where
  "my_notification_list limit =
     db_query (\<lambda>d. Inr (map my_scan_notification (sql_limit (default_limit limit)
       (sort_key (\<lambda>row. - nw_sent_at row) (t_notifications d)))))"

definition my_notification_exists_for_subscription :: "my_env \<Rightarrow> string \<Rightarrow> (db, bool) op" where
  "my_notification_exists_for_subscription env sid =
     db_query (\<lambda>d. Inr (list_ex (\<lambda>row. my_same env (nw_subscription_id row) sid) (t_notifications d)))"

section \<open>Live states\<close>

definition my_live_texts :: "live_state \<Rightarrow> (string \<times> string) list" where
  "my_live_texts s =
     [(''live_states.rule_id'', ls_rule_id s), (''live_states.state'', ls_state s),
      (''live_states.last_value'', ls_last_value s), (''live_states.last_error'', ls_last_error s),
      (''live_states.incident_id'', ls_incident_id s)]"

definition my_live_get :: "my_env \<Rightarrow> string \<Rightarrow> (db, live_state option) op" where
  "my_live_get env rid =
     db_query (\<lambda>d. Inr (map_option pg_scan_live
       (tbl_find (\<lambda>row. mv_key env (lw_rule_id row)) (mv_key env rid) (t_live d))))"

definition my_live_upsert :: "my_env \<Rightarrow> live_state \<Rightarrow> (db, unit) op" where
  "my_live_upsert env s =
     db_exec (\<lambda>d. res_map (\<lambda>rows. d\<lparr>t_live := rows\<rparr>)
       (my_upsert (my_fits env (my_live_texts s) []) (\<lambda>row. mv_key env (lw_rule_id row))
          (\<lambda>row. (pg_live_to_row s)\<lparr>lw_rule_id := lw_rule_id row\<rparr>) (pg_live_to_row s) (t_live d)))"

definition my_live_list :: "(db, live_state list) op" where
  "my_live_list = db_query (\<lambda>d. Inr (map pg_scan_live (t_live d)))"

section \<open>Delivery states\<close>

definition my_sub_state_key :: "my_env \<Rightarrow> sub_state_row \<Rightarrow> string \<times> string" where
  "my_sub_state_key env row = (mv_key env (sw_incident_id row), mv_key env (sw_subscription_id row))"

definition my_sub_state_get :: "my_env \<Rightarrow> string \<Rightarrow> string \<Rightarrow> (db, sub_state option) op" where
  "my_sub_state_get env i sid =
     db_query (\<lambda>d. Inr (map_option scan_sub_state
       (tbl_find (my_sub_state_key env) (mv_key env i, mv_key env sid) (t_sub_states d))))"

definition my_sub_state_upsert :: "my_env \<Rightarrow> sub_state \<Rightarrow> (db, unit) op" where
  "my_sub_state_upsert env s =
     db_exec (\<lambda>d. res_map (\<lambda>rows. d\<lparr>t_sub_states := rows\<rparr>)
       (my_upsert (my_fits env [(''incident_sub_states.incident_id'', ss_incident_id s),
                                (''incident_sub_states.subscription_id'', ss_subscription_id s)] [])
          (my_sub_state_key env)
          (\<lambda>row. (sub_state_to_row s)\<lparr>sw_incident_id := sw_incident_id row,
                    sw_subscription_id := sw_subscription_id row\<rparr>)
          (sub_state_to_row s) (t_sub_states d)))"

definition my_sub_state_list_for_incident :: "my_env \<Rightarrow> string \<Rightarrow> (db, sub_state list) op" where
  "my_sub_state_list_for_incident env i =
     db_query (\<lambda>d. Inr (map scan_sub_state
       (filter (\<lambda>row. my_same env (sw_incident_id row) i) (t_sub_states d))))"

section \<open>API tokens\<close>

definition my_token_create :: "my_env \<Rightarrow> golib \<Rightarrow> time \<Rightarrow> token \<Rightarrow> (db, token) op" where
  "my_token_create env lib now t =
     (if tk_hash t = '''' then op_fail (ErrNew ''mysql: api_tokens: TokenHash required'')
      else let t1 = (if tk_created_at t = zero_time then t\<lparr>tk_created_at := now\<rparr> else t);
               fits = my_fits env [(''api_tokens.id'', tk_id t1), (''api_tokens.name'', tk_name t1),
                                   (''api_tokens.token_hash'', tk_hash t1)]
                        [(''api_tokens.scopes'', json_of_strings lib (tk_scopes t1))]
        in op_bind (db_exec (\<lambda>d.
             res_bind (my_insert fits (\<lambda>row. mv_key env (kw_id row)) (token_to_row lib t1) (t_tokens d)) (\<lambda>rows.
             res_bind (my_insert fits (\<lambda>row. mv_key env (kw_token_hash row)) (token_to_row lib t1) (t_tokens d))
               (\<lambda>_. Inr (d\<lparr>t_tokens := rows\<rparr>)))))
           (\<lambda>_. op_return t1))"

definition my_token_get_by_hash :: "my_env \<Rightarrow> string \<Rightarrow> (db, token option) op" where
  "my_token_get_by_hash env h =
     db_query (\<lambda>d. scan_one my_scan_token
       (tbl_find (\<lambda>row. mv_key env (kw_token_hash row)) (mv_key env h) (t_tokens d)))"

definition my_token_get :: "my_env \<Rightarrow> string \<Rightarrow> (db, token option) op" where
  "my_token_get env i =
     db_query (\<lambda>d. scan_one my_scan_token (tbl_find (\<lambda>row. mv_key env (kw_id row)) (mv_key env i) (t_tokens d)))"

definition my_token_list :: "(db, token list) op" where
  "my_token_list =
     db_query (\<lambda>d. scan_all my_scan_token (sort_key (\<lambda>row. - kw_created_at row) (t_tokens d)))"

definition my_token_revoke :: "my_env \<Rightarrow> string \<Rightarrow> (db, unit) op" where
  "my_token_revoke env i =
     db_exec (\<lambda>d. Inr (d\<lparr>t_tokens := tbl_update (\<lambda>row. my_same env (kw_id row) i)
       (\<lambda>row. row\<lparr>kw_revoked := 1\<rparr>) (t_tokens d)\<rparr>))"

definition my_token_touch_last_used :: "my_env \<Rightarrow> string \<Rightarrow> int \<Rightarrow> (db, unit) op" where
  "my_token_touch_last_used env i ts =
     db_exec (\<lambda>d. Inr (d\<lparr>t_tokens := tbl_update (\<lambda>row. my_same env (kw_id row) i)
       (\<lambda>row. row\<lparr>kw_last_used_at := Some ts\<rparr>) (t_tokens d)\<rparr>))"

definition my_token_delete :: "my_env \<Rightarrow> string \<Rightarrow> (db, unit) op" where
  "my_token_delete env i =
     db_exec (\<lambda>d. Inr (d\<lparr>t_tokens := filter (\<lambda>row. \<not> my_same env (kw_id row) i) (t_tokens d)\<rparr>))"

section \<open>Migrations\<close>

text \<open>strings.Split at a character: one piece more than there are separators.\<close>

fun split_at :: "char \<Rightarrow> string \<Rightarrow> string list" where
  "split_at sep [] = [[]]"
| "split_at sep (c # s) =
     (if c = sep then [] # split_at sep s
      else case split_at sep s of [] \<Rightarrow> [[c]] | w # ws \<Rightarrow> (c # w) # ws)"

definition all_lines_are_comments :: "string \<Rightarrow> bool" where
  "all_lines_are_comments s =
     list_all (\<lambda>line. let trimmed = trim_space line in trimmed = '''' \<or> has_prefix trimmed ''--'')
       (split_at (CHR 10) s)"

definition split_statements :: "string \<Rightarrow> string list" where
  "split_statements body =
     filter (\<lambda>stmt. \<not> (stmt = '''' \<or> all_lines_are_comments stmt))
       (map trim_space (split_at (CHR '';'') body))"

text \<open>
  The statements run outside a transaction, so those before a failing one stay done;
  \<open>t_scripts\<close> records the statements that were executed.
\<close>

definition my_run_statement :: "my_env \<Rightarrow> string \<Rightarrow> string \<Rightarrow> (db, unit) op" where
  "my_run_statement env name stmt =
     op_wrap (''migrate '' @ name)
       (db_exec (\<lambda>d. res_map (\<lambda>_. d\<lparr>t_scripts := t_scripts d @ [stmt]\<rparr>) (mv_ddl env (t_scripts d) stmt)))"

definition my_migrate_one :: "my_env \<Rightarrow> (string \<Rightarrow> time) \<Rightarrow> string \<times> string \<Rightarrow> (db, unit) op" where
  "my_migrate_one env now file =
     (case file of (name, body) \<Rightarrow>
        op_bind (db_query (\<lambda>d. Inr (length (filter (\<lambda>(v, _). my_same env v name) (t_migrations d))))) (\<lambda>n.
          if 0 < n then op_return ()
          else op_bind (op_for (my_run_statement env name) (split_statements body)) (\<lambda>_.
            db_exec (\<lambda>d. res_map (\<lambda>rows. d\<lparr>t_migrations := rows\<rparr>)
              (my_insert (my_fits env [(''schema_migrations.version'', name)] [])
                 (\<lambda>(v, _). mv_key env v) (name, now name div second) (t_migrations d))))))"

definition my_migrate :: "my_env \<Rightarrow> (string \<times> string) list \<Rightarrow> (string \<Rightarrow> time) \<Rightarrow> (db, unit) op" where
  "my_migrate env files now =
     op_bind (db_exec Inr) (\<lambda>_.
       op_for (my_migrate_one env now) (sort_key fst (filter (\<lambda>(n, _). has_suffix n ''.sql'') files)))"

text \<open>Open: the parameter that lets a call carry several statements is added when it is missing.\<close>

definition my_dsn :: "string \<Rightarrow> string" where
  "my_dsn dsn =
     (if str_contains dsn ''multiStatements='' then dsn
      else dsn @ (if str_contains dsn ''?'' then ''&'' else ''?'') @ ''multiStatements=true'')"

section \<open>The store\<close>

definition mysql_store :: "my_env \<Rightarrow> golib \<Rightarrow> db store" where
  "mysql_store env lib = \<lparr>
     st_rules = \<lparr>rr_create = my_rule_create env lib, rr_update = my_rule_update env lib,
       rr_delete = my_rule_delete env, rr_get = my_rule_get env lib, rr_list = my_rule_list env lib,
       rr_list_by_input = my_rule_list_by_input env lib\<rparr>,
     st_subscribers = \<lparr>sbr_create = my_subscriber_create env lib, sbr_update = my_subscriber_update env lib,
       sbr_delete = my_subscriber_delete env, sbr_get = my_subscriber_get env,
       sbr_list = my_subscriber_list env\<rparr>,
     st_subscriptions = \<lparr>sur_create = my_subscription_create env lib,
       sur_update = my_subscription_update env lib, sur_delete = my_subscription_delete env,
       sur_get = my_subscription_get env, sur_list = my_subscription_list env,
       sur_list_for_rule = my_subscription_list_for_rule env\<rparr>,
     st_incidents = \<lparr>inr_open = my_incident_open env, inr_resolve = my_incident_resolve env,
       inr_get = my_incident_get env, inr_list = my_incident_list,
       inr_list_for_rule = my_incident_list_for_rule env,
       inr_list_resolved_before = my_incident_list_resolved_before,
       inr_delete_resolved_before = my_incident_delete_resolved_before env\<rparr>,
     st_notifications = \<lparr>nr_record = my_notification_record env,
       nr_list_for_incident = my_notification_list_for_incident env,
       nr_list = my_notification_list,
       nr_exists_for_subscription = my_notification_exists_for_subscription env\<rparr>,
     st_live_states = \<lparr>lr_get = my_live_get env, lr_upsert = my_live_upsert env,
       lr_list = my_live_list\<rparr>,
     st_sub_states = \<lparr>ssr_get = my_sub_state_get env, ssr_upsert = my_sub_state_upsert env,
       ssr_list_for_incident = my_sub_state_list_for_incident env\<rparr>,
     st_api_tokens = \<lparr>tr_create = my_token_create env lib, tr_get_by_hash = my_token_get_by_hash env,
       tr_get = my_token_get env, tr_list = my_token_list, tr_revoke = my_token_revoke env,
       tr_touch_last_used = my_token_touch_last_used env, tr_delete = my_token_delete env\<rparr>\<rparr>"

end
