(* ===== verification/Driver_Refine.thy ===== *)
theory Driver_Refine
  imports Mysql_Store Sqlite_Contract
begin

text \<open>
  The PostgreSQL and the MySQL driver against the SQLite driver: for texts their servers take and
  collations that compare like bytes, every call of every repository has the result it has in
  SQLite and leaves the tables SQLite would have, up to the texts of errors and to NULL standing
  for an empty text. Where a server refuses a text or a collation folds two of them, they differ.
\<close>

section \<open>Refinement of calls\<close>

definition agrees :: "'a result \<Rightarrow> 'a result \<Rightarrow> bool" where
  "agrees r r' \<longleftrightarrow> (case r of Inl _ \<Rightarrow> \<not> is_ok r' | Inr x \<Rightarrow> r' = Inr x)"

lemma agrees_simps [simp]:
  "agrees (Inl e) (Inl e')" "agrees (Inr x) r' \<longleftrightarrow> r' = Inr x" "\<not> agrees (Inl e) (Inr x)" "agrees r r"
  by (auto simp: agrees_def split: sum.splits)

lemma agrees_iff: "agrees r r' \<longleftrightarrow> (\<exists>e e'. r = Inl e \<and> r' = Inl e') \<or> (\<exists>x. r = Inr x \<and> r' = Inr x)"
  by (cases r; cases r') auto

definition refines :: "('s \<Rightarrow> 't) \<Rightarrow> ('s, 'a) op \<Rightarrow> ('t, 'a) op \<Rightarrow> bool" where
  "refines f m m' \<longleftrightarrow> (\<forall>d. agrees (fst (m d)) (fst (m' (f d))) \<and> f (snd (m d)) = snd (m' (f d)))"

lemma refinesI:
  "(\<And>d. agrees (fst (m d)) (fst (m' (f d))) \<and> f (snd (m d)) = snd (m' (f d))) \<Longrightarrow> refines f m m'"
  by (simp add: refines_def)

lemma refinesD: "refines f m m' \<Longrightarrow> agrees (fst (m d)) (fst (m' (f d))) \<and> f (snd (m d)) = snd (m' (f d))"
  by (simp add: refines_def)

lemma refines_return: "refines f (op_return x) (op_return x)"
  by (simp add: refines_def)

lemma refines_fail: "refines f (op_fail e) (op_fail e')"
  by (simp add: refines_def)

lemma refines_bind:
  assumes "refines f m m'" and "\<And>x. refines f (k x) (k' x)"
  shows "refines f (op_bind m k) (op_bind m' k')"
proof (rule refinesI)
  fix d
  obtain r s where run: "m d = (r, s)" by (cases "m d")
  obtain r' s' where run': "m' (f d) = (r', s')" by (cases "m' (f d)")
  have "agrees r r'" "f s = s'" using refinesD [OF assms(1), of d] run run' by simp_all
  then consider e e' where "r = Inl e" "r' = Inl e'" | x where "r = Inr x" "r' = Inr x"
    by (auto simp: agrees_iff)
  then show "agrees (fst (op_bind m k d)) (fst (op_bind m' k' (f d))) \<and>
      f (snd (op_bind m k d)) = snd (op_bind m' k' (f d))"
  proof cases
    case 1
    then show ?thesis using run run' \<open>f s = s'\<close> by (simp add: op_bind_def)
  next
    case (2 x)
    then show ?thesis
      using run run' \<open>f s = s'\<close> refinesD [OF assms(2), of x s] by (simp add: op_bind_def)
  qed
qed

lemma refines_for: "(\<And>x. refines f (g x) (g' x)) \<Longrightarrow> refines f (op_for g xs) (op_for g' xs)"
  by (induction xs) (simp_all add: refines_return refines_bind)

text \<open>The end of a transaction whose body has run.\<close>

definition tx_commit :: "db \<Rightarrow> 'a result \<times> db \<Rightarrow> 'a result \<times> db" where
  "tx_commit d out =
     (case out of
        (Inl e, d') \<Rightarrow> (Inl e, d\<lparr>db_faults := db_faults d'\<rparr>)
      | (Inr x, d') \<Rightarrow>
          (case db_query (\<lambda>_. Inr () :: unit result) d' of
             (Inl e, d'') \<Rightarrow> (Inl e, d\<lparr>db_faults := db_faults d''\<rparr>)
           | (Inr _, d'') \<Rightarrow> (Inr x, d'')))"

lemma db_tx_eq: "db_tx m = op_bind (db_query (\<lambda>_. Inr ())) (\<lambda>_ d. tx_commit d (m d))"
  by (simp add: db_tx_def tx_commit_def)

text \<open>A map of databases that leaves the pending faults alone.\<close>

locale table_map =
  fixes f :: "db \<Rightarrow> db"
  assumes faults: "db_faults (f d) = db_faults d"
    and with_faults: "f (d\<lparr>db_faults := fs\<rparr>) = (f d)\<lparr>db_faults := fs\<rparr>"
begin

lemma call_refines:
  assumes "refines f m m'"
  shows "refines f (db_call m) (db_call m')"
proof (rule refinesI)
  fix d
  show "agrees (fst (db_call m d)) (fst (db_call m' (f d))) \<and> f (snd (db_call m d)) = snd (db_call m' (f d))"
    using refinesD [OF assms, of d] refinesD [OF assms, of "d\<lparr>db_faults := tl (db_faults d)\<rparr>"]
    by (auto simp: db_call_def faults with_faults split: list.splits option.splits)
qed

lemma query_refines:
  assumes "\<And>d. agrees (g d) (g' (f d))"
  shows "refines f (db_query g) (db_query g')"
  unfolding db_query_def by (rule call_refines) (simp add: refines_def assms)

lemma exec_refines:
  assumes "\<And>d. agrees (res_map f (g d)) (g' (f d))"
  shows "refines f (db_exec g) (db_exec g')"
  unfolding db_exec_def
proof (intro call_refines refinesI)
  fix d
  show "agrees (fst (case g d of Inl e \<Rightarrow> (Inl e, d) | Inr d' \<Rightarrow> (Inr (), d')))
        (fst (case g' (f d) of Inl e \<Rightarrow> (Inl e, f d) | Inr d' \<Rightarrow> (Inr (), d'))) \<and>
      f (snd (case g d of Inl e \<Rightarrow> (Inl e, d) | Inr d' \<Rightarrow> (Inr (), d'))) =
      snd (case g' (f d) of Inl e \<Rightarrow> (Inl e, f d) | Inr d' \<Rightarrow> (Inr (), d'))"
    using assms [of d] by (auto simp: agrees_iff res_map_def res_bind_def split: sum.splits)
qed

lemma tx_refines:
  assumes "refines f m m'"
  shows "refines f (db_tx m) (db_tx m')"
proof -
  have unit: "refines f (db_query (\<lambda>_. Inr () :: unit result)) (db_query (\<lambda>_. Inr ()))"
    by (rule query_refines) simp
  have body: "refines f (\<lambda>d. tx_commit d (m d)) (\<lambda>d. tx_commit d (m' d))"
  proof (rule refinesI)
    fix d
    obtain r s where run: "m d = (r, s)" by (cases "m d")
    obtain r' where run': "m' (f d) = (r', f s)" and r: "agrees r r'"
      using refinesD [OF assms, of d] run by (cases "m' (f d)") auto
    obtain u t where q: "db_query (\<lambda>_. Inr () :: unit result) s = (u, t)" by fastforce
    obtain u' where q': "db_query (\<lambda>_. Inr () :: unit result) (f s) = (u', f t)" and u: "agrees u u'"
      using refinesD [OF unit, of s] q by (cases "db_query (\<lambda>_. Inr () :: unit result) (f s)") auto
    show "agrees (fst (tx_commit d (m d))) (fst (tx_commit (f d) (m' (f d)))) \<and>
       f (snd (tx_commit d (m d))) = snd (tx_commit (f d) (m' (f d)))"
      using r u faults [of s] faults [of t]
      by (auto simp: tx_commit_def run run' q q' agrees_iff with_faults)
  qed
  show ?thesis
    unfolding db_tx_eq by (rule refines_bind [OF unit body])
qed

end

section \<open>Collations\<close>

text \<open>A collation whose keys compare as the texts do.\<close>

definition embeds :: "(string \<Rightarrow> string) \<Rightarrow> bool" where
  "embeds k \<longleftrightarrow> (\<forall>a b. k a \<le> k b \<longleftrightarrow> a \<le> b)"

lemma embeds_id [simp]: "embeds (\<lambda>s. s)"
  by (simp add: embeds_def)

lemma embeds_eq: "embeds k \<Longrightarrow> k a = k b \<longleftrightarrow> a = b"
  by (metis embeds_def order_antisym order_refl)

lemma insort_embeds: "embeds k \<Longrightarrow> insort_key (\<lambda>x. k (g x)) y xs = insort_key g y xs"
  by (induction xs) (simp_all add: embeds_def)

lemma sort_embeds: "embeds k \<Longrightarrow> sort_key (\<lambda>x. k (g x)) xs = sort_key g xs"
  by (induction xs) (simp_all add: insort_embeds)

lemma find_embeds: "embeds k \<Longrightarrow> tbl_find (\<lambda>x. k (g x)) (k a) xs = tbl_find g a xs"
  by (induction xs) (simp_all add: embeds_eq)

section \<open>Rows whose NULLs read as empty texts\<close>

definition denull :: "string option \<Rightarrow> string option" where
  "denull c = Some (from_null c)"

lemma denull_simps [simp]:
  "denull (Some s) = Some s" "denull (nullable s) = Some s" "scan_text (denull c) = Inr (from_null c)"
  "from_null (denull c) = from_null c" "from_null (Some s) = s"
  by (simp_all add: denull_def from_null_def nullable_def scan_text_def)

definition denull_incident :: "incident_row \<Rightarrow> incident_row" where
  "denull_incident row = row\<lparr>ir_last_value := denull (ir_last_value row)\<rparr>"

definition denull_notification :: "notification_row \<Rightarrow> notification_row" where
  "denull_notification row = row\<lparr>nw_error := denull (nw_error row)\<rparr>"

definition denull_live :: "live_row \<Rightarrow> live_row" where
  "denull_live row =
     row\<lparr>lw_last_value := denull (lw_last_value row), lw_last_error := denull (lw_last_error row)\<rparr>"

definition denull_rule :: "rule_row \<Rightarrow> rule_row" where
  "denull_rule row = row\<lparr>rw_description := denull (rw_description row)\<rparr>"

text \<open>The tables of a driver as SQLite would hold them; \<open>h\<close> is what happens to the rows of rules.\<close>

definition lite_tables :: "(rule_row \<Rightarrow> rule_row) \<Rightarrow> db \<Rightarrow> db" where
  "lite_tables h d =
     d\<lparr>t_rules := map h (t_rules d), t_incidents := map denull_incident (t_incidents d),
       t_notifications := map denull_notification (t_notifications d), t_live := map denull_live (t_live d)\<rparr>"

lemma denull_keys [simp]:
  "ir_id (denull_incident i) = ir_id i" "ir_rule_id (denull_incident i) = ir_rule_id i"
  "ir_triggered_at (denull_incident i) = ir_triggered_at i"
  "ir_resolved_at (denull_incident i) = ir_resolved_at i"
  "resolved_before t (denull_incident i) = resolved_before t i"
  "nw_id (denull_notification n) = nw_id n" "nw_incident_id (denull_notification n) = nw_incident_id n"
  "nw_subscription_id (denull_notification n) = nw_subscription_id n"
  "nw_sent_at (denull_notification n) = nw_sent_at n"
  "lw_rule_id (denull_live l) = lw_rule_id l"
  "rw_id (denull_rule x) = rw_id x" "rw_name (denull_rule x) = rw_name x"
  "rw_input_ref (denull_rule x) = rw_input_ref x" "rw_enabled (denull_rule x) = rw_enabled x"
  "rw_created_at (denull_rule x) = rw_created_at x"
  by (simp_all add: denull_incident_def denull_notification_def denull_live_def denull_rule_def
      resolved_before_def)

lemma denull_scans [simp]:
  "scan_incident (denull_incident i) = Inr (pg_scan_incident i)"
  "scan_notification (denull_notification n) = scan_notification n"
  "scan_live (denull_live l) = Inr (pg_scan_live l)"
  "scan_rule lib (denull_rule x) = my_scan_rule lib x"
  by (simp_all add: denull_incident_def denull_notification_def denull_live_def denull_rule_def
      scan_incident_def pg_scan_incident_def scan_notification_def scan_live_def pg_scan_live_def
      scan_rule_def my_scan_rule_def)

lemma notification_row_ids [simp]:
  "nw_id (pg_notification_to_row n) = nt_id n" "nw_id (notification_to_row n) = nt_id n"
  by (simp_all add: pg_notification_to_row_def notification_to_row_def)

lemma denull_rows [simp]:
  "denull_notification (pg_notification_to_row n) = notification_to_row n"
  "denull_live (pg_live_to_row s) = live_to_row s"
  "denull_incident (i\<lparr>ir_resolved_at := ms\<rparr>) = (denull_incident i)\<lparr>ir_resolved_at := ms\<rparr>"
  "denull_incident \<lparr>ir_id = a, ir_rule_id = b, ir_triggered_at = t, ir_resolved_at = r, ir_last_value = Some v\<rparr> =
     \<lparr>ir_id = a, ir_rule_id = b, ir_triggered_at = t, ir_resolved_at = r, ir_last_value = Some v\<rparr>"
  "denull_rule (rule_to_row lib x cond) = rule_to_row lib x cond"
  "denull_rule ((rule_to_row lib x cond)\<lparr>rw_id := a, rw_created_at := t\<rparr>) =
     (rule_to_row lib x cond)\<lparr>rw_id := a, rw_created_at := t\<rparr>"
  by (simp_all add: denull_incident_def denull_notification_def denull_live_def denull_rule_def
      pg_notification_to_row_def notification_to_row_def pg_live_to_row_def live_to_row_def rule_to_row_def)

lemma lite_tables_sel [simp]:
  "t_rules (lite_tables h d) = map h (t_rules d)"
  "t_subscribers (lite_tables h d) = t_subscribers d"
  "t_subscriptions (lite_tables h d) = t_subscriptions d"
  "t_incidents (lite_tables h d) = map denull_incident (t_incidents d)"
  "t_notifications (lite_tables h d) = map denull_notification (t_notifications d)"
  "t_live (lite_tables h d) = map denull_live (t_live d)"
  "t_sub_states (lite_tables h d) = t_sub_states d"
  "t_tokens (lite_tables h d) = t_tokens d"
  "t_migrations (lite_tables h d) = t_migrations d"
  "t_scripts (lite_tables h d) = t_scripts d"
  "db_faults (lite_tables h d) = db_faults d"
  by (simp_all add: lite_tables_def)

lemma lite_tables_upd [simp]:
  "lite_tables h (d\<lparr>t_rules := rs\<rparr>) = (lite_tables h d)\<lparr>t_rules := map h rs\<rparr>"
  "lite_tables h (d\<lparr>t_subscribers := bs\<rparr>) = (lite_tables h d)\<lparr>t_subscribers := bs\<rparr>"
  "lite_tables h (d\<lparr>t_subscriptions := us\<rparr>) = (lite_tables h d)\<lparr>t_subscriptions := us\<rparr>"
  "lite_tables h (d\<lparr>t_incidents := is\<rparr>) = (lite_tables h d)\<lparr>t_incidents := map denull_incident is\<rparr>"
  "lite_tables h (d\<lparr>t_notifications := ns\<rparr>) =
     (lite_tables h d)\<lparr>t_notifications := map denull_notification ns\<rparr>"
  "lite_tables h (d\<lparr>t_live := ls\<rparr>) = (lite_tables h d)\<lparr>t_live := map denull_live ls\<rparr>"
  "lite_tables h (d\<lparr>t_sub_states := ss\<rparr>) = (lite_tables h d)\<lparr>t_sub_states := ss\<rparr>"
  "lite_tables h (d\<lparr>t_tokens := ts\<rparr>) = (lite_tables h d)\<lparr>t_tokens := ts\<rparr>"
  "lite_tables h (d\<lparr>t_migrations := ms\<rparr>) = (lite_tables h d)\<lparr>t_migrations := ms\<rparr>"
  "lite_tables h (d\<lparr>t_scripts := xs\<rparr>) = (lite_tables h d)\<lparr>t_scripts := xs\<rparr>"
  "lite_tables h (d\<lparr>db_faults := fs\<rparr>) = (lite_tables h d)\<lparr>db_faults := fs\<rparr>"
  by (simp_all add: lite_tables_def)

interpretation lite_map: table_map "lite_tables h" for h
  by unfold_locales simp_all

section \<open>Tables under a map of their rows\<close>

lemma insort_map_rows: "insort_key key (g r) (map g rows) = map g (insort_key (\<lambda>x. key (g x)) r rows)"
  by (induction rows) simp_all

lemma sort_map_rows [simp]: "sort_key key (map g rows) = map g (sort_key (\<lambda>x. key (g x)) rows)"
  by (induction rows) (simp_all add: insort_map_rows)

lemma limit_map_rows [simp]: "sql_limit n (map g rows) = map g (sql_limit n rows)"
  by (simp add: sql_limit_def take_map)

lemma filter_map_rows [simp]: "filter p (map g rows) = map g (filter (\<lambda>x. p (g x)) rows)"
  by (induction rows) simp_all

lemma update_map_rows:
  "(\<And>r. p (g r) = p' r) \<Longrightarrow> (\<And>r. g (u' r) = u (g r)) \<Longrightarrow>
   map g (tbl_update p' u' rows) = tbl_update p u (map g rows)"
  by (simp add: tbl_update_def)

lemma resolve_rows:
  "map denull_incident (tbl_update (\<lambda>row. ir_id row = i) (\<lambda>row. row\<lparr>ir_resolved_at := ms\<rparr>) rows) =
   tbl_update (\<lambda>row. ir_id row = i) (\<lambda>row. row\<lparr>ir_resolved_at := ms\<rparr>) (map denull_incident rows)"
  by (rule update_map_rows) simp_all

lemma rewrite_rules:
  "map denull_rule (tbl_update (\<lambda>row. rw_id row = i)
      (\<lambda>row. (rule_to_row lib x cond)\<lparr>rw_id := rw_id row, rw_created_at := rw_created_at row\<rparr>) rows) =
   tbl_update (\<lambda>row. rw_id row = i)
      (\<lambda>row. (rule_to_row lib x cond)\<lparr>rw_id := rw_id row, rw_created_at := rw_created_at row\<rparr>)
      (map denull_rule rows)"
  by (rule update_map_rows) simp_all

lemma upsert_map_rows:
  "(\<And>r. key (g r) = key r) \<Longrightarrow> map g (tbl_upsert key row rows) = tbl_upsert key (g row) (map g rows)"
  by (simp add: tbl_upsert_def image_image)

lemma scan_one_map [simp]: "scan_one scan (map_option g r) = scan_one (\<lambda>x. scan (g x)) r"
  by (cases r) (simp_all add: scan_one_def)

lemma scan_all_map [simp]: "scan_all scan (map g rows) = scan_all (\<lambda>x. scan (g x)) rows"
  by (simp add: scan_all_def comp_def)

lemma scan_total [simp]:
  "scan_one (\<lambda>x. Inr (f x)) r = Inr (map_option f r)" "scan_all (\<lambda>x. Inr (f x)) rows = Inr (map f rows)"
  by (cases r; simp add: scan_one_def) (induction rows; simp add: scan_all_def)

end
