(* ===== verification/Driver_Agree.thy ===== *)
theory Driver_Agree
  imports Driver_Refine
begin

text \<open>
  The drivers of PostgreSQL and MySQL agree with the SQLite driver, call by call, on texts and
  JSON values the server takes, when its collation compares as bytes do.
\<close>

section \<open>Agreement of two stores\<close>

text \<open>
  \<open>ok\<close> and \<open>okj\<close> are the texts and the JSON values taken, \<open>f\<close> the view of the tables of the first
  store as tables of the second.
\<close>

definition rule_taken :: "(string \<Rightarrow> bool) \<Rightarrow> (json \<Rightarrow> bool) \<Rightarrow> golib \<Rightarrow> rule \<Rightarrow> bool" where
  "rule_taken ok okj lib x \<longleftrightarrow>
     list_all ok (rule_texts x) \<and> okj (json_of_labels lib (r_labels x)) \<and>
     (case rule_cond_json lib x of Inl _ \<Rightarrow> True | Inr cond \<Rightarrow> okj cond)"

definition rules_agree ::
  "(string \<Rightarrow> bool) \<Rightarrow> (json \<Rightarrow> bool) \<Rightarrow> golib \<Rightarrow> (db \<Rightarrow> db) \<Rightarrow> db rule_repo \<Rightarrow> db rule_repo \<Rightarrow> bool" where
  "rules_agree ok okj lib f R R' \<longleftrightarrow>
     (\<forall>now x. rule_taken ok okj lib x \<longrightarrow> refines f (rr_create R now x) (rr_create R' now x)) \<and>
     (\<forall>now x. rule_taken ok okj lib x \<longrightarrow> refines f (rr_update R now x) (rr_update R' now x)) \<and>
     (\<forall>i. ok i \<longrightarrow> refines f (rr_delete R i) (rr_delete R' i)) \<and>
     (\<forall>i. ok i \<longrightarrow> refines f (rr_get R i) (rr_get R' i)) \<and>
     refines f (rr_list R) (rr_list R') \<and>
     (\<forall>ref. ok ref \<longrightarrow> refines f (rr_list_by_input R ref) (rr_list_by_input R' ref))"

definition subscriber_taken :: "(string \<Rightarrow> bool) \<Rightarrow> (json \<Rightarrow> bool) \<Rightarrow> golib \<Rightarrow> subscriber \<Rightarrow> bool" where
  "subscriber_taken ok okj lib s \<longleftrightarrow>
     ok (sb_id s) \<and> ok (sb_name s) \<and> okj (json_of_bindings lib (sb_channels s))"

definition subscribers_agree ::
  "(string \<Rightarrow> bool) \<Rightarrow> (json \<Rightarrow> bool) \<Rightarrow> golib \<Rightarrow> (db \<Rightarrow> db) \<Rightarrow>
   db subscriber_repo \<Rightarrow> db subscriber_repo \<Rightarrow> bool" where
  "subscribers_agree ok okj lib f R R' \<longleftrightarrow>
     (\<forall>now s. subscriber_taken ok okj lib s \<longrightarrow> refines f (sbr_create R now s) (sbr_create R' now s)) \<and>
     (\<forall>now s. subscriber_taken ok okj lib s \<longrightarrow> refines f (sbr_update R now s) (sbr_update R' now s)) \<and>
     (\<forall>i. ok i \<longrightarrow> refines f (sbr_delete R i) (sbr_delete R' i)) \<and>
     (\<forall>i. ok i \<longrightarrow> refines f (sbr_get R i) (sbr_get R' i)) \<and>
     refines f (sbr_list R) (sbr_list R')"

definition subscription_taken :: "(string \<Rightarrow> bool) \<Rightarrow> (json \<Rightarrow> bool) \<Rightarrow> golib \<Rightarrow> subscription \<Rightarrow> bool" where
  "subscription_taken ok okj lib s \<longleftrightarrow>
     ok (su_id s) \<and> ok (su_subscriber_id s) \<and> ok (su_rule_id s) \<and>
     okj (json_of_labels lib (su_label_selector s)) \<and> okj (json_of_strings lib (su_channel_filter s))"

definition subscriptions_agree ::
  "(string \<Rightarrow> bool) \<Rightarrow> (json \<Rightarrow> bool) \<Rightarrow> golib \<Rightarrow> (db \<Rightarrow> db) \<Rightarrow>
   db subscription_repo \<Rightarrow> db subscription_repo \<Rightarrow> bool" where
  "subscriptions_agree ok okj lib f R R' \<longleftrightarrow>
     (\<forall>now s. subscription_taken ok okj lib s \<longrightarrow> refines f (sur_create R now s) (sur_create R' now s)) \<and>
     (\<forall>now s. subscription_taken ok okj lib s \<longrightarrow> refines f (sur_update R now s) (sur_update R' now s)) \<and>
     (\<forall>i. ok i \<longrightarrow> refines f (sur_delete R i) (sur_delete R' i)) \<and>
     (\<forall>i. ok i \<longrightarrow> refines f (sur_get R i) (sur_get R' i)) \<and>
     refines f (sur_list R) (sur_list R') \<and>
     (\<forall>i labels. ok i \<longrightarrow> refines f (sur_list_for_rule R i labels) (sur_list_for_rule R' i labels))"

definition incidents_agree ::
  "(string \<Rightarrow> bool) \<Rightarrow> (db \<Rightarrow> db) \<Rightarrow> db incident_repo \<Rightarrow> db incident_repo \<Rightarrow> bool" where
  "incidents_agree ok f R R' \<longleftrightarrow>
     (\<forall>i. ok (in_id i) \<and> ok (in_rule_id i) \<and> ok (in_last_value i) \<longrightarrow>
        refines f (inr_open R i) (inr_open R' i)) \<and>
     (\<forall>i ms. ok i \<longrightarrow> refines f (inr_resolve R i ms) (inr_resolve R' i ms)) \<and>
     (\<forall>i. ok i \<longrightarrow> refines f (inr_get R i) (inr_get R' i)) \<and>
     (\<forall>n. refines f (inr_list R n) (inr_list R' n)) \<and>
     (\<forall>i n. ok i \<longrightarrow> refines f (inr_list_for_rule R i n) (inr_list_for_rule R' i n)) \<and>
     (\<forall>t. refines f (inr_list_resolved_before R t) (inr_list_resolved_before R' t)) \<and>
     (\<forall>t. refines f (inr_delete_resolved_before R t) (inr_delete_resolved_before R' t))"

definition notifications_agree ::
  "(string \<Rightarrow> bool) \<Rightarrow> (db \<Rightarrow> db) \<Rightarrow> db notification_repo \<Rightarrow> db notification_repo \<Rightarrow> bool" where
  "notifications_agree ok f R R' \<longleftrightarrow>
     (\<forall>n. list_all ok (notification_texts n) \<longrightarrow> refines f (nr_record R n) (nr_record R' n)) \<and>
     (\<forall>i. ok i \<longrightarrow> refines f (nr_list_for_incident R i) (nr_list_for_incident R' i)) \<and>
     (\<forall>n. refines f (nr_list R n) (nr_list R' n)) \<and>
     (\<forall>i. ok i \<longrightarrow> refines f (nr_exists_for_subscription R i) (nr_exists_for_subscription R' i))"

definition live_states_agree ::
  "(string \<Rightarrow> bool) \<Rightarrow> (db \<Rightarrow> db) \<Rightarrow> db live_repo \<Rightarrow> db live_repo \<Rightarrow> bool" where
  "live_states_agree ok f R R' \<longleftrightarrow>
     (\<forall>i. ok i \<longrightarrow> refines f (lr_get R i) (lr_get R' i)) \<and>
     (\<forall>s. list_all ok (live_texts s) \<longrightarrow> refines f (lr_upsert R s) (lr_upsert R' s)) \<and>
     refines f (lr_list R) (lr_list R')"

definition sub_states_agree ::
  "(string \<Rightarrow> bool) \<Rightarrow> (db \<Rightarrow> db) \<Rightarrow> db sub_state_repo \<Rightarrow> db sub_state_repo \<Rightarrow> bool" where
  "sub_states_agree ok f R R' \<longleftrightarrow>
     (\<forall>i sid. ok i \<and> ok sid \<longrightarrow> refines f (ssr_get R i sid) (ssr_get R' i sid)) \<and>
     (\<forall>s. ok (ss_incident_id s) \<and> ok (ss_subscription_id s) \<longrightarrow>
        refines f (ssr_upsert R s) (ssr_upsert R' s)) \<and>
     (\<forall>i. ok i \<longrightarrow> refines f (ssr_list_for_incident R i) (ssr_list_for_incident R' i))"

definition tokens_agree ::
  "(string \<Rightarrow> bool) \<Rightarrow> (json \<Rightarrow> bool) \<Rightarrow> golib \<Rightarrow> (db \<Rightarrow> db) \<Rightarrow>
   db token_repo \<Rightarrow> db token_repo \<Rightarrow> bool" where
  "tokens_agree ok okj lib f R R' \<longleftrightarrow>
     (\<forall>now t. ok (tk_id t) \<and> ok (tk_name t) \<and> ok (tk_hash t) \<and> okj (json_of_strings lib (tk_scopes t)) \<longrightarrow>
        refines f (tr_create R now t) (tr_create R' now t)) \<and>
     (\<forall>h. ok h \<longrightarrow> refines f (tr_get_by_hash R h) (tr_get_by_hash R' h)) \<and>
     (\<forall>i. ok i \<longrightarrow> refines f (tr_get R i) (tr_get R' i)) \<and>
     refines f (tr_list R) (tr_list R') \<and>
     (\<forall>i. ok i \<longrightarrow> refines f (tr_revoke R i) (tr_revoke R' i)) \<and>
     (\<forall>i ts. ok i \<longrightarrow> refines f (tr_touch_last_used R i ts) (tr_touch_last_used R' i ts)) \<and>
     (\<forall>i. ok i \<longrightarrow> refines f (tr_delete R i) (tr_delete R' i))"

definition stores_agree ::
  "(string \<Rightarrow> bool) \<Rightarrow> (json \<Rightarrow> bool) \<Rightarrow> golib \<Rightarrow> (db \<Rightarrow> db) \<Rightarrow> db store \<Rightarrow> db store \<Rightarrow> bool" where
  "stores_agree ok okj lib f S S' \<longleftrightarrow>
     rules_agree ok okj lib f (st_rules S) (st_rules S') \<and>
     subscribers_agree ok okj lib f (st_subscribers S) (st_subscribers S') \<and>
     subscriptions_agree ok okj lib f (st_subscriptions S) (st_subscriptions S') \<and>
     incidents_agree ok f (st_incidents S) (st_incidents S') \<and>
     notifications_agree ok f (st_notifications S) (st_notifications S') \<and>
     live_states_agree ok f (st_live_states S) (st_live_states S') \<and>
     sub_states_agree ok f (st_sub_states S) (st_sub_states S') \<and>
     tokens_agree ok okj lib f (st_api_tokens S) (st_api_tokens S')"

section \<open>PostgreSQL\<close>

abbreviation pg_tables :: "db \<Rightarrow> db" where
  "pg_tables \<equiv> lite_tables (\<lambda>row. row)"

lemma pg_taken:
  "list_all (pv_text env) texts \<Longrightarrow> pg_exec env texts g = db_exec g"
  "list_all (pv_text env) texts \<Longrightarrow> pg_query env texts q = db_query q"
  by (simp_all add: pg_exec_def pg_query_def)


lemmas refine_rules =
  refines_return refines_fail refines_bind refines_for lite_map.exec_refines lite_map.query_refines
  lite_map.tx_refines

lemma rule_texts_times [simp]:
  "rule_texts (x\<lparr>r_created_at := t\<rparr>) = rule_texts x" "rule_texts (x\<lparr>r_updated_at := t\<rparr>) = rule_texts x"
  by (simp_all add: rule_texts_def)

lemma pg_rules_agree:
  assumes ok: "\<And>s. ok s \<Longrightarrow> pv_text env s" and coll: "embeds (pv_collate env)"
  shows "rules_agree ok okj lib pg_tables (st_rules (postgres_store env lib)) (st_rules (sqlite_store lib))"
proof -
  have texts: "rule_taken ok okj lib x \<Longrightarrow> list_all (pv_text env) (rule_texts x)" for x
    using ok by (auto simp: rule_taken_def elim: list.pred_mono_strong)
  have create: "rule_taken ok okj lib x \<Longrightarrow>
      refines pg_tables (pg_rule_create env lib now x) (lite_rule_create lib now x)" for now x
    by (auto simp: pg_rule_create_def lite_rule_create_def Let_def pg_taken texts pg_insert_def sql_insert_def
        intro!: refine_rules split: sum.splits)
  have update: "rule_taken ok okj lib x \<Longrightarrow>
      refines pg_tables (pg_rule_update env lib now x) (lite_rule_update lib now x)" for now x
    by (auto simp: pg_rule_update_def lite_rule_update_def Let_def pg_taken texts
        intro!: refine_rules split: sum.splits)
  show ?thesis
    unfolding rules_agree_def
    by (auto simp: postgres_store_def create update pg_rule_delete_def lite_rule_delete_def pg_rule_get_def
        lite_rule_get_def pg_rule_list_def lite_rule_list_def pg_rule_list_by_input_def
        lite_rule_list_by_input_def pg_taken ok sort_embeds [OF coll] intro!: refine_rules)
qed


lemma pg_subscribers_agree:
  assumes ok: "\<And>s. ok s \<Longrightarrow> pv_text env s" and coll: "embeds (pv_collate env)"
  shows "subscribers_agree ok okj lib pg_tables (st_subscribers (postgres_store env lib))
     (st_subscribers (sqlite_store lib))"
  unfolding subscribers_agree_def
  by (auto simp: postgres_store_def sqlite_store_def subscriber_taken_def pg_subscriber_create_def
      lite_subscriber_create_def pg_subscriber_update_def lite_subscriber_update_def
      pg_subscriber_delete_def lite_subscriber_delete_def pg_subscriber_get_def lite_subscriber_get_def
      pg_subscriber_list_def lite_subscriber_list_def Let_def pg_insert_def sql_insert_def pg_taken ok
      sort_embeds [OF coll] intro!: refine_rules)

lemma pg_subscriptions_agree:
  assumes ok: "\<And>s. ok s \<Longrightarrow> pv_text env s" and coll: "embeds (pv_collate env)"
  shows "subscriptions_agree ok okj lib pg_tables (st_subscriptions (postgres_store env lib))
     (st_subscriptions (sqlite_store lib))"
  unfolding subscriptions_agree_def
  by (auto simp: postgres_store_def sqlite_store_def subscription_taken_def pg_subscription_create_def
      lite_subscription_create_def pg_subscription_update_def lite_subscription_update_def
      pg_subscription_delete_def lite_subscription_delete_def pg_subscription_get_def
      lite_subscription_get_def pg_subscription_list_def lite_subscription_list_def
      pg_subscription_list_for_rule_def lite_subscription_list_for_rule_def pg_fk_error_def fk_error_def
      Let_def pg_insert_def sql_insert_def pg_taken ok sort_embeds [OF coll] intro!: refine_rules)

lemma delete_children_refines:
  "refines (lite_tables h) (pg_delete_children i) (delete_children i)"
  by (auto simp: pg_delete_children_def delete_children_def intro!: refine_rules)

lemma incidents_gone_refines:
  assumes "refines (lite_tables h) (m :: (db, unit) op) m'"
  shows "refines (lite_tables h)
     (\<lambda>d. op_bind m (\<lambda>_. op_return (int (length (filter (resolved_before t) (t_incidents d))))) d)
     (\<lambda>d. op_bind m' (\<lambda>_. op_return (int (length (filter (resolved_before t) (t_incidents d))))) d)"
proof (rule refinesI)
  fix d
  have n: "length (filter (resolved_before t) (t_incidents (lite_tables h d))) =
      length (filter (resolved_before t) (t_incidents d))"
    by simp
  have "refines (lite_tables h) (op_bind m (\<lambda>_. op_return x)) (op_bind m' (\<lambda>_. op_return x))" for x :: int
    by (intro refine_rules assms)
  from refinesD [OF this, of _ d]
  show "agrees (fst (op_bind m (\<lambda>_. op_return (int (length (filter (resolved_before t) (t_incidents d))))) d))
      (fst (op_bind m' (\<lambda>_. op_return (int (length (filter (resolved_before t)
         (t_incidents (lite_tables h d)))))) (lite_tables h d))) \<and>
    lite_tables h (snd (op_bind m (\<lambda>_. op_return (int (length (filter (resolved_before t) (t_incidents d))))) d)) =
    snd (op_bind m' (\<lambda>_. op_return (int (length (filter (resolved_before t)
         (t_incidents (lite_tables h d)))))) (lite_tables h d))"
    unfolding n .
qed

lemma pg_incidents_agree:
  assumes ok: "\<And>s. ok s \<Longrightarrow> pv_text env s"
  shows "incidents_agree ok pg_tables (st_incidents (postgres_store env lib)) (st_incidents (sqlite_store lib))"
proof -
  have gone: "refines pg_tables (pg_incident_delete_resolved_before env t)
      (lite_incident_delete_resolved_before t)" for t
    unfolding pg_incident_delete_resolved_before_def lite_incident_delete_resolved_before_def
    by (auto simp: pg_taken comp_def Let_def intro!: refine_rules delete_children_refines
        incidents_gone_refines)
  show ?thesis
    unfolding incidents_agree_def
    by (auto simp: postgres_store_def sqlite_store_def gone pg_incident_open_def lite_incident_open_def
        pg_incident_resolve_def lite_incident_resolve_def pg_incident_get_def lite_incident_get_def
        pg_incident_list_def lite_incident_list_def pg_incident_list_for_rule_def
        lite_incident_list_for_rule_def pg_incident_list_resolved_before_def
        lite_incident_list_resolved_before_def pg_insert_def sql_insert_def pg_taken ok image_image
        tbl_find_map_key resolve_rows intro!: refine_rules)
qed

lemma pg_notifications_agree:
  assumes ok: "\<And>s. ok s \<Longrightarrow> pv_text env s"
  shows "notifications_agree ok pg_tables (st_notifications (postgres_store env lib))
     (st_notifications (sqlite_store lib))"
proof -
  have texts: "list_all ok xs \<Longrightarrow> list_all (pv_text env) xs" for xs
    using ok by (auto elim: list.pred_mono_strong)
  show ?thesis
    unfolding notifications_agree_def
    by (auto simp: postgres_store_def sqlite_store_def pg_notification_record_def
        lite_notification_record_def pg_notification_list_for_incident_def
        lite_notification_list_for_incident_def pg_notification_list_def lite_notification_list_def
        pg_notification_exists_for_subscription_def lite_notification_exists_for_subscription_def
        pg_insert_def sql_insert_def pg_taken ok texts image_image list_ex_iff intro!: refine_rules)
qed

lemma pg_live_states_agree:
  assumes ok: "\<And>s. ok s \<Longrightarrow> pv_text env s"
  shows "live_states_agree ok pg_tables (st_live_states (postgres_store env lib))
     (st_live_states (sqlite_store lib))"
proof -
  have texts: "list_all ok xs \<Longrightarrow> list_all (pv_text env) xs" for xs
    using ok by (auto elim: list.pred_mono_strong)
  show ?thesis
    unfolding live_states_agree_def
    by (auto simp: postgres_store_def pg_live_get_def lite_live_get_def pg_live_upsert_def
        lite_live_upsert_def pg_live_list_def lite_live_list_def pg_taken ok texts tbl_find_map_key
        upsert_map_rows sqlite_store_def intro!: refine_rules)
qed

lemma pg_sub_states_agree:
  assumes ok: "\<And>s. ok s \<Longrightarrow> pv_text env s"
  shows "sub_states_agree ok pg_tables (st_sub_states (postgres_store env lib))
     (st_sub_states (sqlite_store lib))"
  unfolding sub_states_agree_def
  by (auto simp: postgres_store_def sqlite_store_def pg_sub_state_get_def lite_sub_state_get_def
      pg_sub_state_upsert_def lite_sub_state_upsert_def pg_sub_state_list_for_incident_def
      lite_sub_state_list_for_incident_def pg_taken ok intro!: refine_rules)

lemma pg_tokens_agree:
  assumes ok: "\<And>s. ok s \<Longrightarrow> pv_text env s"
  shows "tokens_agree ok okj lib pg_tables (st_api_tokens (postgres_store env lib))
     (st_api_tokens (sqlite_store lib))"
  unfolding tokens_agree_def
  by (auto simp: postgres_store_def pg_token_create_def lite_token_create_def pg_token_get_by_hash_def
      lite_token_get_by_hash_def pg_token_get_def lite_token_get_def pg_token_list_def lite_token_list_def
      pg_token_revoke_def lite_token_revoke_def pg_token_touch_last_used_def lite_token_touch_last_used_def
      pg_token_delete_def lite_token_delete_def pg_insert_def sql_insert_def Let_def pg_taken ok
      intro!: refine_rules)


lemma pg_migrate_refines: "refines pg_tables (pg_migrate names now) (lite_migrate names now)"
proof -
  have wrap: "refines f m m' \<Longrightarrow> refines f (op_wrap p m) (op_wrap p m')" for f p and m m' :: "(db, unit) op"
    by (auto simp: refines_def op_wrap_def agrees_iff split: prod.splits) (metis fst_conv snd_conv res_wrap_simps)+
  have one: "refines pg_tables (pg_migrate_one now name) (lite_migrate_one now name)" for name
    by (auto simp: pg_migrate_one_def lite_migrate_one_def pg_insert_def sql_insert_def
        intro!: refine_rules wrap)
  show ?thesis
    unfolding pg_migrate_def lite_migrate_def by (auto intro!: refine_rules one)
qed

section \<open>MySQL\<close>

abbreviation my_tables :: "db \<Rightarrow> db" where
  "my_tables \<equiv> lite_tables denull_rule"

text \<open>What the server has to be for the agreement.\<close>

definition my_plain :: "(string \<Rightarrow> bool) \<Rightarrow> (json \<Rightarrow> bool) \<Rightarrow> my_env \<Rightarrow> bool" where
  "my_plain ok okj env \<longleftrightarrow> embeds (mv_key env) \<and> (\<forall>c s. ok s \<longrightarrow> mv_text env c s) \<and>
     (\<forall>c j. okj j \<longrightarrow> mv_json env c j)"

lemma my_plain_same: "my_plain ok okj env \<Longrightarrow> my_same env a b \<longleftrightarrow> a = b"
  by (simp add: my_plain_def my_same_def embeds_eq)

lemma my_plain_key: "my_plain ok okj env \<Longrightarrow> mv_key env a = mv_key env b \<longleftrightarrow> a = b"
  by (simp add: my_plain_def embeds_eq)

lemma my_plain_fits:
  "my_plain ok okj env \<Longrightarrow> list_all ok (map snd texts) \<Longrightarrow> list_all okj (map snd jsons) \<Longrightarrow>
   my_fits env texts jsons"
  by (auto simp: my_plain_def my_fits_def list_all_iff)

lemma my_plain_find:
  "my_plain ok okj env \<Longrightarrow> tbl_find (\<lambda>x. mv_key env (g x)) (mv_key env a) xs = tbl_find g a xs"
  by (simp add: my_plain_def find_embeds)

lemma my_plain_sort: "my_plain ok okj env \<Longrightarrow> sort_key (\<lambda>x. mv_key env (g x)) xs = sort_key g xs"
  by (simp add: my_plain_def sort_embeds)

lemma my_taken [simp]:
  "my_insert True key r rows = (if key r \<in> key ` set rows
     then Inl (ErrNew ''Error 1062 (23000): Duplicate entry'') else Inr (rows @ [r]))"
  "my_update True p f rows = Inr (tbl_update p f rows)"
  by (simp_all add: my_insert_def my_update_def)

lemma my_plain_member:
  "my_plain ok okj env \<Longrightarrow> mv_key env a \<in> (\<lambda>x. mv_key env (g x)) ` A \<longleftrightarrow> a \<in> g ` A"
  by (auto simp: my_plain_key image_iff)

lemma list_ex_key: "list_ex (\<lambda>x. g x = a) xs \<longleftrightarrow> a \<in> g ` set xs"
  by (auto simp: list_ex_iff)

lemmas my_plain_simps =
  my_plain_same my_plain_key my_plain_find my_plain_sort my_plain_member my_plain_fits

lemma my_rule_texts_snd [simp]:
  "map snd (my_rule_texts x) = rule_texts x" "map snd (tl (my_rule_texts x)) = tl (rule_texts x)"
  by (simp_all add: my_rule_texts_def rule_texts_def)

lemma my_rules_agree:
  assumes env: "my_plain ok okj env"
  shows "rules_agree ok okj lib my_tables (st_rules (mysql_store env lib)) (st_rules (sqlite_store lib))"
proof -
  note simps = my_plain_simps [OF env]
  have texts: "rule_taken ok okj lib x \<Longrightarrow> rule_cond_json lib x = Inr cond \<Longrightarrow> r_labels y = r_labels x \<Longrightarrow>
      rule_texts y = rule_texts x \<Longrightarrow>
      my_fits env (my_rule_texts y) (my_rule_jsons lib y cond) \<and>
      my_fits env (tl (my_rule_texts y)) (my_rule_jsons lib y cond)" for x y cond
    by (auto simp: rule_taken_def my_rule_jsons_def rule_texts_def intro!: my_plain_fits [OF env])
  have create: "rule_taken ok okj lib x \<Longrightarrow>
      refines my_tables (my_rule_create env lib now x) (lite_rule_create lib now x)" for now x
    by (auto simp: my_rule_create_def lite_rule_create_def Let_def texts simps sql_insert_def image_image
        intro!: refine_rules split: sum.splits)
  have update: "rule_taken ok okj lib x \<Longrightarrow>
      refines my_tables (my_rule_update env lib now x) (lite_rule_update lib now x)" for now x
    by (auto simp: my_rule_update_def lite_rule_update_def Let_def texts simps rewrite_rules
        intro!: refine_rules split: sum.splits)
  show ?thesis
    unfolding rules_agree_def
    by (auto simp: mysql_store_def create update my_rule_delete_def lite_rule_delete_def my_rule_get_def
        lite_rule_get_def my_rule_list_def lite_rule_list_def my_rule_list_by_input_def
        lite_rule_list_by_input_def simps tbl_find_map_key intro!: refine_rules)
qed

lemma my_subscribers_agree:
  assumes env: "my_plain ok okj env"
  shows "subscribers_agree ok okj lib my_tables (st_subscribers (mysql_store env lib))
     (st_subscribers (sqlite_store lib))"
  unfolding subscribers_agree_def
  by (auto simp: mysql_store_def sqlite_store_def subscriber_taken_def my_subscriber_create_def
      lite_subscriber_create_def my_subscriber_update_def lite_subscriber_update_def
      my_subscriber_delete_def lite_subscriber_delete_def my_subscriber_get_def lite_subscriber_get_def
      my_subscriber_list_def lite_subscriber_list_def Let_def sql_insert_def list_ex_key
      my_plain_simps [OF env] intro!: refine_rules)


lemma my_rule_id_is_plain: "my_plain ok okj env \<Longrightarrow> my_rule_id_is env rid = (\<lambda>row. ur_rule_id row = Some rid)"
  by (auto simp: my_rule_id_is_def my_plain_same split: option.splits)

lemma my_subscriptions_agree:
  assumes env: "my_plain ok okj env"
  shows "subscriptions_agree ok okj lib my_tables (st_subscriptions (mysql_store env lib))
     (st_subscriptions (sqlite_store lib))"
proof -
  note simps = my_plain_simps [OF env] my_rule_id_is_plain [OF env]
  show ?thesis
    unfolding subscriptions_agree_def
    by (auto simp: mysql_store_def sqlite_store_def subscription_taken_def my_subscription_create_def
        lite_subscription_create_def my_subscription_update_def lite_subscription_update_def
        my_subscription_delete_def lite_subscription_delete_def my_subscription_get_def
        lite_subscription_get_def my_subscription_list_def lite_subscription_list_def
        my_subscription_list_for_rule_def lite_subscription_list_for_rule_def my_fk_error_def fk_error_def
        my_subscription_texts_def my_subscription_jsons_def my_subscriber_known_def Let_def sql_insert_def
        list_ex_key simps intro!: refine_rules)
qed

lemma my_delete_children_plain: "my_plain ok okj env \<Longrightarrow> my_delete_children env = pg_delete_children"
  by (simp add: fun_eq_iff my_delete_children_def pg_delete_children_def my_plain_same)

lemma my_incidents_agree:
  assumes env: "my_plain ok okj env"
  shows "incidents_agree ok my_tables (st_incidents (mysql_store env lib)) (st_incidents (sqlite_store lib))"
proof -
  note simps = my_plain_simps [OF env]
  have gone: "refines my_tables (my_incident_delete_resolved_before env t)
      (lite_incident_delete_resolved_before t)" for t
    unfolding my_incident_delete_resolved_before_def lite_incident_delete_resolved_before_def
    by (auto simp: my_delete_children_plain [OF env] comp_def Let_def intro!: refine_rules
        delete_children_refines incidents_gone_refines)
  show ?thesis
    unfolding incidents_agree_def
    by (auto simp: mysql_store_def sqlite_store_def gone my_incident_open_def lite_incident_open_def
        my_incident_texts_def my_incident_resolve_def lite_incident_resolve_def my_incident_get_def
        lite_incident_get_def my_incident_list_def lite_incident_list_def my_incident_list_for_rule_def
        lite_incident_list_for_rule_def my_incident_list_resolved_before_def
        lite_incident_list_resolved_before_def sql_insert_def simps image_image tbl_find_map_key
        resolve_rows intro!: refine_rules)
qed

lemma my_notifications_agree:
  assumes env: "my_plain ok okj env"
  shows "notifications_agree ok my_tables (st_notifications (mysql_store env lib))
     (st_notifications (sqlite_store lib))"
proof -
  note simps = my_plain_simps [OF env]
  have fits: "list_all ok (notification_texts n) \<Longrightarrow> my_fits env (my_notification_texts n) []" for n
    by (rule my_plain_fits [OF env]) (auto simp: notification_texts_def my_notification_texts_def)
  show ?thesis
    unfolding notifications_agree_def
    by (auto simp: mysql_store_def sqlite_store_def my_notification_record_def lite_notification_record_def
        my_notification_list_for_incident_def lite_notification_list_for_incident_def
        my_notification_list_def lite_notification_list_def
        my_notification_exists_for_subscription_def lite_notification_exists_for_subscription_def
        sql_insert_def simps fits image_image list_ex_iff intro!: refine_rules)
qed

lemma my_upsert_plain:
  assumes "\<And>r. key r = key row \<longleftrightarrow> k r = k row" "\<And>r. key r = key row \<Longrightarrow> u r = row"
  shows "my_upsert True key u row rows = Inr (tbl_upsert k row rows)"
proof -
  have "key row \<in> key ` set rows \<longleftrightarrow> k row \<in> k ` set rows"
    using assms(1) by (metis (mono_tags, lifting) image_iff)
  then show ?thesis
    using assms by (simp add: my_upsert_def tbl_upsert_def tbl_update_def)
qed

lemma my_live_states_agree:
  assumes env: "my_plain ok okj env"
  shows "live_states_agree ok my_tables (st_live_states (mysql_store env lib))
     (st_live_states (sqlite_store lib))"
proof -
  note simps = my_plain_simps [OF env]
  have fits: "list_all ok (live_texts s) \<Longrightarrow> my_fits env (my_live_texts s) []" for s
    by (rule my_plain_fits [OF env]) (auto simp: live_texts_def my_live_texts_def)
  have upsert: "my_upsert True (\<lambda>row. mv_key env (lw_rule_id row))
      (\<lambda>row. (pg_live_to_row s)\<lparr>lw_rule_id := lw_rule_id row\<rparr>) (pg_live_to_row s) rows =
    Inr (tbl_upsert lw_rule_id (pg_live_to_row s) rows)" for s rows
    by (rule my_upsert_plain) (auto simp: simps)
  show ?thesis
    unfolding live_states_agree_def
    by (auto simp: mysql_store_def sqlite_store_def my_live_get_def lite_live_get_def my_live_upsert_def
        lite_live_upsert_def my_live_list_def lite_live_list_def simps fits upsert tbl_find_map_key
        upsert_map_rows intro!: refine_rules)
qed

lemma my_sub_states_agree:
  assumes env: "my_plain ok okj env"
  shows "sub_states_agree ok my_tables (st_sub_states (mysql_store env lib))
     (st_sub_states (sqlite_store lib))"
proof -
  note simps = my_plain_simps [OF env]
  have upsert: "my_upsert True (my_sub_state_key env)
      (\<lambda>row. (sub_state_to_row s)\<lparr>sw_incident_id := sw_incident_id row,
                sw_subscription_id := sw_subscription_id row\<rparr>) (sub_state_to_row s) rows =
    Inr (tbl_upsert sub_state_key (sub_state_to_row s) rows)" for s rows
    by (rule my_upsert_plain) (auto simp: my_sub_state_key_def sub_state_key_def simps)
  have find: "tbl_find (my_sub_state_key env) (mv_key env i, mv_key env sid) rows =
      tbl_find sub_state_key (i, sid) rows" for i sid rows
    by (induction rows) (auto simp: my_sub_state_key_def sub_state_key_def simps)
  show ?thesis
    unfolding sub_states_agree_def
    by (auto simp: mysql_store_def sqlite_store_def my_sub_state_get_def lite_sub_state_get_def
        my_sub_state_upsert_def lite_sub_state_upsert_def my_sub_state_list_for_incident_def
        lite_sub_state_list_for_incident_def simps upsert find intro!: refine_rules)
qed

lemma my_tokens_agree:
  assumes env: "my_plain ok okj env"
  shows "tokens_agree ok okj lib my_tables (st_api_tokens (mysql_store env lib))
     (st_api_tokens (sqlite_store lib))"
  unfolding tokens_agree_def
  by (auto simp: mysql_store_def my_token_create_def lite_token_create_def my_token_get_by_hash_def
      lite_token_get_by_hash_def my_token_get_def lite_token_get_def my_token_list_def lite_token_list_def
      my_token_revoke_def lite_token_revoke_def my_token_touch_last_used_def lite_token_touch_last_used_def
      my_token_delete_def lite_token_delete_def sql_insert_def Let_def my_plain_simps [OF env]
      intro!: refine_rules)

end
