(* ===== verification/Driver_Contract.thy ===== *)
theory Driver_Contract
  imports Driver_Agree
begin

text \<open>
  PostgreSQL and MySQL under the dispatcher's contract of Store_Iface: what a server takes has the
  effect it has in SQLite, what it refuses changes nothing. PostgreSQL keeps the contract for
  every setting of the server, MySQL for collations that tell all texts apart.
\<close>

section \<open>The dispatcher's contract\<close>

lemma refines_reads:
  assumes "refines f m m'" and "op_reads view m' g"
  shows "op_reads (\<lambda>s. view (f s)) m g"
proof (rule op_readsI)
  fix s r s' assume "m s = (r, s')"
  then have "agrees r (fst (m' (f s)))" "f s' = snd (m' (f s))"
    using refinesD [OF assms(1), of s] by simp_all
  then show "view (f s') = view (f s) \<and> (\<forall>x. r = Inr x \<longrightarrow> x = g (view (f s)))"
    using assms(2) by (cases "m' (f s)") (auto simp: op_reads_def)
qed

lemma refines_writes:
  assumes "refines f m m'" and "op_writes view m' P g"
  shows "op_writes (\<lambda>s. view (f s)) m P g"
proof (rule op_writesI)
  fix s r s' assume "m s = (r, s')"
  moreover obtain r' t where run: "m' (f s) = (r', t)" by (cases "m' (f s)")
  ultimately have "agrees r r'" "f s' = t"
    using refinesD [OF assms(1), of s] by simp_all
  moreover have "case r' of Inl e \<Rightarrow> view t = view (f s) | Inr x \<Rightarrow> P (view (f s)) \<and> view t = g (view (f s))"
    using assms(2) run by (simp add: op_writes_def)
  ultimately show "case r of Inl e \<Rightarrow> view (f s') = view (f s)
      | Inr x \<Rightarrow> P (view (f s)) \<and> view (f s') = g (view (f s))"
    by (auto simp: agrees_iff)
qed

abbreviation table_view :: "(rule_row \<Rightarrow> rule_row) \<Rightarrow> db \<Rightarrow> store_view" where
  "table_view h \<equiv> \<lambda>d. lite_view (lite_tables h d)"

text \<open>A call the server refuses.\<close>

definition refusal :: "go_error \<Rightarrow> (db, 'a) op" where
  "refusal e = db_query (\<lambda>_. Inl e)"

lemma refusal_run: "refusal e d = (r, d') \<Longrightarrow> \<exists>e'. r = Inl e' \<and> same_tables d d'"
  by (auto simp: refusal_def db_query_def db_call_def split: list.splits option.splits)

lemma refusal_not_ok [simp]: "\<not> is_ok (fst (refusal e d))"
  by (auto simp: refusal_def db_query_def db_call_def split: list.splits option.splits)

lemma refusal_eq [simp]:
  "db_query (\<lambda>_. Inl e) = refusal e" "db_exec (\<lambda>_. Inl e) = refusal e" "op_bind (refusal e) k = refusal e"
  by (auto simp: fun_eq_iff refusal_def db_query_def db_exec_def db_call_def op_bind_def
      split: list.splits option.splits)

lemma same_tables_view: "same_tables d d' \<Longrightarrow> table_view h d' = table_view h d"
proof -
  assume "same_tables d d'"
  then have "lite_tables h d' = (lite_tables h d)\<lparr>db_faults := db_faults d'\<rparr>"
    unfolding same_tables_def by (cases d; cases d') (simp add: lite_tables_def)
  then show ?thesis by simp
qed

lemma refusal_reads: "op_reads (table_view h) (refusal e) g"
  by (rule op_readsI) (auto simp: same_tables_view dest!: refusal_run)

lemma refusal_writes: "op_writes (table_view h) (refusal e) P g"
  by (rule op_writesI) (auto simp: same_tables_view dest!: refusal_run)

text \<open>The calls the dispatcher makes.\<close>

lemma dispatch_calls_agree:
  assumes "stores_agree (\<lambda>_. True) (\<lambda>_. True) lib f S (sqlite_store lib)"
  shows "refines f (lr_get (st_live_states S) rid) (lite_live_get rid)"
    and "refines f (sur_list_for_rule (st_subscriptions S) rid labels) (lite_subscription_list_for_rule rid labels)"
    and "refines f (ssr_get (st_sub_states S) iid sid) (lite_sub_state_get iid sid)"
    and "refines f (nr_exists_for_subscription (st_notifications S) sid)
       (lite_notification_exists_for_subscription sid)"
    and "refines f (sbr_get (st_subscribers S) sb) (lite_subscriber_get sb)"
    and "refines f (lr_upsert (st_live_states S) x) (lite_live_upsert x)"
    and "refines f (inr_open (st_incidents S) i) (lite_incident_open i)"
    and "refines f (inr_resolve (st_incidents S) iid ms) (lite_incident_resolve iid ms)"
    and "refines f (ssr_upsert (st_sub_states S) y) (lite_sub_state_upsert y)"
    and "refines f (nr_record (st_notifications S) n) (lite_notification_record n)"
proof -
  have parts: "live_states_agree (\<lambda>_. True) f (st_live_states S) (st_live_states (sqlite_store lib))"
    "subscriptions_agree (\<lambda>_. True) (\<lambda>_. True) lib f (st_subscriptions S) (st_subscriptions (sqlite_store lib))"
    "sub_states_agree (\<lambda>_. True) f (st_sub_states S) (st_sub_states (sqlite_store lib))"
    "notifications_agree (\<lambda>_. True) f (st_notifications S) (st_notifications (sqlite_store lib))"
    "subscribers_agree (\<lambda>_. True) (\<lambda>_. True) lib f (st_subscribers S) (st_subscribers (sqlite_store lib))"
    "incidents_agree (\<lambda>_. True) f (st_incidents S) (st_incidents (sqlite_store lib))"
    using assms by (simp_all add: stores_agree_def)
  show "refines f (lr_get (st_live_states S) rid) (lite_live_get rid)"
    "refines f (lr_upsert (st_live_states S) x) (lite_live_upsert x)"
    using parts(1) by (simp_all add: live_states_agree_def list.pred_True)
  show "refines f (sur_list_for_rule (st_subscriptions S) rid labels) (lite_subscription_list_for_rule rid labels)"
    using parts(2) by (simp add: subscriptions_agree_def)
  show "refines f (ssr_get (st_sub_states S) iid sid) (lite_sub_state_get iid sid)"
    "refines f (ssr_upsert (st_sub_states S) y) (lite_sub_state_upsert y)"
    using parts(3) by (simp_all add: sub_states_agree_def)
  show "refines f (nr_exists_for_subscription (st_notifications S) sid)
       (lite_notification_exists_for_subscription sid)"
    "refines f (nr_record (st_notifications S) n) (lite_notification_record n)"
    using parts(4) by (simp_all add: notifications_agree_def list.pred_True)
  show "refines f (sbr_get (st_subscribers S) sb) (lite_subscriber_get sb)"
    using parts(5) by (simp add: subscribers_agree_def)
  show "refines f (inr_open (st_incidents S) i) (lite_incident_open i)"
    "refines f (inr_resolve (st_incidents S) iid ms) (lite_incident_resolve iid ms)"
    using parts(6) by (simp_all add: incidents_agree_def)
qed

lemma agreeing_store: 
  assumes "stores_agree (\<lambda>_. True) (\<lambda>_. True) lib (lite_tables h) S (sqlite_store lib)"
  shows "dispatch_store S (table_view h)"
  by unfold_locales
    (rule refines_reads [OF dispatch_calls_agree(1) [OF assms]] refines_reads [OF dispatch_calls_agree(2) [OF assms]]
      refines_reads [OF dispatch_calls_agree(3) [OF assms]] refines_reads [OF dispatch_calls_agree(4) [OF assms]]
      refines_reads [OF dispatch_calls_agree(5) [OF assms]] refines_writes [OF dispatch_calls_agree(6) [OF assms]]
      refines_writes [OF dispatch_calls_agree(7) [OF assms]] refines_writes [OF dispatch_calls_agree(8) [OF assms]]
      refines_writes [OF dispatch_calls_agree(9) [OF assms]] refines_writes [OF dispatch_calls_agree(10) [OF assms]],
      (rule lite_reads lite_writes; assumption?))+

subsection \<open>PostgreSQL\<close>

definition pg_lax :: "pg_env \<Rightarrow> pg_env" where
  "pg_lax env = \<lparr>pv_text = \<lambda>_. True, pv_collate = \<lambda>s. s\<rparr>"

lemma pg_calls:
  "pg_exec env texts g = (if list_all (pv_text env) texts then pg_exec (pg_lax env) texts g else refusal pg_bad_text)"
  "pg_query env texts q = (if list_all (pv_text env) texts then pg_query (pg_lax env) texts q else refusal pg_bad_text)"
  by (cases "list_all (pv_text env) texts"; simp add: pg_exec_def pg_query_def pg_lax_def list.pred_True)+

lemma pg_agrees:
  assumes "\<And>s. ok s \<Longrightarrow> pv_text env s" and "embeds (pv_collate env)"
  shows "stores_agree ok okj lib pg_tables (postgres_store env lib) (sqlite_store lib)"
  unfolding stores_agree_def
  using pg_rules_agree [OF assms] pg_subscribers_agree [OF assms] pg_subscriptions_agree [OF assms]
    pg_incidents_agree [OF assms(1)] pg_notifications_agree [OF assms(1)] pg_live_states_agree [OF assms(1)]
    pg_sub_states_agree [OF assms(1)] pg_tokens_agree [OF assms(1)]
  by simp

lemma pg_lax_agrees:
  "stores_agree (\<lambda>_. True) (\<lambda>_. True) lib pg_tables (postgres_store (pg_lax env) lib) (sqlite_store lib)"
  by (rule pg_agrees) (simp_all add: pg_lax_def)

lemma pg_dispatch_calls:
  "pg_live_get env rid = (if pv_text env rid then pg_live_get (pg_lax env) rid else refusal pg_bad_text)"
  "pg_subscription_list_for_rule env rid labels =
     (if pv_text env rid then pg_subscription_list_for_rule (pg_lax env) rid labels else refusal pg_bad_text)"
  "pg_sub_state_get env iid sid =
     (if pv_text env iid \<and> pv_text env sid then pg_sub_state_get (pg_lax env) iid sid else refusal pg_bad_text)"
  "pg_notification_exists_for_subscription env sid =
     (if pv_text env sid then pg_notification_exists_for_subscription (pg_lax env) sid else refusal pg_bad_text)"
  "pg_subscriber_get env sb = (if pv_text env sb then pg_subscriber_get (pg_lax env) sb else refusal pg_bad_text)"
  "pg_live_upsert env x =
     (if list_all (pv_text env) (live_texts x) then pg_live_upsert (pg_lax env) x else refusal pg_bad_text)"
  "pg_incident_open env i =
     (if list_all (pv_text env) [in_id i, in_rule_id i, in_last_value i]
      then pg_incident_open (pg_lax env) i else refusal pg_bad_text)"
  "pg_incident_resolve env iid ms =
     (if pv_text env iid then pg_incident_resolve (pg_lax env) iid ms else refusal pg_bad_text)"
  "pg_sub_state_upsert env y =
     (if list_all (pv_text env) [ss_incident_id y, ss_subscription_id y]
      then pg_sub_state_upsert (pg_lax env) y else refusal pg_bad_text)"
  "pg_notification_record env n =
     (if list_all (pv_text env) (notification_texts n)
      then pg_notification_record (pg_lax env) n else refusal pg_bad_text)"
  by (simp_all add: pg_live_get_def pg_subscription_list_for_rule_def pg_sub_state_get_def
      pg_notification_exists_for_subscription_def pg_subscriber_get_def pg_live_upsert_def
      pg_incident_open_def pg_incident_resolve_def pg_sub_state_upsert_def pg_notification_record_def
      pg_calls [of env])

abbreviation pg_view :: "db \<Rightarrow> store_view" where
  "pg_view \<equiv> table_view (\<lambda>row. row)"

lemma postgres_store_sel [simp]:
  "lr_get (st_live_states (postgres_store env lib)) = pg_live_get env"
  "lr_upsert (st_live_states (postgres_store env lib)) = pg_live_upsert env"
  "inr_open (st_incidents (postgres_store env lib)) = pg_incident_open env"
  "inr_resolve (st_incidents (postgres_store env lib)) = pg_incident_resolve env"
  "sur_list_for_rule (st_subscriptions (postgres_store env lib)) = pg_subscription_list_for_rule env"
  "ssr_get (st_sub_states (postgres_store env lib)) = pg_sub_state_get env"
  "ssr_upsert (st_sub_states (postgres_store env lib)) = pg_sub_state_upsert env"
  "nr_exists_for_subscription (st_notifications (postgres_store env lib)) =
     pg_notification_exists_for_subscription env"
  "nr_record (st_notifications (postgres_store env lib)) = pg_notification_record env"
  "sbr_get (st_subscribers (postgres_store env lib)) = pg_subscriber_get env"
  by (simp_all add: postgres_store_def)

text \<open>A call that is the agreeing one or a refusal keeps the contract of the agreeing one.\<close>

lemma refusing_reads: "op_reads (table_view h) m g \<Longrightarrow> op_reads (table_view h) (if b then m else refusal e) g"
  by (simp add: refusal_reads)

lemma refusing_writes:
  "op_writes (table_view h) m P g \<Longrightarrow> op_writes (table_view h) (if b then m else refusal e) P g"
  by (simp add: refusal_writes)

lemmas pg_lax_store = agreeing_store [OF pg_lax_agrees]

lemmas pg_lax_contract =
  dispatch_store.live_get [OF pg_lax_store, unfolded postgres_store_sel]
  dispatch_store.list_for_rule [OF pg_lax_store, unfolded postgres_store_sel]
  dispatch_store.sub_state_get [OF pg_lax_store, unfolded postgres_store_sel]
  dispatch_store.notif_exists [OF pg_lax_store, unfolded postgres_store_sel]
  dispatch_store.subscriber_get [OF pg_lax_store, unfolded postgres_store_sel]
  dispatch_store.live_upsert [OF pg_lax_store, unfolded postgres_store_sel]
  dispatch_store.inc_open [OF pg_lax_store, unfolded postgres_store_sel]
  dispatch_store.inc_resolve [OF pg_lax_store, unfolded postgres_store_sel]
  dispatch_store.sub_state_upsert [OF pg_lax_store, unfolded postgres_store_sel]
  dispatch_store.notif_record [OF pg_lax_store, unfolded postgres_store_sel]

interpretation pg: dispatch_store "postgres_store env lib" pg_view
  by (unfold_locales, unfold postgres_store_sel)
    (subst pg_dispatch_calls, rule refusing_reads refusing_writes, (rule pg_lax_contract; assumption?))+

subsection \<open>MySQL\<close>

definition my_lax :: "my_env \<Rightarrow> my_env" where
  "my_lax env = env\<lparr>mv_text := \<lambda>_ _. True, mv_json := \<lambda>_ _. True\<rparr>"

lemma my_lax_key [simp]: "mv_key (my_lax env) = mv_key env" "my_same (my_lax env) = my_same env"
  by (simp_all add: my_lax_def my_same_def fun_eq_iff)

lemma my_lax_sel [simp]:
  "my_fits (my_lax env) texts jsons"
  "my_sub_state_key (my_lax env) = my_sub_state_key env"
  "my_rule_id_is (my_lax env) = my_rule_id_is env"
  by (auto simp: my_fits_def my_sub_state_key_def my_rule_id_is_def fun_eq_iff list_all_iff split: option.split)
    (simp_all add: my_lax_def)

lemma my_agrees:
  assumes "my_plain ok okj env"
  shows "stores_agree ok okj lib my_tables (mysql_store env lib) (sqlite_store lib)"
  unfolding stores_agree_def
  using my_rules_agree [OF assms] my_subscribers_agree [OF assms] my_subscriptions_agree [OF assms]
    my_incidents_agree [OF assms] my_notifications_agree [OF assms] my_live_states_agree [OF assms]
    my_sub_states_agree [OF assms] my_tokens_agree [OF assms]
  by simp

lemma my_lax_agrees:
  "embeds (mv_key env) \<Longrightarrow>
   stores_agree (\<lambda>_. True) (\<lambda>_. True) lib my_tables (mysql_store (my_lax env) lib) (sqlite_store lib)"
  by (rule my_agrees) (simp add: my_plain_def, simp add: my_lax_def)

abbreviation my_view :: "db \<Rightarrow> store_view" where
  "my_view \<equiv> table_view denull_rule"

lemma mysql_store_sel [simp]:
  "lr_get (st_live_states (mysql_store env lib)) = my_live_get env"
  "lr_upsert (st_live_states (mysql_store env lib)) = my_live_upsert env"
  "inr_open (st_incidents (mysql_store env lib)) = my_incident_open env"
  "inr_resolve (st_incidents (mysql_store env lib)) = my_incident_resolve env"
  "sur_list_for_rule (st_subscriptions (mysql_store env lib)) = my_subscription_list_for_rule env"
  "ssr_get (st_sub_states (mysql_store env lib)) = my_sub_state_get env"
  "ssr_upsert (st_sub_states (mysql_store env lib)) = my_sub_state_upsert env"
  "nr_exists_for_subscription (st_notifications (mysql_store env lib)) =
     my_notification_exists_for_subscription env"
  "nr_record (st_notifications (mysql_store env lib)) = my_notification_record env"
  "sbr_get (st_subscribers (mysql_store env lib)) = my_subscriber_get env"
  by (simp_all add: mysql_store_def)

lemma res_map_Inl [simp]: "res_map f (Inl e) = Inl e"
  by (simp add: res_map_def res_bind_def)

text \<open>Reading checks no text; a write is the write of a server that takes every text, or refused.\<close>

lemma my_dispatch_reads:
  "my_live_get (my_lax env) = my_live_get env"
  "my_subscription_list_for_rule (my_lax env) = my_subscription_list_for_rule env"
  "my_sub_state_get (my_lax env) = my_sub_state_get env"
  "my_notification_exists_for_subscription (my_lax env) = my_notification_exists_for_subscription env"
  "my_subscriber_get (my_lax env) = my_subscriber_get env"
  "my_incident_resolve (my_lax env) = my_incident_resolve env"
  by (simp_all add: fun_eq_iff my_live_get_def my_subscription_list_for_rule_def my_sub_state_get_def
      my_notification_exists_for_subscription_def my_subscriber_get_def my_incident_resolve_def)

lemma my_dispatch_writes:
  "my_live_upsert env x =
     (if my_fits env (my_live_texts x) [] then my_live_upsert (my_lax env) x else refusal my_bad_data)"
  "my_incident_open env i =
     (if my_fits env (my_incident_texts i) [] then my_incident_open (my_lax env) i else refusal my_bad_data)"
  "my_sub_state_upsert env y =
     (if my_fits env [(''incident_sub_states.incident_id'', ss_incident_id y),
                      (''incident_sub_states.subscription_id'', ss_subscription_id y)] []
      then my_sub_state_upsert (my_lax env) y else refusal my_bad_data)"
  "my_notification_record env n =
     (if my_fits env (my_notification_texts n) [] then my_notification_record (my_lax env) n
      else refusal my_bad_data)"
  by (simp_all add: my_live_upsert_def my_incident_open_def my_sub_state_upsert_def my_notification_record_def
      my_upsert_def my_insert_def)

lemmas my_lax_store = agreeing_store [OF my_lax_agrees]

lemmas my_lax_contract =
  dispatch_store.live_get [OF my_lax_store, unfolded mysql_store_sel my_dispatch_reads]
  dispatch_store.list_for_rule [OF my_lax_store, unfolded mysql_store_sel my_dispatch_reads]
  dispatch_store.sub_state_get [OF my_lax_store, unfolded mysql_store_sel my_dispatch_reads]
  dispatch_store.notif_exists [OF my_lax_store, unfolded mysql_store_sel my_dispatch_reads]
  dispatch_store.subscriber_get [OF my_lax_store, unfolded mysql_store_sel my_dispatch_reads]
  dispatch_store.inc_resolve [OF my_lax_store, unfolded mysql_store_sel my_dispatch_reads]
  refusing_writes [OF dispatch_store.live_upsert [OF my_lax_store, unfolded mysql_store_sel]]
  refusing_writes [OF dispatch_store.inc_open [OF my_lax_store, unfolded mysql_store_sel]]
  refusing_writes [OF dispatch_store.sub_state_upsert [OF my_lax_store, unfolded mysql_store_sel]]
  refusing_writes [OF dispatch_store.notif_record [OF my_lax_store, unfolded mysql_store_sel]]

lemma my_dispatch_store:
  assumes "embeds (mv_key env)"
  shows "dispatch_store (mysql_store env lib) my_view"
  by (unfold_locales, unfold mysql_store_sel)
    ((subst my_dispatch_writes)?, (rule my_lax_contract [OF assms]; assumption?))+

end
