(* ===== verification/Mysql_Migrate.thy ===== *)
theory Mysql_Migrate
  imports Mysql_Store
begin

text \<open>
  Migrate of the MySQL driver on the scripts of the repository. The first script has a semicolon
  in a comment, at which splitStatements cuts it.
\<close>

section \<open>Splitting\<close>

lemma split_at_cut: "sep \<notin> set a \<Longrightarrow> split_at sep (a @ sep # s) = a # split_at sep s"
  by (induction a) auto

lemma split_statements_cut:
  assumes "CHR '';'' \<notin> set a" and "CHR '';'' \<notin> set b" and "all_lines_are_comments (trim_space a)"
    and "\<not> all_lines_are_comments (trim_space b)"
  shows "split_statements (a @ CHR '';'' # b @ CHR '';'' # s) = trim_space b # split_statements s"
proof -
  have "all_lines_are_comments []" by code_simp
  then have "trim_space b \<noteq> []" using assms(4) by metis
  then show ?thesis
    using assms by (simp add: split_statements_def split_at_cut)
qed

section \<open>The first script\<close>

text \<open>migrations/0001_init.sql up to its second semicolon.\<close>

definition my_init_lines :: "string list" where
  "my_init_lines =
    [''-- MySQL migration. Schema mirrors sqlite/postgres with MySQL-specific'',
     ''-- adjustments:'',
     ''--   - IDs are VARCHAR(255) because MySQL can'' @ [CHR 0x27] @ ''t index TEXT without a'',
     ''--     prefix length.'',
     ''--   - '' @ [CHR 0x60] @ ''condition'' @ [CHR 0x60] @ '' is a reserved word '' @ [CHR 0xE2, CHR 0x80, CHR 0x94] @ '' backtick-quote in every query.'',
     ''--   - Indexes declared inline as KEY clauses; MySQL doesn'' @ [CHR 0x27] @ ''t support'',
     ''--     '' @ [CHR 0x60] @ ''CREATE INDEX IF NOT EXISTS'' @ [CHR 0x60] @ ''.'',
     ''--   - No partial indexes (MySQL doesn'' @ [CHR 0x27] @ ''t support '' @ [CHR 0x60] @ ''WHERE ... '' @ [CHR 0x60] @ '' index'',
     ''--     predicates). The redundant idx_incidents_open index from the'',
     ''--     other schemas is dropped here '' @ [CHR 0xE2, CHR 0x80, CHR 0x94] @ '' idx_incidents_rule_id already'',
     ''--     covers the open-incident lookup.'',
     '''',
     ''CREATE TABLE IF NOT EXISTS rules ('',
     ''    id            VARCHAR(255) PRIMARY KEY,'',
     ''    name          TEXT NOT NULL,'',
     ''    description   TEXT,'',
     ''    enabled       BIGINT NOT NULL DEFAULT 1,'',
     ''    severity      VARCHAR(64) NOT NULL DEFAULT '' @ [CHR 0x27] @ ''info'' @ [CHR 0x27] @ '','',
     ''    labels        TEXT NOT NULL,'',
     ''    input_ref     VARCHAR(255) NOT NULL,'',
     ''    '' @ [CHR 0x60] @ ''condition'' @ [CHR 0x60] @ ''   TEXT NOT NULL,'',
     ''    schedule_ns   BIGINT NOT NULL DEFAULT 0,'',
     ''    created_at    BIGINT NOT NULL,'',
     ''    updated_at    BIGINT NOT NULL,'',
     ''    KEY idx_rules_input_ref (input_ref)'',
     '') ENGINE=InnoDB'']"

definition my_init_head :: string where
  "my_init_head = str_join [CHR 10] my_init_lines"

definition my_files :: "string \<Rightarrow> string \<Rightarrow> string \<Rightarrow> (string \<times> string) list" where
  "my_files rest1 body2 body3 =
     [(''0001_init.sql'', my_init_head @ CHR '';'' # rest1), (''0002_api_tokens.sql'', body2),
      (''0003_subscriptions_one_shot.sql'', body3)]"

definition my_init_comment :: string where
  "my_init_comment = takeWhile (\<lambda>c. c \<noteq> CHR '';'') my_init_head"

definition my_init_first :: string where
  "my_init_first = tl (dropWhile (\<lambda>c. c \<noteq> CHR '';'') my_init_head)"

lemma my_init_first_word: "has_prefix (trim_space my_init_first) ''MySQL''"
  by code_simp

lemma my_init_first_kind: "\<not> all_lines_are_comments (trim_space my_init_first)"
  by code_simp

lemma my_init_first_whole: "list_all (\<lambda>c. c \<noteq> CHR '';'') my_init_first"
  by code_simp

lemma my_init_comment_kind: "all_lines_are_comments (trim_space my_init_comment)"
  by code_simp

lemma my_init_cut: "my_init_head = my_init_comment @ CHR '';'' # my_init_first" "CHR '';'' \<notin> set my_init_comment"
proof -
  let ?p = "\<lambda>c. c \<noteq> CHR '';''"
  have "CHR '';'' \<in> set my_init_head" by code_simp
  then have "dropWhile ?p my_init_head \<noteq> []" by (auto simp: dropWhile_eq_Nil_conv)
  then have "dropWhile ?p my_init_head = CHR '';'' # my_init_first"
    using hd_dropWhile [of ?p my_init_head] by (cases "dropWhile ?p my_init_head") (simp_all add: my_init_first_def)
  then show "my_init_head = my_init_comment @ CHR '';'' # my_init_first"
    unfolding my_init_comment_def using takeWhile_dropWhile_id [of ?p my_init_head] by simp
  show "CHR '';'' \<notin> set my_init_comment"
    unfolding my_init_comment_def by (auto dest: set_takeWhileD)
qed

lemma my_init_whole: "CHR '';'' \<notin> set my_init_first"
  using my_init_first_whole by (auto simp: list_all_iff)

lemma my_init_statements:
  "split_statements (my_init_head @ CHR '';'' # rest) = trim_space my_init_first # split_statements rest"
  unfolding my_init_cut(1) append_assoc append_Cons
  by (rule split_statements_cut [OF my_init_cut(2) my_init_whole my_init_comment_kind my_init_first_kind])

section \<open>Runs\<close>

lemma sort_my_files:
  "sort_key fst (filter (\<lambda>(n, _). has_suffix n ''.sql'') (my_files rest1 body2 body3)) = my_files rest1 body2 body3"
proof -
  have "filter (\<lambda>(n, _). has_suffix n ''.sql'') (my_files rest1 body2 body3) = my_files rest1 body2 body3"
    by (simp add: my_files_def has_suffix_def)
  moreover have "sorted (map fst (my_files rest1 body2 body3))"
    unfolding my_files_def list.map fst_conv by code_simp
  ultimately show ?thesis by (simp add: sort_key_id_if_sorted)
qed

lemma refused_statement:
  assumes "\<And>ss. \<not> is_ok (mv_ddl env ss stmt)" and "my_run_statement env name stmt d = (r, d')"
  shows "\<not> is_ok r \<and> same_tables d d'"
proof -
  have "mv_ddl env ss stmt \<noteq> Inr ()" for ss using assms(1) [of ss] by auto
  then show ?thesis
    using assms(2) by (auto simp: my_run_statement_def op_wrap_def db_exec_def db_call_def res_map_def
      res_bind_def split: list.splits option.splits sum.splits prod.splits)
qed

text \<open>
  C38: MySQL's grammar has no statement that starts with the word MySQL. A server that refuses
  such statements makes Migrate fail on the scripts of the repository, however often it is run
  and whatever follows in the scripts: nothing is executed and no script is recorded, so a
  service configured for MySQL does not start.
\<close>

theorem mysql_never_migrates:
  assumes "\<And>ss s. has_prefix s ''MySQL'' \<Longrightarrow> \<not> is_ok (mv_ddl env ss s)" and "t_migrations d = []"
    and "my_migrate env (my_files rest1 body2 body3) now d = (r, d')"
  shows "\<not> is_ok r \<and> same_tables d d'"
proof -
  let ?files = "my_files rest1 body2 body3"
  have one: "\<not> is_ok r2 \<and> same_tables d1 d2"
    if same: "same_tables d d1" and run: "my_migrate_one env now (hd ?files) d1 = (r2, d2)" for d1 d2 r2
  proof -
    have none: "t_migrations d1 = []" using same assms(2) by (simp add: same_tablesD)
    show ?thesis
    proof (cases "db_query (\<lambda>d. Inr (length (filter (\<lambda>(v, _). my_same env v ''0001_init.sql'') (t_migrations d)))) d1")
      case (Pair n d3)
      have t3: "same_tables d1 d3" by (rule db_query_tables [OF Pair])
      show ?thesis
      proof (cases n)
        case (Inl e)
        then show ?thesis using run Pair t3
          by (auto simp: my_migrate_one_def my_files_def op_bind_def)
      next
        case (Inr k)
        then have "k = 0" using Pair none by (auto simp: db_query_def db_call_def split: list.splits option.splits)
        then have "op_bind (op_for (my_run_statement env ''0001_init.sql'')
             (trim_space my_init_first # split_statements rest1)) k' d3 = (r2, d2) \<Longrightarrow> ?thesis" for k'
          using refused_statement [OF assms(1) [OF my_init_first_word]] t3
          by (fastforce simp: op_bind_def split: prod.splits sum.splits intro: same_tables_trans)
        then show ?thesis
          using run Pair Inr \<open>k = 0\<close> by (simp add: my_migrate_one_def my_files_def my_init_statements op_bind_def)
      qed
    qed
  qed
  obtain u d1 where start: "db_exec Inr d = (u, d1)" by (cases "db_exec Inr d")
  have t1: "same_tables d d1"
    using start by (auto simp: db_exec_def db_call_def split: list.splits option.splits)
  show ?thesis
  proof (cases u)
    case (Inl e)
    then show ?thesis using assms(3) start t1 by (auto simp: my_migrate_def op_bind_def)
  next
    case (Inr x)
    have "op_for (my_migrate_one env now) ?files d1 = (r, d')"
      using assms(3) start Inr by (simp add: my_migrate_def sort_my_files op_bind_def)
    moreover obtain r2 d2 where first: "my_migrate_one env now (hd ?files) d1 = (r2, d2)" by fastforce
    moreover obtain e where "r2 = Inl e" using one [OF t1 first] by (cases r2) auto
    ultimately have "r = Inl e \<and> d' = d2" by (simp add: my_files_def op_bind_def)
    then show ?thesis using one [OF t1 first] same_tables_trans [OF t1] by auto
  qed
qed

definition grammar_mysql :: my_env where
  "grammar_mysql = \<lparr>mv_key = \<lambda>s. s, mv_text = \<lambda>_ _. True, mv_json = \<lambda>_ _. True,
     mv_ddl = \<lambda>_ s. if has_prefix s ''MySQL'' then Inl (ErrNew ''Error 1064 (42000): syntax error'') else Inr ()\<rparr>"

lemma mysql_never_migrates_witness:
  "\<not> is_ok (fst (my_migrate grammar_mysql (my_files [] [] []) (\<lambda>_. 0) empty_db))"
  using mysql_never_migrates [of grammar_mysql empty_db "[]" "[]" "[]" "\<lambda>_. 0", OF _ _ surjective_pairing]
  by (simp add: grammar_mysql_def empty_db_def)

end
