(* ===== verification/Driver_Props.thy ===== *)
theory Driver_Props
  imports Driver_Contract Mysql_Migrate Dispatch_Props
begin

text \<open>
  What the three drivers have in common and where they part: the evaluators' guarantees hold on
  PostgreSQL and MySQL whatever their servers refuse, and what a refused text costs.
\<close>

section \<open>Evaluators over any driver\<close>

text \<open>
  A step of one of the evaluators: a record taken from the queue, or a tick of the timer. The
  buffers, the times of the last evaluations and the world go from step to step.
\<close>

datatype eval_work = Pushed "string \<Rightarrow> time" time eval_record | Timed "string \<Rightarrow> time" time


fun evaluator_step ::
  "golib \<Rightarrow> 's dispatcher \<Rightarrow> datasources \<Rightarrow> rule_cache \<Rightarrow> eval_work \<Rightarrow>
   window_buffers \<times> (string \<Rightarrow> time) \<times> 's world \<Rightarrow> window_buffers \<times> (string \<Rightarrow> time) \<times> 's world" where
  "evaluator_step lib d dbs m (Pushed clk now rec) (wb, prev, w) =
     (case push_step lib d clk now m rec (wb, w) of (wb', w') \<Rightarrow> (wb', prev, w'))"
| "evaluator_step lib d dbs m (Timed clk now) (wb, prev, w) =
     (case scheduled_step lib d dbs clk wb m now (prev, w) of (prev', w') \<Rightarrow> (wb, prev', w'))"

definition evaluators_run ::
  "golib \<Rightarrow> 's dispatcher \<Rightarrow> datasources \<Rightarrow> rule_cache \<Rightarrow> eval_work list \<Rightarrow>
   window_buffers \<times> (string \<Rightarrow> time) \<times> 's world \<Rightarrow> window_buffers \<times> (string \<Rightarrow> time) \<times> 's world" where
  "evaluators_run lib d dbs m works st = fold (evaluator_step lib d dbs m) works st"







section \<open>Values that are not UTF-8\<close>

text \<open>Well-formed UTF-8 as in RFC 3629.\<close>

definition byte_of :: "char \<Rightarrow> nat" where
  "byte_of c = of_char c"

definition utf8_tail :: "char \<Rightarrow> bool" where
  "utf8_tail c \<longleftrightarrow> 128 \<le> byte_of c \<and> byte_of c < 192"

fun utf8_tails :: "nat \<Rightarrow> string \<Rightarrow> string option" where
  "utf8_tails 0 s = Some s"
| "utf8_tails (Suc n) [] = None"
| "utf8_tails (Suc n) (c # s) = (if utf8_tail c then utf8_tails n s else None)"

text \<open>How many bytes follow a first byte, and whether the second one is in its range.\<close>

definition utf8_more :: "char \<Rightarrow> nat option" where
  "utf8_more c =
     (let n = byte_of c in
      if n < 128 then Some 0 else if 194 \<le> n \<and> n < 224 then Some 1 else if 224 \<le> n \<and> n < 240 then Some 2
      else if 240 \<le> n \<and> n < 245 then Some 3 else None)"

definition utf8_second :: "char \<Rightarrow> string \<Rightarrow> bool" where
  "utf8_second c s =
     (case s of [] \<Rightarrow> True
      | c' # _ \<Rightarrow> (byte_of c = 224 \<longrightarrow> 160 \<le> byte_of c') \<and> (byte_of c = 237 \<longrightarrow> byte_of c' < 160) \<and>
                  (byte_of c = 240 \<longrightarrow> 144 \<le> byte_of c') \<and> (byte_of c = 244 \<longrightarrow> byte_of c' < 144))"

lemma utf8_tails_shorter: "utf8_tails n s = Some r \<Longrightarrow> length r \<le> length s"
  by (induction n s rule: utf8_tails.induct) (auto split: if_splits)

function utf8_ok :: "string \<Rightarrow> bool" where
  "utf8_ok [] = True"
| "utf8_ok (c # s) =
     (case utf8_more c of None \<Rightarrow> False
      | Some n \<Rightarrow> utf8_second c s \<and> (case utf8_tails n s of None \<Rightarrow> False | Some r \<Rightarrow> utf8_ok r))"
  by pat_completeness auto
termination
  by (relation "measure length") (auto dest: utf8_tails_shorter)

lemma utf8_tails_append:
  "utf8_tails n (s @ y # ys) = Some r \<Longrightarrow> \<not> utf8_tail y \<Longrightarrow> \<exists>r'. utf8_tails n s = Some r' \<and> r = r' @ y # ys"
  by (induction n s rule: utf8_tails.induct) (auto split: if_splits)

lemma utf8_cut:
  assumes "utf8_ok (s @ y # ys)" and "\<not> utf8_tail y"
  shows "utf8_ok s"
  using assms
proof (induction s rule: length_induct)
  case (1 s)
  show ?case
  proof (cases s)
    case (Cons c t)
    obtain n r where n: "utf8_more c = Some n" "utf8_second c (t @ y # ys)"
      "utf8_tails n (t @ y # ys) = Some r" "utf8_ok r"
      using 1(2) Cons by (auto split: option.splits)
    obtain r' where r': "utf8_tails n t = Some r'" "r = r' @ y # ys"
      using utf8_tails_append [OF n(3) 1(3)] by blast
    have "utf8_second c t" using n(2) by (cases t) (simp_all add: utf8_second_def)
    moreover have "utf8_ok r'"
      using 1(1,3) n(4) r' utf8_tails_shorter [OF r'(1)] Cons by auto
    ultimately show ?thesis using Cons n(1) r'(1) by simp
  qed simp
qed

lemma summary_not_utf8:
  assumes "80 < length (str_join '' '' (str_fields [] src))"
    and "\<not> utf8_ok (take 79 (str_join '' '' (str_fields [] src)))"
  shows "\<not> utf8_ok (summarize_expression src b)"
proof
  let ?s = "take 79 (str_join '' '' (str_fields [] src))"
  assume "utf8_ok (summarize_expression src b)"
  then have "utf8_ok (?s @ CHR 0xE2 # CHR 0x80 # CHR 0xA6 # '' -> '' @ show_bool b)"
    using assms(1) by (simp add: summarize_expression_def Let_def ellipsis_def)
  moreover have "\<not> utf8_tail (CHR 0xE2)" by (simp add: utf8_tail_def byte_of_def)
  ultimately have "utf8_ok ?s" by (rule utf8_cut)
  with assms(2) show False by contradiction
qed

lemma pg_refuses_value: "\<not> pv_text env (ls_last_value ls) \<Longrightarrow> \<not> is_ok (fst (pg_live_upsert env ls s))"
  by (auto simp: pg_live_upsert_def pg_exec_def db_exec_def db_call_def live_texts_def
      split: list.splits option.splits)

lemma my_refuses_value:
  "\<not> mv_text env ''live_states.last_value'' (ls_last_value ls) \<Longrightarrow> \<not> is_ok (fst (my_live_upsert env ls s))"
  by (auto simp: my_live_upsert_def my_upsert_def my_fits_def db_exec_def db_call_def my_live_texts_def
      res_map_def res_bind_def split: list.splits option.splits)

lemma live_calls_incidents:
  "t_incidents (snd (pg_live_upsert env ls s)) = t_incidents s"
  "t_incidents (snd (pg_live_get env rid s)) = t_incidents s"
  "t_incidents (snd (my_live_upsert menv ls s)) = t_incidents s"
  "t_incidents (snd (my_live_get menv rid s)) = t_incidents s"
  by (auto simp: pg_live_upsert_def pg_live_get_def pg_exec_def pg_query_def my_live_upsert_def my_live_get_def
      db_exec_def db_query_def db_call_def res_map_def res_bind_def split: list.splits option.splits sum.splits)

definition silent :: "db world \<Rightarrow> db world \<Rightarrow> bool" where
  "silent w w' \<longleftrightarrow> w_sent w' = w_sent w \<and> t_incidents (w_store w') = t_incidents (w_store w)"

lemma silent_refl [simp]: "silent w w"
  by (simp add: silent_def)

lemma silent_trans: "silent w w' \<Longrightarrow> silent w' w'' \<Longrightarrow> silent w w''"
  by (simp add: silent_def)

text \<open>A store whose live states are kept apart from incidents and refuse certain values.\<close>

definition refuses :: "db store \<Rightarrow> (string \<Rightarrow> bool) \<Rightarrow> bool" where
  "refuses st bad \<longleftrightarrow>
     (\<forall>ls s. bad (ls_last_value ls) \<longrightarrow> \<not> is_ok (fst (lr_upsert (st_live_states st) ls s))) \<and>
     (\<forall>ls s. t_incidents (snd (lr_upsert (st_live_states st) ls s)) = t_incidents s) \<and>
     (\<forall>rid s. t_incidents (snd (lr_get (st_live_states st) rid s)) = t_incidents s)"

lemma refused_tick:
  assumes "refuses (d_store d) bad" and "bad val"
  shows "silent w (snd (tick d r trig val now w))"
proof -
  let ?ls = "st_live_states (d_store d)"
  have "op_wp (tick d r trig val now) (\<lambda>_. silent w) w"
    unfolding tick_def op_wp_bind op_wp_wrap op_wp_Let
  proof (rule op_wpI, goal_cases)
    case (1 res w1)
    then have w1: "silent w w1"
      using assms(1) by (auto simp: on_store_def silent_def refuses_def split: prod.splits)
        (metis snd_conv)
    have up: "op_wp (on_store (lr_upsert ?ls ls)) (\<lambda>res w'. (\<exists>e. res = Inl e) \<and> silent w w') w2"
      if "silent w w2" "ls_last_value ls = val" for ls w2
    proof (rule op_wpI)
      fix res w3 assume "on_store (lr_upsert ?ls ls) w2 = (res, w3)"
      then obtain s where "lr_upsert ?ls ls (w_store w2) = (res, s)" "w3 = w2\<lparr>w_store := s\<rparr>"
        by (auto simp: on_store_def split: prod.splits)
      moreover have "\<not> is_ok (fst (lr_upsert ?ls ls (w_store w2)))"
        "t_incidents (snd (lr_upsert ?ls ls (w_store w2))) = t_incidents (w_store w2)"
        using assms that(2) by (simp_all add: refuses_def)
      ultimately show "(\<exists>e. res = Inl e) \<and> silent w w3"
        using that(1) by (cases res) (simp_all add: silent_def)
    qed
    show ?case
    proof (cases res)
      case (Inl e)
      then show ?thesis using w1 by simp
    next
      case (Inr found)
      let ?ls0 = "case found of None \<Rightarrow> fresh_live_state (r_id r) | Some ls \<Rightarrow> ls"
      have new: "op_wp (if trig \<and> ls_state ?ls0 \<noteq> state_firing then fresh_id d else op_return '''')
          (\<lambda>res w'. is_ok res \<and> silent w w') w1"
        using w1 by (auto simp: op_wp_def fresh_id_def silent_def)
      show ?thesis
        unfolding Inr res_wrap_simps sum.case
        by (rule op_wp_mono [OF new])
          (auto simp: is_ok_iff intro!: op_wp_mono [OF up])
    qed
  qed
  then show ?thesis by (simp add: op_wp_def case_prod_beta)
qed

lemma refused_error:
  assumes "refuses (d_store d) bad"
  shows "silent w (snd (record_eval_error d r e now w))"
  using assms unfolding refuses_def silent_def record_eval_error_def on_store_def op_logged_def
  by (auto simp: Let_def split: prod.splits) (metis snd_conv)

text \<open>Evaluators whose rules have only values that the store refuses.\<close>

definition bad_rule :: "golib \<Rightarrow> (string \<Rightarrow> bool) \<Rightarrow> compiled_rule \<Rightarrow> bool" where
  "bad_rule lib bad c \<longleftrightarrow>
     (\<forall>k ctx rec t val. cr_compiled c = Some k \<longrightarrow>
        sql_spec k = None \<and> (eval_compiled lib k ctx rec = Inr (t, val) \<longrightarrow> bad val))"

lemma bad_push:
  assumes "refuses (d_store d) bad" and "bad_rule lib bad c"
  shows "silent w (snd (push_rule lib d clk rec c w))"
  using assms(2) refused_tick [OF assms(1)]
  by (auto simp: push_rule_def bad_rule_def op_logged_def split: option.splits sum.splits)

lemma bad_push_step:
  assumes "refuses (d_store d) bad" and "\<forall>c \<in> set m. bad_rule lib bad c"
  shows "silent (snd bw) (snd (push_step lib d clk now m rec bw))"
  unfolding push_step_def snd_conv
  by (rule op_for_snd_inv [where I = "silent (snd bw)"])
    (use assms in \<open>auto simp: cache_by_input_def intro: silent_trans bad_push\<close>)

lemma bad_eval_one:
  assumes "refuses (d_store d) bad" and "bad_rule lib bad c"
  shows "silent w (snd (eval_one lib d dbs clk wb now c w))"
  using assms(2) refused_tick [OF assms(1)] refused_error [OF assms(1)]
  by (auto simp: eval_one_def scheduled_outcome_def bad_rule_def op_logged_def split: option.splits sum.splits)

lemma bad_scheduled_loop:
  assumes "refuses (d_store d) bad" and "\<forall>c \<in> set cs. bad_rule lib bad c"
  shows "silent (snd lw) (snd (scheduled_loop lib d dbs clk wb now cs lw))"
  using assms(2)
proof (induction cs arbitrary: lw)
  case Nil
  then show ?case by simp
next
  case (Cons c cs)
  obtain prev w where lw: "lw = (prev, w)" by (cases lw)
  have "silent w (snd (eval_one lib d dbs clk wb now c w))"
    using Cons.prems by (intro bad_eval_one [OF assms(1)]) simp
  then show ?case
    using Cons.prems Cons.IH [of "(prev, w)"]
      Cons.IH [of "(prev(cr_id c := now), snd (eval_one lib d dbs clk wb now c w))"] lw
    by (auto intro: silent_trans)
qed

lemma bad_evaluators:
  assumes "refuses (d_store d) bad" and "\<forall>c \<in> set m. bad_rule lib bad c"
  shows "silent (snd (snd st)) (snd (snd (evaluators_run lib d dbs m works st)))"
  unfolding evaluators_run_def
proof (induction works arbitrary: st)
  case Nil
  then show ?case by simp
next
  case (Cons k works)
  have "silent (snd (snd st)) (snd (snd (evaluator_step lib d dbs m k st)))"
  proof (cases st)
    case (fields wb prev w)
    have "\<forall>c \<in> set (cache_scheduled m). bad_rule lib bad c"
      using assms(2) by (simp add: cache_scheduled_def)
    then show ?thesis
      using fields bad_push_step [OF assms, of "(wb, w)"] bad_scheduled_loop [OF assms(1), of _ lib "(prev, w)"]
      by (cases k) (simp_all add: case_prod_beta scheduled_step_def)
  qed
  then show ?case
    using silent_trans [OF _ Cons.IH [of "evaluator_step lib d dbs m k st"]] by simp
qed

definition cut_inside :: "string \<Rightarrow> bool" where
  "cut_inside src \<longleftrightarrow> (let cleaned = str_join '' '' (str_fields [] src) in
     80 < length cleaned \<and> \<not> utf8_ok (take 79 cleaned))"

text \<open>
  C30: summarizeExpression cuts the text of a long expression after 79 bytes. When that is inside
  a character, the value is not UTF-8 and PostgreSQL and MySQL refuse the live state: rules with
  such expressions never open an incident and never send anything there, whatever records come
  and however often they are evaluated.
\<close>

theorem cut_summary_never_alerts:
  assumes "d_store d = postgres_store env lib \<and> (\<forall>s. pv_text env s \<longrightarrow> utf8_ok s) \<or>
      d_store d = mysql_store menv lib \<and> (\<forall>s. mv_text menv ''live_states.last_value'' s \<longrightarrow> utf8_ok s)"
    and "\<And>c. c \<in> set m \<Longrightarrow> \<exists>e prog. cr_compiled c = Some (KExpr e prog) \<and> cut_inside (ex_expr e)"
    and "evaluators_run lib d dbs m works (wb, prev, w) = (wb', prev', w')"
  shows "w_sent w' = w_sent w \<and> t_incidents (w_store w') = t_incidents (w_store w)"
proof -
  have "refuses (d_store d) (\<lambda>s. \<not> utf8_ok s)"
    using assms(1) pg_refuses_value my_refuses_value live_calls_incidents unfolding refuses_def by fastforce
  moreover have "bad_rule lib (\<lambda>s. \<not> utf8_ok s) c" if "c \<in> set m" for c
    using assms(2) [OF that] summary_not_utf8
    by (auto simp: bad_rule_def cut_inside_def Let_def eval_expression_def res_bind_def
        split: sum.splits gval.splits)
  ultimately have "silent w w'"
    using bad_evaluators [of d _ m lib "(wb, prev, w)" dbs works] assms(3) by auto
  then show ?thesis by (simp add: silent_def)
qed

section \<open>Examples\<close>

definition utf8_postgres :: pg_env where
  "utf8_postgres = \<lparr>pv_text = \<lambda>s. utf8_ok s \<and> CHR 0x00 \<notin> set s, pv_collate = \<lambda>s. s\<rparr>"


text \<open>A record of 81 bytes whose 79th byte begins a character, and an expression rule about it.\<close>

definition long_source :: string where
  "long_source = replicate 78 CHR ''a'' @ [CHR 0xE4, CHR 0xBD, CHR 0xA0]"

definition long_rule :: compiled_rule where
  "long_rule = \<lparr>cr_rule = sample_rule\<lparr>r_condition := Some (CExpr \<lparr>ex_expr = long_source, ex_mode = ''push''\<rparr>)\<rparr>,
     cr_compiled = Some (KExpr \<lparr>ex_expr = long_source, ex_mode = ''push''\<rparr> (\<lambda>_. Inr (GBool True)))\<rparr>"

definition pg_dispatcher :: "db dispatcher" where
  "pg_dispatcher = sample_dispatcher\<lparr>d_store := postgres_store utf8_postgres plain_lib\<rparr>"

lemma cut_long: "cut_inside long_source"
  by code_simp

lemma pg_good [simp]: "good_ids pg_dispatcher" "d_store pg_dispatcher = postgres_store utf8_postgres plain_lib"
  using sample_good(1) by (simp_all add: pg_dispatcher_def good_ids_def)


lemma cut_summary_never_alerts_witness:
  "w_sent (snd (snd (evaluators_run plain_lib pg_dispatcher (\<lambda>_. None) [long_rule]
     [Pushed (\<lambda>_. 7) 7 \<lparr>er_input_ref = ''in'', er_when = 7, er_record = Some []\<rparr>]
     (\<lparr>wb_max_span = 100, wb_buf = \<lambda>_. []\<rparr>, \<lambda>_. 0,
      \<lparr>w_store = sys_db sample_state, w_ids = 0, w_sent = []\<rparr>)))) = []"
proof -
  have server: "\<forall>s. pv_text utf8_postgres s \<longrightarrow> utf8_ok s" by (simp add: utf8_postgres_def)
  have rules: "\<exists>e prog. cr_compiled c = Some (KExpr e prog) \<and> cut_inside (ex_expr e)" if "c \<in> set [long_rule]" for c
    using that cut_long by (simp add: long_rule_def)
  obtain wb prev w where run: "evaluators_run plain_lib pg_dispatcher (\<lambda>_. None) [long_rule]
     [Pushed (\<lambda>_. 7) 7 \<lparr>er_input_ref = ''in'', er_when = 7, er_record = Some []\<rparr>]
     (\<lparr>wb_max_span = 100, wb_buf = \<lambda>_. []\<rparr>, \<lambda>_. 0,
      \<lparr>w_store = sys_db sample_state, w_ids = 0, w_sent = []\<rparr>) = (wb, prev, w)"
    by (metis prod.exhaust)
  show ?thesis
    using cut_summary_never_alerts [OF disjI1 [OF conjI [OF pg_good(2) server]] rules run] run by simp
qed





end
