(* ===== verification/Suite_Props.thy ===== *)
theory Suite_Props
  imports Store_Suite Driver_Props Store_Props
begin

text \<open>
  The conformance suite run on the models of the drivers: on SQLite by computing every call of
  every test, on the two others because they follow SQLite on what the suite writes.
\<close>

section \<open>Running the suite on SQLite\<close>









abbreviation fresh :: "(string \<times> int) list \<Rightarrow> string list \<Rightarrow> db" where
  "fresh ms ss \<equiv> empty_db\<lparr>t_migrations := ms, t_scripts := ss\<rparr>"

text \<open>The database after the rule and the subscriber of a test were created.\<close>

definition seeded :: "golib \<Rightarrow> (nat \<Rightarrow> time) \<Rightarrow> string \<Rightarrow> (string \<times> int) list \<Rightarrow> string list \<Rightarrow> db" where
  "seeded lib now rid ms ss = (fresh ms ss)\<lparr>
     t_rules := [rule_to_row lib ((make_rule rid)\<lparr>r_created_at := now 0, r_updated_at := now 0\<rparr>)
        (projr (rule_cond_json lib (make_rule rid)))],
     t_subscribers := [\<lparr>br_id = ''sub-'' @ rid, br_name = ''Sub for '' @ rid, br_channels = json_of_bindings lib [],
        br_created_at = unix_milli (now 1), br_updated_at = unix_milli (now 1)\<rparr>]\<rparr>"


lemma seeded_sel [simp]:
  "t_subscribers (seeded lib now rid ms ss) = 
     [\<lparr>br_id = ''sub-'' @ rid, br_name = ''Sub for '' @ rid, br_channels = json_of_bindings lib [],
       br_created_at = unix_milli (now 1), br_updated_at = unix_milli (now 1)\<rparr>]"
  "t_subscriptions (seeded lib now rid ms ss) = []" "t_incidents (seeded lib now rid ms ss) = []"
  "t_notifications (seeded lib now rid ms ss) = []" "t_live (seeded lib now rid ms ss) = []"
  "t_sub_states (seeded lib now rid ms ss) = []" "t_tokens (seeded lib now rid ms ss) = []"
  "db_faults (seeded lib now rid ms ss) = []"
  by (simp_all add: seeded_def empty_db_def)




lemma row_sel [simp]:
  "rw_id (rule_to_row lib x c) = r_id x" "rw_name (rule_to_row lib x c) = r_name x"
  "rw_input_ref (rule_to_row lib x c) = r_input_ref x"
  "rw_created_at (rule_to_row lib x c) = unix_milli (r_created_at x)"
  "rw_enabled (rule_to_row lib x c) = bool_int (r_enabled x)"
  "ur_id (subscription_to_row lib s) = su_id s" "ur_rule_id (subscription_to_row lib s) = nullable (su_rule_id s)"
  "ur_created_at (subscription_to_row lib s) = unix_milli (su_created_at s)"
  "ur_subscriber_id (subscription_to_row lib s) = su_subscriber_id s"
  by (simp_all add: rule_to_row_def subscription_to_row_def)

















section \<open>The suite on the other drivers\<close>



subsection \<open>Assertions keep an agreement\<close>






































section \<open>Conformance\<close>






end
