(* ===== verification/Embed_Example.thy ===== *)
theory Embed_Example
  imports Dispatch_Props Store_Props Telemetry
begin

text \<open>
  examples/embed: the engine driven from a program. run() opens the store, starts the engine,
  creates a rule, a subscriber and a subscription, and submits orders, with enough time between
  two of them for the push evaluator to take the first. The identifiers of uuid.NewString are
  sequences, \<open>new_id\<close> for those run() draws and \<open>ids\<close> for the dispatcher's.
\<close>

section \<open>The program\<close>

definition embed_rule :: "string \<Rightarrow> rule" where
  "embed_rule i = \<lparr>r_id = i, r_name = ''high-value order'', r_description = '''', r_enabled = True,
     r_severity = ''info'', r_labels = [], r_input_ref = ''orders'',
     r_condition = Some (CThreshold \<lparr>th_field = ''total'', th_op = ''>'', th_value = Fin 1000\<rparr>),
     r_schedule = 0, r_created_at = zero_time, r_updated_at = zero_time\<rparr>"

definition embed_subscriber :: "string \<Rightarrow> subscriber" where
  "embed_subscriber i = \<lparr>sb_id = i, sb_name = ''demo'',
     sb_channels = [\<lparr>cb_channel = ''demo'', cb_address = ''''\<rparr>],
     sb_created_at = zero_time, sb_updated_at = zero_time\<rparr>"

definition embed_subscription :: "string \<Rightarrow> string \<Rightarrow> string \<Rightarrow> subscription" where
  "embed_subscription i sub_id rule_id = \<lparr>su_id = i, su_subscriber_id = sub_id, su_rule_id = rule_id,
     su_label_selector = [], su_dwell = 0, su_repeat_interval = 0, su_notify_on_resolve = False,
     su_one_shot = False, su_channel_filter = [], su_created_at = zero_time, su_updated_at = zero_time\<rparr>"

definition embed_setup :: "golib \<Rightarrow> (nat \<Rightarrow> string) \<Rightarrow> time \<Rightarrow> (db \<times> rule_cache, unit) op" where
  "embed_setup lib new_id now =
     op_bind (api_rule_create lib (sqlite_store lib) now (embed_rule (new_id 0))) (\<lambda>r.
     op_bind (on_rules (sbr_create (st_subscribers (sqlite_store lib)) now (embed_subscriber (new_id 1)))) (\<lambda>sub.
     op_bind (on_rules (sur_create (st_subscriptions (sqlite_store lib)) now
       (embed_subscription (new_id 2) (sb_id sub) (r_id r)))) (\<lambda>_. op_return ())))"

definition embed_channels :: "http_env \<Rightarrow> (string \<times> (string \<times> channel_send) option) list" where
  "embed_channels env =
     (let wh = webhook_new \<lparr>wc_name = ''demo'', wc_url = ''https://httpbin.org/post'', wc_headers = []\<rparr>
      in [(''demo'', Some (wc_name wh, webhook_send env wh))])"

definition embed_dispatcher :: "golib \<Rightarrow> http_env \<Rightarrow> (nat \<Rightarrow> string) \<Rightarrow> db dispatcher" where
  "embed_dispatcher lib env ids = \<lparr>d_store = sqlite_store lib,
     d_channels = (\<lambda>k. case map_of (trace_channels (embed_channels env)) k of
       Some (Some (name, send)) \<Rightarrow> Some (seen_send send) | _ \<Rightarrow> None),
     d_id = ids\<rparr>"

text \<open>
  The loop of run(): an order is its total, the time of its submission and the time of the
  evaluation. None stands for a Submit that blocks for ever.
\<close>

record embed =
  em_event :: event_input
  em_cache :: rule_cache
  em_buffers :: window_buffers
  em_world :: "db world"

record order =
  or_total :: f64
  or_submitted :: time
  or_evaluated :: time

definition order_record :: "nat \<Rightarrow> f64 \<Rightarrow> grecord" where
  "order_record i amount = [(''order_id'', GStr (''o-'' @ show_nat i)), (''total'', GFloat64 amount)]"

definition take_records :: "golib \<Rightarrow> db dispatcher \<Rightarrow> time \<Rightarrow> embed \<Rightarrow> embed" where
  "take_records lib d now e =
     (case ev_sink (em_event e) of
        None \<Rightarrow> e
      | Some q \<Rightarrow>
          (let bw = fold (push_step lib d (\<lambda>_. now) now (em_cache e)) q (em_buffers e, em_world e)
           in e\<lparr>em_event := (em_event e)\<lparr>ev_sink := Some []\<rparr>, em_buffers := fst bw, em_world := snd bw\<rparr>))"

fun embed_orders :: "golib \<Rightarrow> db dispatcher \<Rightarrow> nat \<Rightarrow> order list \<Rightarrow> embed \<Rightarrow> embed option" where
  "embed_orders lib d i [] e = Some e"
| "embed_orders lib d i (o1 # os) e =
     (case engine_submit (or_submitted o1) None True ''orders'' (Some (order_record i (or_total o1)))
        (Some (em_event e)) of
        Some (_, Some ev) \<Rightarrow> embed_orders lib d (Suc i) os (take_records lib d (or_evaluated o1) (e\<lparr>em_event := ev\<rparr>))
      | _ \<Rightarrow> None)"

definition embed_run ::
  "golib \<Rightarrow> http_env \<Rightarrow> (nat \<Rightarrow> string) \<Rightarrow> (nat \<Rightarrow> string) \<Rightarrow> (string \<Rightarrow> time) \<Rightarrow> unit result \<Rightarrow> time
   \<Rightarrow> order list \<Rightarrow> db \<Rightarrow> (unit result \<times> db world) option" where
  "embed_run lib env ids new_id migrated opened now orders d =
     (let start_world = (\<lambda>d'. \<lparr>w_store = d', w_ids = 0, w_sent = []\<rparr>)
      in case opened of
           Inl e \<Rightarrow> Some (Inl e, start_world d)
         | Inr _ \<Rightarrow>
             (case engine_new \<lparr>eo_has_store = True, eo_max_window_span = 0\<rparr> of
                Inl e \<Rightarrow> Some (Inl e, start_world d)
              | Inr eng \<Rightarrow>
                  (case engine_start lib (sqlite_store lib) (lite_migrate lite_migration_names migrated) (eng, (d, [])) of
                     (Inl e, (_, (d1, _))) \<Rightarrow> Some (Inl e, start_world d1)
                   | (Inr _, (eng1, dm)) \<Rightarrow>
                       (case embed_setup lib new_id now dm of
                          (Inl e, (d2, _)) \<Rightarrow> Some (Inl e, start_world d2)
                        | (Inr _, (d2, m2)) \<Rightarrow>
                            map_option (\<lambda>e. (Inr (), em_world e))
                              (embed_orders lib (embed_dispatcher lib env ids) 0 orders
                                 \<lparr>em_event = event_start [] (event_new ''orders''), em_cache = m2,
                                  em_buffers = new_window_buffers (eg_max_span eng1),
                                  em_world = start_world d2\<rparr>)))))"

text \<open>The totals of main.\<close>

definition embed_totals :: "f64 list" where
  "embed_totals = [round64 (4999 / 100), Fin 500, Fin 1500, Fin 50, Fin 2000]"

section \<open>A subscription to every incident\<close>

text \<open>
  A world whose only subscription wants the first notification of each incident at once: \<open>firing\<close>
  is the state of the rule.
\<close>

definition plain_subscription :: "subscription \<Rightarrow> rule \<Rightarrow> bool" where
  "plain_subscription sub r \<longleftrightarrow> r_id r \<noteq> [] \<and> su_rule_id sub = r_id r \<and> su_dwell sub = 0 \<and>
     su_repeat_interval sub = 0 \<and> \<not> su_notify_on_resolve sub \<and> \<not> su_one_shot sub \<and> su_channel_filter sub = []"

definition follows ::
  "db dispatcher \<Rightarrow> rule \<Rightarrow> subscription \<Rightarrow> subscriber \<Rightarrow> bool \<Rightarrow> db world \<Rightarrow> bool" where
  "follows d r sub row firing w \<longleftrightarrow>
     tables_ok (agreed d) w \<and>
     (let v = lite_view (w_store w) in
       v_subs v = [sub] \<and> v_subscriber v (su_subscriber_id sub) = Some row \<and>
       (ls_state (live_of v (r_id r)) = state_firing \<longleftrightarrow> firing) \<and>
       (\<forall>i. v_sub_state v i (su_id sub) \<noteq> None \<longrightarrow> i \<in> d_id d ` {..<w_ids w}) \<and>
       (firing \<longrightarrow> notified_before (v_sub_state v (ls_incident_id (live_of v (r_id r))) (su_id sub))))"

lemma subs_for_plain: "plain_subscription sub r \<Longrightarrow> subs_for_rule (r_id r) labels [sub] = [sub]"
  by (simp add: plain_subscription_def subs_for_rule_def)

lemma decide_plain:
  assumes "plain_subscription sub r" and "firing \<Longrightarrow> \<not> notified_before st \<Longrightarrow> age = 0"
  shows "decide sub firing ended age st now =
    (if \<not> ended \<and> firing \<and> \<not> notified_before st then Notify kind_firing else Quiet)"
  using assms by (auto simp: decide_def plain_subscription_def)

definition announcement ::
  "'s dispatcher \<Rightarrow> rule \<Rightarrow> subscriber \<Rightarrow> string \<Rightarrow> string \<Rightarrow> time \<Rightarrow> (string \<times> channel_notification) list" where
  "announcement d r row inc val now =
     map (\<lambda>b. (cb_channel b, payload r inc kind_firing val now b))
       (filter (\<lambda>b. d_channels d (cb_channel b) \<noteq> None) (sb_channels row))"

lemma messages_plain:
  "plain_subscription sub r \<Longrightarrow> v_subscriber v (su_subscriber_id sub) = Some row \<Longrightarrow>
   messages d r sub inc kind_firing val now v = announcement d r row inc val now"
  by (simp add: messages_def one_shot_spent_def plain_subscription_def eligible_def announcement_def)

lemma follows_tick:
  assumes st: "d_store d = sqlite_store lib" and good: "good_ids d" and ps: "plain_subscription sub r"
    and now: "0 \<le> now" and w: "follows d r sub row firing w"
    and run: "tick d r triggered val now w = (res, w')"
  shows "follows d r sub row triggered w' \<and> w_ids w \<le> w_ids w' \<and>
    (triggered \<and> \<not> firing \<longrightarrow> w_ids w < w_ids w') \<and>
    sent_messages w' = sent_messages w @
      (if triggered \<and> \<not> firing then announcement d r row (d_id d (w_ids w)) val now else [])"
proof -
  let ?v = "lite_view (w_store w)" and ?v' = "lite_view (w_store w')"
  let ?sid = "su_id sub"
  note view = w [unfolded follows_def Let_def]
  have ag: "agreed d w" and wf: "db_wf (w_store w)" using view by (auto simp: tables_ok_def)
  have rid: "r_id r \<noteq> []" using ps by (simp add: plain_subscription_def)
  have lk: "live_keyed ?v" and h: "healthy lite_ok lite_view d w"
    using ag by (auto simp: agreed_def sys_inv_def)
  obtain ls t where out: "tick_outcome d r triggered val now w ?v = (ls, t)"
    by (cases "tick_outcome d r triggered val now w ?v")
  have known: "closes_known ls t" and ids: "ls_rule_id ls = r_id r"
    using tick_outcome_wf [OF lk good out] by auto
  from op_wpD [OF lite.tick_ok [OF st good rid out known h] run] view
  obtain w2 where at: "at_view lite_view w (ids_drawn r triggered ?v) (core_effect r ls t val now ?v) w2"
    and loop: "chain (step_full lite_view d r ls t now) [sub] w2 w'"
    by (auto simp: subs_for_plain [OF ps])
  let ?v2 = "lite_view (w_store w2)"
  have v2: "v_subs ?v2 = [sub]" "v_subscriber ?v2 (su_subscriber_id sub) = Some row"
    "v_sub_state ?v2 = v_sub_state ?v" "live_of ?v2 (r_id r) = norm_live ls" "sent_messages w2 = sent_messages w"
    "w_ids w2 = w_ids w + ids_drawn r triggered ?v"
    using at view ids at_view_sent [OF at] by (auto simp: at_view_def live_of_def)
  have step: "step_done lite_view d r ls t now sub w2 w'"
    using loop v2 by (auto simp: step_full_def)
  have fresh: "v_sub_state ?v (d_id d (w_ids w)) ?sid = None"
    using view good by (fastforce simp: good_ids_def inj_def)
  have same: "same_core ?v2 ?v'" and le: "w_ids w2 \<le> w_ids w'"
    using chain_same_core [OF chain_mono [OF loop step_full_any]] by auto
  have tables: "tables_ok (agreed d) w'"
    using tables_ok_evaluators(1) [OF st agreed_stable [OF st good]] rid now view run
    unfolding tick_stable_def by (metis snd_conv)
  have base: "v_subs ?v' = [sub]" "v_subscriber ?v' (su_subscriber_id sub) = Some row"
    "live_of ?v' (r_id r) = norm_live ls"
    using same v2 by (auto simp: same_core_def live_of_def)
  have val_eq: "triggered \<Longrightarrow> ls_last_value ls = val"
    using out good by (auto simp: tick_outcome_def new_incident_id_def good_ids_def apply_outcome_def Let_def
        split: if_splits)
  have firing: "ls_state (live_of ?v (r_id r)) = state_firing \<longleftrightarrow> firing" using view by simp
  show ?thesis
  proof (cases "triggered \<and> \<not> firing")
    case True
    let ?inc = "d_id d (w_ids w)"
    have t: "ls_state ls = state_firing" "ls_incident_id ls = ?inc" "ls_triggered_at ls = now" "\<not> tr_closed t"
      using lk good out by (cases rule: tick_outcome_cases; use True firing in auto)+
    have subject: "subject_incident ls t = ?inc" using t by (simp add: subject_incident_def)
    have decided: "decision_for ls t sub now ?v2 = Notify kind_firing"
      unfolding decision_for_def subject
      by (subst decide_plain [OF ps]) (use t fresh v2 in \<open>auto simp: notified_before_def time_sub_def min_int64_def max_int64_def\<close>)
    from step [unfolded step_done_def Let_def decided decision.case subject]
    have ev: "evaluated lite_view d ?sid ?inc (Some (state_after ?inc ?sid None kind_firing now))
        (announcement d r row ?inc val now) w2 w'"
      using v2 fresh True val_eq by (simp add: messages_plain [OF ps])
    obtain w1 where w1: "delivered lite_view d ?sid ?inc (announcement d r row ?inc val now) w2 w1"
      "?v' = put_sub_state (state_after ?inc ?sid None kind_firing now) (lite_view (w_store w1))"
      using ev by (auto simp: evaluated_def)
    then have states: "v_sub_state ?v' = v_sub_state (put_sub_state (state_after ?inc ?sid None kind_firing now) ?v)"
      using delivered_viewD(1) [OF w1(1)] v2(3) by (simp add: put_sub_state_def fun_eq_iff)
    have drawn: "w_ids w < w_ids w'"
      using True firing le v2(6) by (auto simp: ids_drawn_def live_before_eq)
    have seen: "v_sub_state ?v' i ?sid = (if i = ?inc then Some (norm_sub_state (state_after ?inc ?sid None kind_firing now))
        else v_sub_state ?v i ?sid)" for i
      by (simp add: states put_sub_state_def state_after_def fresh_sub_state_def)
    have drawn_ids: "d_id d ` {..<w_ids w} \<subseteq> d_id d ` {..<w_ids w'}" using drawn by auto
    have "follows d r sub row triggered w'"
      unfolding follows_def Let_def
      using base tables True t seen drawn drawn_ids view
      by (auto simp: notified_before_def state_after_def fresh_sub_state_def norm_sub_state_def norm_live_def)
    then show ?thesis using True drawn evaluated_sent [OF ev] v2 by simp
  next
    case False
    have t: "ls_state ls = state_firing \<longleftrightarrow> triggered" "triggered \<Longrightarrow> \<not> tr_closed t"
      "triggered \<Longrightarrow> ls_incident_id ls = ls_incident_id (live_of ?v (r_id r))"
      using lk good out by (cases rule: tick_outcome_cases; use False firing in auto)+
    have old: "triggered \<Longrightarrow> notified_before (v_sub_state ?v (ls_incident_id ls) ?sid)"
      using view False t by auto
    have quiet: "decision_for ls t sub now ?v2 = Quiet"
      unfolding decision_for_def
      by (subst decide_plain [OF ps]) (use t old v2 in \<open>auto simp: subject_incident_def\<close>)
    from step [unfolded step_done_def Let_def quiet decision.case]
    have ev: "evaluated lite_view d ?sid (subject_incident ls t) None [] w2 w'" .
    have states: "v_sub_state ?v' = v_sub_state ?v"
      using ev v2(3) by (auto simp: evaluated_def delivered_def)
    have "w_ids w \<le> w_ids w'" using le v2(6) by simp
    then have "d_id d ` {..<w_ids w} \<subseteq> d_id d ` {..<w_ids w'}" by auto
    then have "follows d r sub row triggered w'"
      unfolding follows_def Let_def
      using base tables t old states view by (auto simp: norm_live_def)
    then show ?thesis using False \<open>w_ids w \<le> w_ids w'\<close> evaluated_sent [OF ev] v2 by auto
  qed
qed

section \<open>The orders\<close>

definition order_text :: "golib \<Rightarrow> f64 \<Rightarrow> string" where
  "order_text lib x = lib_fmt_v lib (GFloat64 x) @ '' > '' @ lib_fmt_v lib (GFloat64 (Fin 1000))"

definition high :: "f64 \<Rightarrow> bool" where
  "high x \<longleftrightarrow> f_less (Fin 1000) x"

text \<open>The cache after run() created its rule.\<close>

definition embed_cached :: "string \<Rightarrow> time \<Rightarrow> rule_cache" where
  "embed_cached i now = [\<lparr>cr_rule = (embed_rule i)\<lparr>r_created_at := now, r_updated_at := now\<rparr>,
     cr_compiled = Some (KThreshold \<lparr>th_field = ''total'', th_op = ''>'', th_value = Fin 1000\<rparr>)\<rparr>]"

lemma push_order:
  fixes r i now k
  defines "r \<equiv> (embed_rule i)\<lparr>r_created_at := now, r_updated_at := now\<rparr>"
  shows "snd (push_step lib d (\<lambda>_. u) u (embed_cached i now)
      \<lparr>er_input_ref = ''orders'', er_when = t, er_record = Some (order_record k x)\<rparr> (b, w)) =
    snd (tick d r (high x) (order_text lib x) u w)"
  by (simp add: r_def push_step_def push_rule_def embed_cached_def cache_by_input_def embed_rule_def cached_mode_def
      eval_threshold_def numeric_field_def order_record_def order_text_def high_def op_compare_def op_bind_def
      op_logged_def split: prod.split)

text \<open>What run() finds after the migration of a new database.\<close>

definition bare :: "db \<Rightarrow> bool" where
  "bare d \<longleftrightarrow> t_rules d = [] \<and> t_subscribers d = [] \<and> t_subscriptions d = [] \<and> t_incidents d = [] \<and>
     t_notifications d = [] \<and> t_live d = [] \<and> t_sub_states d = [] \<and> t_tokens d = [] \<and> db_faults d = []"

lemma migrate_one:
  assumes "db_faults d = []" and "name \<notin> fst ` set (t_migrations d)"
  shows "lite_migrate_one f name d = (Inr (), d\<lparr>t_scripts := t_scripts d @ [name],
    t_migrations := t_migrations d @ [(name, f name div second)]\<rparr>)"
proof -
  have "filter (\<lambda>(v, _). v = name) (t_migrations d) = []"
    using assms(2) by (force simp: filter_empty_conv)
  then show ?thesis
    using assms by (simp add: lite_migrate_one_def op_bind_def db_query_no_fault db_exec_no_fault db_tx_def op_wrap_def
        sql_insert_def)
qed

lemma migrate_bare: "\<exists>d'. lite_migrate lite_migration_names f empty_db = (Inr (), d') \<and> bare d'"
proof -
  have names: "sort (filter (\<lambda>n. has_suffix n ''.sql'') lite_migration_names) =
      [''0001_init.sql'', ''0002_api_tokens.sql'', ''0003_subscriptions_one_shot.sql'']"
    by code_simp
  show ?thesis
    by (simp add: lite_migrate_def names op_bind_def db_exec_no_fault empty_db_def migrate_one bare_def)
qed

lemma start_bare:
  "bare d \<Longrightarrow> reload_all lib (sqlite_store lib) (d, m) = (Inr (), (d, m))"
  by (simp add: reload_all_def on_rules_def sqlite_store_def lite_rule_list_def db_query_no_fault op_bind_def bare_def
      scan_all_def)

lemma setup_rule:
  assumes "bare d"
  shows "\<exists>row. api_rule_create lib (sqlite_store lib) now (embed_rule i) (d, []) =
    (Inr ((embed_rule i)\<lparr>r_created_at := now, r_updated_at := now\<rparr>),
      (d\<lparr>t_rules := [row]\<rparr>, embed_cached i now)) \<and> rw_id row = i"
proof -
  let ?r = "(embed_rule i)\<lparr>r_created_at := now, r_updated_at := now\<rparr>"
  obtain cond where cond: "rule_cond_json lib (embed_rule i) = Inr cond"
    by (simp add: rule_cond_json_def embed_rule_def)
  have "lite_rule_create lib now (embed_rule i) d = (Inr ?r, d\<lparr>t_rules := [rule_to_row lib ?r cond]\<rparr>)"
    using assms by (simp add: lite_rule_create_def cond Let_def op_bind_def db_exec_no_fault bare_def sql_insert_def)
      (simp add: embed_rule_def)
  moreover have "rule_validate (embed_rule i) = Inr ()"
    by (simp add: rule_validate_def embed_rule_def)
  moreover have "compile_condition lib (CThreshold \<lparr>th_field = ''total'', th_op = ''>'', th_value = Fin 1000\<rparr>) =
      Inr (KThreshold \<lparr>th_field = ''total'', th_op = ''>'', th_value = Fin 1000\<rparr>)"
    by (simp add: compile_threshold_def op_validate_def)
  moreover have "r_enabled ?r" "r_condition ?r = Some (CThreshold \<lparr>th_field = ''total'', th_op = ''>'', th_value = Fin 1000\<rparr>)"
    "rw_id (rule_to_row lib ?r cond) = i"
    by (simp_all add: embed_rule_def rule_to_row_def)
  ultimately show ?thesis
    by (simp add: api_rule_create_def op_bind_def on_rules_def sqlite_store_def compile_and_cache_def embed_cached_def
        cache_set_def tbl_upsert_def) metis
qed

definition embed_row :: "string \<Rightarrow> time \<Rightarrow> subscriber" where
  "embed_row i now = (embed_subscriber i)\<lparr>sb_created_at := trunc_ms now, sb_updated_at := trunc_ms now\<rparr>"

definition embed_sub :: "(nat \<Rightarrow> string) \<Rightarrow> time \<Rightarrow> subscription" where
  "embed_sub new_id now =
     (embed_subscription (new_id 2) (new_id 1) (new_id 0))\<lparr>su_created_at := trunc_ms now, su_updated_at := trunc_ms now\<rparr>"

lemma setup_bare:
  assumes d: "bare d" and texts: "valid_text lib ''demo''" "valid_text lib ''''" and ids: "new_id 0 \<noteq> ''''"
  shows "\<exists>d'. embed_setup lib new_id now (d, []) = (Inr (), (d', embed_cached (new_id 0) now)) \<and>
    core_kept d d' \<and> db_wf d' \<and> rule_ids d' \<and> v_subs (lite_view d') = [embed_sub new_id now] \<and>
    v_subscriber (lite_view d') (new_id 1) = Some (embed_row (new_id 1) now)"
proof -
  obtain row where rule: "api_rule_create lib (sqlite_store lib) now (embed_rule (new_id 0)) (d, []) =
    (Inr ((embed_rule (new_id 0))\<lparr>r_created_at := now, r_updated_at := now\<rparr>),
      (d\<lparr>t_rules := [row]\<rparr>, embed_cached (new_id 0) now))" "rw_id row = new_id 0"
    using setup_rule [OF d] by blast
  let ?b = "(embed_subscriber (new_id 1))\<lparr>sb_created_at := now, sb_updated_at := now\<rparr>"
  let ?u = "(embed_subscription (new_id 2) (new_id 1) (new_id 0))\<lparr>su_created_at := now, su_updated_at := now\<rparr>"
  let ?brow = "\<lparr>br_id = new_id 1, br_name = ''demo'', br_channels = json_of_bindings lib (sb_channels ?b),
     br_created_at = unix_milli now, br_updated_at = unix_milli now\<rparr>"
  let ?d' = "d\<lparr>t_rules := [row], t_subscribers := [?brow], t_subscriptions := [subscription_to_row lib ?u]\<rparr>"
  have run: "embed_setup lib new_id now (d, []) = (Inr (), (?d', embed_cached (new_id 0) now))"
  proof -
    have sub: "lite_subscriber_create lib now (embed_subscriber (new_id 1)) (d\<lparr>t_rules := [row]\<rparr>) =
        (Inr ?b, d\<lparr>t_rules := [row], t_subscribers := [?brow]\<rparr>)"
      using d by (simp add: lite_subscriber_create_def Let_def op_bind_def db_exec_no_fault bare_def sql_insert_def
          embed_subscriber_def)
    have "lite_subscription_create lib now (embed_subscription (new_id 2) (new_id 1) (new_id 0))
        (d\<lparr>t_rules := [row], t_subscribers := [?brow]\<rparr>) = (Inr ?u, ?d')"
      using d by (simp add: lite_subscription_create_def Let_def op_bind_def db_exec_no_fault bare_def sql_insert_def
          embed_subscription_def)
    moreover have "sb_id ?b = new_id 1" "r_id ((embed_rule (new_id 0))\<lparr>r_created_at := now, r_updated_at := now\<rparr>) = new_id 0"
      by (simp_all add: embed_subscriber_def embed_rule_def)
    moreover have "sbr_create (st_subscribers (sqlite_store lib)) = lite_subscriber_create lib"
      "sur_create (st_subscriptions (sqlite_store lib)) = lite_subscription_create lib"
      by (simp_all add: sqlite_store_def)
    ultimately show ?thesis
      unfolding embed_setup_def op_bind_def rule(1) by (simp add: on_rules_def sub del: One_nat_def)
  qed
  have subs: "scan_subscription (subscription_to_row lib ?u) = embed_sub new_id now"
    by (subst scan_subscription_row)
      (simp_all add: subscription_storable_def labels_ok_def stored_subscription_def embed_subscription_def embed_sub_def)
  have row_back: "scan_subscriber ?brow = embed_row (new_id 1) now"
    using texts by (simp add: scan_subscriber_def bindings_roundtrip bindings_ok_def embed_subscriber_def embed_row_def
        trunc_ms_def)
  show ?thesis
    using d rule(2) run subs row_back ids
    by (intro exI [of _ ?d']) (simp add: core_kept_def db_wf_def rule_ids_def bare_def tbl_unique_def lite_view_def
        subscription_to_row_def embed_subscription_def nullable_def)
qed

section \<open>What is announced\<close>

text \<open>The orders that start an incident: high, after one that is not high or as the first.\<close>

fun starts :: "bool \<Rightarrow> order list \<Rightarrow> order list" where
  "starts firing [] = []"
| "starts firing (o1 # os) =
     (if high (or_total o1) \<and> \<not> firing then [o1] else []) @ starts (high (or_total o1)) os"

lemma starts_totals: "map or_total (starts firing os) = map fst
    (filter (\<lambda>(x, p). high x \<and> \<not> p) (zip (map or_total os) (firing # map (high \<circ> or_total) os)))"
  by (induction os arbitrary: firing) auto

definition embed_alert :: "golib \<Rightarrow> string \<Rightarrow> string \<Rightarrow> order \<Rightarrow> string \<times> channel_notification" where
  "embed_alert lib rule_id inc o1 = (''demo'', \<lparr>cn_incident_id = inc, cn_rule_id = rule_id,
     cn_rule_name = ''high-value order'', cn_severity = ''info'', cn_description = '''',
     cn_value = order_text lib (or_total o1), cn_kind = kind_firing, cn_address = '''',
     cn_now = or_evaluated o1, cn_triggered_at = or_evaluated o1\<rparr>)"

lemma embed_channel: "d_channels (embed_dispatcher lib env ids) ''demo'' =
    Some (webhook_send env (webhook_new \<lparr>wc_name = ''demo'', wc_url = ''https://httpbin.org/post'', wc_headers = []\<rparr>))"
  by (simp add: embed_dispatcher_def embed_channels_def trace_channels_def traced_channel_def Let_def)

lemma embed_dispatcher_sel [simp]:
  "d_store (embed_dispatcher lib env ids) = sqlite_store lib" "d_id (embed_dispatcher lib env ids) = ids"
  by (simp_all add: embed_dispatcher_def)

lemma orders_announced:
  fixes lib env ids i now
  defines "d \<equiv> embed_dispatcher lib env ids"
    and "r \<equiv> (embed_rule i)\<lparr>r_created_at := now, r_updated_at := now\<rparr>"
  assumes good: "good_ids d" and ps: "plain_subscription sub r"
    and row: "sb_channels row = [\<lparr>cb_channel = ''demo'', cb_address = ''''\<rparr>]"
    and times: "\<forall>o1 \<in> set os. 0 \<le> or_evaluated o1"
    and cache: "em_cache e = embed_cached i now" and sink: "ev_sink (em_event e) = Some []"
    and w: "follows d r sub row firing (em_world e)"
  shows "\<exists>e' incs. embed_orders lib d k os e = Some e' \<and>
    sent_messages (em_world e') = sent_messages (em_world e) @ map2 (embed_alert lib i) incs (starts firing os) \<and>
    distinct incs \<and> set incs \<subseteq> d_id d ` {w_ids (em_world e)..} \<and> length incs = length (starts firing os)"
  using times cache sink w
proof (induction os arbitrary: k e firing)
  case Nil
  then show ?case by simp
next
  case (Cons o1 os)
  let ?w = "em_world e" and ?rec = "\<lparr>er_input_ref = ''orders'', er_when = or_submitted o1,
      er_record = Some (order_record k (or_total o1))\<rparr>"
  let ?e = "e\<lparr>em_event := (em_event e)\<lparr>ev_sink := Some [?rec]\<rparr>\<rparr>"
  let ?e1 = "take_records lib d (or_evaluated o1) ?e"
  have submit: "engine_submit (or_submitted o1) None True ''orders'' (Some (order_record k (or_total o1)))
      (Some (em_event e)) = Some (Inr (), Some ((em_event e)\<lparr>ev_sink := Some [?rec]\<rparr>))"
    by (simp add: engine_submit_def event_submit_def Cons.prems(3) sink_capacity_def)
  have e1: "em_cache ?e1 = embed_cached i now" "ev_sink (em_event ?e1) = Some []"
    "em_world ?e1 = snd (tick d r (high (or_total o1)) (order_text lib (or_total o1)) (or_evaluated o1) ?w)"
    using Cons.prems(2) by (simp_all add: take_records_def push_order r_def)
  obtain res w1 where run: "tick d r (high (or_total o1)) (order_text lib (or_total o1)) (or_evaluated o1) ?w = (res, w1)"
    by fastforce
  have t: "follows d r sub row (high (or_total o1)) w1" "w_ids ?w \<le> w_ids w1"
    "high (or_total o1) \<and> \<not> firing \<longrightarrow> w_ids ?w < w_ids w1"
    "sent_messages w1 = sent_messages ?w @ (if high (or_total o1) \<and> \<not> firing
       then announcement d r row (d_id d (w_ids ?w)) (order_text lib (or_total o1)) (or_evaluated o1) else [])"
    using follows_tick [OF _ good ps _ Cons.prems(4) run] Cons.prems(1) by (auto simp: d_def)
  have ann: "announcement d r row inc (order_text lib (or_total o1)) (or_evaluated o1) = [embed_alert lib i inc o1]" for inc
    by (simp add: announcement_def row embed_channel d_def payload_def embed_alert_def r_def embed_rule_def)
  obtain e' incs where rest: "embed_orders lib d (Suc k) os ?e1 = Some e'"
    "sent_messages (em_world e') = sent_messages w1 @ map2 (embed_alert lib i) incs (starts (high (or_total o1)) os)"
    "distinct incs" "set incs \<subseteq> d_id d ` {w_ids w1..}" "length incs = length (starts (high (or_total o1)) os)"
    using Cons.IH [of ?e1 "high (or_total o1)" "Suc k"] Cons.prems(1) e1 t(1) run by auto
  show ?case
  proof (cases "high (or_total o1) \<and> \<not> firing")
    case True
    have "d_id d (w_ids ?w) \<notin> d_id d ` {w_ids w1..}"
      using good t(3) True by (auto simp: good_ids_def dest: injD)
    then show ?thesis
      using rest t True ann submit
      by (intro exI [of _ e'] exI [of _ "d_id d (w_ids ?w) # incs"]) (auto intro: order_trans)
  next
    case False
    then show ?thesis
      using rest t submit by (intro exI [of _ e'] exI [of _ incs]) auto
  qed
qed

text \<open>
  C32: On a new database the example program runs to its end, and posts exactly one message to
  the webhook for each order above 1000 that comes first or after one that is not: the first
  announcement of an incident of its own, with the order's total, whatever the webhook answers.
\<close>

theorem embed_announces:
  assumes "inj ids" and "\<And>n. ids n \<noteq> ''''" and "new_id 0 \<noteq> ''''"
    and "valid_text lib ''demo''" and "valid_text lib ''''" and "\<forall>o1 \<in> set orders. 0 \<le> or_evaluated o1"
  shows "\<exists>w incs. embed_run lib env ids new_id migrated (Inr ()) now orders empty_db = Some (Inr (), w) \<and>
    sent_messages w = map2 (embed_alert lib (new_id 0)) incs (starts False orders) \<and>
    distinct incs \<and> length incs = length (starts False orders)"
proof -
  let ?d = "embed_dispatcher lib env ids"
  let ?r = "(embed_rule (new_id 0))\<lparr>r_created_at := now, r_updated_at := now\<rparr>"
  let ?sub = "embed_sub new_id now" and ?row = "embed_row (new_id 1) now"
  obtain d1 where migrate: "lite_migrate lite_migration_names migrated empty_db = (Inr (), d1)" "bare d1"
    using migrate_bare by blast
  obtain d2 where made: "embed_setup lib new_id now (d1, []) = (Inr (), (d2, embed_cached (new_id 0) now))"
    "core_kept d1 d2" "db_wf d2" "rule_ids d2" "v_subs (lite_view d2) = [?sub]"
    "v_subscriber (lite_view d2) (new_id 1) = Some ?row"
    using setup_bare [of d1 lib new_id now, OF migrate(2) assms(4,5,3)] by blast
  let ?w = "\<lparr>w_store = d2, w_ids = 0, w_sent = []\<rparr>"
  have empty: "t_incidents d2 = []" "t_live d2 = []" "t_notifications d2 = []" "t_sub_states d2 = []" "db_faults d2 = []"
    using made(2) migrate(2) by (simp_all add: core_kept_def bare_def)
  have view: "v_live (lite_view d2) = (\<lambda>_. None)" "v_incident (lite_view d2) = (\<lambda>_. None)"
    "v_notifs (lite_view d2) = []" "v_sub_state (lite_view d2) = (\<lambda>_ _. None)"
    by (simp_all add: lite_view_def empty scan_opt_def fun_eq_iff)
  have ag: "agreed ?d ?w"
    by (simp add: agreed_def healthy_def ids_ok_def sys_inv_def live_keyed_def open_incidents_def lite_ok_def view empty)
  have start_world: "follows ?d ?r ?sub ?row False ?w"
    unfolding follows_def Let_def
    using ag made view by (simp add: tables_ok_def embed_sub_def embed_subscription_def)
  have ps: "plain_subscription ?sub ?r"
    using assms(3) by (simp add: plain_subscription_def embed_sub_def embed_subscription_def embed_rule_def)
  have good: "good_ids ?d" using assms(1,2) by (simp add: good_ids_def)
  let ?e = "\<lparr>em_event = event_start [] (event_new ''orders''), em_cache = embed_cached (new_id 0) now,
      em_buffers = new_window_buffers (24 * hour), em_world = ?w\<rparr>"
  obtain e' incs where run: "embed_orders lib ?d 0 orders ?e = Some e'"
    "sent_messages (em_world e') = map2 (embed_alert lib (new_id 0)) incs (starts False orders)"
    "distinct incs" "length incs = length (starts False orders)"
    using orders_announced [OF good ps, of ?row orders ?e False 0] assms(6) start_world
    by (auto simp: embed_row_def embed_subscriber_def event_start_def sent_messages_def)
  have start: "engine_start lib (sqlite_store lib) (lite_migrate lite_migration_names migrated)
      (\<lparr>eg_max_span = 24 * hour, eg_started = False, eg_sink = None\<rparr>, (empty_db, [])) =
      (Inr (), (\<lparr>eg_max_span = 24 * hour, eg_started = True, eg_sink = Some []\<rparr>, (d1, [])))"
    using migrate by (simp add: engine_start_def op_bind_def op_wrap_def on_rules_def start_bare)
  have "embed_run lib env ids new_id migrated (Inr ()) now orders empty_db = Some (Inr (), em_world e')"
    using made(1) run(1) by (simp add: embed_run_def engine_new_def start [simplified] Let_def)
  with run show ?thesis by blast
qed

text \<open>The five orders of main, a second apart, are announced at 1500 and at 2000.\<close>

definition main_orders :: "order list" where
  "main_orders = map (\<lambda>(i, x). \<lparr>or_total = x, or_submitted = i * second, or_evaluated = i * second + 1\<rparr>)
     (zip [0, 1, 2, 3, 4] embed_totals)"

lemma first_total: "round64 (4999 / 100) = Fin (7035467042882847 / 140737488355328)"
proof -
  have q: "quotient_of (4999 / 100) = (4999, 100)" by code_simp
  have l: "flog2 (4999 / 100) = 5" by (simp add: flog2_def q int_bits.simps pow2_def)
  have f: "\<lfloor>175886676072071168 / 25 :: rat\<rfloor> = 7035467042882846" by (simp add: floor_eq_iff)
  show ?thesis by (simp add: f round64_def l Let_def pow2_def round_half_even_def)
qed

definition embed_http :: http_env where
  "embed_http = \<lparr>he_lib = plain_lib, he_new_request = (\<lambda>_. Inr ()),
     he_do = (\<lambda>_ _. Inr \<lparr>hr_status = 200, hr_text = []\<rparr>), he_rfc3339 = (\<lambda>_. ''t'')\<rparr>"

lemma embed_announces_witness:
  "\<exists>w. embed_run plain_lib embed_http (\<lambda>n. replicate (Suc n) CHR ''i'') (\<lambda>n. replicate (Suc n) CHR ''n'') (\<lambda>_. 0) (Inr ()) 0 main_orders empty_db =
     Some (Inr (), w) \<and> map (cn_now \<circ> snd) (sent_messages w) = [2 * second + 1, 4 * second + 1]"
proof -
  have two: "map or_evaluated (starts False main_orders) = [2 * second + 1, 4 * second + 1]"
    by (simp add: main_orders_def embed_totals_def first_total high_def)
  have times: "\<forall>o1 \<in> set main_orders. 0 \<le> or_evaluated o1"
    by (simp add: main_orders_def embed_totals_def)
  have ids: "inj (\<lambda>n. replicate (Suc n) CHR ''i'')" by (auto simp: inj_def dest: arg_cong [where f = length])
  have valid: "valid_text plain_lib s" for s by (simp add: valid_text_def plain_lib_def)
  obtain w incs where run: "embed_run plain_lib embed_http (\<lambda>n. replicate (Suc n) CHR ''i'') (\<lambda>n. replicate (Suc n) CHR ''n'') (\<lambda>_. 0) (Inr ()) 0 main_orders
      empty_db = Some (Inr (), w)"
    "sent_messages w = map2 (embed_alert plain_lib ''n'') incs (starts False main_orders)"
    "length incs = length (starts False main_orders)"
    using embed_announces [OF ids, of "\<lambda>n. replicate (Suc n) CHR ''n''" plain_lib main_orders embed_http "\<lambda>_. 0" 0] times
    by (auto simp: valid)
  have "map (cn_now \<circ> snd) (map2 (embed_alert plain_lib ''n'') is os) = map or_evaluated os"
    if "length is = length os" for "is" os
    using that by (induction "is" os rule: list_induct2) (simp_all add: embed_alert_def)
  from this [OF run(3)] show ?thesis using run two by (intro exI [of _ w]) simp
qed

end
