(* ===== verification/Web_Ui.thy ===== *)
theory Web_Ui
  imports Api
begin

text \<open>
  internal/ui: the handler of the bundled single-page application over an embedded file system.
  The files are a list of names and contents; a directory is a proper prefix of a name, and \<open>.\<close>
  the root. path.Clean, fs.ValidPath and http.FileServer of the standard library are written out
  as far as the handler uses them; a reply is known by what its body is.
\<close>

section \<open>Paths\<close>

text \<open>path.Clean segment by segment; \<open>out\<close> is what was kept so far, the last first.\<close>

definition clean_seg :: "bool \<Rightarrow> string \<Rightarrow> string list \<Rightarrow> string list" where
  "clean_seg rooted s out =
     (if s = '''' \<or> s = ''.'' then out
      else if s \<noteq> ''..'' then s # out
      else (case out of
              prev # below \<Rightarrow> if prev = ''..'' then s # out else below
            | [] \<Rightarrow> if rooted then [] else [s]))"

definition clean_segs :: "bool \<Rightarrow> string list \<Rightarrow> string list" where
  "clean_segs rooted segs = rev (fold (clean_seg rooted) segs [])"

definition is_rooted :: "string \<Rightarrow> bool" where
  "is_rooted p \<longleftrightarrow> p \<noteq> '''' \<and> hd p = CHR ''/''"

definition path_clean :: "string \<Rightarrow> string" where
  "path_clean p =
     (let segs = clean_segs (is_rooted p) (split_path '''' p)
      in if is_rooted p then ''/'' @ str_join ''/'' segs
         else if segs = [] then ''.'' else str_join ''/'' segs)"

definition trim_slash :: "string \<Rightarrow> string" where
  "trim_slash p = (if is_rooted p then tl p else p)"

definition ends_with :: "string \<Rightarrow> string \<Rightarrow> bool" where
  "ends_with p suf \<longleftrightarrow> has_prefix (rev p) (rev suf)"

text \<open>path.Base: the last segment that is not empty.\<close>

definition path_base :: "string \<Rightarrow> string" where
  "path_base p =
     (if p = '''' then ''.''
      else (let segs = filter (\<lambda>s. s \<noteq> '''') (split_path '''' p)
            in if segs = [] then ''/'' else last segs))"

definition valid_path :: "string \<Rightarrow> bool" where
  "valid_path p \<longleftrightarrow> p = ''.'' \<or> (\<forall>s \<in> set (split_path '''' p). s \<noteq> '''' \<and> s \<noteq> ''.'' \<and> s \<noteq> ''..'')"

section \<open>The file system\<close>

type_synonym web_files = "(string \<times> string) list"

datatype web_node = WebFile string | WebDir "string list"

definition web_open :: "web_files \<Rightarrow> string \<Rightarrow> web_node option" where
  "web_open files p =
     (if \<not> valid_path p then None
      else (case map_of files p of
              Some body \<Rightarrow> Some (WebFile body)
            | None \<Rightarrow>
                (let inside = (if p = ''.'' then map fst files
                     else map (drop (Suc (length p))) (filter (\<lambda>f. has_prefix f (p @ ''/'')) (map fst files)))
                 in if p = ''.'' \<or> inside \<noteq> [] then Some (WebDir (remdups (map (\<lambda>f. hd (split_path '''' f)) inside)))
                    else None)))"

section \<open>The handler\<close>

datatype web_reply =
    AppPage string
  | StubPage
  | FileBody string
  | Listing "string list"
  | Redirect string
  | NotFoundPage
  | ServerErrorPage

text \<open>
  http.FileServer on http.FS: the name it opens has no leading slash. A path gets the slash of a
  root it lacks.
\<close>

definition fs_open :: "web_files \<Rightarrow> string \<Rightarrow> web_node option" where
  "fs_open files n = web_open files (if n = ''/'' then ''.'' else trim_slash n)"

definition web_url :: "string \<Rightarrow> string" where
  "web_url p = (if is_rooted p then p else ''/'' @ p)"

definition file_server :: "web_files \<Rightarrow> string \<Rightarrow> web_reply" where
  "file_server files p =
     (let url = web_url p; name = path_clean url
      in if ends_with url ''/index.html'' then Redirect ''./''
         else (case fs_open files name of
                 None \<Rightarrow> NotFoundPage
               | Some (WebFile body) \<Rightarrow>
                   if last url = CHR ''/''
                   then (if path_base url \<in> {''/'', ''.''} then ServerErrorPage else Redirect (''../'' @ path_base url))
                   else FileBody body
               | Some (WebDir entries) \<Rightarrow>
                   if last url \<noteq> CHR ''/'' then Redirect (path_base url @ ''/'')
                   else (case fs_open files ((if name = ''/'' then '''' else name) @ ''/index.html'') of
                           Some (WebFile body) \<Rightarrow> FileBody body
                         | _ \<Rightarrow> Listing entries)))"

definition web_fallback :: "string \<Rightarrow> web_reply" where
  "web_fallback p = (if p \<noteq> ''/'' then NotFoundPage else StubPage)"

definition handler_from_fs :: "web_files \<Rightarrow> string \<Rightarrow> web_reply" where
  "handler_from_fs files p =
     (case web_open files ''index.html'' of
        Some (WebFile index) \<Rightarrow>
          (let clean = trim_slash (path_clean p)
           in if clean = '''' \<or> clean = ''index.html'' then AppPage index
              else (case web_open files clean of
                      None \<Rightarrow> AppPage index
                    | Some _ \<Rightarrow> file_server files p))
      | _ \<Rightarrow> web_fallback p)"

text \<open>Without the dist directory there is only the stub.\<close>

definition web_handler :: "web_files option \<Rightarrow> string \<Rightarrow> web_reply" where
  "web_handler bundle p = (case bundle of None \<Rightarrow> web_fallback p | Some sub \<Rightarrow> handler_from_fs sub p)"

section \<open>Cleaned paths\<close>

definition plain_seg :: "string \<Rightarrow> bool" where
  "plain_seg s \<longleftrightarrow> s \<noteq> '''' \<and> s \<noteq> ''.'' \<and> CHR ''/'' \<notin> set s"

lemma split_path_slashes: "CHR ''/'' \<notin> set w \<Longrightarrow> \<forall>s \<in> set (split_path w p). CHR ''/'' \<notin> set s"
  by (induction w p rule: split_path.induct) auto

lemma split_path_word: "CHR ''/'' \<notin> set s \<Longrightarrow> split_path w s = [w @ s]"
  by (induction s arbitrary: w) auto

lemma split_path_first: "CHR ''/'' \<notin> set s \<Longrightarrow> split_path w (s @ CHR ''/'' # p) = (w @ s) # split_path [] p"
  by (induction s arbitrary: w) auto

lemma split_join: "ss \<noteq> [] \<Longrightarrow> \<forall>s \<in> set ss. CHR ''/'' \<notin> set s \<Longrightarrow> split_path [] (str_join ''/'' ss) = ss"
  by (induction "''/''" ss rule: str_join.induct) (simp_all add: split_path_word split_path_first)

lemma clean_seg_plain:
  "\<forall>x \<in> set out. plain_seg x \<Longrightarrow> CHR ''/'' \<notin> set s \<Longrightarrow> \<forall>x \<in> set (clean_seg rooted s out). plain_seg x"
  by (cases "s = ''..''"; cases out) (simp_all add: clean_seg_def plain_seg_def)

lemma clean_fold_plain:
  "\<forall>s \<in> set ss. CHR ''/'' \<notin> set s \<Longrightarrow> \<forall>s \<in> set out. plain_seg s \<Longrightarrow>
   \<forall>s \<in> set (fold (clean_seg rooted) ss out). plain_seg s"
proof (induction ss arbitrary: out)
  case (Cons s ss)
  then show ?case using clean_seg_plain [of out s rooted] by simp
qed simp

lemma clean_segs_plain:
  "\<forall>s \<in> set ss. CHR ''/'' \<notin> set s \<Longrightarrow> \<forall>s \<in> set (clean_segs rooted ss). plain_seg s"
  using clean_fold_plain [of ss "[]" rooted] by (simp add: clean_segs_def)

text \<open>A relative path that does not leave its directory is cleaned like the rooted one.\<close>

lemma clean_seg_up: "''..'' \<in> set out \<Longrightarrow> ''..'' \<in> set (clean_seg rooted s out)"
  by (cases out) (auto simp: clean_seg_def)

lemma clean_seg_same:
  "''..'' \<notin> set (clean_seg False s out) \<Longrightarrow> clean_seg True s out = clean_seg False s out"
  by (cases out; cases "s = ''..''") (simp_all add: clean_seg_def)

lemma clean_segs_relative:
  assumes "''..'' \<notin> set (clean_segs False ss)"
  shows "clean_segs True ss = clean_segs False ss"
proof -
  have up: "''..'' \<in> set out \<Longrightarrow> ''..'' \<in> set (fold (clean_seg False) ss out)" for ss out
    by (induction ss arbitrary: out) (simp_all add: clean_seg_up)
  have "''..'' \<notin> set (fold (clean_seg False) ss out) \<Longrightarrow>
      fold (clean_seg True) ss out = fold (clean_seg False) ss out" for out
  proof (induction ss arbitrary: out)
    case (Cons s ss)
    have "''..'' \<notin> set (clean_seg False s out)" using Cons.prems up by auto
    then show ?case using Cons clean_seg_same by simp
  qed simp
  then show ?thesis using assms by (simp add: clean_segs_def)
qed

lemma join_first: "\<exists>t. str_join sep (s # ss) = s @ t"
  by (cases ss) auto

lemma join_unrooted: "\<forall>s \<in> set ss. plain_seg s \<Longrightarrow> \<not> is_rooted (str_join sep ss)"
proof (cases ss)
  case (Cons s ss')
  assume plain: "\<forall>s \<in> set ss. plain_seg s"
  obtain t where "str_join sep ss = s @ t" using join_first Cons by blast
  moreover obtain c s' where "s = c # s'" "c \<noteq> CHR ''/''"
    using plain Cons by (cases s) (auto simp: plain_seg_def)
  ultimately show ?thesis by (simp add: is_rooted_def)
qed (simp add: is_rooted_def)

lemma join_nonempty: "ss \<noteq> [] \<Longrightarrow> \<forall>s \<in> set ss. plain_seg s \<Longrightarrow> str_join sep ss \<noteq> []"
  by (metis append_is_Nil_conv join_first list.exhaust list.set_intros(1) plain_seg_def)

text \<open>The name the file server opens is the name the handler looked at.\<close>

lemma opened_name:
  assumes "web_open files (trim_slash (path_clean p)) \<noteq> None" and "trim_slash (path_clean p) \<noteq> ''''"
  shows "fs_open files (path_clean (web_url p)) = web_open files (trim_slash (path_clean p))"
proof (cases "is_rooted p")
  case True
  then show ?thesis using assms by (auto simp: fs_open_def web_url_def path_clean_def Let_def trim_slash_def is_rooted_def)
next
  case False
  let ?segs = "clean_segs False (split_path [] p)"
  have root: "is_rooted (''/'' @ p)" by (simp add: is_rooted_def)
  have plain: "\<forall>s \<in> set ?segs. plain_seg s"
    using split_path_slashes [of "[]" p] by (intro clean_segs_plain) simp
  have clean: "path_clean p = (if ?segs = [] then ''.'' else str_join ''/'' ?segs)"
    using False by (simp add: path_clean_def Let_def)
  have "\<not> is_rooted (path_clean p)"
    using join_unrooted [OF plain] by (simp add: clean) (simp add: is_rooted_def)
  then have trim: "trim_slash (path_clean p) = path_clean p" by (simp add: trim_slash_def)
  have "valid_path (path_clean p)" using assms(1) trim by (simp add: web_open_def split: if_splits)
  then have up: "''..'' \<notin> set ?segs"
  proof (cases "?segs = []")
    case False
    have segs: "split_path [] (path_clean p) = ?segs"
      using split_join [OF False] plain False by (simp add: clean plain_seg_def)
    have "path_clean p \<noteq> ''.''"
    proof
      assume "path_clean p = ''.''"
      then have "?segs = [''.'']" using segs by simp
      then show False using plain by (simp add: plain_seg_def)
    qed
    moreover assume "valid_path (path_clean p)"
    ultimately show ?thesis unfolding valid_path_def segs by blast
  qed simp
  have "clean_segs True ([] # split_path [] p) = clean_segs True (split_path [] p)"
    by (simp add: clean_segs_def clean_seg_def)
  then have name: "path_clean (web_url p) = ''/'' @ str_join ''/'' ?segs"
    using clean_segs_relative [OF up] False root by (simp add: web_url_def path_clean_def Let_def)
  show ?thesis
  proof (cases "?segs = []")
    case True
    then show ?thesis using trim clean name by (simp add: fs_open_def)
  next
    case False
    then show ?thesis
      using trim clean name join_nonempty [OF False plain] by (simp add: fs_open_def trim_slash_def is_rooted_def)
  qed
qed

section \<open>Replies\<close>

text \<open>What the file server answers for a name that exists.\<close>

lemma file_server_file:
  assumes "web_open files (trim_slash (path_clean p)) = Some (WebFile body)" and "trim_slash (path_clean p) \<noteq> ''''"
  shows "file_server files p =
    (if ends_with (web_url p) ''/index.html'' then Redirect ''./''
     else if last (web_url p) \<noteq> CHR ''/'' then FileBody body
     else if path_base (web_url p) \<in> {''/'', ''.''} then ServerErrorPage
     else Redirect (''../'' @ path_base (web_url p)))"
  unfolding file_server_def Let_def
  using opened_name [of files p] assms by (simp only: option.case web_node.case) simp

lemma file_server_dir:
  assumes "web_open files (trim_slash (path_clean p)) = Some (WebDir entries)" and "trim_slash (path_clean p) \<noteq> ''''"
  shows "file_server files p =
    (if ends_with (web_url p) ''/index.html'' then Redirect ''./''
     else if last (web_url p) \<noteq> CHR ''/'' then Redirect (path_base (web_url p) @ ''/'')
     else (case fs_open files ((if path_clean (web_url p) = ''/'' then '''' else path_clean (web_url p)) @ ''/index.html'') of
             Some (WebFile body) \<Rightarrow> FileBody body
           | _ \<Rightarrow> Listing entries))"
  unfolding file_server_def Let_def
  using opened_name [of files p] assms by (simp only: option.case web_node.case) simp

text \<open>
  C33: With a bundled index.html the handler never answers that a page is missing: every path
  whose cleaned form names nothing in the bundle gets the application page, so that its links
  work when they are opened directly; a file is served under its own path; and a directory
  without an index of its own is listed to whoever asks for it.
\<close>

theorem web_replies:
  fixes files p
  defines "clean \<equiv> trim_slash (path_clean p)"
  assumes "web_open files ''index.html'' = Some (WebFile index)"
  shows "(clean \<in> {'''', ''index.html''} \<or> web_open files clean = None \<longrightarrow> handler_from_fs files p = AppPage index) \<and>
    (\<forall>body. clean \<notin> {'''', ''index.html''} \<and> web_open files clean = Some (WebFile body) \<and>
       last (web_url p) \<noteq> CHR ''/'' \<and> \<not> ends_with (web_url p) ''/index.html'' \<longrightarrow> handler_from_fs files p = FileBody body) \<and>
    (\<forall>entries. is_rooted p \<and> clean \<notin> {'''', ''index.html''} \<and> web_open files clean = Some (WebDir entries) \<and>
       last p = CHR ''/'' \<and> fs_open files (path_clean p @ ''/index.html'') = None \<longrightarrow>
       handler_from_fs files p = Listing entries) \<and>
    handler_from_fs files p \<notin> {NotFoundPage, StubPage}"
proof (cases "clean \<in> {'''', ''index.html''} \<or> web_open files clean = None")
  case True
  then have "handler_from_fs files p = AppPage index"
    unfolding handler_from_fs_def Let_def clean_def [symmetric] assms(2) option.case web_node.case by auto
  with True show ?thesis by auto
next
  case False
  then obtain node where node: "web_open files clean = Some node" and names: "clean \<notin> {'''', ''index.html''}" by auto
  have serve: "handler_from_fs files p = file_server files p"
    unfolding handler_from_fs_def Let_def clean_def [symmetric] assms(2) option.case web_node.case node
    using names by auto
  show ?thesis
  proof (cases node)
    case (WebFile body)
    note reply = file_server_file [of files p body, folded clean_def]
    show ?thesis unfolding serve using reply names node WebFile by auto
  next
    case (WebDir entries)
    note reply = file_server_dir [of files p entries, folded clean_def]
    have "is_rooted p \<Longrightarrow> path_clean p \<noteq> ''/''"
      using names by (auto simp: clean_def trim_slash_def is_rooted_def)
    moreover have "last p = CHR ''/'' \<Longrightarrow> \<not> ends_with p ''/index.html''"
      by (cases p rule: rev_cases) (auto simp: ends_with_def)
    ultimately have listed: "file_server files p = Listing entries"
      if "is_rooted p" "last p = CHR ''/''" "fs_open files (path_clean p @ ''/index.html'') = None"
      using reply that names node WebDir by (simp add: web_url_def)
    have "file_server files p \<notin> {NotFoundPage, StubPage}"
      using reply names node WebDir by (simp split: option.split web_node.split)
    then show ?thesis unfolding serve using listed names node WebDir by simp
  qed
qed

definition web_sample :: web_files where
  "web_sample = [(''index.html'', ''app''), (''assets/a.js'', ''js'')]"

lemma web_replies_witness:
  "handler_from_fs web_sample ''/rules/7'' = AppPage ''app'' \<and>
   handler_from_fs web_sample ''/assets/a.js'' = FileBody ''js'' \<and>
   handler_from_fs web_sample ''/assets/'' = Listing [''a.js'']"
proof (intro conjI)
  have index: "web_open web_sample ''index.html'' = Some (WebFile ''app'')" by code_simp
  have "trim_slash (path_clean ''/rules/7'') = ''rules/7''" "web_open web_sample ''rules/7'' = None" by code_simp+
  then show "handler_from_fs web_sample ''/rules/7'' = AppPage ''app''"
    using web_replies [OF index, of "''/rules/7''"] by simp
  have "trim_slash (path_clean ''/assets/a.js'') = ''assets/a.js''"
    "web_open web_sample ''assets/a.js'' = Some (WebFile ''js'')"
    "last (web_url ''/assets/a.js'') \<noteq> CHR ''/'' \<and> \<not> ends_with (web_url ''/assets/a.js'') ''/index.html''" by code_simp+
  then show "handler_from_fs web_sample ''/assets/a.js'' = FileBody ''js''"
    using web_replies [OF index, of "''/assets/a.js''"] by simp
  have "trim_slash (path_clean ''/assets/'') = ''assets''" "web_open web_sample ''assets'' = Some (WebDir [''a.js''])"
    "is_rooted ''/assets/'' \<and> fs_open web_sample (path_clean ''/assets/'' @ ''/index.html'') = None" by code_simp+
  then show "handler_from_fs web_sample ''/assets/'' = Listing [''a.js'']"
    using web_replies [OF index, of "''/assets/''"] by simp
qed

end
