(* ===== verification/Adapters.thy ===== *)
theory Adapters
  imports Mysql_Store Streams
begin

text \<open>
  Where the sources open a connection: the databases (internal/store, internal/datasource/duckdb)
  and the brokers (the adapters of internal/input/stream). The drivers and client libraries answer
  through parameters; a result comes with what was done to the handles that were opened.
\<close>

section \<open>Databases\<close>

text \<open>
  database/sql: \<open>de_open\<close> is the answer of sql.Open for a driver and a data source, \<open>de_ping\<close> of
  Ping, \<open>de_exec\<close> of a statement.
\<close>

record db_driver =
  de_open :: "string \<Rightarrow> string \<Rightarrow> unit result"
  de_ping :: "unit result"
  de_exec :: "string \<Rightarrow> unit result"

datatype handle_action = HandleOpened string string | HandleLimited nat | HandlePinged | HandleExec string | HandleClosed

type_synonym connection = "string result \<times> handle_action list"

text \<open>A step on an open handle; when it fails the handle is closed and the error returned.\<close>

definition or_close :: "(go_error \<Rightarrow> go_error) \<Rightarrow> unit result \<Rightarrow> handle_action \<Rightarrow> connection \<Rightarrow> connection" where
  "or_close wrap res act rest =
     (case res of
        Inl e \<Rightarrow> (Inl (wrap e), [act, HandleClosed])
      | Inr _ \<Rightarrow> (fst rest, act # snd rest))"

definition sql_open :: "db_driver \<Rightarrow> string \<Rightarrow> string \<Rightarrow> connection \<Rightarrow> connection" where
  "sql_open drv name dsn rest =
     (case de_open drv name dsn of
        Inl e \<Rightarrow> (Inl e, [])
      | Inr _ \<Rightarrow> (fst rest, HandleOpened name dsn # snd rest))"

definition lite_open :: "db_driver \<Rightarrow> string \<Rightarrow> connection" where
  "lite_open drv dsn =
     sql_open drv ''sqlite'' dsn
       (let rest = or_close (\<lambda>e. e) (de_ping drv) HandlePinged
              (or_close (\<lambda>e. e) (de_exec drv ''PRAGMA foreign_keys = ON;'') (HandleExec ''PRAGMA foreign_keys = ON;'')
                (Inr dsn, []))
        in (fst rest, HandleLimited 1 # snd rest))"

definition pg_open :: "db_driver \<Rightarrow> string \<Rightarrow> connection" where
  "pg_open drv dsn =
     sql_open drv ''pgx'' dsn (or_close (\<lambda>e. e) (de_ping drv) HandlePinged (Inr dsn, []))"

definition my_open :: "db_driver \<Rightarrow> string \<Rightarrow> connection" where
  "my_open drv dsn =
     sql_open drv ''mysql'' (my_dsn dsn) (or_close (\<lambda>e. e) (de_ping drv) HandlePinged (Inr (my_dsn dsn), []))"

text \<open>With the build tag; the default build has the stub.\<close>

definition duckdb_open :: "db_driver \<Rightarrow> string \<Rightarrow> connection" where
  "duckdb_open drv dsn =
     (let dsn' = (if trim_space dsn = '''' then '':memory:'' else dsn)
      in sql_open drv ''duckdb'' dsn'
           (or_close (\<lambda>e. ErrNew (''duckdb: '' @ err_text e)) (de_ping drv) HandlePinged (Inr dsn', [])))"

definition duckdb_stub_open :: "string \<Rightarrow> connection" where
  "duckdb_stub_open dsn = (Inl (ErrNew ''duckdb: binary built without -tags=duckdb''), [])"

section \<open>Brokers\<close>

text \<open>
  Kafka: the SASL mechanism of AWS MSK. \<open>provider\<close> gives the signed token of a region; a state
  machine of kafka-go answers each challenge with whether it is done and what to send.
\<close>

record msk_mechanism =
  mk_region :: string
  mk_provider :: "string \<Rightarrow> string result"

record msk_dialer =
  mkd_timeout :: duration
  mkd_dual_stack :: bool
  mkd_mechanism :: msk_mechanism
  mkd_min_tls :: string

definition default_token_provider :: "(string \<Rightarrow> (string \<times> int) result) \<Rightarrow> string \<Rightarrow> string result" where
  "default_token_provider sign region = res_map fst (sign region)"

definition new_msk_mechanism ::
  "(string \<Rightarrow> (string \<times> int) result) \<Rightarrow> string \<Rightarrow> (string \<Rightarrow> string result) option \<Rightarrow> msk_mechanism" where
  "new_msk_mechanism sign region provider =
     \<lparr>mk_region = region,
      mk_provider = (case provider of None \<Rightarrow> default_token_provider sign | Some p \<Rightarrow> p)\<rparr>"

definition msk_start :: "msk_mechanism \<Rightarrow> string result" where
  "msk_start m = mk_provider m (mk_region m)"

definition msk_next :: "string \<Rightarrow> bool \<times> string option" where
  "msk_next challenge = (True, None)"

definition build_msk_dialer ::
  "(string \<Rightarrow> (string \<times> int) result) \<Rightarrow> string \<Rightarrow> (string \<Rightarrow> string result) option \<Rightarrow> duration \<Rightarrow> msk_dialer" where
  "build_msk_dialer sign region provider timeout =
     \<lparr>mkd_timeout = timeout, mkd_dual_stack = True,
      mkd_mechanism = new_msk_mechanism sign region provider, mkd_min_tls = ''TLS1.2''\<rparr>"

text \<open>RabbitMQ and Pub/Sub: what a dialer or factory hands out; the rest of the adapters passes calls on.\<close>

definition rabbit_dial :: "(string \<Rightarrow> 'c result) \<Rightarrow> string \<Rightarrow> 'c result" where
  "rabbit_dial dial url = (case dial url of Inl e \<Rightarrow> Inl e | Inr c \<Rightarrow> Inr c)"

definition pubsub_subscriber :: "(string \<Rightarrow> 'c result) \<Rightarrow> string \<Rightarrow> string \<Rightarrow> ('c \<times> string) result" where
  "pubsub_subscriber new_client project subscription =
     (case new_client project of
        Inl e \<Rightarrow> Inl (ErrWrap ''pubsub.NewClient'' e)
      | Inr c \<Rightarrow> Inr (c, subscription))"

section \<open>Handles are not leaked\<close>

definition handle_open :: "handle_action list \<Rightarrow> bool" where
  "handle_open acts \<longleftrightarrow> (\<exists>name dsn. HandleOpened name dsn \<in> set acts) \<and> HandleClosed \<notin> set acts"

definition tidy :: "connection \<Rightarrow> bool" where
  "tidy c \<longleftrightarrow> (is_ok (fst c) \<longleftrightarrow> handle_open (snd c)) \<and> (is_ok (fst c) \<longrightarrow> HandlePinged \<in> set (snd c))"

text \<open>What follows the opening: a ping that closes the handle when it or a later step fails.\<close>

definition checked :: "connection \<Rightarrow> bool" where
  "checked c \<longleftrightarrow> (is_ok (fst c) \<longleftrightarrow> HandleClosed \<notin> set (snd c)) \<and> (is_ok (fst c) \<longrightarrow> HandlePinged \<in> set (snd c))"

lemma tidy_sql_open: "checked rest \<Longrightarrow> tidy (sql_open drv name dsn rest)"
  by (cases "de_open drv name dsn") (auto simp: sql_open_def tidy_def checked_def handle_open_def)

lemma checked_ping:
  "(is_ok (fst rest) \<longleftrightarrow> HandleClosed \<notin> set (snd rest)) \<Longrightarrow> checked (or_close wrap res HandlePinged rest)"
  by (cases res) (simp_all add: or_close_def checked_def)

text \<open>
  An Open that fails leaves no handle open, and one that succeeds returns the handle it opened,
  after a ping.
\<close>

lemma opens_tidy:
  "tidy (lite_open drv dsn)" "tidy (pg_open drv dsn)" "tidy (my_open drv dsn)" "tidy (duckdb_open drv dsn)"
  "tidy (duckdb_stub_open dsn)"
proof -
  have pragma: "is_ok (fst (or_close wrap res (HandleExec s) (Inr x, []))) \<longleftrightarrow>
      HandleClosed \<notin> set (snd (or_close wrap res (HandleExec s) (Inr x, [])))" for wrap res s x
    by (cases res) (simp_all add: or_close_def)
  have limited: "checked c \<Longrightarrow> checked (fst c, HandleLimited n # snd c)" for c n
    by (simp add: checked_def)
  show "tidy (lite_open drv dsn)"
    unfolding lite_open_def Let_def by (intro tidy_sql_open limited checked_ping pragma)
  show "tidy (pg_open drv dsn)" "tidy (my_open drv dsn)" "tidy (duckdb_open drv dsn)"
    unfolding pg_open_def my_open_def duckdb_open_def Let_def by (intro tidy_sql_open checked_ping, simp)+
  show "tidy (duckdb_stub_open dsn)" by (simp add: tidy_def duckdb_stub_open_def handle_open_def)
qed

text \<open>Without a provider of its own a dialer signs through the AWS library.\<close>

lemma msk_dialer_signs:
  "msk_start (mkd_mechanism (build_msk_dialer sign region None timeout)) = res_map fst (sign region)"
  by (simp add: msk_start_def build_msk_dialer_def new_msk_mechanism_def default_token_provider_def)

end
