(* ===== verification/Goroutines.thy ===== *)
theory Goroutines
  imports Dispatcher
begin

text \<open>
  Goroutines: programs of actions on a shared state, between which another goroutine may act, and
  the tick of internal/dispatcher/dispatcher.go as such a program, one action for each call of
  the store and each send. Alone it is \<open>tick\<close>. Each goroutine draws its identifiers from a sequence
  of its own, which stands for the uniqueness of UUIDs.
\<close>

section \<open>Programs\<close>

text \<open>\<open>Act u k\<close> changes the shared state by \<open>u\<close>; what it saw before decides the rest.\<close>

datatype ('w, 'a) prog = Ret 'a | Act "'w \<Rightarrow> 'w" "'w \<Rightarrow> ('w, 'a) prog"

primrec run_alone :: "('w, 'a) prog \<Rightarrow> 'w \<Rightarrow> 'a \<times> 'w" where
  "run_alone (Ret a) w = (a, w)"
| "run_alone (Act u k) w = run_alone (k w) (u w)"

primrec prog_bind :: "('w, 'a) prog \<Rightarrow> ('a \<Rightarrow> ('w, 'b) prog) \<Rightarrow> ('w, 'b) prog" where
  "prog_bind (Ret a) f = f a"
| "prog_bind (Act u k) f = Act u (\<lambda>w. prog_bind (k w) f)"

lemma run_bind: "run_alone (prog_bind p f) w = (case run_alone p w of (a, w') \<Rightarrow> run_alone (f a) w')"
  by (induction p arbitrary: w) simp_all

text \<open>A schedule says whose action comes next; a goroutine that has finished does nothing.\<close>

fun run_both ::
  "bool list \<Rightarrow> ('w, 'a) prog \<Rightarrow> ('w, 'b) prog \<Rightarrow> 'w \<Rightarrow> ('w, 'a) prog \<times> ('w, 'b) prog \<times> 'w" where
  "run_both [] p q w = (p, q, w)"
| "run_both (True # s) (Act u k) q w = run_both s (k w) q (u w)"
| "run_both (True # s) (Ret a) q w = run_both s (Ret a) q w"
| "run_both (False # s) p (Act u k) w = run_both s p (k w) (u w)"
| "run_both (False # s) p (Ret b) w = run_both s p (Ret b) w"

section \<open>The tick as a program\<close>

text \<open>A goroutine's own counter of identifiers goes with its result.\<close>

type_synonym ('w, 'a) thread = "nat \<Rightarrow> ('w, 'a result \<times> nat) prog"

definition th_return :: "'a \<Rightarrow> ('w, 'a) thread" where
  "th_return x n = Ret (Inr x, n)"

definition th_fail :: "go_error \<Rightarrow> ('w, 'a) thread" where
  "th_fail e n = Ret (Inl e, n)"

definition th_bind :: "('w, 'a) thread \<Rightarrow> ('a \<Rightarrow> ('w, 'b) thread) \<Rightarrow> ('w, 'b) thread" where
  "th_bind m f n = prog_bind (m n) (\<lambda>(r, n'). case r of Inl e \<Rightarrow> Ret (Inl e, n') | Inr x \<Rightarrow> f x n')"

definition th_wrap :: "string \<Rightarrow> ('w, 'a) thread \<Rightarrow> ('w, 'a) thread" where
  "th_wrap msg m n = prog_bind (m n) (\<lambda>(r, n'). Ret (res_wrap msg r, n'))"

definition th_logged :: "('w, unit) thread \<Rightarrow> ('w, unit) thread" where
  "th_logged m n = prog_bind (m n) (\<lambda>(r, n'). Ret (Inr (), n'))"

fun th_for :: "('x \<Rightarrow> ('w, unit) thread) \<Rightarrow> 'x list \<Rightarrow> ('w, unit) thread" where
  "th_for f [] = th_return ()"
| "th_for f (x # xs) = th_bind (f x) (\<lambda>_. th_for f xs)"

text \<open>One action.\<close>

definition th_call :: "('w, 'a) op \<Rightarrow> ('w, 'a) thread" where
  "th_call m n = Act (\<lambda>w. snd (m w)) (\<lambda>w. Ret (fst (m w), n))"

definition th_id :: "'s dispatcher \<Rightarrow> ('w, string) thread" where
  "th_id d n = Ret (Inr (d_id d n), Suc n)"

abbreviation th_store :: "('s, 'a) op \<Rightarrow> ('s world, 'a) thread" where
  "th_store m \<equiv> th_call (on_store m)"

definition deliver_binding_thread ::
  "'s dispatcher \<Rightarrow> rule \<Rightarrow> subscription \<Rightarrow> subscriber \<Rightarrow> string \<Rightarrow> string \<Rightarrow> string \<Rightarrow> time
   \<Rightarrow> channel_binding \<Rightarrow> ('s world, unit) thread" where
  "deliver_binding_thread d r sub row inc kind val now b =
     (if (case channel_filter_set (su_channel_filter sub) of
            None \<Rightarrow> False | Some allowed \<Rightarrow> cb_channel b \<notin> allowed)
      then th_return ()
      else (case d_channels d (cb_channel b) of
              None \<Rightarrow> th_return ()
            | Some send \<Rightarrow>
                th_bind (th_id d) (\<lambda>i.
                th_bind (th_call (do_send (cb_channel b) send (payload r inc kind val now b))) (\<lambda>res.
                th_logged (th_store (nr_record (st_notifications (d_store d))
                  (audit_record i sub row inc kind now b res)))))))"

definition deliver_all_thread ::
  "'s dispatcher \<Rightarrow> rule \<Rightarrow> subscription \<Rightarrow> string \<Rightarrow> string \<Rightarrow> string \<Rightarrow> time \<Rightarrow> ('s world, unit) thread" where
  "deliver_all_thread d r sub inc kind val now =
     th_bind (th_store (sbr_get (st_subscribers (d_store d)) (su_subscriber_id sub))) (\<lambda>found.
       case found of
         None \<Rightarrow> th_fail (ErrNew (''subscriber '' @ su_subscriber_id sub @ '' not found''))
       | Some row \<Rightarrow> th_for (deliver_binding_thread d r sub row inc kind val now) (sb_channels row))"

definition deliver_thread ::
  "'s dispatcher \<Rightarrow> rule \<Rightarrow> subscription \<Rightarrow> string \<Rightarrow> string \<Rightarrow> string \<Rightarrow> time \<Rightarrow> ('s world, unit) thread" where
  "deliver_thread d r sub inc kind val now =
     th_bind (if su_one_shot sub
              then th_wrap ''dispatcher: one_shot lookup'' (th_store
                     (nr_exists_for_subscription (st_notifications (d_store d)) (su_id sub)))
              else th_return False) (\<lambda>seen.
     if seen then th_return () else deliver_all_thread d r sub inc kind val now)"

definition put_state_thread :: "'s dispatcher \<Rightarrow> sub_state \<Rightarrow> ('s world, unit) thread" where
  "put_state_thread d st = th_store (ssr_upsert (st_sub_states (d_store d)) st)"

definition evaluate_subscription_thread ::
  "'s dispatcher \<Rightarrow> rule \<Rightarrow> live_state \<Rightarrow> subscription \<Rightarrow> transition \<Rightarrow> time \<Rightarrow> ('s world, unit) thread" where
  "evaluate_subscription_thread d r ls sub t now =
     (if tr_closed t \<and> tr_incident_id t \<noteq> '''' then
        th_bind (th_store (ssr_get (st_sub_states (d_store d)) (tr_incident_id t) (su_id sub))) (\<lambda>found.
          case found of
            None \<Rightarrow> th_return ()
          | Some state \<Rightarrow>
              if ss_notify_count state = 0 \<or> ss_resolution_sent state then th_return ()
              else if \<not> su_notify_on_resolve sub then th_return ()
              else th_bind (deliver_thread d r sub (tr_incident_id t) kind_resolved (ls_last_value ls) now)
                (\<lambda>_. put_state_thread d (state\<lparr>ss_resolution_sent := True\<rparr>)))
      else if ls_state ls \<noteq> state_firing then th_return ()
      else if time_sub now (ls_triggered_at ls) < su_dwell sub then th_return ()
      else
        th_bind (th_store (ssr_get (st_sub_states (d_store d)) (ls_incident_id ls) (su_id sub))) (\<lambda>found.
          let state = (case found of None \<Rightarrow> fresh_sub_state (ls_incident_id ls) (su_id sub)
                       | Some st \<Rightarrow> st)
          in if ss_notify_count state = 0 then
               th_bind (deliver_thread d r sub (ls_incident_id ls) kind_firing (ls_last_value ls) now)
                 (\<lambda>_. put_state_thread d (state\<lparr>ss_last_notified_at := now, ss_notify_count := 1\<rparr>))
             else if 0 < su_repeat_interval sub \<and>
                     su_repeat_interval sub \<le> time_sub now (ss_last_notified_at state) then
               th_bind (deliver_thread d r sub (ls_incident_id ls) kind_repeat (ls_last_value ls) now)
                 (\<lambda>_. put_state_thread d (state\<lparr>ss_last_notified_at := now,
                                         ss_notify_count := ss_notify_count state + 1\<rparr>))
             else th_return ()))"

definition open_or_close_thread ::
  "'s dispatcher \<Rightarrow> rule \<Rightarrow> transition \<Rightarrow> string \<Rightarrow> time \<Rightarrow> ('s world, unit) thread" where
  "open_or_close_thread d r t val now =
     (if tr_opened t then
        th_wrap ''dispatcher: open incident'' (th_store (inr_open (st_incidents (d_store d))
          \<lparr>in_id = tr_incident_id t, in_rule_id = r_id r, in_triggered_at = tr_triggered_at t,
           in_resolved_at = zero_time, in_last_value = val\<rparr>))
      else if tr_closed t then
        th_wrap ''dispatcher: resolve incident'' (th_store
          (inr_resolve (st_incidents (d_store d)) (tr_incident_id t) (unix_milli now)))
      else th_return ())"

definition tick_thread ::
  "'s dispatcher \<Rightarrow> rule \<Rightarrow> bool \<Rightarrow> string \<Rightarrow> time \<Rightarrow> ('s world, unit) thread" where
  "tick_thread d r triggered val now =
     th_bind (th_wrap ''dispatcher: load live state''
                (th_store (lr_get (st_live_states (d_store d)) (r_id r)))) (\<lambda>found.
       let ls0 = (case found of None \<Rightarrow> fresh_live_state (r_id r) | Some ls \<Rightarrow> ls) in
     th_bind (if triggered \<and> ls_state ls0 \<noteq> state_firing then th_id d else th_return '''') (\<lambda>new_id.
       let ls = fst (apply_outcome ls0 triggered val now new_id);
           t = snd (apply_outcome ls0 triggered val now new_id) in
     th_bind (th_wrap ''dispatcher: upsert live state''
                (th_store (lr_upsert (st_live_states (d_store d)) ls))) (\<lambda>_.
     th_bind (open_or_close_thread d r t val now) (\<lambda>_.
     th_bind (th_wrap ''dispatcher: list subscriptions''
                (th_store (sur_list_for_rule (st_subscriptions (d_store d)) (r_id r) (r_labels r)))) (\<lambda>subs.
       th_for (\<lambda>sub. th_logged (evaluate_subscription_thread d r ls sub t now)) subs)))))"

section \<open>Alone, the program is the tick\<close>

definition denotes :: "('s world, 'a) thread \<Rightarrow> ('s world, 'a) op \<Rightarrow> bool" where
  "denotes t m \<longleftrightarrow> (\<forall>n w. run_alone (t n) w =
     (case m (w\<lparr>w_ids := n\<rparr>) of (r, w') \<Rightarrow> ((r, w_ids w'), w'\<lparr>w_ids := w_ids w\<rparr>)))"

lemma denotes_return: "denotes (th_return x) (op_return x)" "denotes (th_fail e) (op_fail e)"
  by (simp_all add: denotes_def th_return_def th_fail_def)

lemma denotes_bind: "denotes t m \<Longrightarrow> (\<And>x. denotes (f x) (g x)) \<Longrightarrow> denotes (th_bind t f) (op_bind m g)"
  by (auto simp: denotes_def th_bind_def op_bind_def run_bind split: prod.splits sum.splits)

lemma denotes_wrap: "denotes t m \<Longrightarrow> denotes (th_wrap msg t) (op_wrap msg m)"
  by (auto simp: denotes_def th_wrap_def op_wrap_def run_bind split: prod.splits)

lemma denotes_logged: "denotes t m \<Longrightarrow> denotes (th_logged t) (op_logged m)"
  by (auto simp: denotes_def th_logged_def op_logged_def run_bind split: prod.splits)

lemma denotes_for: "(\<And>x. denotes (f x) (g x)) \<Longrightarrow> denotes (th_for f xs) (op_for g xs)"
  by (induction xs) (simp_all add: denotes_return denotes_bind)

lemma denotes_store: "denotes (th_store m) (on_store m)"
  by (auto simp: denotes_def th_call_def on_store_def split: prod.splits)

lemma denotes_send: "denotes (th_call (do_send ch send n)) (do_send ch send n)"
  by (simp add: denotes_def th_call_def do_send_def Let_def)

lemma denotes_id: "denotes (th_id d) (fresh_id d)"
  by (simp add: denotes_def th_id_def fresh_id_def)

lemmas denotes_intros =
  denotes_return denotes_bind denotes_wrap denotes_logged denotes_for denotes_store denotes_send denotes_id

lemma denotes_tick: "denotes (tick_thread d r triggered val now) (tick d r triggered val now)"
proof -
  have binding: "denotes (deliver_binding_thread d r sub row inc kind val now b)
      (deliver_binding d r sub row inc kind val now b)" for sub row inc kind val b
    by (auto simp: deliver_binding_thread_def deliver_binding_def intro!: denotes_intros split: option.split)
  have deliver: "denotes (deliver_thread d r sub inc kind val now) (deliver d r sub inc kind val now)"
    for sub inc kind val
    by (auto simp: deliver_thread_def deliver_def deliver_all_thread_def deliver_all_def
        intro!: denotes_intros binding split: option.split)
  have evaluate: "denotes (evaluate_subscription_thread d r ls sub t now) (evaluate_subscription d r ls sub t now)"
    for ls sub t
    by (auto simp: evaluate_subscription_thread_def evaluate_subscription_def Let_def put_state_thread_def put_state_def
        intro!: denotes_intros deliver split: option.split)
  have core: "denotes (open_or_close_thread d r t val now) (open_or_close d r t val now)" for t
    by (auto simp: open_or_close_thread_def open_or_close_def intro!: denotes_intros)
  show ?thesis
    unfolding tick_thread_def tick_def Let_def by (auto intro!: denotes_intros core evaluate)
qed

section \<open>A goroutine beside another\<close>

primrec alone_steps :: "('w, 'a) prog \<Rightarrow> 'w \<Rightarrow> nat" where
  "alone_steps (Ret a) w = 0"
| "alone_steps (Act u k) w = Suc (alone_steps (k w) (u w))"

text \<open>
  A program in a shared world goes the way of one in a world of its own: whenever the two worlds
  look the same to it (\<open>sees\<close>), its actions change no more than \<open>touches\<close> says, and the worlds
  still look the same afterwards.
\<close>

inductive tracks ::
  "('w \<Rightarrow> 'w \<Rightarrow> bool) \<Rightarrow> ('w \<Rightarrow> 'w \<Rightarrow> bool) \<Rightarrow> ('a \<Rightarrow> 'a \<Rightarrow> bool) \<Rightarrow> ('w, 'a) prog \<Rightarrow> ('w, 'a) prog \<Rightarrow> bool"
  for E G Q where
  track_ret: "Q a a' \<Longrightarrow> tracks E G Q (Ret a) (Ret a')"
| track_act: "(\<And>w w'. E w w' \<Longrightarrow> G w (u w) \<and> E (u w) (u' w') \<and> tracks E G Q (k w) (k' w')) \<Longrightarrow>
    tracks E G Q (Act u k) (Act u' k')"

inductive_simps tracks_Ret [simp]: "tracks E G Q p (Ret a)"

lemma tracks_bind:
  assumes "tracks E G Q p p'" and "\<And>a a'. Q a a' \<Longrightarrow> tracks E G R (f a) (f' a')"
  shows "tracks E G R (prog_bind p f) (prog_bind p' f')"
  using assms(1)
proof induction
  case (track_ret a a')
  then show ?case using assms(2) by simp
next
  case (track_act u u' k k')
  then show ?case by (auto intro!: tracks.track_act)
qed

lemma tracks_mono: "tracks E G Q p p' \<Longrightarrow> (\<And>a a'. Q a a' \<Longrightarrow> R a a') \<Longrightarrow> tracks E G R p p'"
  by (induction rule: tracks.induct) (auto intro: tracks.intros)

text \<open>
  Two goroutines that do not touch what the other sees end as each would alone, on any schedule
  that gives each enough turns; what both keep is kept.
\<close>

lemma run_both_tracks:
  assumes "tracks E G Q p p0" and "E w v" and "tracks F H R q q0" and "F w x"
    and "\<And>w w1 v. G w w1 \<Longrightarrow> F w v \<Longrightarrow> F w1 v" and "\<And>w w1 v. H w w1 \<Longrightarrow> E w v \<Longrightarrow> E w1 v"
    and "\<And>w w1. G w w1 \<Longrightarrow> J w \<Longrightarrow> J w1" and "\<And>w w1. H w w1 \<Longrightarrow> J w \<Longrightarrow> J w1" and "J w"
    and "alone_steps p0 v \<le> count_list s True" and "alone_steps q0 x \<le> count_list s False"
  shows "\<exists>a b w'. run_both s p q w = (Ret a, Ret b, w') \<and>
    Q a (fst (run_alone p0 v)) \<and> E w' (snd (run_alone p0 v)) \<and>
    R b (fst (run_alone q0 x)) \<and> F w' (snd (run_alone q0 x)) \<and> J w'"
  using assms(1-4,9-11)
proof (induction s arbitrary: p p0 q q0 w v x)
  case Nil
  then obtain a b where "p0 = Ret a" "q0 = Ret b" by (cases p0; cases q0) auto
  then show ?case using Nil.prems by auto
next
  case (Cons turn s)
  note IH = Cons.IH and steps = Cons.prems(6,7) and start = Cons.prems(1-5)
  show ?case
  proof (cases turn)
    case True
    from start(1) show ?thesis
    proof cases
      case (track_ret a a')
      then show ?thesis using IH [OF start(1-5)] steps True by simp
    next
      case (track_act u u' k k')
      then have "G w (u w)" "E (u w) (u' v)" "tracks E G Q (k w) (k' v)" using start(2) by auto
      moreover from this(1) have "F (u w) x" "J (u w)" using start(4,5) assms(5,7) by blast+
      ultimately show ?thesis
        using IH [of "k w" "k' v" "u w" "u' v" q q0 x] start(3) steps True track_act(1,2) by simp
    qed
  next
    case False
    from start(3) show ?thesis
    proof cases
      case (track_ret a a')
      then show ?thesis using IH [OF start(1-5)] steps False by simp
    next
      case (track_act u u' k k')
      then have "H w (u w)" "F (u w) (u' x)" "tracks F H R (k w) (k' x)" using start(4) by auto
      moreover from this(1) have "E (u w) v" "J (u w)" using start(2,5) assms(6,8) by blast+
      ultimately show ?thesis
        using IH [of p p0 "u w" v "k w" "k' x" "u' x"] start(1) steps False track_act(1,2) by simp
    qed
  qed
qed

end
