(* ===== verification/Concurrent.thy ===== *)
theory Concurrent
  imports Goroutines Dispatch_Props
begin

text \<open>
  Two ticks at the same time: the push evaluator and the scheduled evaluator are two goroutines
  that share the dispatcher, the store and the channels without a lock. What a tick sees and
  touches; ticks of two rules do not disturb each other, but for one-shot subscriptions.
\<close>

section \<open>What a tick sees and touches\<close>

text \<open>
  The rule; the keys, which are the incident it may have open and the identifiers its goroutine
  draws; the subscriptions of the rule.
\<close>

record footprint =
  fp_rule :: rule
  fp_keys :: "string set"
  fp_subs :: "subscription list"

definition listed :: "footprint \<Rightarrow> string set" where
  "listed fp = su_id ` set (fp_subs fp)"

definition listed_once :: "footprint \<Rightarrow> string set" where
  "listed_once fp = su_id ` {sub \<in> set (fp_subs fp). su_one_shot sub}"

definition reached_subs :: "rule \<Rightarrow> subscription_row list \<Rightarrow> subscription list" where
  "reached_subs r rows = map scan_subscription (filter (\<lambda>row. ur_rule_id row = Some (r_id r)) rows) @
     filter (\<lambda>s. match_labels (su_label_selector s) (r_labels r))
       (map scan_subscription (filter (\<lambda>row. ur_rule_id row = None) rows))"

definition own_messages :: "string \<Rightarrow> 's world \<Rightarrow> (string \<times> channel_notification) list" where
  "own_messages rid w = filter (\<lambda>m. cn_rule_id (snd m) = rid) (sent_messages w)"

definition sees_db :: "footprint \<Rightarrow> db \<Rightarrow> db \<Rightarrow> bool" where
  "sees_db fp d d' \<longleftrightarrow> db_faults d = [] \<and> db_faults d' = [] \<and>
     reached_subs (fp_rule fp) (t_subscriptions d) = fp_subs fp \<and>
     reached_subs (fp_rule fp) (t_subscriptions d') = fp_subs fp \<and>
     t_subscribers d = t_subscribers d' \<and>
     tbl_find lw_rule_id (r_id (fp_rule fp)) (t_live d) = tbl_find lw_rule_id (r_id (fp_rule fp)) (t_live d') \<and>
     (\<forall>row. tbl_find lw_rule_id (r_id (fp_rule fp)) (t_live d') = Some row \<longrightarrow> lw_state row = state_firing \<longrightarrow>
        from_null (lw_incident_id row) \<in> fp_keys fp) \<and>
     (\<forall>i \<in> fp_keys fp. tbl_find ir_id i (t_incidents d) = tbl_find ir_id i (t_incidents d')) \<and>
     (\<forall>i \<in> fp_keys fp. \<forall>s. tbl_find sub_state_key (i, s) (t_sub_states d) = tbl_find sub_state_key (i, s) (t_sub_states d')) \<and>
     (\<forall>i \<in> fp_keys fp. (i \<in> nw_id ` set (t_notifications d)) = (i \<in> nw_id ` set (t_notifications d'))) \<and>
     (\<forall>s \<in> listed_once fp. (s \<in> nw_subscription_id ` set (t_notifications d)) =
        (s \<in> nw_subscription_id ` set (t_notifications d')))"

definition sees :: "footprint \<Rightarrow> db world \<Rightarrow> db world \<Rightarrow> bool" where
  "sees fp w w' \<longleftrightarrow> sees_db fp (w_store w) (w_store w') \<and>
     own_messages (r_id (fp_rule fp)) w = own_messages (r_id (fp_rule fp)) w'"

definition touches_db :: "footprint \<Rightarrow> db \<Rightarrow> db \<Rightarrow> bool" where
  "touches_db fp d d' \<longleftrightarrow> db_faults d' = db_faults d \<and>
     t_subscriptions d' = t_subscriptions d \<and> t_subscribers d' = t_subscribers d \<and>
     (\<forall>rid. rid \<noteq> r_id (fp_rule fp) \<longrightarrow> tbl_find lw_rule_id rid (t_live d') = tbl_find lw_rule_id rid (t_live d)) \<and>
     (\<forall>i. i \<notin> fp_keys fp \<longrightarrow> tbl_find ir_id i (t_incidents d') = tbl_find ir_id i (t_incidents d)) \<and>
     (\<forall>i s. i \<notin> fp_keys fp \<longrightarrow> tbl_find sub_state_key (i, s) (t_sub_states d') = tbl_find sub_state_key (i, s) (t_sub_states d)) \<and>
     (\<forall>i. i \<notin> fp_keys fp \<longrightarrow> (i \<in> nw_id ` set (t_notifications d')) = (i \<in> nw_id ` set (t_notifications d))) \<and>
     (\<forall>s. s \<notin> listed fp \<longrightarrow> (s \<in> nw_subscription_id ` set (t_notifications d')) =
        (s \<in> nw_subscription_id ` set (t_notifications d)))"

definition touches :: "footprint \<Rightarrow> db world \<Rightarrow> db world \<Rightarrow> bool" where
  "touches fp w w' \<longleftrightarrow> touches_db fp (w_store w) (w_store w') \<and>
     (\<forall>rid. rid \<noteq> r_id (fp_rule fp) \<longrightarrow> own_messages rid w' = own_messages rid w)"

definition separate :: "footprint \<Rightarrow> footprint \<Rightarrow> bool" where
  "separate fp fq \<longleftrightarrow> r_id (fp_rule fp) \<noteq> r_id (fp_rule fq) \<and> fp_keys fp \<inter> fp_keys fq = {} \<and>
     listed fp \<inter> listed_once fq = {}"

lemma touches_sees:
  assumes "separate fp fq" and "touches fp w w1" and "sees fq w v"
  shows "sees fq w1 v"
proof -
  have "i \<notin> fp_keys fp" if "i \<in> fp_keys fq" for i using that assms(1) by (auto simp: separate_def)
  moreover have "s \<notin> listed fp" if "s \<in> listed_once fq" for s using that assms(1) by (auto simp: separate_def)
  moreover have "r_id (fp_rule fq) \<noteq> r_id (fp_rule fp)" using assms(1) by (auto simp: separate_def)
  ultimately show ?thesis
    using assms(2,3) by (simp add: touches_def touches_db_def sees_def sees_db_def)
qed

section \<open>The tick of a rule beside that of another\<close>

definition beside ::
  "footprint \<Rightarrow> nat \<Rightarrow> ('a \<Rightarrow> 'a \<Rightarrow> bool) \<Rightarrow> (db world, 'a) thread \<Rightarrow> (db world, 'a) thread \<Rightarrow> bool" where
  "beside fp n0 Q m m' \<longleftrightarrow> (\<forall>n \<ge> n0. tracks (sees fp) (touches fp)
     (\<lambda>(r, i) (r', i'). i = i' \<and> n0 \<le> i \<and> rel_sum (=) Q r r') (m n) (m' n))"

lemma beside_return: "Q x x' \<Longrightarrow> beside fp n0 Q (th_return x) (th_return x')"
  by (simp add: beside_def th_return_def)

lemma beside_fail: "beside fp n0 Q (th_fail e) (th_fail e)"
  by (simp add: beside_def th_fail_def)

lemma beside_bind:
  assumes "beside fp n0 Q m m'" and "\<And>x x'. Q x x' \<Longrightarrow> beside fp n0 R (f x) (f' x')"
  shows "beside fp n0 R (th_bind m f) (th_bind m' f')"
  using assms unfolding beside_def th_bind_def
  by (auto intro!: tracks_bind split: sum.splits)

lemma beside_if:
  "b = b' \<Longrightarrow> (b \<Longrightarrow> beside fp n0 Q m m') \<Longrightarrow> (\<not> b \<Longrightarrow> beside fp n0 Q k k') \<Longrightarrow>
   beside fp n0 Q (if b then m else k) (if b' then m' else k')"
  by simp

lemma beside_wrap: "beside fp n0 Q m m' \<Longrightarrow> beside fp n0 Q (th_wrap msg m) (th_wrap msg m')"
  unfolding beside_def th_wrap_def
  by (auto intro!: tracks_bind simp: res_wrap_def split: sum.splits)

lemma beside_logged: "beside fp n0 Q m m' \<Longrightarrow> beside fp n0 (\<lambda>_ _. True) (th_logged m) (th_logged m')"
  unfolding beside_def th_logged_def by (auto intro!: tracks_bind)

lemma beside_for:
  "(\<And>x. x \<in> set xs \<Longrightarrow> beside fp n0 (\<lambda>_ _. True) (f x) (f' x)) \<Longrightarrow> beside fp n0 (\<lambda>_ _. True) (th_for f xs) (th_for f' xs)"
  by (induction xs) (auto intro: beside_return beside_bind)

lemma beside_id:
  "d_id d ` {n0..} \<subseteq> fp_keys fp \<Longrightarrow> beside fp n0 (\<lambda>i i'. i = i' \<and> i \<in> fp_keys fp) (th_id d) (th_id d)"
  by (auto simp: beside_def th_id_def)

lemma beside_call:
  assumes "\<And>w w'. sees fp w w' \<Longrightarrow> touches fp w (snd (m w)) \<and> sees fp (snd (m w)) (snd (m' w')) \<and>
    rel_sum (=) Q (fst (m w)) (fst (m' w'))"
  shows "beside fp n0 Q (th_call m) (th_call m')"
  unfolding beside_def th_call_def by (auto intro!: track_act dest: assms)

lemma beside_store:
  assumes "\<And>d d'. sees_db fp d d' \<Longrightarrow> touches_db fp d (snd (m d)) \<and> sees_db fp (snd (m d)) (snd (m' d')) \<and>
    rel_sum (=) Q (fst (m d)) (fst (m' d'))"
  shows "beside fp n0 Q (th_store m) (th_store m')"
proof (rule beside_call)
  fix w w' assume "sees fp w w'"
  then show "touches fp w (snd (on_store m w)) \<and> sees fp (snd (on_store m w)) (snd (on_store m' w')) \<and>
      rel_sum (=) Q (fst (on_store m w)) (fst (on_store m' w'))"
    using assms [of "w_store w" "w_store w'"]
    by (simp add: sees_def touches_def on_store_def own_messages_def case_prod_beta)
qed

text \<open>Each call, on databases that look the same.\<close>

lemma touches_db_refl [simp]: "touches_db fp d d"
  by (simp add: touches_db_def)

lemma beside_query:
  assumes "\<And>d d'. sees_db fp d d' \<Longrightarrow> rel_sum (=) Q (f d) (f d')"
  shows "beside fp n0 Q (th_store (db_query f)) (th_store (db_query f))"
proof (rule beside_store)
  fix d d' assume s: "sees_db fp d d'"
  then have "db_query f d = (f d, d)" "db_query f d' = (f d', d')"
    by (simp_all add: db_query_no_fault sees_db_def)
  with s assms show "touches_db fp d (snd (db_query f d)) \<and>
      sees_db fp (snd (db_query f d)) (snd (db_query f d')) \<and>
      rel_sum (=) Q (fst (db_query f d)) (fst (db_query f d'))" by simp
qed

lemma beside_live_get:
  "beside fp n0 (\<lambda>x x'. x = x' \<and> (\<forall>ls. x = Some ls \<longrightarrow> ls_rule_id ls = r_id (fp_rule fp) \<and>
      (ls_state ls = state_firing \<longrightarrow> ls_incident_id ls \<in> fp_keys fp)))
    (th_store (lite_live_get (r_id (fp_rule fp)))) (th_store (lite_live_get (r_id (fp_rule fp))))"
  unfolding lite_live_get_def
  by (rule beside_query)
    (auto simp: sees_db_def scan_one_def scan_live_def scan_text_def res_map_def res_bind_def
      dest: tbl_find_SomeD split: option.splits)

lemma beside_live_upsert:
  assumes "ls_rule_id ls = r_id (fp_rule fp)" and "ls_state ls = state_firing \<Longrightarrow> ls_incident_id ls \<in> fp_keys fp"
  shows "beside fp n0 (\<lambda>_ _. True) (th_store (lite_live_upsert ls)) (th_store (lite_live_upsert ls))"
  by (rule beside_store)
    (use assms in \<open>simp add: lite_live_upsert_def db_exec_no_fault sees_db_def touches_db_def tbl_simps;
      simp add: live_to_row_def\<close>)

lemma beside_incident_open:
  assumes "in_id i \<in> fp_keys fp"
  shows "beside fp n0 (\<lambda>_ _. True) (th_store (lite_incident_open i)) (th_store (lite_incident_open i))"
proof -
  have known: "in_id i \<in> ir_id ` set rows \<longleftrightarrow> tbl_find ir_id (in_id i) rows \<noteq> None" for rows
    by (simp add: tbl_find_None_iff)
  show ?thesis
    by (rule beside_store)
      (use assms in \<open>auto simp: lite_incident_open_def db_exec_no_fault sees_db_def touches_db_def sql_insert_def
        res_map_def res_bind_def known split: option.split\<close>)
qed

lemma beside_incident_resolve:
  assumes "i \<in> fp_keys fp"
  shows "beside fp n0 (\<lambda>_ _. True) (th_store (lite_incident_resolve i ms)) (th_store (lite_incident_resolve i ms))"
proof -
  have other: "tbl_find ir_id j (tbl_update (\<lambda>row. ir_id row = i) (\<lambda>row. row\<lparr>ir_resolved_at := Some ms\<rparr>) rows) =
      (if j = i then map_option (\<lambda>row. row\<lparr>ir_resolved_at := Some ms\<rparr>) (tbl_find ir_id j rows)
       else tbl_find ir_id j rows)" for j rows
    by (cases "tbl_find ir_id j rows") (auto simp: tbl_simps dest: tbl_find_SomeD)
  show ?thesis
    by (rule beside_store)
      (use assms in \<open>auto simp: lite_incident_resolve_def db_exec_no_fault sees_db_def touches_db_def other\<close>)
qed

lemma beside_sub_state_get:
  assumes "i \<in> fp_keys fp"
  shows "beside fp n0 (\<lambda>x x'. x = x' \<and> (\<forall>st. x = Some st \<longrightarrow> ss_incident_id st = i))
    (th_store (lite_sub_state_get i sid)) (th_store (lite_sub_state_get i sid))"
  unfolding lite_sub_state_get_def
  by (rule beside_query)
    (use assms in \<open>auto simp: sees_db_def scan_sub_state_def sub_state_key_def dest: tbl_find_SomeD\<close>)

lemma beside_sub_state_upsert:
  assumes "ss_incident_id st \<in> fp_keys fp"
  shows "beside fp n0 (\<lambda>_ _. True) (th_store (lite_sub_state_upsert st)) (th_store (lite_sub_state_upsert st))"
  by (rule beside_store)
    (use assms in \<open>auto simp: lite_sub_state_upsert_def db_exec_no_fault sees_db_def touches_db_def tbl_simps\<close>)

lemma beside_exists:
  assumes "sid \<in> listed_once fp"
  shows "beside fp n0 (=) (th_store (lite_notification_exists_for_subscription sid))
    (th_store (lite_notification_exists_for_subscription sid))"
proof -
  have ex: "list_ex (\<lambda>row. nw_subscription_id row = sid) rows = (sid \<in> nw_subscription_id ` set rows)" for rows
    by (auto simp: list_ex_iff)
  show ?thesis
    unfolding lite_notification_exists_for_subscription_def ex
    by (rule beside_query) (use assms in \<open>simp add: sees_db_def\<close>)
qed

lemma beside_subscriber_get:
  "beside fp n0 (=) (th_store (lite_subscriber_get i)) (th_store (lite_subscriber_get i))"
  unfolding lite_subscriber_get_def
  by (rule beside_query) (simp add: sees_db_def)

lemma beside_list:
  assumes "r = fp_rule fp"
  shows "beside fp n0 (\<lambda>x x'. x = fp_subs fp \<and> x' = x)
    (th_store (lite_subscription_list_for_rule (r_id r) (r_labels r)))
    (th_store (lite_subscription_list_for_rule (r_id r) (r_labels r)))"
  by (rule beside_store)
    (use assms in \<open>auto simp: lite_subscription_list_for_rule_def op_bind_def db_query_no_fault sees_db_def reached_subs_def\<close>)

text \<open>The records of one delivery differ in what became of the send.\<close>

lemma beside_record:
  assumes "nt_id n \<in> fp_keys fp" and "nt_subscription_id n \<in> listed fp"
    and "nt_id n' = nt_id n" and "nt_subscription_id n' = nt_subscription_id n"
  shows "beside fp n0 (\<lambda>_ _. True) (th_logged (th_store (lite_notification_record n))) (th_logged (th_store (lite_notification_record n')))"
proof (rule beside_logged)
  have row: "nw_id (notification_to_row n') = nt_id n" "nw_id (notification_to_row n) = nt_id n"
    "nw_subscription_id (notification_to_row n') = nt_subscription_id n"
    "nw_subscription_id (notification_to_row n) = nt_subscription_id n"
    using assms(3,4) by (simp_all add: notification_to_row_def)
  show "beside fp n0 (\<lambda>_ _. True) (th_store (lite_notification_record n)) (th_store (lite_notification_record n'))"
    by (rule beside_store)
      (use assms(1,2) row in \<open>auto simp: lite_notification_record_def db_exec_no_fault sees_db_def touches_db_def
        sql_insert_def res_map_def res_bind_def\<close>)
qed

lemma beside_send:
  assumes "cn_rule_id n = r_id (fp_rule fp)"
  shows "beside fp n0 (\<lambda>_ _. True) (th_call (do_send ch send n)) (th_call (do_send ch send n))"
  by (rule beside_call)
    (use assms in \<open>auto simp: do_send_def Let_def sees_def touches_def own_messages_def sent_messages_def\<close>)

lemma beside_binding:
  assumes st: "d_store d = sqlite_store lib" and "d_id d ` {n0..} \<subseteq> fp_keys fp" and "r = fp_rule fp"
    and "sub \<in> set (fp_subs fp)"
  shows "beside fp n0 (\<lambda>_ _. True) (deliver_binding_thread d r sub row inc kind val now b)
    (deliver_binding_thread d r sub row inc kind val now b)"
  using assms(2-) unfolding deliver_binding_thread_def st sqlite_store_sel
  by (auto intro!: beside_return beside_bind [OF beside_id] beside_bind [OF beside_send] beside_record
      simp: payload_def audit_record_def listed_def split: option.split)

lemma beside_deliver:
  assumes st: "d_store d = sqlite_store lib" and "d_id d ` {n0..} \<subseteq> fp_keys fp" and "r = fp_rule fp"
    and sub: "sub \<in> set (fp_subs fp)"
  shows "beside fp n0 (\<lambda>_ _. True) (deliver_thread d r sub inc kind val now) (deliver_thread d r sub inc kind val now)"
proof -
  have all: "beside fp n0 (\<lambda>_ _. True) (deliver_all_thread d r sub inc kind val now) (deliver_all_thread d r sub inc kind val now)"
    unfolding deliver_all_thread_def st sqlite_store_sel
    by (auto intro!: beside_bind [OF beside_subscriber_get] beside_fail beside_for
        beside_binding [OF assms] split: option.split)
  have idle: "beside fp n0 (\<lambda>_ _. True) (th_return ()) (th_return ())" by (simp add: beside_return)
  have "su_one_shot sub \<Longrightarrow> su_id sub \<in> listed_once fp" using sub by (auto simp: listed_once_def)
  then have once: "beside fp n0 (=)
      (if su_one_shot sub then th_wrap ''dispatcher: one_shot lookup'' (th_store
         (lite_notification_exists_for_subscription (su_id sub))) else th_return False)
      (if su_one_shot sub then th_wrap ''dispatcher: one_shot lookup'' (th_store
         (lite_notification_exists_for_subscription (su_id sub))) else th_return False)"
    by (intro beside_if refl beside_wrap beside_exists beside_return)
  show ?thesis
    unfolding deliver_thread_def st sqlite_store_sel
    by (intro beside_bind [OF once] beside_if idle all)
qed

lemma beside_option:
  "x = x' \<Longrightarrow> (x = None \<Longrightarrow> beside fp n0 Q m m') \<Longrightarrow> (\<And>y. x = Some y \<Longrightarrow> beside fp n0 Q (k y) (k' y)) \<Longrightarrow>
   beside fp n0 Q (case x of None \<Rightarrow> m | Some y \<Rightarrow> k y) (case x' of None \<Rightarrow> m' | Some y \<Rightarrow> k' y)"
  by (auto split: option.split)

lemma beside_evaluate:
  assumes st: "d_store d = sqlite_store lib" and "d_id d ` {n0..} \<subseteq> fp_keys fp" and "r = fp_rule fp"
    and "sub \<in> set (fp_subs fp)"
    and firing: "ls_state ls = state_firing \<Longrightarrow> ls_incident_id ls \<in> fp_keys fp"
    and ended: "tr_closed t \<Longrightarrow> tr_incident_id t \<in> fp_keys fp"
  shows "beside fp n0 (\<lambda>_ _. True) (evaluate_subscription_thread d r ls sub t now) (evaluate_subscription_thread d r ls sub t now)"
proof -
  note deliver = beside_deliver [OF assms(1-4)]
  have put: "beside fp n0 (\<lambda>_ _. True) (put_state_thread d st) (put_state_thread d st)"
    if "ss_incident_id st \<in> fp_keys fp" for st
    using that unfolding put_state_thread_def st sqlite_store_sel by (rule beside_sub_state_upsert)
  have next_state: "beside fp n0 (\<lambda>_ _. True) (th_bind (deliver_thread d r sub inc kind val now) (\<lambda>_. put_state_thread d st))
      (th_bind (deliver_thread d r sub inc kind val now) (\<lambda>_. put_state_thread d st))"
    if "ss_incident_id st \<in> fp_keys fp" for inc kind val st
    by (rule beside_bind [OF deliver put [OF that]])
  have idle: "beside fp n0 (\<lambda>_ _. True) (th_return ()) (th_return ())" by (rule beside_return) simp
  show ?thesis
    unfolding evaluate_subscription_thread_def st sqlite_store_sel Let_def
    by (intro beside_if refl beside_bind [OF beside_sub_state_get] beside_option idle next_state)
      (use firing ended in \<open>auto simp: fresh_sub_state_def intro!: idle next_state split: option.split\<close>)
qed

lemma beside_core:
  assumes st: "d_store d = sqlite_store lib"
    and "tr_opened t \<or> tr_closed t \<Longrightarrow> tr_incident_id t \<in> fp_keys fp"
  shows "beside fp n0 (\<lambda>_ _. True) (open_or_close_thread d r t val now) (open_or_close_thread d r t val now)"
  unfolding open_or_close_thread_def st sqlite_store_sel
  by (intro beside_if refl beside_wrap beside_incident_open beside_incident_resolve beside_return)
    (use assms(2) in auto)

lemma outcome_keys:
  assumes "ls_state ls0 = state_firing \<Longrightarrow> ls_incident_id ls0 \<in> K"
    and "triggered \<and> ls_state ls0 \<noteq> state_firing \<Longrightarrow> new_id \<in> K \<and> new_id \<noteq> ''''"
  shows "ls_rule_id (fst (apply_outcome ls0 triggered val now new_id)) = ls_rule_id ls0"
    and "ls_state (fst (apply_outcome ls0 triggered val now new_id)) = state_firing \<Longrightarrow>
      ls_incident_id (fst (apply_outcome ls0 triggered val now new_id)) \<in> K"
    and "tr_opened (snd (apply_outcome ls0 triggered val now new_id)) \<or>
      tr_closed (snd (apply_outcome ls0 triggered val now new_id)) \<Longrightarrow>
      tr_incident_id (snd (apply_outcome ls0 triggered val now new_id)) \<in> K"
  using assms by (auto simp: apply_outcome_def Let_def tr_opened_def tr_closed_def split: if_splits)

lemma beside_tick:
  assumes st: "d_store d = sqlite_store lib" and "good_ids d" and keys: "d_id d ` {n0..} \<subseteq> fp_keys fp"
    and r: "r = fp_rule fp"
  shows "beside fp n0 (\<lambda>_ _. True) (tick_thread d r triggered val now) (tick_thread d r triggered val now)"
proof -
  have new_id: "beside fp n0 (\<lambda>i i'. i = i' \<and> (b \<longrightarrow> i \<in> fp_keys fp \<and> i \<noteq> ''''))
      (if b then th_id d else th_return '''') (if b then th_id d else th_return '''')" for b
    using assms(2) keys by (auto simp: beside_def th_id_def th_return_def good_ids_def)
  have rest: "beside fp n0 (\<lambda>_ _. True)
      (th_bind (th_wrap m1 (th_store (lite_live_upsert ls))) (\<lambda>_.
       th_bind (open_or_close_thread d r t val now) (\<lambda>_.
       th_bind (th_wrap m2 (th_store (lite_subscription_list_for_rule (r_id r) (r_labels r)))) (\<lambda>subs.
       th_for (\<lambda>sub. th_logged (evaluate_subscription_thread d r ls sub t now)) subs))))
      (th_bind (th_wrap m1 (th_store (lite_live_upsert ls))) (\<lambda>_.
       th_bind (open_or_close_thread d r t val now) (\<lambda>_.
       th_bind (th_wrap m2 (th_store (lite_subscription_list_for_rule (r_id r) (r_labels r)))) (\<lambda>subs.
       th_for (\<lambda>sub. th_logged (evaluate_subscription_thread d r ls sub t now)) subs))))"
    if "ls_rule_id ls = r_id r" "ls_state ls = state_firing \<Longrightarrow> ls_incident_id ls \<in> fp_keys fp"
      "tr_opened t \<or> tr_closed t \<Longrightarrow> tr_incident_id t \<in> fp_keys fp" for ls t m1 m2
    by (intro beside_bind [OF beside_wrap [OF beside_live_upsert]] beside_bind [OF beside_core [OF st]]
        beside_bind [OF beside_wrap [OF beside_list [OF r]]])
      (use that r in \<open>auto intro!: beside_for beside_logged beside_evaluate [OF st keys refl]\<close>)
  have fresh: "ls_rule_id (fresh_live_state i) = i" "ls_state (fresh_live_state i) \<noteq> state_firing" for i
    by (simp_all add: fresh_live_state_def)
  show ?thesis
    unfolding tick_thread_def Let_def st sqlite_store_sel
    apply (rule beside_bind [OF beside_wrap [OF beside_live_get [of fp, folded r]]])
    apply (elim conjE, hypsubst, rule beside_bind [OF new_id], elim conjE, hypsubst, rule rest)
    apply (auto simp: fresh outcome_keys(1) intro!: outcome_keys(2,3) split: option.splits)
    done
qed

section \<open>Two rules at a time\<close>

text \<open>
  The generator of a goroutine: the identifiers drawn so far are those of the system, and from
  then on each goroutine draws others.
\<close>

definition split_ids :: "nat \<Rightarrow> (nat \<Rightarrow> string) \<Rightarrow> (nat \<Rightarrow> string) \<Rightarrow> (nat \<Rightarrow> string) \<Rightarrow> bool" where
  "split_ids n g g1 g2 \<longleftrightarrow> inj g1 \<and> inj g2 \<and> (\<forall>m. g1 m \<noteq> [] \<and> g2 m \<noteq> []) \<and>
     (\<forall>m < n. g1 m = g m \<and> g2 m = g m) \<and> g1 ` {n..} \<inter> g2 ` {n..} = {}"

text \<open>The incidents a tick of the rule may change, and the identifiers it may use.\<close>

definition tick_keys :: "rule \<Rightarrow> (nat \<Rightarrow> string) \<Rightarrow> db world \<Rightarrow> string set" where
  "tick_keys r g w = open_incidents (lite_view (w_store w)) (r_id r) \<union> g ` {w_ids w..}"

definition tick_footprint :: "rule \<Rightarrow> (nat \<Rightarrow> string) \<Rightarrow> db world \<Rightarrow> footprint" where
  "tick_footprint r g w = \<lparr>fp_rule = r, fp_keys = tick_keys r g w,
     fp_subs = reached_subs r (t_subscriptions (w_store w))\<rparr>"

text \<open>What a tick reads and writes is in one world as in another.\<close>

definition same_for :: "rule \<Rightarrow> string set \<Rightarrow> store_view \<Rightarrow> store_view \<Rightarrow> bool" where
  "same_for r K v v' \<longleftrightarrow> v_live v (r_id r) = v_live v' (r_id r) \<and>
     (\<forall>i \<in> K. v_incident v i = v_incident v' i \<and> v_sub_state v i = v_sub_state v' i)"

lemma reached_subs_view:
  "r_id r \<noteq> '''' \<Longrightarrow> reached_subs r (t_subscriptions db) = subs_for_rule (r_id r) (r_labels r) (v_subs (lite_view db))"
  by (simp add: reached_subs_def subs_for_rule_def filter_direct filter_selected lite_view_def del: filter_map)

lemma sees_same_for:
  "sees fp w w' \<Longrightarrow> same_for (fp_rule fp) (fp_keys fp) (lite_view (w_store w)) (lite_view (w_store w'))"
  by (simp add: sees_def sees_db_def same_for_def lite_view_def fun_eq_iff)

lemma agreed_split:
  assumes "agreed d w" and "split_ids (w_ids w) (d_id d) g1 g2"
  shows "agreed (d\<lparr>d_id := g1\<rparr>) w" and "agreed (d\<lparr>d_id := g2\<rparr>) w"
proof -
  have "g1 ` {..<w_ids w} = d_id d ` {..<w_ids w}" "g2 ` {..<w_ids w} = d_id d ` {..<w_ids w}"
    using assms(2) by (auto simp: split_ids_def)
  then show "agreed (d\<lparr>d_id := g1\<rparr>) w" "agreed (d\<lparr>d_id := g2\<rparr>) w"
    using assms(1) by (simp_all add: agreed_def healthy_def ids_ok_def)
qed

lemma open_incident_drawn:
  assumes "agreed d w" and "inj (d_id d)" and "i \<in> open_incidents (lite_view (w_store w)) rid"
  shows "i \<notin> d_id d ` {w_ids w..}"
proof -
  have "i \<in> d_id d ` {..<w_ids w}"
    using assms(1,3) by (auto simp: agreed_def healthy_def ids_ok_def open_incidents_def)
  then obtain m where "m < w_ids w" "i = d_id d m" by auto
  then show ?thesis using assms(2) by (simp add: inj_image_mem_iff)
qed

lemma tick_keys_split:
  assumes "agreed d w" and ids: "split_ids (w_ids w) (d_id d) g1 g2" and "r_id r1 \<noteq> r_id r2"
  shows "tick_keys r1 g1 w \<inter> tick_keys r2 g2 w = {}"
proof -
  have "i \<notin> g1 ` {w_ids w..}" "i \<notin> g2 ` {w_ids w..}" if "i \<in> open_incidents (lite_view (w_store w)) rid" for i rid
    using open_incident_drawn [OF agreed_split(1) [OF assms(1,2)] _ that]
      open_incident_drawn [OF agreed_split(2) [OF assms(1,2)] _ that] ids
    by (simp_all add: split_ids_def)
  moreover have "g1 ` {w_ids w..} \<inter> g2 ` {w_ids w..} = {}" using ids by (simp add: split_ids_def)
  moreover have "open_incidents (lite_view (w_store w)) (r_id r1) \<inter> open_incidents (lite_view (w_store w)) (r_id r2) = {}"
    using open_disjoint [OF _ assms(3)] by blast
  ultimately show ?thesis
    by (simp add: tick_keys_def Int_Un_distrib Int_Un_distrib2 disjoint_iff) blast
qed

lemma sees_start:
  assumes "agreed d w"
  shows "sees (tick_footprint r g w) w w"
proof -
  let ?v = "lite_view (w_store w)"
  have ok: "lite_ok (w_store w)" and inv: "sys_inv ?v"
    using assms by (auto simp: agreed_def healthy_def)
  have "from_null (lw_incident_id row) \<in> tick_keys r g w"
    if row: "tbl_find lw_rule_id (r_id r) (t_live (w_store w)) = Some row" "lw_state row = state_firing" for row
  proof -
    have "lw_last_value row \<noteq> None" "lw_last_error row \<noteq> None"
      using ok row(1) by (auto simp: lite_ok_def dest: tbl_find_SomeD)
    then obtain ls where ls: "scan_live row = Inr ls" "ls_state ls = lw_state row"
        "ls_incident_id ls = from_null (lw_incident_id row)"
      by (auto simp: scan_live_def scan_text_def)
    then have "live_of ?v (r_id r) = ls" using row by (simp add: live_of_def lite_view_def scan_opt_def)
    with inv ls row(2) have "open_incidents ?v (r_id r) = {from_null (lw_incident_id row)}"
      by (simp add: sys_inv_def)
    then show ?thesis by (simp add: tick_keys_def)
  qed
  then show ?thesis
    using ok by (simp add: sees_def sees_db_def tick_footprint_def lite_ok_def)
qed

lemma tick_separate:
  assumes "agreed d w" and "split_ids (w_ids w) (d_id d) g1 g2" and "db_wf (w_store w)"
    and "r_id r1 \<noteq> ''''" and "r_id r2 \<noteq> ''''" and "r_id r1 \<noteq> r_id r2"
    and once: "\<And>sub. su_one_shot sub \<Longrightarrow>
      sub \<in> set (subs_for_rule (r_id r1) (r_labels r1) (v_subs (lite_view (w_store w)))) \<Longrightarrow>
      sub \<in> set (subs_for_rule (r_id r2) (r_labels r2) (v_subs (lite_view (w_store w)))) \<Longrightarrow> False"
  shows "separate (tick_footprint r1 g1 w) (tick_footprint r2 g2 w)"
    and "separate (tick_footprint r2 g2 w) (tick_footprint r1 g1 w)"
proof -
  let ?subs = "v_subs (lite_view (w_store w))"
  have u: "inj_on su_id (set ?subs)"
    using view_subs_distinct [OF assms(3)] by (simp add: distinct_map)
  have same: "a = b" if "su_id a = su_id b" "a \<in> set (subs_for_rule i l ?subs)" "b \<in> set (subs_for_rule j m ?subs)"
    for a b i j l m
    using that by (intro inj_onD [OF u]) (auto simp: subs_for_rule_def)
  show "separate (tick_footprint r1 g1 w) (tick_footprint r2 g2 w)"
    "separate (tick_footprint r2 g2 w) (tick_footprint r1 g1 w)"
    using tick_keys_split [OF assms(1,2,6)] assms(4-6)
    by (auto simp: separate_def tick_footprint_def listed_def listed_once_def reached_subs_view dest: same once)
qed

lemma planned_own:
  "m \<in> set (concat (map snd (tick_plan d r triggered val now w v))) \<Longrightarrow> cn_rule_id (snd m) = r_id r"
  by (auto simp: tick_plan_def plan_def messages_def payload_def split: if_splits decision.splits option.splits prod.splits)

text \<open>The goroutine alone, in a world of its own.\<close>

lemma tick_alone:
  assumes "d_store d = sqlite_store lib" and "good_ids d" and "r_id r \<noteq> ''''" and "agreed d w" and "db_wf (w_store w)"
  shows "\<exists>k. fst (run_alone (tick_thread d r triggered val now (w_ids w)) w) = (Inr (), k)"
    and "own_messages (r_id r) (snd (run_alone (tick_thread d r triggered val now (w_ids w)) w)) =
      own_messages (r_id r) w @ concat (map snd (tick_plan d r triggered val now w (lite_view (w_store w))))"
    and "w_store (snd (run_alone (tick_thread d r triggered val now (w_ids w)) w)) = w_store (snd (tick d r triggered val now w))"
proof -
  obtain res w' where run: "tick d r triggered val now w = (res, w')" by (cases "tick d r triggered val now w")
  have same: "w\<lparr>w_ids := w_ids w\<rparr> = w" by simp
  have alone: "run_alone (tick_thread d r triggered val now (w_ids w)) w = ((res, w_ids w'), w'\<lparr>w_ids := w_ids w\<rparr>)"
    using denotes_tick [of d r triggered val now] by (simp add: denotes_def same run)
  note exact = tick_exact [OF assms run]
  show "\<exists>k. fst (run_alone (tick_thread d r triggered val now (w_ids w)) w) = (Inr (), k)"
    "w_store (snd (run_alone (tick_thread d r triggered val now (w_ids w)) w)) = w_store (snd (tick d r triggered val now w))"
    using exact by (simp_all add: alone run)
  have "filter (\<lambda>m. cn_rule_id (snd m) = r_id r) (concat (map snd (tick_plan d r triggered val now w (lite_view (w_store w))))) =
      concat (map snd (tick_plan d r triggered val now w (lite_view (w_store w))))"
    by (rule filter_True) (use planned_own in blast)
  then show "own_messages (r_id r) (snd (run_alone (tick_thread d r triggered val now (w_ids w)) w)) =
      own_messages (r_id r) w @ concat (map snd (tick_plan d r triggered val now w (lite_view (w_store w))))"
    using exact by (simp add: alone own_messages_def)
qed

text \<open>
  C6: The push evaluator and the scheduled evaluator may tick two rules at the same time. With a
  working database, in any reachable state and on any schedule of their calls and sends that
  gives both enough turns, both ticks succeed; each sends what the decision table says, as if
  it ran alone, and leaves the live state, incident and delivery states it would leave alone;
  nothing else is sent. The identifiers they draw must differ, and no one-shot subscription may
  be listed for both rules.
\<close>

theorem concurrent_ticks:
  assumes "reachable lib d dbs [] s" and "d_store d = sqlite_store lib" and "good_ids d"
    and "split_ids (w_ids (sy_world s)) (d_id d) g1 g2"
    and "r_id r1 \<noteq> ''''" and "r_id r2 \<noteq> ''''" and "r_id r1 \<noteq> r_id r2"
    and "\<forall>sub \<in> set (subs_for_rule (r_id r1) (r_labels r1) (v_subs (lite_view (sys_db s)))) \<inter>
      set (subs_for_rule (r_id r2) (r_labels r2) (v_subs (lite_view (sys_db s)))). \<not> su_one_shot sub"
    and d1: "d1 = d\<lparr>d_id := g1\<rparr>" and d2: "d2 = d\<lparr>d_id := g2\<rparr>"
    and w: "w = sy_world s" and p: "p = tick_thread d1 r1 t1 val1 now1 (w_ids w)" and q: "q = tick_thread d2 r2 t2 val2 now2 (w_ids w)"
    and "alone_steps p w \<le> count_list schedule True" and "alone_steps q w \<le> count_list schedule False"
  shows "\<exists>k1 k2 w'. run_both schedule p q w = (Ret (Inr (), k1), Ret (Inr (), k2), w') \<and>
    own_messages (r_id r1) w' = own_messages (r_id r1) w @
      concat (map snd (tick_plan d1 r1 t1 val1 now1 w (lite_view (w_store w)))) \<and>
    own_messages (r_id r2) w' = own_messages (r_id r2) w @
      concat (map snd (tick_plan d2 r2 t2 val2 now2 w (lite_view (w_store w)))) \<and>
    (\<forall>rid. rid \<noteq> r_id r1 \<longrightarrow> rid \<noteq> r_id r2 \<longrightarrow> own_messages rid w' = own_messages rid w) \<and>
    same_for r1 (tick_keys r1 g1 w) (lite_view (w_store w')) (lite_view (w_store (snd (tick d1 r1 t1 val1 now1 w)))) \<and>
    same_for r2 (tick_keys r2 g2 w) (lite_view (w_store w')) (lite_view (w_store (snd (tick d2 r2 t2 val2 now2 w))))"
proof -
  have ag: "agreed d w" and wf: "db_wf (w_store w)"
    using reachable_agreed [OF assms(1-3)] reachable_ordered [OF assms(1-3)] by (auto simp: w sound_def sys_db_def)
  note ids = assms(4) [folded w]
  have good: "good_ids d1" "good_ids d2" using ids by (simp_all add: d1 d2 split_ids_def good_ids_def)
  have st: "d_store d1 = sqlite_store lib" "d_store d2 = sqlite_store lib" using assms(2) by (simp_all add: d1 d2)
  note ag12 = agreed_split [OF ag ids, folded d1 d2]
  let ?fp = "tick_footprint r1 g1 w" and ?fq = "tick_footprint r2 g2 w"
  have sep: "separate ?fp ?fq" "separate ?fq ?fp"
    using tick_separate [OF ag ids wf assms(5-7)] assms(8) by (auto simp: w sys_db_def)
  let ?ends = "\<lambda>(r :: unit result, i :: nat) (r', i'). i = i' \<and> w_ids w \<le> i \<and> rel_sum (=) (\<lambda>_ _. True) r r'"
  have run1: "tracks (sees ?fp) (touches ?fp) ?ends p p"
    using beside_tick [OF st(1) good(1), of "w_ids w" ?fp r1] by (simp add: beside_def p tick_footprint_def tick_keys_def d1)
  have run2: "tracks (sees ?fq) (touches ?fq) ?ends q q"
    using beside_tick [OF st(2) good(2), of "w_ids w" ?fq r2] by (simp add: beside_def q tick_footprint_def tick_keys_def d2)
  define quiet where "quiet x \<longleftrightarrow> (\<forall>rid. rid \<noteq> r_id r1 \<longrightarrow> rid \<noteq> r_id r2 \<longrightarrow> own_messages rid x = own_messages rid w)" for x :: "db world"
  have keep: "quiet y" if "touches ?fp x y \<or> touches ?fq x y" "quiet x" for x y
    using that by (auto simp: quiet_def touches_def tick_footprint_def)
  have "quiet w" by (simp add: quiet_def)
  then have "\<exists>a b w'. run_both schedule p q w = (Ret a, Ret b, w') \<and>
      ?ends a (fst (run_alone p w)) \<and> sees ?fp w' (snd (run_alone p w)) \<and>
      ?ends b (fst (run_alone q w)) \<and> sees ?fq w' (snd (run_alone q w)) \<and> quiet w'"
    by (intro run_both_tracks [OF run1 sees_start [OF ag] run2 sees_start [OF ag]] assms(14,15))
      (blast intro: touches_sees [OF sep(1)] touches_sees [OF sep(2)] keep)+
  then obtain a b w' where both: "run_both schedule p q w = (Ret a, Ret b, w')"
    and ends: "?ends a (fst (run_alone p w))" "?ends b (fst (run_alone q w))"
    and see: "sees ?fp w' (snd (run_alone p w))" "sees ?fq w' (snd (run_alone q w))" and "quiet w'"
    by (elim exE conjE) (rule that)
  note alone1 = tick_alone [OF st(1) good(1) assms(5) ag12(1) wf, of t1 val1 now1, folded p]
    and alone2 = tick_alone [OF st(2) good(2) assms(6) ag12(2) wf, of t2 val2 now2, folded q]
  obtain k1 k2 where "a = (Inr (), k1)" "b = (Inr (), k2)"
    using alone1(1) alone2(1) ends by (cases a; cases b; cases "fst a"; cases "fst b") auto
  moreover note sees_same_for [OF see(1)] sees_same_for [OF see(2)]
  ultimately show ?thesis
    using both see \<open>quiet w'\<close> alone1(2,3) alone2(2,3)
    by (simp add: quiet_def sees_def tick_footprint_def)
qed

section \<open>A subscription for two rules\<close>

text \<open>Two rules with the label \<open>team=ops\<close>, and one subscription to that label.\<close>

definition shared_subscription :: "bool \<Rightarrow> subscription" where
  "shared_subscription once = sample_subscription\<lparr>su_rule_id := '''', su_label_selector := [(''team'', ''ops'')],
     su_one_shot := once\<rparr>"

definition labelled_rule :: "string \<Rightarrow> rule" where
  "labelled_rule i = sample_rule\<lparr>r_id := i, r_labels := [(''team'', ''ops'')]\<rparr>"

definition shared_state :: "bool \<Rightarrow> sys" where
  "shared_state once =
     (let s0 = sys_init [] 100;
          s1 = with_db (snd (lite_subscriber_create plain_lib 0 sample_subscriber (sys_db s0))) s0
      in with_db (snd (lite_subscription_create plain_lib 0 (shared_subscription once) (sys_db s1))) s1)"

definition goroutine_dispatcher :: "char \<Rightarrow> db dispatcher" where
  "goroutine_dispatcher c = sample_dispatcher\<lparr>d_id := (\<lambda>n. replicate (Suc n) c)\<rparr>"

definition goroutine :: "char \<Rightarrow> string \<Rightarrow> (db world, unit result \<times> nat) prog" where
  "goroutine c i = tick_thread (goroutine_dispatcher c) (labelled_rule i) True ''5'' 7 0"

definition both_fire :: "bool \<Rightarrow> bool list \<Rightarrow> db world" where
  "both_fire once schedule = snd (snd (run_both schedule (goroutine CHR ''i'' ''r'') (goroutine CHR ''j'' ''q'')
     (sy_world (shared_state once))))"

definition shared_message :: "char \<Rightarrow> string \<Rightarrow> string \<times> channel_notification" where
  "shared_message c i = (''hook'', (snd sample_message)\<lparr>cn_incident_id := [c], cn_rule_id := i\<rparr>)"

lemma shared_reachable: "reachable plain_lib sample_dispatcher (\<lambda>_. None) [] (shared_state once)"
  unfolding shared_state_def Let_def
  by (rule reachable_admin [OF reachable_admin [OF reachable.start admin_call.subscriber_create]
        admin_call.subscription_create])

lemma decision_code [code]:
  "notified_before st = (case st of None \<Rightarrow> False | Some s \<Rightarrow> ss_notify_count s \<noteq> 0)"
  "resolution_done st = (case st of None \<Rightarrow> False | Some s \<Rightarrow> ss_resolution_sent s)"
  by (simp_all add: notified_before_def resolution_done_def split: option.split)

lemma shared_values:
  "w_ids (sy_world (shared_state False)) = 0"
  "v_subs (lite_view (sys_db (shared_state False))) = [shared_subscription False]"
  "own_messages ''r'' (sy_world (shared_state False)) = []" "own_messages ''q'' (sy_world (shared_state False)) = []"
  "alone_steps (goroutine CHR ''i'' ''r'') (sy_world (shared_state False)) = 9"
  "alone_steps (goroutine CHR ''j'' ''q'') (sy_world (shared_state False)) = 9"
  "concat (map snd (tick_plan (goroutine_dispatcher CHR ''i'') (labelled_rule ''r'') True ''5'' 7
     (sy_world (shared_state False)) (lite_view (w_store (sy_world (shared_state False)))))) = [shared_message CHR ''i'' ''r'']"
  "concat (map snd (tick_plan (goroutine_dispatcher CHR ''j'') (labelled_rule ''q'') True ''5'' 7
     (sy_world (shared_state False)) (lite_view (w_store (sy_world (shared_state False)))))) = [shared_message CHR ''j'' ''q'']"
  by code_simp+

lemma concurrent_ticks_witness:
  "own_messages ''r'' (both_fire False (concat (replicate 9 [True, False]))) = [shared_message CHR ''i'' ''r''] \<and>
   own_messages ''q'' (both_fire False (concat (replicate 9 [True, False]))) = [shared_message CHR ''j'' ''q'']"
proof -
  let ?w = "sy_world (shared_state False)" and ?turns = "concat (replicate 9 [True, False])"
  have own: "r_id (labelled_rule i) = i" for i by (simp add: labelled_rule_def)
  have ids: "split_ids (w_ids ?w) (d_id sample_dispatcher) (\<lambda>n. replicate (Suc n) CHR ''i'') (\<lambda>n. replicate (Suc n) CHR ''j'')"
    by (auto simp: shared_values(1) split_ids_def inj_def dest: arg_cong [where f = length])
  have once: "\<forall>sub \<in> set (subs_for_rule (r_id (labelled_rule ''r'')) (r_labels (labelled_rule ''r''))
        (v_subs (lite_view (sys_db (shared_state False))))) \<inter>
      set (subs_for_rule (r_id (labelled_rule ''q'')) (r_labels (labelled_rule ''q''))
        (v_subs (lite_view (sys_db (shared_state False))))). \<not> su_one_shot sub"
    by (auto simp: subs_for_rule_def shared_values(2) shared_subscription_def split: if_splits)
  have progs: "goroutine c i = tick_thread (goroutine_dispatcher c) (labelled_rule i) True ''5'' 7 (w_ids ?w)" for c i
    by (simp add: goroutine_def shared_values(1))
  have turns: "alone_steps (goroutine CHR ''i'' ''r'') ?w \<le> count_list ?turns True"
    "alone_steps (goroutine CHR ''j'' ''q'') ?w \<le> count_list ?turns False"
    by code_simp+
  have names: "r_id (labelled_rule ''r'') \<noteq> ''''" "r_id (labelled_rule ''q'') \<noteq> ''''"
    "r_id (labelled_rule ''r'') \<noteq> r_id (labelled_rule ''q'')"
    by (simp_all add: own)
  let ?plan = "\<lambda>c i. concat (map snd (tick_plan (goroutine_dispatcher c) (labelled_rule i) True ''5'' 7 ?w (lite_view (w_store ?w))))"
  obtain k1 k2 w' where "run_both ?turns (goroutine CHR ''i'' ''r'') (goroutine CHR ''j'' ''q'') ?w = (Ret (Inr (), k1), Ret (Inr (), k2), w')"
    and "own_messages (r_id (labelled_rule ''r'')) w' = own_messages (r_id (labelled_rule ''r'')) ?w @ ?plan CHR ''i'' ''r''"
    and "own_messages (r_id (labelled_rule ''q'')) w' = own_messages (r_id (labelled_rule ''q'')) ?w @ ?plan CHR ''j'' ''q''"
    using concurrent_ticks [OF shared_reachable sample_good(2,1) ids names once goroutine_dispatcher_def
        goroutine_dispatcher_def refl progs progs turns] by (elim exE conjE) (rule that)
  then show ?thesis by (simp only: both_fire_def shared_values own snd_conv append_Nil)
qed


end
