(* ===== verification/Spec2Isabelle.thy ===== *)
theory Spec2Isabelle
  imports Dispatch_Props Eval_Props Api_Wire Engine_Props Channel_Props Stream_Runs Service Suite_Props
    Embed_Example Web_Ui Adapters Concurrent
begin

text \<open>
  SIGNALWATCH: a service that evaluates rules on records and on tables, opens and resolves
  incidents, and notifies subscribers. This development models its Go sources under src/ and
  proves what each part promises and what the parts do together.

  PARTS AND THEIR THEORIES

  \<^item> Foundations. SW_Prelude: errors, fallible results (\<open>'a result\<close>), operations on a state
    (\<open>('s, 'a) op\<close>) with a weakest-precondition calculus, lists as tables keyed by a column.
    Go_Base: what the sources use of Go: times and durations as nanoseconds, float64 values (a
    rational, an infinity or NaN, rounded where the code computes), interface values, JSON.
  \<^item> internal/rule. Rule_Model: rules, the five conditions with Compile and Eval, the expression
    environment, JSON form. Rule_State: \<open>apply_outcome\<close>, the ok/firing machine of state.go.
  \<^item> internal/subscriber (Subscriber) and internal/auth (Auth_Token).
  \<^item> internal/store. Store_Iface: the repositories as records of operations over any state, with
    the contracts the dispatcher relies on as locales. Sql_Base: tables, NULL, and database/sql
    with injected failures. Sqlite_Store: every method of the SQLite driver, and Migrate.
    Sqlite_Contract: the driver meets the contracts. Postgres_Store and Mysql_Store: the two
    other drivers on the same tables, with the server's collation and the texts it takes as
    parameters; Mysql_Migrate: the scripts of MySQL.
  \<^item> internal/dispatcher. Dispatcher: Tick, the evaluation of one subscription, delivery.
    Dispatcher_Spec, Dispatcher_Tick and Dispatcher_Reliable: the decision table of
    docs/ARCHITECTURE.md and docs/SUBSCRIPTIONS.md as a specification, and the code against it.
    Goroutines: the tick again as a program of single calls, between which another goroutine acts;
    alone it is \<open>tick\<close>.
  \<^item> internal/eval, internal/input/sqlquery, internal/input/event, engine. Window: the sample
    buffers; Evaluator: one step of the push and of the scheduled evaluator; Engine: start,
    close, submission and the rule API over the cache of compiled rules.
  \<^item> internal/retention (Retention): the pruner and its archive sinks.
  \<^item> internal/api. Api_Codec: payloads and query parameters; Api_Auth: the middleware and the
    token endpoints; Api: every handler, the route tables, the mount and the mux.
  \<^item> internal/channel (Channels): the seven providers, from a notification to the HTTP or SMTP
    call and back to the outcome of the send. internal/input/stream and internal/input/scrape
    (Streams): configuration checks and the handling of each message of the four brokers.
    Stream_Runs: Start of each of them, one loop per topic, queue or subscription; what the loops
    meet is a list of events, so a run is as long as its list and needs no fuel.
  \<^item> cmd. Commands: \<open>install\<close>, what run() makes of its configuration; \<open>ctl_dispatch\<close>, the requests
    of signalwatchctl. Service: \<open>run_service\<close>, run() of the server from the configuration to the
    exit as the list of what it acquires and releases, and main() of both commands.
  \<^item> internal/observability (Telemetry): Setup from the environment, and the traced channels.
  \<^item> internal/ui (Web_Ui): the handler of the bundled application. internal/datasource/duckdb, the
    Open of each store and the broker adapters (Adapters).
  \<^item> examples/embed (Embed_Example): the example program, run on the models of the parts it uses.
  \<^item> internal/store/storetest (Store_Suite): the conformance suite of the drivers, each test a
    program over the store interface, with \<open>failing_tests\<close> for a run of all of them.
  \<^item> The whole. System: \<open>sys_step\<close>, the steps of the running service (a record, a timer tick, a
    prune pass, calls of the rule API and of the repositories, a restart), and \<open>reachable\<close>.

  HOW THE PARTS INTERACT

  A record enters through \<open>event_submit\<close> and is taken by \<open>push_step\<close>, which evaluates the cached
  rules of its input and gives each outcome to \<open>tick\<close>; \<open>scheduled_step\<close> does the same for the
  rules whose schedule has passed. \<open>tick\<close> keeps the live state, opens and resolves the incident
  and lets each matching subscription decide. The API changes rules through the engine, so that
  cache and tables move together, and everything else through the repositories.

  WHAT THE LEMMAS SHOW

  \<^item> Db_Inv, Incident_Inv, System_Inv: the tables keep their integrity whatever call fails; the
    live states and the incidents agree while none fails; a resolution is final in any case.
  \<^item> Dispatch_Props, Eval_Props, Rule_Props: what a tick sends, when rules run, what conditions
    and windows compute. Concurrent: what becomes of the ticks of two rules that the push and the
    scheduled evaluator run at the same time, on every schedule.
  \<^item> Store_Props, Engine_Props: migrations, pruning, reading back what was stored, the event
    queue, the cache after a start.
  \<^item> Driver_Refine, Driver_Agree: the calls of the PostgreSQL and MySQL drivers refine those of
    SQLite under a map of the tables, where the server takes the texts. Driver_Contract: hence
    both meet the dispatcher's contract, refusals included. Driver_Props: what follows for the
    evaluators, and what a refused value costs. Suite_Props: all three drivers pass the suite.
  \<^item> Api_Rel, Api_Quiet, Api_Access, Api_Writes: relations between the server before and after a
    request, proved once for all handlers; Api_Tokens, Api_Props, Api_Rule_Props, Api_Wire: what
    the API guarantees. Channel_Props, Stream_Props, Command_Props: success of sends and the
    shape of their texts; which messages are lost or repeated; what an installation answers.
    Stream_Runs: when Start of an input returns. Service: on which ways out what is closed.
    Embed_Example: which orders are announced, through engine, evaluator, dispatcher and channel.
    Web_Ui: which path gets which reply. Adapters: no Open leaves a handle open when it fails.
    This theory: the composition of the API, the channels and the running system.

  CONVENTIONS AND BOUNDS

  A failing call of the database is an entry of \<open>db_faults\<close> and has no effect on the tables; a
  send of a channel is an arbitrary outcome for the number of sends so far; so a property that
  does not assume otherwise covers every pattern of failures. The regexp package, expr-lang, fmt
  verbs, SHA-256, the random source, time formats and the order of Go's map iteration are
  parameters (\<open>golib\<close>, \<open>api_env\<close>), and so are the database servers' treatment of texts and the
  answers of MySQL to DDL (\<open>pg_env\<close>, \<open>my_env\<close>). The rows of a query without ORDER BY come in the
  order of insertion, which SQLite keeps and the two servers do not promise. The system relation
  runs on the SQLite driver; the evaluators also on the two others. No definition uses fuel: loops
  are recursions over lists.
  Reading of a clock is an argument wherever the code reads one.

  NOT MODELLED

  Negative zero; contexts that are cancelled while a call of the database runs; in the system
  relation a tick is one step, and so is an API request: only for ticks of two rules without
  failures is the interleaving of their calls modelled (Concurrent), a call of the store being
  one action, as the SQLite driver has one connection; the goroutine that records the use of a token is pending work of the
  server; headers, log lines and the spans other than those of a channel; folding of non-ASCII
  letters in JSON field names. Embedded documents are known by name only. The YAML and flag
  parsers, the database drivers, the OpenTelemetry SDK and the client libraries of brokers, HTTP
  and SMTP are parameters that answer each call. The _test.go files are left out.
\<close>

section \<open>Properties of the running system\<close>

text \<open>
  C1: With a working database, in every reachable state and for every rule, the live state and
  the incidents agree: a firing rule has exactly one open incident, the one its live state
  names, and a rule in state ok has none.
\<close>

theorem reachable_incidents_agree:
  assumes "reachable lib d dbs [] s" and "d_store d = sqlite_store lib" and "good_ids d"
  shows "live_wf (live_of (lite_view (sys_db s)) rid) \<and>
    open_incidents (lite_view (sys_db s)) rid =
      (if ls_state (live_of (lite_view (sys_db s)) rid) = state_firing
       then {ls_incident_id (live_of (lite_view (sys_db s)) rid)} else {})"
  using reachable_agreed [OF assms] by (simp add: agreed_def sys_inv_def live_keyed_def sys_db_def)

lemma reachable_incidents_agree_witness:
  "open_incidents (lite_view (sys_db sample_state)) ''r'' = {}"
  using reachable_incidents_agree [OF sample_reachable sample_good(2,1), of "''r''"]
  by (simp add: sample_view)

text \<open>
  C2: Whatever calls of the database and whatever sends fail, and across restarts, a resolution
  is final: after a message that announces an incident as resolved, no message about that
  incident says anything else.
\<close>

theorem reachable_resolve_final:
  assumes "reachable lib d dbs faults s" and "d_store d = sqlite_store lib" and "good_ids d"
  shows "resolve_final (sent_messages (sy_world s))"
  using reachable_ordered [OF assms] by (simp add: sound_def ordered_def)

text \<open>The example installation after its rule was created and a record made it fire.\<close>

definition ruled_state :: sys where
  "ruled_state = (let run = api_rule_create plain_lib (sqlite_store plain_lib) 0 sample_rule
       (sys_db sample_state, sy_cache sample_state)
     in (with_db (fst (snd run)) sample_state)\<lparr>sy_cache := snd (snd run)\<rparr>)"

definition sample_record :: eval_record where
  "sample_record = \<lparr>er_input_ref = ''in'', er_when = 7, er_record = Some [(''x'', GFloat64 (Fin 5))]\<rparr>"

definition fired_state :: sys where
  "fired_state = (let bw = push_step plain_lib sample_dispatcher (\<lambda>_. 7) 7 (sy_cache ruled_state) sample_record
       (sy_buffers ruled_state, sy_world ruled_state)
     in ruled_state\<lparr>sy_buffers := fst bw, sy_world := snd bw\<rparr>)"

lemma ruled_reachable: "reachable plain_lib sample_dispatcher (\<lambda>_. None) [] ruled_state"
  unfolding ruled_state_def Let_def
  by (rule reachable.step [OF sample_reachable], rule sys_step.rule_create [OF sample_good(3)])
    (simp add: prod_eq_iff)

lemma fired_reachable: "reachable plain_lib sample_dispatcher (\<lambda>_. None) [] fired_state"
  unfolding fired_state_def Let_def
  by (rule reachable.step [OF ruled_reachable], rule sys_step.push_record [where clk = "\<lambda>_. 7"]) simp_all

lemma reachable_resolve_final_witness: "resolve_final (sent_messages (sy_world fired_state))"
  by (rule reachable_resolve_final [OF fired_reachable sample_good(2,1)])

text \<open>
  C8: Whatever fails, the tables keep their integrity in every reachable state: primary keys and
  token hashes are unique, every subscription has its subscriber, and no resolution time is
  negative.
\<close>

theorem reachable_integrity:
  assumes "reachable lib d dbs faults s" and "d_store d = sqlite_store lib" and "good_ids d"
  shows "db_wf (sys_db s)"
  using reachable_ordered [OF assms] by (simp add: sound_def)

lemma reachable_integrity_witness: "db_wf (sys_db sample_state)"
  by (rule reachable_integrity [OF sample_reachable sample_good(2,1)])


text \<open>
  C13: Every request the HTTP API answers, whatever it asks, whoever sends it and whatever
  database call fails under it, takes the running system to a state it could also reach by its
  own steps, so that everything proved of reachable states goes on holding behind the API.
\<close>

theorem served_requests_stay_reachable:
  assumes "reachable lib d dbs faults s" and "lite_settings lib st" and "ae_lib env = lib" and "ae_uuid env \<noteq> ''''"
    and "sv_store sv = sys_db s" and "sv_cache sv = sy_cache s"
    and "serve (sqlite_store lib) st ui env r sv = (resp, sv')"
  shows "reachable lib d dbs faults (sys_at sv' s)"
proof -
  have start: "sys_at sv s = s" using assms(5,6) by (simp add: sys_at_def with_db_def sys_db_def)
  have "(sys_step lib d dbs)\<^sup>*\<^sup>* (sys_at sv s) (sys_at sv' s)"
    using between.serve_write_by [OF assms(2-4,7)] by (simp add: steps_between_def)
  then have "(sys_step lib d dbs)\<^sup>*\<^sup>* s (sys_at sv' s)" by (simp only: start)
  then show ?thesis by (induction rule: rtranclp_induct) (use assms(1) reachable.step in blast)+
qed

definition ruled_server :: "db server" where
  "ruled_server = \<lparr>sv_store = sys_db ruled_state, sv_cache = sy_cache ruled_state, sv_input = None, sv_touches = []\<rparr>"

lemma served_requests_stay_reachable_witness:
  "reachable plain_lib sample_dispatcher (\<lambda>_. None) []
     (sys_at (snd (serve (sqlite_store plain_lib) default_settings True sample_env
        (sample_request ''DELETE'' [''v1'', ''rules'', ''r''] '''' (Inl IoEOF)) ruled_server)) ruled_state)"
  by (rule served_requests_stay_reachable [OF ruled_reachable, where st = default_settings and env = sample_env
      and sv = ruled_server and ui = True
      and r = "sample_request ''DELETE'' [''v1'', ''rules'', ''r''] '''' (Inl IoEOF)"
      and resp = "fst (serve (sqlite_store plain_lib) default_settings True sample_env
        (sample_request ''DELETE'' [''v1'', ''rules'', ''r''] '''' (Inl IoEOF)) ruled_server)"])
    (simp_all add: lite_settings_def default_settings_def sample_env_def ruled_server_def)


section \<open>What PagerDuty sees\<close>




end
